(* ===== verification/Prelude.thy ===== *)
theory Prelude
  imports Complex_Main "HOL-Library.Word" "HOL-Library.Monad_Syntax" "HOL-Library.Multiset"
begin

text \<open>
  Shared vocabulary of the development.

  A C function that may run into undefined behaviour (a NULL or dangling pointer is followed,
  an array is read or written outside its bounds, a float that does not fit is converted to an
  integer, an unterminated string is scanned) is modelled by a function into \<open>option\<close>: \<open>None\<close> is
  undefined behaviour, \<open>Some r\<close> is a regular return.  Programs are written in the \<open>do\<close> notation
  of \<open>HOL-Library.Monad_Syntax\<close>.

  C's fixed-width integers are words; C's \<open>int\<close> and \<open>long\<close> are mathematical integers where the
  code only counts or compares, with the conversions to a width written out where the code
  converts.  The collection \<open>c_simps\<close> holds the evaluation rules that the components' proofs share.
\<close>

named_theorems c_simps "evaluation rules for the C layer: array access, conversions, loops"

type_synonym u8 = "8 word"
type_synonym u32 = "32 word"
type_synonym u64 = "64 word"

subsection \<open>Conversions between integer types\<close>

definition u32_of_int :: "int \<Rightarrow> u32" where
  "u32_of_int i = word_of_int i"

definition s32_of_u64 :: "u64 \<Rightarrow> int" where
  "s32_of_u64 w = sint (ucast w :: u32)"

definition s32_of_u32 :: "u32 \<Rightarrow> int" where
  "s32_of_u32 w = sint w"

definition u64_of_u32 :: "u32 \<Rightarrow> u64" where
  "u64_of_u32 w = ucast w"

definition u32_of_u64 :: "u64 \<Rightarrow> u32" where
  "u32_of_u64 w = ucast w"

lemma unat_u64_of_u32 [simp]: "unat (u64_of_u32 w) = unat w"
proof -
  have "unat w < 2 ^ 32" using unsigned_less [where 'a = nat, of w] by simp
  then have "unat w < 2 ^ 64" by simp
  then show ?thesis by (simp add: u64_of_u32_def unsigned_ucast_eq take_bit_nat_eq_self)
qed

lemma unat_u32_of_int [simp]: "0 \<le> i \<Longrightarrow> i < 2 ^ 32 \<Longrightarrow> unat (u32_of_int i) = nat i"
  by (simp add: u32_of_int_def unat_eq_nat_uint uint_word_of_int_eq take_bit_int_eq_self)

lemma uint_u32_of_int: "0 \<le> i \<Longrightarrow> i < 2 ^ 32 \<Longrightarrow> uint (u32_of_int i) = i"
  by (simp add: u32_of_int_def uint_word_of_int_eq take_bit_int_eq_self)

lemma uint_pred: "1 \<le> uint (w :: u32) \<Longrightarrow> uint (w - u32_of_int 1) = uint w - 1"
  using uint_sub_lem [of "1 :: u32" w] by (simp add: u32_of_int_def)

lemma uint_u64_of_u32 [simp]: "uint (u64_of_u32 w) = uint w"
  by (metis uint_nat unat_u64_of_u32)

lemma uint_u32_of_u64: "uint w < 2 ^ 32 \<Longrightarrow> uint (u32_of_u64 w) = uint w"
  by (simp add: u32_of_u64_def unsigned_ucast_eq take_bit_int_eq_self)

lemma s32_of_u64_small:
  assumes "unat w < 2 ^ 31"
  shows "s32_of_u64 w = int (unat w)"
proof -
  define x where "x = int (unat w)"
  have x: "0 \<le> x" "x < 2 ^ 31"
    unfolding x_def using assms by (simp, simp only: of_nat_less_numeral_power_cancel_iff)
  have w: "uint w = x" by (simp add: x_def)
  have "take_bit 32 x = x" using x by (intro take_bit_int_eq_self) auto
  then have "uint (ucast w :: u32) = x" by (simp add: unsigned_ucast_eq w)
  moreover have "signed_take_bit 31 x = x" using x by (intro signed_take_bit_int_eq_self) auto
  ultimately show ?thesis by (simp add: s32_of_u64_def sint_uint w)
qed

lemma s32_of_small: "0 \<le> n \<Longrightarrow> n < 2 ^ 31 \<Longrightarrow> s32_of_u32 (u32_of_int n) = n"
  by (simp add: s32_of_u32_def u32_of_int_def sint_sbintrunc' signed_take_bit_int_eq_self)

subsection \<open>Array access\<close>

text \<open>\<open>aget\<close> and \<open>aset\<close> read and write an array at an unsigned index; \<open>iget\<close> and \<open>iset\<close> take
  an \<open>int\<close> index, which may also be negative.\<close>

definition aget :: "'a list \<Rightarrow> nat \<Rightarrow> 'a option" where
  "aget xs i = (if i < length xs then Some (xs ! i) else None)"

definition aset :: "'a list \<Rightarrow> nat \<Rightarrow> 'a \<Rightarrow> 'a list option" where
  "aset xs i v = (if i < length xs then Some (xs[i := v]) else None)"

definition iget :: "'a list \<Rightarrow> int \<Rightarrow> 'a option" where
  "iget xs i = (if 0 \<le> i then aget xs (nat i) else None)"

definition iset :: "'a list \<Rightarrow> int \<Rightarrow> 'a \<Rightarrow> 'a list option" where
  "iset xs i v = (if 0 \<le> i then aset xs (nat i) v else None)"

lemma aget_Some [c_simps]: "i < length xs \<Longrightarrow> aget xs i = Some (xs ! i)"
  by (simp add: aget_def)

lemma aget_eq_Some: "aget xs i = Some x \<longleftrightarrow> i < length xs \<and> x = xs ! i"
  by (auto simp: aget_def)

lemma aget_None [c_simps]: "length xs \<le> i \<Longrightarrow> aget xs i = None"
  by (simp add: aget_def)

lemma aset_Some [c_simps]: "i < length xs \<Longrightarrow> aset xs i v = Some (xs[i := v])"
  by (simp add: aset_def)

lemma aset_eq_Some: "aset xs i v = Some ys \<longleftrightarrow> i < length xs \<and> ys = xs[i := v]"
  by (auto simp: aset_def)

lemma iget_Some [c_simps]: "0 \<le> i \<Longrightarrow> nat i < length xs \<Longrightarrow> iget xs i = Some (xs ! nat i)"
  by (simp add: iget_def aget_def)

lemma iget_eq_Some: "iget xs i = Some x \<longleftrightarrow> 0 \<le> i \<and> nat i < length xs \<and> x = xs ! nat i"
  by (auto simp: iget_def aget_def)

lemma iset_Some [c_simps]: "0 \<le> i \<Longrightarrow> nat i < length xs \<Longrightarrow> iset xs i v = Some (xs[nat i := v])"
  by (simp add: iset_def aset_def)

lemma iset_eq_Some: "iset xs i v = Some ys \<longleftrightarrow> 0 \<le> i \<and> nat i < length xs \<and> ys = xs[nat i := v]"
  by (auto simp: iset_def aset_def)

lemmas access_eq_Some = aget_eq_Some aset_eq_Some iget_eq_Some iset_eq_Some
lemmas bind_eq_Some = Option.bind_eq_Some_conv

subsection \<open>Counted loops\<close>

text \<open>A C \<open>for\<close> loop over a list of indices whose body updates a state and may be undefined.\<close>

fun for_each :: "('s \<Rightarrow> 'a \<Rightarrow> 's option) \<Rightarrow> 's \<Rightarrow> 'a list \<Rightarrow> 's option" where
  "for_each f s [] = Some s"
| "for_each f s (x # xs) = do { s' \<leftarrow> f s x; for_each f s' xs }"

lemma for_each_append: "for_each f s (xs @ ys) = do { s' \<leftarrow> for_each f s xs; for_each f s' ys }"
  by (induction xs arbitrary: s) auto

text \<open>An invariant of a loop that never gets stuck.\<close>

lemma for_each_inv:
  assumes "I s" and "\<And>s x. I s \<Longrightarrow> x \<in> set xs \<Longrightarrow> \<exists>s'. f s x = Some s' \<and> I s'"
  shows "\<exists>s'. for_each f s xs = Some s' \<and> I s'"
  using assms
proof (induction xs arbitrary: s)
  case Nil
  then show ?case by simp
next
  case (Cons x xs)
  then obtain s' where "f s x = Some s'" and "I s'" by (metis list.set_intros(1))
  with Cons show ?case by simp
qed

lemma for_each_preserves:
  assumes "for_each f s xs = Some s'" and "I s"
    and step: "\<And>s x s'. I s \<Longrightarrow> x \<in> set xs \<Longrightarrow> f s x = Some s' \<Longrightarrow> I s'"
  shows "I s'"
  using assms
proof (induction xs arbitrary: s)
  case Nil
  then show ?case by simp
next
  case (Cons x xs)
  from Cons.prems(1) obtain t where t: "f s x = Some t" "for_each f t xs = Some s'"
    by (auto simp: bind_eq_Some)
  from Cons.prems(2) t(1) have "I t" by (intro Cons.prems(3) [of s x t]) auto
  with t(2) show ?case
    by (rule Cons.IH) (use Cons.prems(3) in auto)
qed

text \<open>An invariant of a loop that holds while a counter stays below a bound; every round adds at most
  \<open>k\<close> to the counter.\<close>

lemma for_each_bounded:
  fixes b :: "'s \<Rightarrow> int"
  assumes "I s" and "b s + k * int (length xs) \<le> B" and "0 \<le> k"
    and step: "\<And>s x. I s \<Longrightarrow> x \<in> set xs \<Longrightarrow> b s + k \<le> B \<Longrightarrow> \<exists>s'. f s x = Some s' \<and> I s' \<and> b s' \<le> b s + k"
  shows "\<exists>s'. for_each f s xs = Some s' \<and> I s' \<and> b s' \<le> b s + k * int (length xs)"
  using assms
proof (induction xs arbitrary: s)
  case Nil
  then show ?case by simp
next
  case (Cons x xs)
  have k: "0 \<le> k * int (length xs)" using Cons.prems(3) by simp
  have "b s + k \<le> B" using Cons.prems(2) k by (simp add: algebra_simps)
  with Cons.prems(1,4) obtain t where t: "f s x = Some t" "I t" "b t \<le> b s + k" by (meson list.set_intros(1))
  have "b t + k * int (length xs) \<le> B" using t(3) Cons.prems(2) by (simp add: algebra_simps)
  from Cons.IH [OF t(2) this Cons.prems(3)] Cons.prems(4)
  obtain s' where "for_each f t xs = Some s'" "I s'" "b s' \<le> b t + k * int (length xs)" by (meson list.set_intros(2))
  with t show ?case by (auto simp: algebra_simps)
qed

subsection \<open>C strings in fixed-size buffers\<close>

text \<open>The string a buffer holds is what precedes its first NUL; scanning a buffer without NUL
  leaves the buffer.\<close>

definition NUL :: char where
  "NUL = CHR 0x00"

definition cstr :: "char list \<Rightarrow> string option" where
  "cstr buf = (if NUL \<in> set buf then Some (takeWhile (\<lambda>c. c \<noteq> NUL) buf) else None)"

text \<open>\<open>strncpy (dst, src, n)\<close>: at most \<open>n\<close> characters of the string, padded with NUL.\<close>

definition strncpy :: "string \<Rightarrow> nat \<Rightarrow> char list" where
  "strncpy src n = take n src @ replicate (n - length src) NUL"

lemma length_strncpy [simp]: "length (strncpy src n) = n"
  by (simp add: strncpy_def)

lemma cstr_strncpy:
  assumes "NUL \<notin> set src"
  shows "cstr (strncpy src n) = (if length src < n then Some src else None)"
proof (cases "length src < n")
  case True
  have "takeWhile (\<lambda>c. c \<noteq> NUL) (src @ replicate (n - length src) NUL) = src"
    using assms by (subst takeWhile_append2) (auto simp: takeWhile_replicate)
  with True show ?thesis by (simp add: cstr_def strncpy_def)
next
  case False
  have "NUL \<notin> set (take n src)" using assms by (meson in_set_takeD)
  with False show ?thesis by (simp add: cstr_def strncpy_def)
qed

end
