(* ===== verification/LinkedList.thy ===== *)
theory LinkedList
  imports Prelude
begin

text \<open>
  The linked list of \<open>common/list.c\<close>.

  A \<open>struct node_ptr *\<close> is modelled by the chain of elements that starts at the node it points
  to: \<open>[]\<close> is NULL, \<open>hd\<close> reads \<open>->elem\<close> and \<open>tl\<close> follows \<open>->next\<close>.  Every node belongs to one
  list, so writing \<open>->next\<close> is rebuilding the chain.  A \<open>struct list\<close> keeps the chain and,
  separately, the counter \<open>n\<close> the code maintains; the invariant \<open>list_ok\<close> relates the two.

  Comparison functions follow pointers, so they are partial.  The locale \<open>comparator\<close> is the
  contract that the sorted operations require of them, and \<open>key_matcher\<close> the one that searching
  and removing by key require.
\<close>

type_synonym 'a node_ptr = "'a list"
type_synonym 'a cmpfun = "'a \<Rightarrow> 'a \<Rightarrow> int option"
type_synonym ('a, 'k) keyfun = "'a \<Rightarrow> 'k \<Rightarrow> int option"
type_synonym 'a iterator_t = "'a node_ptr"

record 'a clist =
  list_n :: int
  list_root :: "'a node_ptr"

text \<open>The address of the \<open>elem\<close> field of a node, as opposed to the value stored in it.\<close>

datatype 'a slot = ElemSlot "'a node_ptr"

subsection \<open>Operations\<close>

definition list_init :: "'a clist" where
  "list_init = \<lparr>list_n = 0, list_root = []\<rparr>"

definition list_is_empty :: "'a clist \<Rightarrow> bool" where
  "list_is_empty l = (list_n l = 0)"

definition list_get_size :: "'a clist \<Rightarrow> int" where
  "list_get_size l = list_n l"

definition list_add_top :: "'a clist \<Rightarrow> 'a \<Rightarrow> 'a clist" where
  "list_add_top l e = l\<lparr>list_n := list_n l + 1, list_root := e # list_root l\<rparr>"

text \<open>The elem of a node; NULL has none.\<close>

definition node_elem :: "'a node_ptr \<Rightarrow> 'a option" where
  "node_elem p = (case p of [] \<Rightarrow> None | e # _ \<Rightarrow> Some e)"

definition node_next :: "'a node_ptr \<Rightarrow> 'a node_ptr option" where
  "node_next p = (case p of [] \<Rightarrow> None | _ # q \<Rightarrow> Some q)"

text \<open>The seek loop of \<open>list_add_sorted\<close> from the successor of \<open>prec\<close> on: the new node, as a
  pointer, and the chain that \<open>prec->next\<close> holds afterwards.\<close>

fun add_sorted_seek :: "'a cmpfun \<Rightarrow> 'a \<Rightarrow> 'a node_ptr \<Rightarrow> ('a node_ptr \<times> 'a node_ptr) option" where
  "add_sorted_seek cmpfun e [] = Some ([e], [e])"
| "add_sorted_seek cmpfun e (s # seek) = do {
     c \<leftarrow> cmpfun e s;
     if c > 0
     then do { (new, rest) \<leftarrow> add_sorted_seek cmpfun e seek; Some (new, s # rest) }
     else Some (e # s # seek, e # s # seek)
   }"

definition list_add_sorted :: "'a clist \<Rightarrow> 'a \<Rightarrow> 'a cmpfun \<Rightarrow> ('a node_ptr \<times> 'a clist) option" where
  "list_add_sorted l e cmpfun =
     (if list_is_empty l
      then let l' = list_add_top l e in Some (list_root l', l')
      else do {
        r \<leftarrow> node_elem (list_root l);
        c \<leftarrow> cmpfun e r;
        if c \<le> 0
        then let l' = list_add_top l e in Some (list_root l', l')
        else do {
          (new, rest) \<leftarrow> add_sorted_seek cmpfun e (tl (list_root l));
          Some (new, l\<lparr>list_n := list_n l + 1, list_root := r # rest\<rparr>)
        }
      })"

text \<open>The element removed, or \<open>None\<close> for NULL, and the list.\<close>

definition list_remove_top :: "'a clist \<Rightarrow> ('a option \<times> 'a clist) option" where
  "list_remove_top l =
     (if list_is_empty l then Some (None, l)
      else do {
        e \<leftarrow> node_elem (list_root l);
        rest \<leftarrow> node_next (list_root l);
        Some (Some e, l\<lparr>list_n := list_n l - 1, list_root := rest\<rparr>)
      })"

definition list_get_top_elem :: "'a clist \<Rightarrow> 'a option option" where
  "list_get_top_elem l =
     (if list_is_empty l then Some None
      else do { e \<leftarrow> node_elem (list_root l); Some (Some e) })"

text \<open>\<open>n\<close> is converted to unsigned and \<open>i + 1\<close> wraps around, as in the C comparison.\<close>

definition list_get_i_node :: "'a clist \<Rightarrow> u32 \<Rightarrow> 'a node_ptr option" where
  "list_get_i_node l i =
     (if u32_of_int (list_get_size l) < i + 1 then Some []
      else for_each (\<lambda>p _. node_next p) (list_root l) [0..<unat i])"

definition list_get_i_elem :: "'a clist \<Rightarrow> u32 \<Rightarrow> 'a slot option option" where
  "list_get_i_elem l i = do {
     p \<leftarrow> list_get_i_node l i;
     Some (if p = [] then None else Some (ElemSlot p))
   }"

definition list_get_next_node :: "'a clist \<Rightarrow> 'a node_ptr \<Rightarrow> 'a node_ptr" where
  "list_get_next_node l p = (case p of [] \<Rightarrow> [] | _ # q \<Rightarrow> q)"

fun search_seek :: "('a, 'k) keyfun \<Rightarrow> 'k \<Rightarrow> 'a node_ptr \<Rightarrow> 'a option option" where
  "search_seek cmpfun key [] = Some None"
| "search_seek cmpfun key (e # p) = do {
     c \<leftarrow> cmpfun e key;
     if c \<noteq> 0 then Some (Some e) else search_seek cmpfun key p
   }"

definition list_search_elem :: "'a clist \<Rightarrow> 'k \<Rightarrow> ('a, 'k) keyfun \<Rightarrow> 'a option option" where
  "list_search_elem l key cmpfun = search_seek cmpfun key (list_root l)"

text \<open>The seek loop of \<open>list_remove\<close>: the element unlinked and the chain that is left.\<close>

fun remove_seek :: "('a, 'k) keyfun \<Rightarrow> 'k \<Rightarrow> 'a node_ptr \<Rightarrow> ('a option \<times> 'a node_ptr) option" where
  "remove_seek cmpfun key [] = Some (None, [])"
| "remove_seek cmpfun key (e # seek) = do {
     c \<leftarrow> cmpfun e key;
     if c = 0
     then do { (r, rest) \<leftarrow> remove_seek cmpfun key seek; Some (r, e # rest) }
     else Some (Some e, seek)
   }"

definition list_remove :: "'a clist \<Rightarrow> 'k \<Rightarrow> ('a, 'k) keyfun \<Rightarrow> ('a option \<times> 'a clist) option" where
  "list_remove l key cmpfun =
     (if list_is_empty l then Some (None, l)
      else do {
        e \<leftarrow> node_elem (list_root l);
        c \<leftarrow> cmpfun e key;
        if c \<noteq> 0 then list_remove_top l
        else do {
          (r, rest) \<leftarrow> remove_seek cmpfun key (tl (list_root l));
          Some (case r of
              None \<Rightarrow> (None, l)
            | Some x \<Rightarrow> (Some x, l\<lparr>list_n := list_n l - 1, list_root := e # rest\<rparr>))
        }
      })"

definition iterator_init :: "'a clist \<Rightarrow> 'a iterator_t" where
  "iterator_init l = list_root l"

definition iterator_get_next :: "'a iterator_t \<Rightarrow> 'a iterator_t option" where
  "iterator_get_next it = node_next it"

definition iterator_get_elem :: "'a iterator_t \<Rightarrow> 'a option" where
  "iterator_get_elem it = node_elem it"

subsection \<open>Merge sort\<close>

text \<open>\<open>split\<close> with its slow and fast pointers: the front half, cut after \<open>slow\<close>, and the bk
  half.  The front half is returned from \<open>slow\<close> on.\<close>

fun split_loop :: "'a node_ptr \<Rightarrow> 'a node_ptr \<Rightarrow> ('a node_ptr \<times> 'a node_ptr) option" where
  "split_loop slow (f1 # f2 # fast) = do {
     s \<leftarrow> node_elem slow;
     slow' \<leftarrow> node_next slow;
     (fr, bk) \<leftarrow> split_loop slow' fast;
     Some (s # fr, bk)
   }"
| "split_loop slow fast = do {
     s \<leftarrow> node_elem slow;
     bk \<leftarrow> node_next slow;
     Some ([s], bk)
   }"

definition split_nodes :: "'a node_ptr \<Rightarrow> ('a node_ptr \<times> 'a node_ptr) option" where
  "split_nodes l = do { fast \<leftarrow> node_next l; split_loop l fast }"

function merge_nodes :: "'a cmpfun \<Rightarrow> 'a node_ptr \<Rightarrow> 'a node_ptr \<Rightarrow> 'a node_ptr option" where
  "merge_nodes cmpfun [] l2 = Some []"
| "merge_nodes cmpfun (x # l1) [] = Some []"
| "merge_nodes cmpfun (x # l1) (y # l2) = do {
     c \<leftarrow> cmpfun x y;
     if c < 0
     then do { rest \<leftarrow> merge_nodes cmpfun l1 (y # l2); Some (x # rest) }
     else do { rest \<leftarrow> merge_nodes cmpfun (x # l1) l2; Some (y # rest) }
   }"
  by pat_completeness auto
termination
  by (relation "measure (\<lambda>(_, l1, l2). length l1 + length l2)") auto

lemma split_loop_append:
  "split_loop slow fast = Some (fr, bk) \<Longrightarrow> fr @ bk = slow \<and> fr \<noteq> []"
  by (induction slow fast arbitrary: fr rule: split_loop.induct)
     (fastforce simp: bind_eq_Some node_elem_def node_next_def split: list.splits)+

lemma split_loop_defined:
  "length fast < length slow \<Longrightarrow>
     \<exists>fr bk. split_loop slow fast = Some (fr, bk) \<and> length fr = Suc (length fast div 2)"
  by (induction slow fast rule: split_loop.induct)
     (fastforce simp: node_elem_def node_next_def split: list.splits)+

lemma split_nodes_defined:
  assumes "l \<noteq> []"
  shows "\<exists>fr bk. split_nodes l = Some (fr, bk) \<and> fr @ bk = l
    \<and> length fr = Suc ((length l - 1) div 2)"
proof -
  from assms obtain x xs where l: "l = x # xs" by (cases l) auto
  obtain fr bk where *: "split_loop l xs = Some (fr, bk)"
      "length fr = Suc (length xs div 2)"
    using split_loop_defined [of xs l] l by auto
  with split_loop_append [OF *(1)] l show ?thesis
    by (simp add: split_nodes_def node_next_def)
qed

lemma split_nodes_shorter:
  assumes "split_nodes (x # y # l) = Some (fr, bk)"
  shows "length fr < length (x # y # l)" and "length bk < length (x # y # l)"
  using split_nodes_defined [of "x # y # l"] assms by (auto dest: arg_cong [where f = length])

function merge_sort :: "'a cmpfun \<Rightarrow> 'a node_ptr \<Rightarrow> 'a node_ptr option" where
  "merge_sort cmpfun [] = Some []"
| "merge_sort cmpfun [x] = Some [x]"
| "merge_sort cmpfun (x # y # l) = do {
     (l1, l2) \<leftarrow> split_nodes (x # y # l);
     l1' \<leftarrow> merge_sort cmpfun l1;
     l2' \<leftarrow> merge_sort cmpfun l2;
     merge_nodes cmpfun l1' l2'
   }"
  by pat_completeness auto
termination
  by (relation "measure (\<lambda>(_, l). length l)") (auto dest: split_nodes_shorter)

definition list_sort :: "'a clist \<Rightarrow> 'a cmpfun \<Rightarrow> 'a clist option" where
  "list_sort l cmpfun = do {
     r \<leftarrow> merge_sort cmpfun (list_root l);
     Some (l\<lparr>list_root := r\<rparr>)
   }"

subsection \<open>Well-formed lists\<close>

definition list_ok :: "'a clist \<Rightarrow> bool" where
  "list_ok l \<longleftrightarrow> list_n l = int (length (list_root l))"

lemma list_ok_init [simp]: "list_ok list_init"
  by (simp add: list_ok_def list_init_def)

lemma list_root_init [simp]: "list_root list_init = []"
  by (simp add: list_init_def)

lemma list_is_empty_iff: "list_ok l \<Longrightarrow> list_is_empty l \<longleftrightarrow> list_root l = []"
  by (simp add: list_ok_def list_is_empty_def)

lemma list_root_add_top [simp]: "list_root (list_add_top l e) = e # list_root l"
  by (simp add: list_add_top_def)

lemma list_ok_add_top [simp]: "list_ok (list_add_top l e) = list_ok l"
  by (auto simp: list_ok_def list_add_top_def)

lemma list_remove_top_spec:
  "list_ok l \<Longrightarrow> list_remove_top l =
     (case list_root l of
        [] \<Rightarrow> Some (None, l)
      | e # rest \<Rightarrow> Some (Some e, \<lparr>list_n = int (length rest), list_root = rest\<rparr>))"
  by (auto simp: list_remove_top_def list_is_empty_iff node_elem_def node_next_def list_ok_def
      split: list.splits)

lemma list_get_top_elem_spec:
  "list_ok l \<Longrightarrow> list_get_top_elem l =
     Some (case list_root l of [] \<Rightarrow> None | e # _ \<Rightarrow> Some e)"
  by (auto simp: list_get_top_elem_def list_is_empty_iff node_elem_def split: list.splits)

text \<open>The counter and the chain stay related under the operations that keep every node.\<close>

lemma add_sorted_seek_length:
  "add_sorted_seek cmpfun e xs = Some (new, rest) \<Longrightarrow> length rest = Suc (length xs)"
  by (induction xs arbitrary: rest) (auto simp: bind_eq_Some split: if_splits)

lemma list_ok_add_sorted:
  "list_ok l \<Longrightarrow> list_add_sorted l e cmpfun = Some (new, l') \<Longrightarrow> list_ok l'"
  by (cases "list_root l")
     (auto simp: list_add_sorted_def bind_eq_Some Let_def list_ok_def list_add_top_def node_elem_def
       dest!: add_sorted_seek_length split: if_splits)

subsection \<open>Node pointers by index\<close>

lemma for_each_node_next:
  "for_each (\<lambda>p _. node_next p) p xs = (if length xs \<le> length p then Some (drop (length xs) p) else None)"
proof (induction xs arbitrary: p)
  case Nil
  then show ?case by simp
next
  case (Cons x xs)
  then show ?case by (cases p) (auto simp: node_next_def)
qed

text \<open>For every index but the greatest unsigned one the lookup is \<open>drop\<close>, NULL beyond the end; for
  \<open>i = UINT_MAX\<close> the bound \<open>i + 1\<close> wraps to 0 and the walk leaves the list.\<close>

lemma list_get_i_node_spec:
  assumes "list_ok l" and "length (list_root l) < 2 ^ 31"
  shows "list_get_i_node l i = (if i = - 1 then None else Some (drop (unat i) (list_root l)))"
proof -
  let ?n = "length (list_root l)"
  have n: "unat (u32_of_int (list_n l)) = ?n"
    using assms by (simp add: list_ok_def nat_less_iff)
  show ?thesis
  proof (cases "i = - 1")
    case True
    have "unat (- 1 :: u32) = 2 ^ 32 - 1" by (simp add: unsigned_minus_1_eq_mask mask_eq_exp_minus_1)
    with True assms(2) n show ?thesis
      by (simp add: list_get_i_node_def for_each_node_next word_less_nat_alt list_get_size_def)
  next
    case False
    then have "1 + i \<noteq> 0"
      by (metis add.commute add_eq_0_iff)
    then have "unat (i + 1) = Suc (unat i)"
      using unatSuc [of i] by (simp add: add.commute)
    then have "u32_of_int (list_get_size l) < i + 1 \<longleftrightarrow> ?n \<le> unat i"
      by (auto simp: word_less_nat_alt n list_get_size_def)
    with False show ?thesis
      by (auto simp: list_get_i_node_def for_each_node_next)
  qed
qed

subsection \<open>Sorted insertion\<close>

text \<open>Insertion before the first element whose key is not smaller.\<close>

definition insert_by :: "('a \<Rightarrow> 'k::linorder) \<Rightarrow> 'a \<Rightarrow> 'a list \<Rightarrow> 'a list" where
  "insert_by f e xs = takeWhile (\<lambda>x. f x < f e) xs @ e # dropWhile (\<lambda>x. f x < f e) xs"

lemma mset_insert_by: "mset (insert_by f e xs) = add_mset e (mset xs)"
proof -
  have "mset (takeWhile P xs) + mset (dropWhile P xs) = mset xs" for P
    by (metis mset_append takeWhile_dropWhile_id)
  then show ?thesis by (simp add: insert_by_def)
qed

lemma set_insert_by [simp]: "set (insert_by f e xs) = insert e (set xs)"
  by (metis mset_insert_by set_mset_add_mset_insert set_mset_mset)

lemma length_insert_by [simp]: "length (insert_by f e xs) = Suc (length xs)"
  by (metis mset_insert_by size_add_mset size_mset)

lemma distinct_insert_by: "distinct xs \<Longrightarrow> e \<notin> set xs \<Longrightarrow> distinct (insert_by f e xs)"
  by (metis distinct.simps(2) mset.simps(2) mset_eq_imp_distinct_iff mset_insert_by)

lemma sorted_insert_by: "sorted (map f xs) \<Longrightarrow> sorted (map f (insert_by f e xs))"
  by (induction xs) (auto simp: insert_by_def not_less dest: set_takeWhileD set_dropWhileD)

text \<open>In a sorted list that holds an equal key, the element after the new one has that key.\<close>

lemma next_of_inserted:
  assumes "sorted (map f xs)" and "y \<in> set xs" and "f y = f e"
  shows "\<exists>z zs. dropWhile (\<lambda>x. f x < f e) xs = z # zs \<and> z \<in> set xs \<and> f z = f e"
  using assms
proof (induction xs)
  case Nil
  then show ?case by simp
next
  case (Cons x xs)
  show ?case
  proof (cases "f x < f e")
    case True
    with Cons show ?thesis by auto
  next
    case False
    with Cons.prems have "f x = f e" by force
    with False show ?thesis by auto
  qed
qed

subsection \<open>The contract of a comparison function\<close>

text \<open>
  On valid elements the function is defined and its sign compares a key.  \<open>list_add_sorted\<close> and
  \<open>list_sort\<close> are correct relative to this contract.
\<close>

locale comparator =
  fixes cmpfun :: "'a cmpfun"
    and valid :: "'a \<Rightarrow> bool"
    and key :: "'a \<Rightarrow> 'k::linorder"
  assumes cmp_spec: "valid x \<Longrightarrow> valid y \<Longrightarrow>
      \<exists>c. cmpfun x y = Some c \<and> (0 < c \<longleftrightarrow> key y < key x) \<and> (c < 0 \<longleftrightarrow> key x < key y)"
begin

lemma add_sorted_seek_spec:
  assumes "valid e" and "\<forall>x \<in> set xs. valid x"
  shows "add_sorted_seek cmpfun e xs =
    Some (e # dropWhile (\<lambda>x. key x < key e) xs,
          takeWhile (\<lambda>x. key x < key e) xs @ e # dropWhile (\<lambda>x. key x < key e) xs)"
  using assms
proof (induction xs)
  case Nil
  then show ?case by simp
next
  case (Cons x xs)
  then obtain c where "cmpfun e x = Some c" "0 < c \<longleftrightarrow> key x < key e"
    using cmp_spec [of e x] by auto
  with Cons show ?case by auto
qed

lemma list_add_sorted_spec:
  assumes "list_ok l" and "valid e" and "\<forall>x \<in> set (list_root l). valid x"
  shows "list_add_sorted l e cmpfun =
    Some (e # dropWhile (\<lambda>x. key x < key e) (list_root l),
          \<lparr>list_n = int (Suc (length (list_root l))), list_root = insert_by key e (list_root l)\<rparr>)"
proof (cases "list_root l")
  case Nil
  with assms(1) show ?thesis
    by (simp add: list_add_sorted_def list_is_empty_iff list_add_top_def list_ok_def insert_by_def)
next
  case (Cons r xs)
  then obtain c where c: "cmpfun e r = Some c" "0 < c \<longleftrightarrow> key r < key e"
    using cmp_spec [of e r] assms by auto
  have s: "add_sorted_seek cmpfun e xs = Some (e # dropWhile (\<lambda>x. key x < key e) xs,
      takeWhile (\<lambda>x. key x < key e) xs @ e # dropWhile (\<lambda>x. key x < key e) xs)"
    using assms Cons by (intro add_sorted_seek_spec) auto
  from Cons assms(1) c s show ?thesis
    by (auto simp: list_add_sorted_def list_is_empty_iff node_elem_def list_add_top_def list_ok_def
        insert_by_def)
qed

lemma merge_nodes_spec:
  assumes "\<forall>x \<in> set l1 \<union> set l2. valid x"
    and "sorted (map key l1)" and "sorted (map key l2)"
  shows "\<exists>r. merge_nodes cmpfun l1 l2 = Some r \<and> sorted (map key r) \<and> mset r \<subseteq># mset l1 + mset l2
    \<and> (l1 \<noteq> [] \<and> l2 \<noteq> [] \<longrightarrow> r \<noteq> [] \<and> length r < length l1 + length l2 \<and>
         key (hd r) = min (key (hd l1)) (key (hd l2)))"
  using assms
proof (induction "length l1 + length l2" arbitrary: l1 l2 rule: less_induct)
  case less
  show ?case
  proof (cases "l1 = [] \<or> l2 = []")
    case True
    then show ?thesis by (cases l1) auto
  next
    case False
    then obtain x xs y ys where l: "l1 = x # xs" "l2 = y # ys"
      by (meson neq_Nil_conv)
    obtain c where c: "cmpfun x y = Some c" "c < 0 \<longleftrightarrow> key x < key y"
      using cmp_spec [of x y] less.prems(1) l by auto
    show ?thesis
    proof (cases "c < 0")
      case True
      obtain r where r: "merge_nodes cmpfun xs l2 = Some r" "sorted (map key r)"
          "mset r \<subseteq># mset xs + mset l2" "xs \<noteq> [] \<longrightarrow> length r < length xs + length l2"
        using less.hyps [of xs l2] less.prems l by auto
      have "set r \<subseteq> set xs \<union> set l2"
        using r(3) by (metis set_mset_mono set_mset_mset set_mset_union)
      then have "\<forall>z \<in> set r. key x \<le> key z"
        using less.prems(2,3) l True c(2) by fastforce
      moreover have "length r < Suc (length xs) + length l2"
        using r(4) size_mset_mono [OF r(3)] l by auto
      ultimately show ?thesis
        using r c True l by (auto simp: min_def)
    next
      case False
      obtain r where r: "merge_nodes cmpfun l1 ys = Some r" "sorted (map key r)"
          "mset r \<subseteq># mset l1 + mset ys"
        using less.hyps [of l1 ys] less.prems l by auto
      have "ys = [] \<or> length r < length l1 + length ys"
        using less.hyps [of l1 ys] less.prems l r(1) by auto
      moreover have "ys = [] \<Longrightarrow> r = []"
        using r(1) l by simp
      ultimately have len: "length r < length l1 + length ys"
        using l by auto
      have "set r \<subseteq> set l1 \<union> set ys"
        using r(3) by (metis set_mset_mono set_mset_mset set_mset_union)
      then have "\<forall>z \<in> set r. key y \<le> key z"
        using less.prems(2,3) l False c(2) by fastforce
      with r c False l len show ?thesis
        by (auto simp: min_def)
    qed
  qed
qed

lemma merge_sort_spec:
  assumes "\<forall>x \<in> set l. valid x"
  shows "\<exists>r. merge_sort cmpfun l = Some r \<and> sorted (map key r) \<and> mset r \<subseteq># mset l
    \<and> (l \<noteq> [] \<longrightarrow> r \<noteq> [] \<and> key (hd r) = Min (key ` set l))
    \<and> (2 \<le> length l \<longrightarrow> length r < length l)"
  using assms
proof (induction "length l" arbitrary: l rule: less_induct)
  case less
  consider "l = []" | x where "l = [x]" | x y xs where "l = x # y # xs"
    by (metis list.exhaust)
  then show ?case
  proof cases
    case 3
    obtain l1 l2 where sp: "split_nodes l = Some (l1, l2)" "l1 @ l2 = l"
        "length l1 = Suc ((length l - 1) div 2)"
      using split_nodes_defined [of l] 3 by auto
    have "length l1 + length l2 = length l" using sp(2) by (metis length_append)
    then have len: "length l1 < length l" "length l2 < length l" and ne: "l1 \<noteq> []" "l2 \<noteq> []"
      using sp(3) 3 by auto
    have v: "\<forall>x \<in> set l1. valid x" "\<forall>x \<in> set l2. valid x"
      using less.prems sp(2) by auto
    obtain r1 where r1: "merge_sort cmpfun l1 = Some r1" "sorted (map key r1)" "mset r1 \<subseteq># mset l1"
        "r1 \<noteq> []" "key (hd r1) = Min (key ` set l1)"
      using less.hyps [OF len(1) v(1)] ne by auto
    obtain r2 where r2: "merge_sort cmpfun l2 = Some r2" "sorted (map key r2)" "mset r2 \<subseteq># mset l2"
        "r2 \<noteq> []" "key (hd r2) = Min (key ` set l2)"
      using less.hyps [OF len(2) v(2)] ne by auto
    have "set r1 \<subseteq> set l1" "set r2 \<subseteq> set l2"
      using r1(3) r2(3) by (metis set_mset_mono set_mset_mset)+
    then have "\<forall>x \<in> set r1 \<union> set r2. valid x" using v by blast
    from merge_nodes_spec [OF this r1(2) r2(2)] r1(4) r2(4)
    obtain r where r: "merge_nodes cmpfun r1 r2 = Some r" "sorted (map key r)"
        "mset r \<subseteq># mset r1 + mset r2" "r \<noteq> []" "length r < length r1 + length r2"
        "key (hd r) = min (key (hd r1)) (key (hd r2))"
      by auto
    have m: "mset r1 + mset r2 \<subseteq># mset l"
      using subset_mset.add_mono [OF r1(3) r2(3)] sp(2) by (simp flip: mset_append)
    have "Min (key ` set l) = min (Min (key ` set l1)) (Min (key ` set l2))"
      using sp(2) ne by (auto simp: image_Un simp flip: Min_Un)
    moreover have "length r1 + length r2 \<le> length l"
      using size_mset_mono [OF m] by simp
    ultimately show ?thesis
      using 3 sp(1) r1 r2 r subset_mset.order_trans [OF r(3) m] by auto
  qed auto
qed

end

subsection \<open>The contract of a key test\<close>

text \<open>\<open>list_search_elem\<close> and \<open>list_remove\<close> call their function on an element and a key and take a
  non-zero result for a match.\<close>

fun drop_first :: "('a \<Rightarrow> bool) \<Rightarrow> 'a list \<Rightarrow> 'a list" where
  "drop_first m [] = []"
| "drop_first m (x # xs) = (if m x then xs else x # drop_first m xs)"

lemma drop_first_split:
  "find m xs = Some x \<Longrightarrow> \<exists>us vs. xs = us @ x # vs \<and> drop_first m xs = us @ vs \<and> m x \<and> (\<forall>u \<in> set us. \<not> m u)"
proof (induction xs)
  case (Cons y ys)
  show ?case
  proof (cases "m y")
    case True
    with Cons.prems show ?thesis by (intro exI [of _ "[]"] exI [of _ ys]) auto
  next
    case False
    with Cons obtain us vs where "ys = us @ x # vs \<and> drop_first m ys = us @ vs \<and> m x \<and> (\<forall>u \<in> set us. \<not> m u)"
      by auto
    with False show ?thesis by (intro exI [of _ "y # us"] exI [of _ vs]) auto
  qed
qed simp

lemma find_in_set: "find m xs = Some x \<Longrightarrow> x \<in> set xs \<and> m x"
  by (auto simp: find_Some_iff)

lemma drop_first_absent: "find m xs = None \<Longrightarrow> drop_first m xs = xs"
  by (induction xs) (auto split: if_splits)

lemma mset_drop_first: "find m xs = Some x \<Longrightarrow> mset xs = add_mset x (mset (drop_first m xs))"
  by (induction xs) (auto split: if_splits)

lemma set_drop_first_subset: "set (drop_first m xs) \<subseteq> set xs"
  by (induction xs) auto

lemma distinct_drop_first: "distinct xs \<Longrightarrow> distinct (drop_first m xs)"
  by (induction xs) (use set_drop_first_subset in fastforce)+

lemma set_drop_first_distinct:
  "distinct xs \<Longrightarrow> find m xs = Some x \<Longrightarrow> set (drop_first m xs) = set xs - {x}"
  by (induction xs) (auto split: if_splits dest: find_in_set)

lemma sorted_drop_first: "sorted (map f xs) \<Longrightarrow> sorted (map f (drop_first m xs))"
  by (induction xs) (use set_drop_first_subset in fastforce)+

locale key_matcher =
  fixes keyfun :: "('a, 'k) keyfun"
    and k :: 'k
    and valid :: "'a \<Rightarrow> bool"
    and m :: "'a \<Rightarrow> bool"
  assumes match_spec: "valid x \<Longrightarrow> \<exists>c. keyfun x k = Some c \<and> (c \<noteq> 0 \<longleftrightarrow> m x)"
begin

lemma search_seek_spec: "\<forall>x \<in> set xs. valid x \<Longrightarrow> search_seek keyfun k xs = Some (find m xs)"
proof (induction xs)
  case (Cons x xs)
  with match_spec [of x] show ?case by auto
qed simp

lemma list_search_elem_spec:
  "\<forall>x \<in> set (list_root l). valid x \<Longrightarrow> list_search_elem l k keyfun = Some (find m (list_root l))"
  by (simp add: list_search_elem_def search_seek_spec)

lemma remove_seek_spec:
  "\<forall>x \<in> set xs. valid x \<Longrightarrow> remove_seek keyfun k xs = Some (find m xs, drop_first m xs)"
proof (induction xs)
  case (Cons x xs)
  with match_spec [of x] show ?case by auto
qed simp

lemma list_remove_spec:
  assumes "list_ok l" and "\<forall>x \<in> set (list_root l). valid x"
  shows "list_remove l k keyfun = Some (find m (list_root l),
    \<lparr>list_n = int (length (drop_first m (list_root l))), list_root = drop_first m (list_root l)\<rparr>)"
proof (cases "list_root l")
  case Nil
  with assms(1) show ?thesis
    by (simp add: list_remove_def list_is_empty_iff list_ok_def)
next
  case (Cons x xs)
  then obtain c where c: "keyfun x k = Some c" "c \<noteq> 0 \<longleftrightarrow> m x"
    using match_spec [of x] assms(2) by auto
  have s: "remove_seek keyfun k xs = Some (find m xs, drop_first m xs)"
    using assms(2) Cons by (simp add: remove_seek_spec)
  have "find m xs = Some y \<Longrightarrow> length xs = Suc (length (drop_first m xs))" for y
    using mset_drop_first [of m xs y] by (metis size_mset size_add_mset)
  with c s Cons assms(1) show ?thesis
    by (auto simp: list_remove_def list_remove_top_spec list_is_empty_iff node_elem_def list_ok_def
        drop_first_absent split: option.splits)
qed

end

end
