(* ===== verification/CFloat.thy ===== *)
theory CFloat
  imports Prelude "HOL-Library.Log_Nat"
begin

text \<open>
  C's \<open>float\<close> (IEEE binary32) and \<open>double\<close> (binary64) arithmetic, round to nearest, ties to even.

  A finite floating-point number is the rational it denotes.  An operation computes the exact
  rational result and rounds it to the format: \<open>p\<close> bits of significand, and no quantum below
  \<open>2 powi emin\<close> (gradual underflow).  The program's values stay far below the overflow threshold
  \<open>2 ^ 128\<close> (the largest are conversions of 64-bit integers) and no operation of it divides by
  zero under the guards of the code, so infinities and NaNs are left out.
\<close>

type_synonym f32 = rat
type_synonym f64 = rat

subsection \<open>Rounding\<close>

text \<open>The exponent of the leading bit of a positive rational.\<close>

definition ilog2 :: "rat \<Rightarrow> int" where
  "ilog2 x = (case quotient_of x of (n, d) \<Rightarrow>
     let k = bitlen n - bitlen d in if 2 powi k \<le> x then k else k - 1)"

definition round_even :: "rat \<Rightarrow> int" where
  "round_even x = (let f = \<lfloor>x\<rfloor>; r = x - of_int f in
     if r < 1 / 2 then f
     else if 1 / 2 < r then f + 1
     else if even f then f else f + 1)"

definition fround :: "nat \<Rightarrow> int \<Rightarrow> rat \<Rightarrow> rat" where
  "fround p emin x =
     (if x = 0 then 0
      else let e = max (ilog2 \<bar>x\<bar> - int p + 1) emin
           in of_int (round_even (x / 2 powi e)) * 2 powi e)"

definition f32_round :: "rat \<Rightarrow> f32" where
  "f32_round x = fround 24 (- 149) x"

definition f64_round :: "rat \<Rightarrow> f64" where
  "f64_round x = fround 53 (- 1074) x"

subsection \<open>Arithmetic and conversions\<close>

definition f32_add :: "f32 \<Rightarrow> f32 \<Rightarrow> f32" where
  "f32_add x y = f32_round (x + y)"

definition f32_sub :: "f32 \<Rightarrow> f32 \<Rightarrow> f32" where
  "f32_sub x y = f32_round (x - y)"

definition f32_mul :: "f32 \<Rightarrow> f32 \<Rightarrow> f32" where
  "f32_mul x y = f32_round (x * y)"

definition f32_div :: "f32 \<Rightarrow> f32 \<Rightarrow> f32" where
  "f32_div x y = f32_round (x / y)"

definition f32_of_int :: "int \<Rightarrow> f32" where
  "f32_of_int i = f32_round (of_int i)"

definition f32_of_u32 :: "u32 \<Rightarrow> f32" where
  "f32_of_u32 w = f32_of_int (uint w)"

definition f32_of_u64 :: "u64 \<Rightarrow> f32" where
  "f32_of_u64 w = f32_of_int (uint w)"

text \<open>Conversion to an unsigned integer truncates; a value that does not fit is undefined.\<close>

definition u64_of_f32 :: "f32 \<Rightarrow> u64 option" where
  "u64_of_f32 x = (if - 1 < x \<and> x < 2 ^ 64 then Some (word_of_int (if x < 0 then 0 else \<lfloor>x\<rfloor>)) else None)"

definition u32_of_f32 :: "f32 \<Rightarrow> u32 option" where
  "u32_of_f32 x = (if - 1 < x \<and> x < 2 ^ 32 then Some (word_of_int (if x < 0 then 0 else \<lfloor>x\<rfloor>)) else None)"

subsection \<open>The leading exponent\<close>

lemma bitlen_frac:
  assumes "0 < n"
  obtains "(2 :: rat) powi (bitlen n - 1) \<le> of_int n" and "of_int n < (2 :: rat) powi bitlen n"
proof
  have b: "2 ^ nat (bitlen n - 1) \<le> n" "n < 2 ^ nat (bitlen n)"
    using bitlen_bounds [OF assms] by auto
  have p: "1 \<le> bitlen n"
    using assms bitlen_eq_zero_iff [of n] bitlen_nonneg [of n] by linarith
  have "(2 :: rat) ^ nat (bitlen n - 1) \<le> of_int n" "(of_int n :: rat) < 2 ^ nat (bitlen n)"
    using b by (metis of_int_le_iff of_int_less_iff of_int_numeral of_int_power)+
  then show "(2 :: rat) powi (bitlen n - 1) \<le> of_int n" "of_int n < (2 :: rat) powi bitlen n"
    using p by (simp_all add: power_int_def)
qed

lemma ilog2_bounds:
  assumes "0 < x"
  shows "2 powi ilog2 x \<le> x" and "x < 2 powi (ilog2 x + 1)"
proof -
  obtain n d where q: "quotient_of x = (n, d)" by (meson surj_pair)
  then have d: "0 < d" and x: "x = of_int n / of_int d"
    by (auto simp: quotient_of_denom_pos quotient_of_div)
  then have n: "0 < n"
    using assms by (simp add: zero_less_divide_iff)
  let ?k = "bitlen n - bitlen d"
  obtain N: "(2 :: rat) powi (bitlen n - 1) \<le> of_int n" "of_int n < (2 :: rat) powi bitlen n"
    using bitlen_frac [OF n] by blast
  obtain D: "(2 :: rat) powi (bitlen d - 1) \<le> of_int d" "of_int d < (2 :: rat) powi bitlen d"
    using bitlen_frac [OF d] by blast
  have "x < 2 powi bitlen n / 2 powi (bitlen d - 1)"
    unfolding x using N D d n by (intro frac_less) auto
  also have "\<dots> = 2 powi (?k + 1)"
    by (simp add: algebra_simps flip: power_int_diff)
  finally have up: "x < 2 powi (?k + 1)" .
  have "2 powi (bitlen n - 1) / 2 powi bitlen d < x"
    unfolding x using N D d n by (intro frac_less2) auto
  also have "2 powi (bitlen n - 1) / 2 powi bitlen d = (2 :: rat) powi (?k - 1)"
    by (simp add: algebra_simps flip: power_int_diff)
  finally have lo: "2 powi (?k - 1) < x" .
  have "ilog2 x = (if 2 powi ?k \<le> x then ?k else ?k - 1)"
    by (simp add: ilog2_def q Let_def)
  then show "2 powi ilog2 x \<le> x" and "x < 2 powi (ilog2 x + 1)"
    using up lo by (auto split: if_splits)
qed

subsection \<open>Facts about rounding\<close>

lemma round_even_bounds: "of_int (round_even x) \<le> x + 1 / 2" "x - 1 / 2 \<le> of_int (round_even x)"
  by (auto simp: round_even_def Let_def) linarith+

lemma round_even_of_int [simp]: "round_even (of_int i) = i"
  by (simp add: round_even_def)

lemma round_even_nonneg: "0 \<le> x \<Longrightarrow> 0 \<le> round_even x"
  by (auto simp: round_even_def Let_def)

lemma round_even_nonpos: "x \<le> 0 \<Longrightarrow> round_even x \<le> 0"
  using round_even_bounds(1) [of x] by linarith

lemma fround_nonneg: "0 \<le> x \<Longrightarrow> 0 \<le> fround p emin x"
  by (auto simp: fround_def Let_def intro!: mult_nonneg_nonneg round_even_nonneg)

lemma fround_nonpos: "x \<le> 0 \<Longrightarrow> fround p emin x \<le> 0"
  by (auto simp: fround_def Let_def intro!: mult_nonpos_nonneg round_even_nonpos divide_nonpos_pos)

lemma fround_0 [simp]: "fround p emin 0 = 0"
  by (simp add: fround_def)

lemma f32_sub_nonneg: "y \<le> x \<Longrightarrow> 0 \<le> f32_sub x y"
  by (simp add: f32_sub_def f32_round_def fround_nonneg)

lemma f32_sub_self [simp]: "f32_sub x x = 0"
  by (simp add: f32_sub_def f32_round_def)

text \<open>Integers of at most \<open>p\<close> bits are represented exactly.\<close>

lemma fround_int_exact:
  assumes "\<bar>i\<bar> < 2 ^ p" and "emin \<le> 0"
  shows "fround p emin (of_int i) = of_int i"
proof (cases "i = 0")
  case False
  define e where "e = max (ilog2 \<bar>of_int i\<bar> - int p + 1) emin"
  have "(2 :: rat) powi ilog2 \<bar>of_int i\<bar> \<le> \<bar>of_int i\<bar>"
    using False by (intro ilog2_bounds(1)) simp
  also have "\<dots> < 2 powi int p"
    using assms(1) by (metis of_int_abs of_int_less_iff of_int_numeral of_int_power power_int_of_nat)
  finally have "ilog2 \<bar>of_int i\<bar> < int p"
    by (metis not_less numeral_One numeral_le_iff one_le_numeral power_int_increasing)
  then have e: "e \<le> 0" using assms(2) by (simp add: e_def)
  then have "(2 :: rat) powi e = 1 / 2 ^ nat (- e)"
    by (metis int_nat_eq minus_minus neg_0_le_iff_le power_int_minus_divide power_int_of_nat)
  then have q: "(of_int i :: rat) / 2 powi e = of_int (i * 2 ^ nat (- e))"
    by simp
  have "fround p emin (of_int i) = of_int (round_even (of_int i / 2 powi e)) * 2 powi e"
    using False by (simp add: fround_def e_def Let_def)
  also have "\<dots> = of_int i / 2 powi e * 2 powi e"
    unfolding q round_even_of_int ..
  finally show ?thesis by simp
qed simp

lemma f32_of_int_exact: "\<bar>i\<bar> < 2 ^ 24 \<Longrightarrow> f32_of_int i = of_int i"
  by (simp add: f32_of_int_def f32_round_def fround_int_exact)

lemma u32_of_f32_of_int:
  assumes "0 \<le> i" and "i < 2 ^ 24"
  shows "u32_of_f32 (f32_of_int i) = Some (word_of_int i)"
proof -
  have "(of_int i :: rat) < of_int (2 ^ 24)" using assms(2) of_int_less_iff by blast
  then have "(of_int i :: rat) < 2 ^ 32" by simp
  moreover have "(- 1 :: rat) < of_int i" using assms(1) by linarith
  ultimately show ?thesis
    using assms by (simp add: f32_of_int_exact u32_of_f32_def)
qed

subsection \<open>Monotonicity and error\<close>

lemma round_even_mono: "x \<le> y \<Longrightarrow> round_even x \<le> round_even y"
proof -
  assume xy: "x \<le> y"
  then have f: "\<lfloor>x\<rfloor> \<le> \<lfloor>y\<rfloor>" by (rule floor_mono)
  have b: "\<lfloor>z\<rfloor> \<le> round_even z" "round_even z \<le> \<lfloor>z\<rfloor> + 1" for z
    by (simp_all add: round_even_def Let_def)
  show ?thesis
  proof (cases "\<lfloor>x\<rfloor> = \<lfloor>y\<rfloor>")
    case True
    then show ?thesis using xy by (simp add: round_even_def Let_def)
  next
    case False
    then show ?thesis using f b(1) [of y] b(2) [of x] by linarith
  qed
qed

lemma powi_pos: "0 < (2 :: rat) powi k"
  by simp

text \<open>A dyadic number of at most \<open>p\<close> bits is represented exactly.\<close>

lemma fround_dyadic_exact:
  assumes "\<bar>i\<bar> < 2 ^ p" and "emin \<le> k"
  shows "fround p emin (of_int i * 2 powi k) = of_int i * 2 powi k"
proof (cases "i = 0")
  case False
  define x where "x = (of_int i :: rat) * 2 powi k"
  define e where "e = max (ilog2 \<bar>x\<bar> - int p + 1) emin"
  have x: "x \<noteq> 0" "\<bar>x\<bar> = of_int \<bar>i\<bar> * 2 powi k" using False by (simp_all add: x_def abs_mult)
  then have "(2 :: rat) powi ilog2 \<bar>x\<bar> \<le> of_int \<bar>i\<bar> * 2 powi k"
    using ilog2_bounds(1) [of "\<bar>x\<bar>"] by simp
  also have "\<dots> < 2 powi int p * 2 powi k"
    using assms(1) by (intro mult_strict_right_mono)
      (metis of_int_less_iff of_int_numeral of_int_power power_int_of_nat, simp)
  also have "\<dots> = 2 powi (int p + k)" by (simp add: power_int_add)
  finally have "ilog2 \<bar>x\<bar> < int p + k"
    by (metis not_less numeral_One numeral_le_iff one_le_numeral power_int_increasing)
  then have e: "e \<le> k" using assms(2) by (simp add: e_def)
  have "x / 2 powi e = of_int i * 2 powi (k - e)"
    by (simp add: x_def power_int_diff)
  also have "\<dots> = of_int (i * 2 ^ nat (k - e))"
    using e by (simp add: power_int_def)
  finally have q: "x / 2 powi e = of_int (i * 2 ^ nat (k - e))" .
  have "fround p emin x = of_int (round_even (x / 2 powi e)) * 2 powi e"
    using x by (simp add: fround_def e_def Let_def)
  also have "\<dots> = x / 2 powi e * 2 powi e"
    unfolding q round_even_of_int ..
  finally show ?thesis by (simp add: x_def)
qed simp

lemma fround_mono:
  assumes "0 \<le> x" and "x \<le> y" and "1 \<le> p"
  shows "fround p emin x \<le> fround p emin y"
proof (cases "x = 0 \<or> x = y")
  case True
  then show ?thesis using assms by (auto simp: fround_nonneg)
next
  case False
  then have pos: "0 < x" "0 < y" using assms by auto
  define ex where "ex = max (ilog2 x - int p + 1) emin"
  define ey where "ey = max (ilog2 y - int p + 1) emin"
  have fx: "fround p emin x = of_int (round_even (x / 2 powi ex)) * 2 powi ex"
    and fy: "fround p emin y = of_int (round_even (y / 2 powi ey)) * 2 powi ey"
    using pos by (simp_all add: fround_def ex_def ey_def Let_def)
  have "(2 :: rat) powi ilog2 x < 2 powi (ilog2 y + 1)"
    using ilog2_bounds(1) [OF pos(1)] ilog2_bounds(2) [OF pos(2)] assms(2) by linarith
  then have "ilog2 x < ilog2 y + 1"
    by (metis not_less numeral_One numeral_le_iff one_le_numeral power_int_increasing)
  then have le: "ex \<le> ey" by (simp add: ex_def ey_def)
  show ?thesis
  proof (cases "ex = ey")
    case True
    have "round_even (x / 2 powi ey) \<le> round_even (y / 2 powi ey)"
      using assms(2) by (intro round_even_mono divide_right_mono) auto
    then show ?thesis unfolding fx fy True by (intro mult_right_mono) auto
  next
    case False
    then have lt: "ex < ey" using le by simp
    then have ey: "ey = ilog2 y - int p + 1" "ilog2 x < ilog2 y" by (auto simp: ex_def ey_def)
    define z where "z = (2 :: rat) powi ilog2 y"
    have "x < 2 powi (ilog2 x + 1)" using pos(1) by (rule ilog2_bounds(2))
    also have "\<dots> \<le> z" unfolding z_def using ey(2) by (intro power_int_increasing) auto
    finally have xz: "x \<le> z" by simp
    have zy: "z \<le> y" unfolding z_def using pos(2) by (rule ilog2_bounds(1))
    have zx: "z / 2 powi ex = of_int (2 ^ nat (ilog2 y - ex))"
    proof -
      have "z / 2 powi ex = 2 powi (ilog2 y - ex)" by (simp add: z_def power_int_diff)
      moreover have "0 \<le> ilog2 y - ex" using ey lt assms(3) by simp
      ultimately show ?thesis by (simp add: power_int_def)
    qed
    have "round_even (x / 2 powi ex) \<le> round_even (z / 2 powi ex)"
      using xz by (intro round_even_mono divide_right_mono) auto
    then have "of_int (round_even (x / 2 powi ex)) \<le> z / 2 powi ex"
      unfolding zx round_even_of_int by (simp add: of_int_le_iff)
    then have 1: "fround p emin x \<le> z"
      unfolding fx by (simp add: field_simps)
    have zy': "z / 2 powi ey = of_int (2 ^ (p - 1))"
    proof -
      have "z / 2 powi ey = 2 powi (ilog2 y - ey)" by (simp add: z_def power_int_diff)
      also have "\<dots> = 2 powi int (p - 1)" using assms(3) by (simp add: ey(1) of_nat_diff)
      finally show ?thesis by (simp only: power_int_of_nat of_int_power of_int_numeral)
    qed
    have "round_even (z / 2 powi ey) \<le> round_even (y / 2 powi ey)"
      using zy by (intro round_even_mono divide_right_mono) auto
    then have "z / 2 powi ey \<le> of_int (round_even (y / 2 powi ey))"
      unfolding zy' round_even_of_int by (simp add: of_int_le_iff)
    then have 2: "z \<le> fround p emin y"
      unfolding fy by (simp add: field_simps)
    from 1 2 show ?thesis by simp
  qed
qed

lemma fround_error:
  assumes "0 \<le> x"
  shows "fround p emin x \<le> x + x / 2 ^ p + 2 powi (emin - 1)"
    and "x - x / 2 ^ p - 2 powi (emin - 1) \<le> fround p emin x"
proof -
  have "fround p emin x \<le> x + x / 2 ^ p + 2 powi (emin - 1) \<and> x - x / 2 ^ p - 2 powi (emin - 1) \<le> fround p emin x"
  proof (cases "x = 0")
    case False
    then have pos: "0 < x" using assms by simp
    define e where "e = max (ilog2 x - int p + 1) emin"
    have f: "fround p emin x = of_int (round_even (x / 2 powi e)) * 2 powi e"
      using pos by (simp add: fround_def e_def Let_def)
    have half: "(2 :: rat) powi e / 2 = 2 powi (e - 1)" by (simp add: power_int_diff)
    have "of_int (round_even (x / 2 powi e)) * 2 powi e \<le> (x / 2 powi e + 1 / 2) * 2 powi e"
      by (intro mult_right_mono round_even_bounds) simp
    also have "\<dots> = x + 2 powi (e - 1)" by (simp add: distrib_right half [symmetric])
    finally have up: "fround p emin x \<le> x + 2 powi (e - 1)" unfolding f .
    have "x - 2 powi (e - 1) = (x / 2 powi e - 1 / 2) * 2 powi e" by (simp add: left_diff_distrib half [symmetric])
    also have "\<dots> \<le> of_int (round_even (x / 2 powi e)) * 2 powi e"
      by (rule mult_right_mono [OF round_even_bounds(2)]) simp
    finally have lo: "x - 2 powi (e - 1) \<le> fround p emin x" unfolding f .
    have "(2 :: rat) powi (e - 1) \<le> x / 2 ^ p + 2 powi (emin - 1)"
    proof (cases "ilog2 x - int p + 1 \<le> emin")
      case True
      then have "e = emin" by (simp add: e_def)
      then show ?thesis using pos by simp
    next
      case False
      then have "(2 :: rat) powi (e - 1) = 2 powi ilog2 x / 2 ^ p"
        by (simp add: e_def power_int_diff)
      also have "\<dots> \<le> x / 2 ^ p"
        using pos by (intro divide_right_mono ilog2_bounds(1)) auto
      also have "\<dots> \<le> x / 2 ^ p + 2 powi (emin - 1)" by simp
      finally show ?thesis .
    qed
    with up lo show ?thesis by linarith
  qed simp
  then show "fround p emin x \<le> x + x / 2 ^ p + 2 powi (emin - 1)"
    and "x - x / 2 ^ p - 2 powi (emin - 1) \<le> fround p emin x" by auto
qed


subsection \<open>The grid of floats\<close>

text \<open>Every \<open>float\<close> is a multiple of the least positive one.\<close>

definition on_grid :: "f32 \<Rightarrow> bool" where
  "on_grid x \<longleftrightarrow> (\<exists>k :: int. x = of_int k * 2 powi (- 149))"

lemma on_grid_f32_round [simp]: "on_grid (f32_round x)"
proof (cases "x = 0")
  case True
  then show ?thesis by (auto simp: on_grid_def f32_round_def intro!: exI [of _ 0])
next
  case False
  define e where "e = max (ilog2 \<bar>x\<bar> - 23) (- 149)"
  define m where "m = round_even (x / 2 powi e)"
  have "f32_round x = of_int m * 2 powi e"
    using False by (simp add: f32_round_def fround_def e_def m_def Let_def)
  also have "(2 :: rat) powi e = 2 powi (e + 149) * 2 powi (- 149)"
    using power_int_add [of "2 :: rat" "e + 149" "- 149"] by simp
  also have "(2 :: rat) powi (e + 149) = of_int (2 ^ nat (e + 149))"
    by (simp add: e_def power_int_def)
  finally have "f32_round x = of_int (m * 2 ^ nat (e + 149)) * 2 powi (- 149)"
    by (simp only: of_int_mult mult.assoc)
  then show ?thesis unfolding on_grid_def by blast
qed

lemma on_grid_int [simp]: "on_grid (of_int i)"
proof -
  have "(of_int i :: rat) = of_int (i * 2 ^ 149) * 2 powi (- 149)"
    by (simp add: power_int_minus field_simps)
  then show ?thesis unfolding on_grid_def by blast
qed

lemma on_grid_simple [simp]: "on_grid 0" "on_grid 1" "on_grid (- 1)"
  using on_grid_int [of 0] on_grid_int [of 1] on_grid_int [of "- 1"] by simp_all

lemma on_grid_ops [simp]:
  "on_grid (f32_add x y)" "on_grid (f32_sub x y)" "on_grid (f32_mul x y)" "on_grid (f32_div x y)"
  "on_grid (f32_of_int i)" "on_grid (f32_of_u64 w)" "on_grid (f32_of_u32 v)"
  by (simp_all add: f32_add_def f32_sub_def f32_mul_def f32_div_def f32_of_int_def f32_of_u64_def f32_of_u32_def)

lemma f32_round_mono: "0 \<le> x \<Longrightarrow> x \<le> y \<Longrightarrow> f32_round x \<le> f32_round y"
  by (simp add: f32_round_def fround_mono)

text \<open>A difference of two floats is not lost: subtraction does not underflow to zero.\<close>

lemma f32_sub_pos:
  assumes "on_grid x" and "on_grid y" and "y < x"
  shows "0 < f32_sub x y"
proof -
  obtain k l where "x = of_int k * 2 powi (- 149)" "y = of_int l * 2 powi (- 149)"
    using assms by (auto simp: on_grid_def)
  then have d: "x - y = of_int (k - l) * 2 powi (- 149)" by (simp add: left_diff_distrib)
  then have "0 < (of_int (k - l) :: rat)"
    using assms(3) by (metis diff_gt_0_iff_gt powi_pos zero_less_mult_pos2)
  then have "1 \<le> k - l" by simp
  then have "1 * 2 powi (- 149) \<le> (of_int (k - l) :: rat) * 2 powi (- 149)"
    by (intro mult_right_mono) (metis of_int_1 of_int_le_iff, simp)
  then have "2 powi (- 149) \<le> x - y" using d by simp
  then have "f32_round (2 powi (- 149)) \<le> f32_sub x y"
    unfolding f32_sub_def by (intro f32_round_mono) auto
  moreover have "f32_round (2 powi (- 149)) = 2 powi (- 149)"
    using fround_dyadic_exact [of 1 24 "- 149" "- 149"] by (simp add: f32_round_def)
  ultimately show ?thesis by (metis less_le_trans powi_pos)
qed

text \<open>The sign of a subtraction is exact.\<close>

lemma f32_sub_le_0_iff: "on_grid x \<Longrightarrow> on_grid y \<Longrightarrow> f32_sub x y \<le> 0 \<longleftrightarrow> x \<le> y"
  using f32_sub_pos [of x y] by (cases "y < x") (auto simp: f32_sub_def f32_round_def fround_nonpos not_less)

lemma f32_sub_eq_0_if: "on_grid x \<Longrightarrow> on_grid y \<Longrightarrow> y < x \<Longrightarrow> f32_sub x y \<noteq> 0"
  using f32_sub_pos by fastforce

lemma f32_round_half:
  assumes "\<bar>i\<bar> < 2 ^ 24" and "k \<le> 149"
  shows "f32_round (of_int i / 2 ^ k) = of_int i / 2 ^ k"
proof -
  have "(of_int i :: rat) / 2 ^ k = of_int i * 2 powi (- int k)"
    by (simp add: power_int_minus_divide power_int_of_nat power_int_minus inverse_eq_divide)
  then show ?thesis
    using fround_dyadic_exact [of i 24 "- 149" "- int k"] assms by (simp add: f32_round_def)
qed

subsection \<open>Evaluation\<close>

text \<open>Code equations over integers, so that rounding computes on numerals of full width.\<close>

definition scale2 :: "int \<Rightarrow> int \<Rightarrow> int" where
  "scale2 n k = (if 0 \<le> k then n * 2 ^ nat k else n)"

lemma scale2_eq: "(of_int n :: rat) / of_int d / 2 powi e = of_int (scale2 n (- e)) / of_int (scale2 d e)"
proof (cases e "0 :: int" rule: linorder_cases)
  case less
  then have "(2 :: rat) powi e = 1 / 2 ^ nat (- e)"
    by (simp add: power_int_def power_one_over inverse_eq_divide)
  with less show ?thesis by (simp add: scale2_def)
next
  case equal
  then show ?thesis by (simp add: scale2_def)
next
  case greater
  then show ?thesis by (simp add: scale2_def power_int_def)
qed

lemma ilog2_code [code]:
  "ilog2 x = (case quotient_of x of (n, d) \<Rightarrow>
     let k = bitlen n - bitlen d
     in if scale2 d k \<le> scale2 n (- k) then k else k - 1)"
proof -
  obtain n d where q: "quotient_of x = (n, d)" by (meson surj_pair)
  then have d: "0 < d" and x: "x = of_int n / of_int d"
    by (auto simp: quotient_of_denom_pos quotient_of_div)
  let ?k = "bitlen n - bitlen d"
  have pos: "0 < (2 :: rat) powi ?k" "(0 :: rat) < of_int (scale2 d ?k)"
    using d by (simp_all add: scale2_def)
  have "2 powi ?k \<le> x \<longleftrightarrow> 1 \<le> x / 2 powi ?k"
    using pos by (simp add: field_simps)
  also have "\<dots> \<longleftrightarrow> scale2 d ?k \<le> scale2 n (- ?k)"
    unfolding x scale2_eq using pos by (simp add: field_simps)
  finally show ?thesis by (simp add: ilog2_def q)
qed

definition round_frac :: "int \<Rightarrow> int \<Rightarrow> int" where
  "round_frac n d = (let f = n div d; r = 2 * (n mod d) in
     if r < d then f else if d < r then f + 1 else if even f then f else f + 1)"

lemma round_even_frac:
  assumes "0 < d"
  shows "round_even (of_int n / of_int d) = round_frac n d"
proof -
  have f: "\<lfloor>of_int n / of_int d :: rat\<rfloor> = n div d"
    by (simp add: floor_divide_of_int_eq)
  have "(of_int n :: rat) = of_int (n div d * d + n mod d)" by simp
  also have "\<dots> = of_int (n div d) * of_int d + of_int (n mod d)" by (rule of_int_add [THEN trans]) simp
  finally have r: "(of_int n :: rat) / of_int d - of_int (n div d) = of_int (n mod d) / of_int d"
    using assms by (simp add: field_simps)
  have half: "of_int m / of_int d < (1 / 2 :: rat) \<longleftrightarrow> 2 * m < d"
      "(1 / 2 :: rat) < of_int m / of_int d \<longleftrightarrow> d < 2 * m" for m
  proof -
    have pos: "(0 :: rat) < of_int d" using assms by simp
    have "of_int m / of_int d < (1 / 2 :: rat) \<longleftrightarrow> (of_int (2 * m) :: rat) < of_int d"
      using pos by (simp add: divide_less_eq mult.commute)
    then show "of_int m / of_int d < (1 / 2 :: rat) \<longleftrightarrow> 2 * m < d"
      by (simp only: of_int_less_iff)
    have "(1 / 2 :: rat) < of_int m / of_int d \<longleftrightarrow> (of_int d :: rat) < of_int (2 * m)"
      using pos by (simp add: less_divide_eq mult.commute)
    then show "(1 / 2 :: rat) < of_int m / of_int d \<longleftrightarrow> d < 2 * m"
      by (simp only: of_int_less_iff)
  qed
  show ?thesis
    by (simp only: round_even_def round_frac_def Let_def f r half)
qed

lemma fround_code [code]:
  "fround p emin x =
     (if x = 0 then 0
      else let e = max (ilog2 \<bar>x\<bar> - int p + 1) emin
           in case quotient_of x of (n, d) \<Rightarrow>
             let m = round_frac (scale2 n (- e)) (scale2 d e)
             in of_int (scale2 m e) / of_int (scale2 1 (- e)))"
proof -
  obtain n d where q: "quotient_of x = (n, d)" by (meson surj_pair)
  then have d: "0 < d" and x: "x = of_int n / of_int d"
    by (auto simp: quotient_of_denom_pos quotient_of_div)
  have "round_even (x / 2 powi e) = round_frac (scale2 n (- e)) (scale2 d e)" for e
    unfolding x scale2_eq using d by (intro round_even_frac) (simp add: scale2_def)
  moreover have "of_int m * (2 :: rat) powi e = of_int (scale2 m e) / of_int (scale2 1 (- e))" for m e
    using scale2_eq [of m 1 "- e"] by (simp add: power_int_minus field_simps)
  ultimately show ?thesis
    by (simp add: fround_def q Let_def)
qed

end
