(* ===== verification/Task.thy ===== *)
theory Task
  imports CFloat
begin

text \<open>
  Real-time tasks: the parameter record and return codes of \<open>common/retif_types.h\<close>, the task
  record of \<open>daemon/retif_task.h\<close> and the functions of \<open>daemon/retif_task.c\<close>.

  Times are microseconds in 64-bit words.  \<open>sched_plugin\<close> is the fixed buffer of
  \<open>PLUGIN_MAX_NAME\<close> characters; reading it as a string is undefined when it holds no NUL.
\<close>

subsection \<open>Return codes\<close>

definition RTF_OK :: int where "RTF_OK = 1"
definition RTF_FAIL :: int where "RTF_FAIL = 0"
definition RTF_ERROR :: int where "RTF_ERROR = - 1"
definition RTF_PARTIAL :: int where "RTF_PARTIAL = 0"
definition RTF_NO :: int where "RTF_NO = - 1"

lemmas rtf_codes = RTF_OK_def RTF_FAIL_def RTF_ERROR_def RTF_PARTIAL_def RTF_NO_def

definition PLUGIN_MAX_NAME :: nat where
  "PLUGIN_MAX_NAME = 32"

subsection \<open>Records\<close>

record rtf_params =
  runtime :: u64
  des_runtime :: u64
  period :: u64
  deadline :: u64
  priority :: u32
  sched_plugin :: "char list"
  ignore_admission :: u8

record rtf_task =
  t_id :: u32
  ptid :: int
  tid :: int
  euid :: int
  egid :: int
  clk :: int
  cpu :: u64
  schedprio :: u32
  pluginid :: int
  acceptedt :: u64
  acceptedu :: f32
  params :: rtf_params

text \<open>All-zero memory, as \<open>calloc\<close> and \<open>memset\<close> leave it.\<close>

definition zero_params :: rtf_params where
  "zero_params = \<lparr>runtime = 0, des_runtime = 0, period = 0, deadline = 0, priority = 0,
     sched_plugin = replicate PLUGIN_MAX_NAME NUL, ignore_admission = 0\<rparr>"

definition zero_task :: rtf_task where
  "zero_task = \<lparr>t_id = 0, ptid = 0, tid = 0, euid = 0, egid = 0, clk = 0, cpu = 0, schedprio = 0,
     pluginid = 0, acceptedt = 0, acceptedu = 0, params = zero_params\<rparr>"

subsection \<open>The task store\<close>

text \<open>
  Tasks are shared: the global task set and a plugin's per-CPU task sets point to the same
  record.  \<open>heap\<close> maps the address of every allocated task to its record; following any other
  pointer is undefined.
\<close>

type_synonym task_ptr = nat
type_synonym heap = "task_ptr \<rightharpoonup> rtf_task"

definition upd_task :: "heap \<Rightarrow> task_ptr \<Rightarrow> (rtf_task \<Rightarrow> rtf_task) \<Rightarrow> heap option" where
  "upd_task h p f = do { t \<leftarrow> h p; Some (h(p \<mapsto> f t)) }"

lemma upd_task_Some [c_simps]: "h p = Some t \<Longrightarrow> upd_task h p f = Some (h(p \<mapsto> f t))"
  by (simp add: upd_task_def)

lemma upd_task_eq_Some: "upd_task h p f = Some h' \<longleftrightarrow> (\<exists>t. h p = Some t \<and> h' = h(p \<mapsto> f t))"
  by (auto simp: upd_task_def bind_eq_Some)

text \<open>\<open>rtf_task_init\<close>: \<open>fresh\<close> is what \<open>calloc\<close> returned, \<open>None\<close> for NULL.\<close>

definition rtf_task_init :: "heap \<Rightarrow> task_ptr option \<Rightarrow> u32 \<Rightarrow> int \<Rightarrow> int \<times> task_ptr option \<times> heap" where
  "rtf_task_init h fresh rid c =
     (case fresh of
        None \<Rightarrow> (- 1, None, h)
      | Some p \<Rightarrow> (0, Some p, h(p \<mapsto> zero_task\<lparr>t_id := rid, clk := c\<rparr>)))"

text \<open>\<open>rtf_task_copy\<close> allocates into its local parameter: the caller's pointer is unchanged.\<close>

definition rtf_task_copy :: "heap \<Rightarrow> task_ptr option \<Rightarrow> task_ptr \<Rightarrow> (int \<times> heap) option" where
  "rtf_task_copy h fresh src =
     (case fresh of
        None \<Rightarrow> Some (0, h)
      | Some p \<Rightarrow> do { t \<leftarrow> h src; Some (1, h(p \<mapsto> t)) })"

definition rtf_task_release :: "heap \<Rightarrow> task_ptr \<Rightarrow> heap" where
  "rtf_task_release h p = h(p := None)"

subsection \<open>Getters and setters\<close>

definition rtf_task_get_cpu :: "rtf_task \<Rightarrow> u32" where
  "rtf_task_get_cpu t = u32_of_u64 (cpu t)"

definition rtf_task_set_cpu :: "rtf_task \<Rightarrow> u32 \<Rightarrow> rtf_task" where
  "rtf_task_set_cpu t c = t\<lparr>cpu := u64_of_u32 c\<rparr>"

definition rtf_task_get_runtime :: "rtf_task \<Rightarrow> u64" where
  "rtf_task_get_runtime t = runtime (params t)"

definition rtf_task_get_des_runtime :: "rtf_task \<Rightarrow> u64" where
  "rtf_task_get_des_runtime t = des_runtime (params t)"

definition rtf_task_get_accepted_runtime :: "rtf_task \<Rightarrow> u64" where
  "rtf_task_get_accepted_runtime t = acceptedt t"

definition rtf_task_set_accepted_runtime :: "rtf_task \<Rightarrow> u64 \<Rightarrow> rtf_task" where
  "rtf_task_set_accepted_runtime t r = t\<lparr>acceptedt := r\<rparr>"

definition rtf_task_get_period :: "rtf_task \<Rightarrow> u64" where
  "rtf_task_get_period t = period (params t)"

definition rtf_task_get_deadline :: "rtf_task \<Rightarrow> u64" where
  "rtf_task_get_deadline t = deadline (params t)"

definition rtf_task_get_priority :: "rtf_task \<Rightarrow> u32" where
  "rtf_task_get_priority t = priority (params t)"

definition rtf_task_get_real_priority :: "rtf_task \<Rightarrow> u32" where
  "rtf_task_get_real_priority t = schedprio t"

definition rtf_task_set_real_priority :: "rtf_task \<Rightarrow> u32 \<Rightarrow> rtf_task" where
  "rtf_task_set_real_priority t p = t\<lparr>schedprio := p\<rparr>"

definition rtf_task_get_ignore_admission :: "rtf_task \<Rightarrow> u8" where
  "rtf_task_get_ignore_admission t = ignore_admission (params t)"

text \<open>The inner \<open>None\<close> is NULL: no preferred plugin.\<close>

definition rtf_task_get_preferred_plugin :: "rtf_task \<Rightarrow> string option option" where
  "rtf_task_get_preferred_plugin t = do {
     s \<leftarrow> cstr (sched_plugin (params t));
     Some (if s = [] then None else Some s)
   }"

definition rtf_task_get_min_declared :: "rtf_task \<Rightarrow> u64" where
  "rtf_task_get_min_declared t =
     (if period (params t) = 0 then deadline (params t)
      else if deadline (params t) = 0 then period (params t)
      else if deadline (params t) < period (params t) then deadline (params t)
      else period (params t))"

text \<open>The minimum is narrowed to \<open>int\<close> before the division.\<close>

definition rtf_task_get_util :: "rtf_task \<Rightarrow> f32" where
  "rtf_task_get_util t =
     (let mn = s32_of_u64 (rtf_task_get_min_declared t)
      in if mn = 0 \<or> runtime (params t) = 0 then - 1
         else f32_div (f32_of_u64 (runtime (params t))) (f32_of_int mn))"

definition rtf_task_get_des_util :: "rtf_task \<Rightarrow> f32" where
  "rtf_task_get_des_util t =
     (let mn = s32_of_u64 (rtf_task_get_min_declared t)
      in if mn = 0 \<or> des_runtime (params t) = 0 then - 1
         else f32_div (f32_of_u64 (des_runtime (params t))) (f32_of_int mn))"

subsection \<open>Comparison\<close>

datatype PARAM = RUNTIME | PERIOD | DEADLINE | PRIORITY

definition ASC :: int where "ASC = 1"
definition DSC :: int where "DSC = - 1"

definition cmp3 :: "'a::linorder \<Rightarrow> 'a \<Rightarrow> int" where
  "cmp3 x y = (if x > y then 1 else if x < y then - 1 else 0)"

definition task_cmp_deadline :: "rtf_task \<Rightarrow> rtf_task \<Rightarrow> int" where
  "task_cmp_deadline t1 t2 = cmp3 (deadline (params t1)) (deadline (params t2))"

definition task_cmp_period :: "rtf_task \<Rightarrow> rtf_task \<Rightarrow> int" where
  "task_cmp_period t1 t2 = cmp3 (period (params t1)) (period (params t2))"

definition task_cmp_runtime :: "rtf_task \<Rightarrow> rtf_task \<Rightarrow> int" where
  "task_cmp_runtime t1 t2 = cmp3 (runtime (params t1)) (runtime (params t2))"

definition task_cmp_priority :: "rtf_task \<Rightarrow> rtf_task \<Rightarrow> int" where
  "task_cmp_priority t1 t2 = cmp3 (priority (params t1)) (priority (params t2))"

definition task_cmp :: "rtf_task \<Rightarrow> rtf_task \<Rightarrow> PARAM \<Rightarrow> int \<Rightarrow> int" where
  "task_cmp t1 t2 p flag =
     (let flag = (if flag \<noteq> ASC \<and> flag \<noteq> DSC then ASC else flag)
      in case p of
           PERIOD \<Rightarrow> flag * task_cmp_period t1 t2
         | RUNTIME \<Rightarrow> flag * task_cmp_runtime t1 t2
         | DEADLINE \<Rightarrow> flag * task_cmp_deadline t1 t2
         | PRIORITY \<Rightarrow> flag * task_cmp_priority t1 t2)"

text \<open>The integer a comparison sorts by.\<close>

definition sort_key :: "PARAM \<Rightarrow> int \<Rightarrow> rtf_task \<Rightarrow> int" where
  "sort_key p flag t = (if flag = DSC then - 1 else 1) *
     (case p of
        PERIOD \<Rightarrow> uint (period (params t))
      | RUNTIME \<Rightarrow> uint (runtime (params t))
      | DEADLINE \<Rightarrow> uint (deadline (params t))
      | PRIORITY \<Rightarrow> uint (priority (params t)))"

lemma task_cmp_sign:
  "0 < task_cmp t1 t2 p flag \<longleftrightarrow> sort_key p flag t2 < sort_key p flag t1"
  "task_cmp t1 t2 p flag < 0 \<longleftrightarrow> sort_key p flag t1 < sort_key p flag t2"
  by (auto simp: task_cmp_def sort_key_def Let_def cmp3_def ASC_def DSC_def task_cmp_period_def
      task_cmp_runtime_def task_cmp_deadline_def task_cmp_priority_def word_less_def
      split: PARAM.splits)

subsection \<open>Utilisation\<close>

text \<open>The values of \<open>int min\<close> and of the utilisation when the declared times fit an \<open>int\<close>.\<close>

lemma min_declared_le:
  "period (params t) \<noteq> 0 \<Longrightarrow> rtf_task_get_min_declared t \<le> period (params t)"
  "deadline (params t) \<noteq> 0 \<Longrightarrow> rtf_task_get_min_declared t \<le> deadline (params t)"
  by (auto simp: rtf_task_get_min_declared_def)

lemma min_declared_0:
  "rtf_task_get_min_declared t = 0 \<longleftrightarrow> period (params t) = 0 \<and> deadline (params t) = 0"
  by (auto simp: rtf_task_get_min_declared_def)

lemma f32_of_int_nonneg: "0 \<le> i \<Longrightarrow> 0 \<le> f32_of_int i"
  by (simp add: f32_of_int_def f32_round_def fround_nonneg)

lemma f32_of_u64_nonneg: "0 \<le> f32_of_u64 w"
  by (simp add: f32_of_u64_def f32_of_int_nonneg)

lemma f32_div_nonneg: "0 \<le> x \<Longrightarrow> 0 \<le> y \<Longrightarrow> 0 \<le> f32_div x y"
  by (simp add: f32_div_def f32_round_def fround_nonneg)

lemma util_nonneg:
  assumes "unat (rtf_task_get_min_declared t) < 2 ^ 31"
  shows "rtf_task_get_util t = - 1 \<or> 0 \<le> rtf_task_get_util t"
    and "rtf_task_get_des_util t = - 1 \<or> 0 \<le> rtf_task_get_des_util t"
  using assms
  by (auto simp: rtf_task_get_util_def rtf_task_get_des_util_def Let_def s32_of_u64_small
      intro!: f32_div_nonneg f32_of_u64_nonneg f32_of_int_nonneg)

text \<open>The getters of the parameters do not depend on the bookkeeping fields.\<close>

lemma getters_params:
  assumes "params t' = params t"
  shows "rtf_task_get_util t' = rtf_task_get_util t" "rtf_task_get_des_util t' = rtf_task_get_des_util t"
    "rtf_task_get_runtime t' = rtf_task_get_runtime t" "rtf_task_get_des_runtime t' = rtf_task_get_des_runtime t"
    "rtf_task_get_min_declared t' = rtf_task_get_min_declared t" "rtf_task_get_period t' = rtf_task_get_period t"
    "rtf_task_get_priority t' = rtf_task_get_priority t" "sort_key p flag t' = sort_key p flag t"
  using assms
  by (simp_all add: rtf_task_get_util_def rtf_task_get_des_util_def rtf_task_get_runtime_def Let_def
      rtf_task_get_des_runtime_def rtf_task_get_min_declared_def rtf_task_get_period_def
      rtf_task_get_priority_def sort_key_def split: PARAM.split)

end
