(* ===== verification/Taskset.thy ===== *)
theory Taskset
  imports LinkedList Task
begin

text \<open>
  Task sets, \<open>daemon/retif_taskset.c\<close>: a linked list of pointers to tasks.

  Every operation is the list operation with a comparison or key function that follows the
  pointers into the task store.  The two interpretations below discharge the contracts
  \<open>comparator\<close> and \<open>key_matcher\<close> for these functions on the pointers that are allocated; the
  lemmas after them restate the list results for task sets.
\<close>

type_synonym rtf_taskset = "task_ptr clist"

subsection \<open>Comparison functions\<close>

definition ptr_cmp :: "heap \<Rightarrow> PARAM \<Rightarrow> int \<Rightarrow> task_ptr cmpfun" where
  "ptr_cmp h p flag a b = do { t1 \<leftarrow> h a; t2 \<leftarrow> h b; Some (task_cmp t1 t2 p flag) }"

definition rtf_taskset_cmp_deadline_asc :: "heap \<Rightarrow> task_ptr cmpfun" where
  "rtf_taskset_cmp_deadline_asc h = ptr_cmp h DEADLINE ASC"

definition rtf_taskset_cmp_deadline_dsc :: "heap \<Rightarrow> task_ptr cmpfun" where
  "rtf_taskset_cmp_deadline_dsc h = ptr_cmp h DEADLINE DSC"

definition rtf_taskset_cmp_priority_asc :: "heap \<Rightarrow> task_ptr cmpfun" where
  "rtf_taskset_cmp_priority_asc h = ptr_cmp h PRIORITY ASC"

definition rtf_taskset_cmp_priority_dsc :: "heap \<Rightarrow> task_ptr cmpfun" where
  "rtf_taskset_cmp_priority_dsc h = ptr_cmp h PRIORITY DSC"

definition rtf_taskset_cmp_period_asc :: "heap \<Rightarrow> task_ptr cmpfun" where
  "rtf_taskset_cmp_period_asc h = ptr_cmp h PERIOD ASC"

definition rtf_taskset_cmp_period_dsc :: "heap \<Rightarrow> task_ptr cmpfun" where
  "rtf_taskset_cmp_period_dsc h = ptr_cmp h PERIOD DSC"

definition rtf_taskset_cmp_wcet_asc :: "heap \<Rightarrow> task_ptr cmpfun" where
  "rtf_taskset_cmp_wcet_asc h = ptr_cmp h RUNTIME ASC"

definition rtf_taskset_cmp_wcet_dsc :: "heap \<Rightarrow> task_ptr cmpfun" where
  "rtf_taskset_cmp_wcet_dsc h = ptr_cmp h RUNTIME DSC"

definition rtf_taskset_cmp_ppid :: "heap \<Rightarrow> (task_ptr, int) keyfun" where
  "rtf_taskset_cmp_ppid h p ppid = do { t \<leftarrow> h p; Some (if ptid t = ppid then 1 else 0) }"

definition rtf_taskset_cmp_rsvid :: "heap \<Rightarrow> (task_ptr, u32) keyfun" where
  "rtf_taskset_cmp_rsvid h p rsvid = do { t \<leftarrow> h p; Some (if t_id t = rsvid then 1 else 0) }"

lemmas taskset_cmp_defs =
  rtf_taskset_cmp_deadline_asc_def rtf_taskset_cmp_deadline_dsc_def
  rtf_taskset_cmp_priority_asc_def rtf_taskset_cmp_priority_dsc_def
  rtf_taskset_cmp_period_asc_def rtf_taskset_cmp_period_dsc_def
  rtf_taskset_cmp_wcet_asc_def rtf_taskset_cmp_wcet_dsc_def

subsection \<open>Operations\<close>

definition rtf_taskset_init :: rtf_taskset where
  "rtf_taskset_init = list_init"

definition rtf_taskset_is_empty :: "rtf_taskset \<Rightarrow> bool" where
  "rtf_taskset_is_empty ts = list_is_empty ts"

definition rtf_taskset_get_size :: "rtf_taskset \<Rightarrow> int" where
  "rtf_taskset_get_size ts = list_get_size ts"

definition rtf_taskset_add_top :: "rtf_taskset \<Rightarrow> task_ptr \<Rightarrow> rtf_taskset" where
  "rtf_taskset_add_top ts p = list_add_top ts p"

definition rtf_taskset_add_sorted_dl :: "heap \<Rightarrow> rtf_taskset \<Rightarrow> task_ptr \<Rightarrow> rtf_taskset option" where
  "rtf_taskset_add_sorted_dl h ts p = do {
     (_, ts') \<leftarrow> list_add_sorted ts p (rtf_taskset_cmp_deadline_asc h);
     Some ts'
   }"

definition rtf_taskset_add_sorted_pr ::
  "heap \<Rightarrow> rtf_taskset \<Rightarrow> task_ptr \<Rightarrow> (task_ptr node_ptr \<times> rtf_taskset) option" where
  "rtf_taskset_add_sorted_pr h ts p = list_add_sorted ts p (rtf_taskset_cmp_period_dsc h)"

definition rtf_taskset_add_sorted_prio ::
  "heap \<Rightarrow> rtf_taskset \<Rightarrow> task_ptr \<Rightarrow> (task_ptr node_ptr \<times> rtf_taskset) option" where
  "rtf_taskset_add_sorted_prio h ts p = list_add_sorted ts p (rtf_taskset_cmp_priority_asc h)"

definition rtf_taskset_remove_top :: "rtf_taskset \<Rightarrow> (task_ptr option \<times> rtf_taskset) option" where
  "rtf_taskset_remove_top ts = list_remove_top ts"

definition rtf_taskset_get_top_task :: "rtf_taskset \<Rightarrow> task_ptr option option" where
  "rtf_taskset_get_top_task ts = list_get_top_elem ts"

definition rtf_taskset_get_i_task :: "rtf_taskset \<Rightarrow> u32 \<Rightarrow> task_ptr slot option option" where
  "rtf_taskset_get_i_task ts i = list_get_i_elem ts i"

definition rtf_taskset_get_i_node :: "rtf_taskset \<Rightarrow> u32 \<Rightarrow> task_ptr node_ptr option" where
  "rtf_taskset_get_i_node ts i = list_get_i_node ts i"

definition rtf_taskset_get_next_node :: "rtf_taskset \<Rightarrow> task_ptr node_ptr \<Rightarrow> task_ptr node_ptr" where
  "rtf_taskset_get_next_node ts p = list_get_next_node ts p"

definition rtf_taskset_search :: "heap \<Rightarrow> rtf_taskset \<Rightarrow> u32 \<Rightarrow> task_ptr option option" where
  "rtf_taskset_search h ts rsvid = list_search_elem ts rsvid (rtf_taskset_cmp_rsvid h)"

definition rtf_taskset_sort :: "heap \<Rightarrow> rtf_taskset \<Rightarrow> PARAM \<Rightarrow> int \<Rightarrow> rtf_taskset option" where
  "rtf_taskset_sort h ts p flag =
     (case p of
        PERIOD \<Rightarrow>
          if flag = ASC then list_sort ts (rtf_taskset_cmp_period_asc h)
          else list_sort ts (rtf_taskset_cmp_period_dsc h)
      | DEADLINE \<Rightarrow>
          if flag = ASC then list_sort ts (rtf_taskset_cmp_deadline_asc h)
          else list_sort ts (rtf_taskset_cmp_deadline_dsc h)
      | PRIORITY \<Rightarrow>
          if flag = ASC then list_sort ts (rtf_taskset_cmp_priority_asc h)
          else list_sort ts (rtf_taskset_cmp_priority_dsc h)
      | RUNTIME \<Rightarrow>
          if flag = ASC then list_sort ts (rtf_taskset_cmp_wcet_asc h)
          else list_sort ts (rtf_taskset_cmp_wcet_dsc h))"

definition rtf_taskset_remove_by_ppid ::
  "heap \<Rightarrow> rtf_taskset \<Rightarrow> int \<Rightarrow> (task_ptr option \<times> rtf_taskset) option" where
  "rtf_taskset_remove_by_ppid h ts ppid = list_remove ts ppid (rtf_taskset_cmp_ppid h)"

definition rtf_taskset_remove_by_rsvid ::
  "heap \<Rightarrow> rtf_taskset \<Rightarrow> u32 \<Rightarrow> (task_ptr option \<times> rtf_taskset) option" where
  "rtf_taskset_remove_by_rsvid h ts rsvid = list_remove ts rsvid (rtf_taskset_cmp_rsvid h)"

lemma remove_seek_shorter:
  "remove_seek f k xs = Some (Some x, rest) \<Longrightarrow> length rest < length xs"
  by (induction xs arbitrary: rest) (auto simp: bind_eq_Some split: if_splits)

lemma list_remove_shorter:
  assumes "list_remove l k f = Some (Some x, l')"
  shows "length (list_root l') < length (list_root l)"
proof (cases "list_root l")
  case Nil
  with assms show ?thesis
    by (simp add: list_remove_def node_elem_def split: if_splits)
next
  case (Cons y ys)
  with assms obtain c where c: "f y k = Some c"
    by (auto simp: list_remove_def node_elem_def bind_eq_Some split: if_splits)
  show ?thesis
  proof (cases "c = 0")
    case True
    with assms Cons c obtain rest where "remove_seek f k ys = Some (Some x, rest)"
        and "list_root l' = y # rest"
      by (auto simp: list_remove_def node_elem_def bind_eq_Some split: if_splits option.splits)
    with Cons show ?thesis by (simp add: remove_seek_shorter)
  next
    case False
    with assms Cons c show ?thesis
      by (auto simp: list_remove_def list_remove_top_def node_elem_def node_next_def split: if_splits)
  qed
qed

function rtf_taskset_remove_all_by_ppid :: "heap \<Rightarrow> rtf_taskset \<Rightarrow> int \<Rightarrow> rtf_taskset option" where
  "rtf_taskset_remove_all_by_ppid h ts ppid = do {
     (t, ts') \<leftarrow> rtf_taskset_remove_by_ppid h ts ppid;
     case t of None \<Rightarrow> Some ts' | Some _ \<Rightarrow> rtf_taskset_remove_all_by_ppid h ts' ppid
   }"
  by pat_completeness auto
termination
  by (relation "measure (\<lambda>(h, ts, ppid). length (list_root ts))")
     (auto simp: rtf_taskset_remove_by_ppid_def dest: list_remove_shorter)

declare rtf_taskset_remove_all_by_ppid.simps [simp del]

definition rtf_taskset_iterator_init :: "rtf_taskset \<Rightarrow> task_ptr iterator_t" where
  "rtf_taskset_iterator_init ts = iterator_init ts"

definition rtf_taskset_iterator_get_next :: "task_ptr iterator_t \<Rightarrow> task_ptr iterator_t option" where
  "rtf_taskset_iterator_get_next it = node_next it"

definition rtf_taskset_iterator_get_elem :: "task_ptr iterator_t \<Rightarrow> task_ptr option" where
  "rtf_taskset_iterator_get_elem it = iterator_get_elem it"

subsection \<open>The contracts hold\<close>

definition allocated :: "heap \<Rightarrow> task_ptr \<Rightarrow> bool" where
  "allocated h p \<longleftrightarrow> p \<in> dom h"

lemma allocatedE: "allocated h p \<Longrightarrow> (\<And>t. h p = Some t \<Longrightarrow> P) \<Longrightarrow> P"
  by (auto simp: allocated_def)

interpretation pcmp: comparator "ptr_cmp h p flag" "allocated h" "\<lambda>a. sort_key p flag (the (h a))"
  for h p flag
  by unfold_locales (auto simp: ptr_cmp_def task_cmp_sign elim!: allocatedE)

interpretation ppid: key_matcher "rtf_taskset_cmp_ppid h" ppid "allocated h" "\<lambda>a. ptid (the (h a)) = ppid"
  for h ppid
  by unfold_locales (auto simp: rtf_taskset_cmp_ppid_def elim!: allocatedE)

interpretation rsvid: key_matcher "rtf_taskset_cmp_rsvid h" rsvid "allocated h" "\<lambda>a. t_id (the (h a)) = rsvid"
  for h rsvid
  by unfold_locales (auto simp: rtf_taskset_cmp_rsvid_def elim!: allocatedE)

subsection \<open>Well-formed task sets\<close>

text \<open>The counter is right, no task occurs twice, and every pointer is allocated.\<close>

definition ts_ok :: "heap \<Rightarrow> rtf_taskset \<Rightarrow> bool" where
  "ts_ok h ts \<longleftrightarrow> list_ok ts \<and> distinct (list_root ts) \<and> (\<forall>p \<in> set (list_root ts). allocated h p)"

abbreviation ts_tasks :: "rtf_taskset \<Rightarrow> task_ptr list" where
  "ts_tasks ts \<equiv> list_root ts"

definition ts_of :: "task_ptr list \<Rightarrow> rtf_taskset" where
  "ts_of xs = \<lparr>list_n = int (length xs), list_root = xs\<rparr>"

lemma list_root_ts_of [simp]: "list_root (ts_of xs) = xs"
  by (simp add: ts_of_def)

lemma list_ok_ts_of [simp]: "list_ok (ts_of xs)"
  by (simp add: ts_of_def list_ok_def)

lemma ts_ok_ts_of [simp]: "ts_ok h (ts_of xs) \<longleftrightarrow> distinct xs \<and> (\<forall>p \<in> set xs. allocated h p)"
  by (simp add: ts_ok_def)

lemma ts_ok_init [simp]: "ts_ok h rtf_taskset_init"
  by (simp add: ts_ok_def rtf_taskset_init_def)

lemma list_ok_ts_of_eq: "list_ok ts \<Longrightarrow> ts = ts_of (list_root ts)"
  by (simp add: list_ok_def ts_of_def)

lemma allocated_upd [simp]: "allocated (h(p \<mapsto> t)) q \<longleftrightarrow> q = p \<or> allocated h q"
  by (auto simp: allocated_def)

lemma allocated_Some: "h p = Some t \<Longrightarrow> allocated h p"
  by (auto simp: allocated_def)

lemma ts_ok_upd: "ts_ok h ts \<Longrightarrow> ts_ok (h(p \<mapsto> t)) ts"
  by (auto simp: ts_ok_def)

lemma ts_ok_free: "ts_ok h ts \<Longrightarrow> p \<notin> set (list_root ts) \<Longrightarrow> ts_ok (h(p := None)) ts"
  by (auto simp: ts_ok_def allocated_def)

lemma ts_search:
  "ts_ok h ts \<Longrightarrow> rtf_taskset_search h ts rsvid = Some (find (\<lambda>a. t_id (the (h a)) = rsvid) (list_root ts))"
  by (simp add: rtf_taskset_search_def ts_ok_def rsvid.list_search_elem_spec)

lemma ts_remove_by_ppid:
  "ts_ok h ts \<Longrightarrow> rtf_taskset_remove_by_ppid h ts ppid =
     Some (find (\<lambda>a. ptid (the (h a)) = ppid) (list_root ts),
           ts_of (drop_first (\<lambda>a. ptid (the (h a)) = ppid) (list_root ts)))"
  by (simp add: rtf_taskset_remove_by_ppid_def ts_ok_def ppid.list_remove_spec ts_of_def)

lemma ts_remove_by_rsvid:
  "ts_ok h ts \<Longrightarrow> rtf_taskset_remove_by_rsvid h ts rsvid =
     Some (find (\<lambda>a. t_id (the (h a)) = rsvid) (list_root ts),
           ts_of (drop_first (\<lambda>a. t_id (the (h a)) = rsvid) (list_root ts)))"
  by (simp add: rtf_taskset_remove_by_rsvid_def ts_ok_def rsvid.list_remove_spec ts_of_def)

lemma ts_ok_drop_first: "ts_ok h ts \<Longrightarrow> ts_ok h (ts_of (drop_first m (list_root ts)))"
  by (auto simp: ts_ok_def distinct_drop_first dest: set_drop_first_subset [THEN subsetD])

subsection \<open>Sorted insertion\<close>

lemma ptr_add_sorted:
  assumes "ts_ok h ts" and "allocated h p"
  shows "list_add_sorted ts p (ptr_cmp h P flag) =
    Some (p # dropWhile (\<lambda>x. sort_key P flag (the (h x)) < sort_key P flag (the (h p))) (list_root ts),
          ts_of (insert_by (\<lambda>x. sort_key P flag (the (h x))) p (list_root ts)))"
  using pcmp.list_add_sorted_spec [of ts h p P flag] assms
  by (simp add: ts_ok_def ts_of_def)

subsection \<open>What the operations of a task set do\<close>

text \<open>Every sort is a list sort by one of the keys.\<close>

lemma taskset_sort_eq:
  "rtf_taskset_sort h ts p flag = list_sort ts (ptr_cmp h p (if flag = ASC then ASC else DSC))"
  by (simp add: rtf_taskset_sort_def taskset_cmp_defs split: PARAM.splits)

lemma sort_key_flag: "sort_key p (if flag = ASC then ASC else DSC) t = (if flag = ASC then 1 else - 1) * sort_key p ASC t"
  by (simp add: sort_key_def ASC_def DSC_def)

text \<open>C40: Sorting a task set of two or more tasks loses tasks.  For every parameter and direction
  the sort returns; what is left is ordered by the parameter, descending for every flag but ASC (the comment says that an invalid flag sorts
  ascending), is part of the tasks of the set and
  starts with a task whose parameter is extreme; but a set of two or more tasks keeps fewer tasks
  than it had while its counter is unchanged.  (\<open>merge\<close> returns NULL as soon as one of its two
  lists is exhausted, so the rest of the other list is dropped.)\<close>

theorem rtf_taskset_sort_loses_tasks:
  assumes "ts_ok h ts"
  shows "\<exists>ts'. rtf_taskset_sort h ts p flag = Some ts' \<and> list_n ts' = list_n ts
    \<and> sorted (map (\<lambda>x. (if flag = ASC then 1 else - 1) * sort_key p ASC (the (h x))) (list_root ts'))
    \<and> mset (list_root ts') \<subseteq># mset (list_root ts)
    \<and> (list_root ts \<noteq> [] \<longrightarrow> list_root ts' \<noteq> [] \<and>
         (\<forall>x \<in> set (list_root ts).
            (if flag = ASC then 1 else - 1) * sort_key p ASC (the (h (hd (list_root ts'))))
              \<le> (if flag = ASC then 1 else - 1) * sort_key p ASC (the (h x))))
    \<and> (2 \<le> length (list_root ts) \<longrightarrow> length (list_root ts') < length (list_root ts) \<and> \<not> list_ok ts')"
proof -
  let ?f = "if flag = ASC then ASC else DSC" and ?xs = "list_root ts"
  from assms have v: "\<forall>x \<in> set ?xs. allocated h x" and ok: "list_ok ts"
    by (simp_all add: ts_ok_def)
  obtain r where r: "merge_sort (ptr_cmp h p ?f) ?xs = Some r"
      "sorted (map (\<lambda>a. sort_key p ?f (the (h a))) r)" "mset r \<subseteq># mset ?xs"
      "?xs \<noteq> [] \<longrightarrow> r \<noteq> [] \<and> sort_key p ?f (the (h (hd r))) = Min ((\<lambda>a. sort_key p ?f (the (h a))) ` set ?xs)"
      "2 \<le> length ?xs \<longrightarrow> length r < length ?xs"
    using pcmp.merge_sort_spec [OF v, of p ?f] by blast
  have "\<forall>x \<in> set ?xs. sort_key p ?f (the (h (hd r))) \<le> sort_key p ?f (the (h x))"
    using r(4) by (metis (no_types, lifting) Min_le empty_iff empty_set finite_imageI finite_set image_eqI)
  then show ?thesis
    using r ok by (auto simp: taskset_sort_eq list_sort_def sort_key_flag list_ok_def)
qed

theorem rtf_taskset_sort_loses_tasks_witness:
  "rtf_taskset_sort [1 \<mapsto> zero_task, 2 \<mapsto> zero_task] (ts_of [1, 2]) PERIOD ASC \<noteq> None"
  using rtf_taskset_sort_loses_tasks [of "[1 \<mapsto> zero_task, 2 \<mapsto> zero_task]" "ts_of [1, 2]" PERIOD ASC]
  by (auto simp: allocated_def)

text \<open>C36: Sorted insertion into a well-formed task set puts the task before the first task whose key
  is not smaller, so before tasks with an equal key: the set stays well formed, gains exactly this task, stays sorted by the key, and
  the returned node is the one of the new task, with the tasks behind it.  The key is the period,
  longest first, for \<open>add_sorted_pr\<close> and the priority for \<open>add_sorted_prio\<close>.  (The comments of the code announce the opposite on two points: an equal
  element goes after, and lower periods first.)\<close>

theorem rtf_taskset_add_sorted_correct:
  assumes "ts_ok h ts" and "h p = Some t" and "p \<notin> set (list_root ts)"
  shows "(\<exists>us vs ts'. list_root ts = us @ vs \<and> list_root ts' = us @ p # vs \<and> ts_ok h ts'
      \<and> rtf_taskset_add_sorted_pr h ts p = Some (p # vs, ts')
      \<and> (\<forall>u \<in> set us. period (params t) < period (params (the (h u))))
      \<and> (\<forall>v vs'. vs = v # vs' \<longrightarrow> period (params (the (h v))) \<le> period (params t)))
    \<and> (\<exists>us vs ts'. list_root ts = us @ vs \<and> list_root ts' = us @ p # vs \<and> ts_ok h ts'
      \<and> rtf_taskset_add_sorted_prio h ts p = Some (p # vs, ts')
      \<and> (\<forall>u \<in> set us. priority (params (the (h u))) < priority (params t))
      \<and> (\<forall>v vs'. vs = v # vs' \<longrightarrow> priority (params t) \<le> priority (params (the (h v)))))"
proof -
  have "\<exists>us vs ts'. list_root ts = us @ vs \<and> list_root ts' = us @ p # vs \<and> ts_ok h ts'
      \<and> list_add_sorted ts p (ptr_cmp h P flag) = Some (p # vs, ts')
      \<and> (\<forall>u \<in> set us. sort_key P flag (the (h u)) < sort_key P flag t)
      \<and> (\<forall>v vs'. vs = v # vs' \<longrightarrow> sort_key P flag t \<le> sort_key P flag (the (h v)))" for P flag
  proof -
    let ?k = "\<lambda>x. sort_key P flag (the (h x))"
    let ?Q = "\<lambda>x. ?k x < ?k p"
    have "ts_ok h (ts_of (insert_by ?k p (list_root ts)))"
      using assms by (auto simp: distinct_insert_by ts_ok_def allocated_def)
    moreover have "list_root ts = takeWhile ?Q (list_root ts) @ dropWhile ?Q (list_root ts)" by simp
    moreover have "\<forall>v vs'. dropWhile ?Q (list_root ts) = v # vs' \<longrightarrow> ?k p \<le> ?k v"
      by (metis hd_dropWhile list.distinct(1) list.sel(1) not_le)
    moreover have "allocated h p" using assms(2) by (rule allocated_Some)
    moreover have "\<forall>u \<in> set (takeWhile ?Q (list_root ts)). ?Q u" by (auto dest: set_takeWhileD)
    ultimately show ?thesis
      using assms(1,2) ptr_add_sorted [OF assms(1), of p P flag]
      by (intro exI [of _ "takeWhile ?Q (list_root ts)"] exI [of _ "dropWhile ?Q (list_root ts)"]
            exI [of _ "ts_of (insert_by ?k p (list_root ts))"]) (simp add: insert_by_def)
  qed
  from this [of PERIOD DSC] this [of PRIORITY ASC]
  have "\<exists>us vs ts'. list_root ts = us @ vs \<and> list_root ts' = us @ p # vs \<and> ts_ok h ts'
      \<and> rtf_taskset_add_sorted_pr h ts p = Some (p # vs, ts')
      \<and> (\<forall>u \<in> set us. period (params t) < period (params (the (h u))))
      \<and> (\<forall>v vs'. vs = v # vs' \<longrightarrow> period (params (the (h v))) \<le> period (params t))"
    and "\<exists>us vs ts'. list_root ts = us @ vs \<and> list_root ts' = us @ p # vs \<and> ts_ok h ts'
      \<and> rtf_taskset_add_sorted_prio h ts p = Some (p # vs, ts')
      \<and> (\<forall>u \<in> set us. priority (params (the (h u))) < priority (params t))
      \<and> (\<forall>v vs'. vs = v # vs' \<longrightarrow> priority (params t) \<le> priority (params (the (h v))))"
    by (simp_all add: rtf_taskset_add_sorted_pr_def rtf_taskset_add_sorted_prio_def taskset_cmp_defs
        sort_key_def ASC_def DSC_def word_less_def word_le_def)
  then show ?thesis by (rule conjI)
qed

theorem rtf_taskset_add_sorted_correct_witness:
  "\<exists>ts'. rtf_taskset_add_sorted_pr [1 \<mapsto> zero_task, 2 \<mapsto> zero_task] (ts_of [1]) 2 = Some ([2, 1], ts')"
  using rtf_taskset_add_sorted_correct [of "[1 \<mapsto> zero_task, 2 \<mapsto> zero_task]" "ts_of [1]" 2 zero_task]
  by (auto simp: allocated_def Cons_eq_append_conv)

text \<open>Removing all tasks of a process removes exactly its tasks and keeps the others in order;
  the result is well formed.\<close>

theorem rtf_taskset_remove_all_by_ppid_filters:
  assumes "ts_ok h ts"
  shows "rtf_taskset_remove_all_by_ppid h ts pid =
      Some (ts_of (filter (\<lambda>x. ptid (the (h x)) \<noteq> pid) (list_root ts)))
    \<and> ts_ok h (ts_of (filter (\<lambda>x. ptid (the (h x)) \<noteq> pid) (list_root ts)))"
  using assms
proof (induction "length (list_root ts)" arbitrary: ts rule: less_induct)
  case less
  let ?m = "\<lambda>x. ptid (the (h x)) = pid"
  show ?case
  proof (cases "find ?m (list_root ts)")
    case None
    then have "\<forall>x \<in> set (list_root ts). \<not> ?m x" by (auto simp: find_None_iff)
    then have "filter (\<lambda>x. \<not> ?m x) (list_root ts) = list_root ts" by (simp add: filter_id_conv)
    moreover have "ts = ts_of (list_root ts)"
      using less.prems by (simp add: ts_ok_def list_ok_ts_of_eq)
    ultimately show ?thesis
      using None less.prems
      by (subst rtf_taskset_remove_all_by_ppid.simps) (simp add: ts_remove_by_ppid drop_first_absent)
  next
    case (Some x)
    let ?r = "ts_of (drop_first ?m (list_root ts))"
    from drop_first_split [OF Some]
    have f: "filter (\<lambda>x. \<not> ?m x) (drop_first ?m (list_root ts)) = filter (\<lambda>x. \<not> ?m x) (list_root ts)"
      by force
    have "length (list_root ?r) < length (list_root ts)"
      using mset_drop_first [OF Some] by (metis lessI list_root_ts_of size_add_mset size_mset)
    moreover have "ts_ok h ?r" using less.prems by (rule ts_ok_drop_first)
    ultimately show ?thesis
      using less.hyps [of ?r] Some less.prems f
      by (subst rtf_taskset_remove_all_by_ppid.simps) (simp add: ts_remove_by_ppid)
  qed
qed

theorem rtf_taskset_remove_all_by_ppid_witness:
  "rtf_taskset_remove_all_by_ppid [1 \<mapsto> zero_task, 2 \<mapsto> zero_task\<lparr>ptid := 7\<rparr>] (ts_of [1, 2]) 7 = Some (ts_of [1])"
  using rtf_taskset_remove_all_by_ppid_filters
    [of "[1 \<mapsto> zero_task, 2 \<mapsto> zero_task\<lparr>ptid := 7\<rparr>]" "ts_of [1, 2]" 7]
  by (simp add: allocated_def zero_task_def)

end
