(* ===== verification/PluginBase.thy ===== *)
theory PluginBase
  imports Taskset
begin

text \<open>
  What the four scheduling plugins share: the plugin record of \<open>daemon/retif_plugin.h.in\<close>, the
  state they run in, and the helpers that their sources repeat (the choice of a CPU, the test for
  a preferred plugin, the scheduling system calls).

  The kernel is a parameter: \<open>'k\<close> is its state and the record \<open>'k kernel\<close> holds the system calls.
  A plugin library keeps static counters; they are part of \<open>'k world\<close>, next to the task store,
  because every plugin entry loaded from the same library shares them.
\<close>

subsection \<open>System calls\<close>

type_synonym cpu_set_t = "nat set"

definition SCHED_OTHER :: int where "SCHED_OTHER = 0"
definition SCHED_FIFO :: int where "SCHED_FIFO = 1"
definition SCHED_RR :: int where "SCHED_RR = 2"
definition SCHED_DEADLINE :: int where "SCHED_DEADLINE = 6"

record sched_attr =
  sched_policy :: int
  sched_runtime :: u64
  sched_deadline :: u64
  sched_period :: u64

record 'k kernel =
  sys_calloc :: "heap \<Rightarrow> task_ptr option"
  sys_setaffinity :: "'k \<Rightarrow> int \<Rightarrow> cpu_set_t \<Rightarrow> int \<times> 'k"
  sys_setscheduler :: "'k \<Rightarrow> int \<Rightarrow> int \<Rightarrow> int \<Rightarrow> int \<times> 'k"
  sys_setattr :: "'k \<Rightarrow> int \<Rightarrow> sched_attr \<Rightarrow> int \<times> 'k"
  sys_getscheduler :: "'k \<Rightarrow> int \<Rightarrow> int"
  sys_priority_max :: "int \<Rightarrow> int"
  sys_priority_min :: "int \<Rightarrow> int"
  sys_nprocs :: int

text \<open>\<open>CPU_SET\<close> ignores a CPU beyond the set's 1024 bits.\<close>

definition CPU_SET :: "nat \<Rightarrow> cpu_set_t \<Rightarrow> cpu_set_t" where
  "CPU_SET c s = (if c < 1024 then insert c s else s)"

subsection \<open>Plugins and the state they run in\<close>

text \<open>The libraries the function pointers of a plugin are resolved in.\<close>

datatype plugin_lib = SCHED_EDF_so | SCHED_RM_so | SCHED_RR_so | SCHED_FP_so

record rtf_plugin =
  plg_id :: int
  plg_name :: string
  plg_path :: string
  dl_ptr :: plugin_lib
  prio_min :: int
  prio_max :: int
  cpulist :: "int list"
  cputot :: int
  util_free_percpu :: "f32 list"
  task_count_percpu :: "int list"
  plg_tasks :: "rtf_taskset list"

definition MAX_CPU :: nat where "MAX_CPU = 32"
definition MAX_PRIO :: nat where "MAX_PRIO = 100"

record 'k world =
  heap :: heap
  kern :: 'k
  rm_dist_prio :: "u32 list"
  rr_dist_prio :: "u32 list"
  rr_n_per_prio :: "int list list"

text \<open>Updating the task behind a pointer.\<close>

definition upd_world_task :: "'k world \<Rightarrow> task_ptr \<Rightarrow> (rtf_task \<Rightarrow> rtf_task) \<Rightarrow> 'k world option" where
  "upd_world_task w p f = do { h \<leftarrow> upd_task (heap w) p f; Some (w\<lparr>heap := h\<rparr>) }"

lemma upd_world_task_Some [c_simps]:
  "heap w p = Some t \<Longrightarrow> upd_world_task w p f = Some (w\<lparr>heap := (heap w)(p \<mapsto> f t)\<rparr>)"
  by (simp add: upd_world_task_def upd_task_def)

lemma upd_world_task_eq_Some:
  "upd_world_task w p f = Some w' \<longleftrightarrow> (\<exists>t. heap w p = Some t \<and> w' = w\<lparr>heap := (heap w)(p \<mapsto> f t)\<rparr>)"
  by (auto simp: upd_world_task_def upd_task_def bind_eq_Some)

subsection \<open>Choosing a CPU\<close>

text \<open>
  \<open>least_loaded_cpu\<close> as all four plugins write it: the load of the first CPU is the bound, and the
  loop replaces the choice, but not the bound, by every later CPU that is better than it.
\<close>

definition pick_cpu :: "('l \<Rightarrow> 'l \<Rightarrow> bool) \<Rightarrow> 'l list \<Rightarrow> rtf_plugin \<Rightarrow> int option" where
  "pick_cpu better load this = do {
     c0 \<leftarrow> aget (cpulist this) 0;
     bound \<leftarrow> iget load c0;
     for_each (\<lambda>choice i. do {
         c \<leftarrow> aget (cpulist this) i;
         l \<leftarrow> iget load c;
         Some (if better l bound then c else choice)
       }) c0 [1..<nat (cputot this)]
   }"

definition least_loaded_by_util :: "rtf_plugin \<Rightarrow> u32 option" where
  "least_loaded_by_util this =
     map_option u32_of_int (pick_cpu (\<lambda>f bound. f > bound) (util_free_percpu this) this)"

definition least_loaded_by_count :: "rtf_plugin \<Rightarrow> u32 option" where
  "least_loaded_by_count this =
     map_option u32_of_int (pick_cpu (\<lambda>n bound. n < bound) (task_count_percpu this) this)"

text \<open>
  \<open>eval_util_missing\<close> of the two plugins that test utilisations: nothing is missing when the
  utilisation fits some CPU of the plugin; otherwise the free utilisation of the least loaded CPU
  decides.
\<close>

fun fits_some_cpu :: "rtf_plugin \<Rightarrow> f32 \<Rightarrow> nat list \<Rightarrow> bool option" where
  "fits_some_cpu this task_util [] = Some False"
| "fits_some_cpu this task_util (i # is) = do {
     c \<leftarrow> aget (cpulist this) i;
     free \<leftarrow> iget (util_free_percpu this) c;
     if task_util \<le> free then Some True else fits_some_cpu this task_util is
   }"

definition missing_util :: "rtf_plugin \<Rightarrow> f32 \<Rightarrow> f32 option" where
  "missing_util this task_util = do {
     fits \<leftarrow> fits_some_cpu this task_util [0..<nat (cputot this)];
     if fits then Some 0
     else do {
       cpu_min \<leftarrow> least_loaded_by_util this;
       free \<leftarrow> iget (util_free_percpu this) (s32_of_u32 cpu_min);
       Some (f32_sub task_util free)
     }
   }"

subsection \<open>Per-CPU counters\<close>

text \<open>Updates of the per-CPU counters of a plugin, out of bounds undefined.\<close>

definition add_util_free :: "rtf_plugin \<Rightarrow> nat \<Rightarrow> (f32 \<Rightarrow> f32) \<Rightarrow> rtf_plugin option" where
  "add_util_free this c f = do {
     u \<leftarrow> aget (util_free_percpu this) c;
     us \<leftarrow> aset (util_free_percpu this) c (f u);
     Some (this\<lparr>util_free_percpu := us\<rparr>)
   }"

definition add_task_count :: "rtf_plugin \<Rightarrow> nat \<Rightarrow> int \<Rightarrow> rtf_plugin option" where
  "add_task_count this c d = do {
     k \<leftarrow> aget (task_count_percpu this) c;
     counts \<leftarrow> aset (task_count_percpu this) c (k + d);
     Some (this\<lparr>task_count_percpu := counts\<rparr>)
   }"

subsection \<open>Preferred plugin\<close>

definition prefers_another :: "rtf_plugin \<Rightarrow> rtf_task \<Rightarrow> bool option" where
  "prefers_another this t = do {
     preferred \<leftarrow> rtf_task_get_preferred_plugin t;
     Some (case preferred of None \<Rightarrow> False | Some s \<Rightarrow> plg_name this \<noteq> s)
   }"

subsection \<open>Attaching and detaching a thread\<close>

definition set_affinity_one :: "'k kernel \<Rightarrow> 'k \<Rightarrow> rtf_task \<Rightarrow> int \<times> 'k" where
  "set_affinity_one os k t = sys_setaffinity os k (tid t) (CPU_SET (unat (cpu t)) {})"

definition all_cpus :: "int \<Rightarrow> cpu_set_t" where
  "all_cpus n = fold CPU_SET [0..<nat n] {}"

definition posix_attach :: "'k kernel \<Rightarrow> int \<Rightarrow> task_ptr \<Rightarrow> 'k world \<Rightarrow> (int \<times> 'k world) option" where
  "posix_attach os policy p w = do {
     t \<leftarrow> heap w p;
     let (r, k) = set_affinity_one os (kern w) t;
     let w = w\<lparr>kern := k\<rparr>;
     if r < 0 then Some (RTF_ERROR, w)
     else do {
       let (r, k) = sys_setscheduler os (kern w) (tid t) policy (s32_of_u32 (schedprio t));
       let w = w\<lparr>kern := k\<rparr>;
       Some (if r < 0 then RTF_ERROR else RTF_OK, w)
     }
   }"

definition posix_detach :: "'k kernel \<Rightarrow> task_ptr \<Rightarrow> 'k world \<Rightarrow> (int \<times> 'k world) option" where
  "posix_detach os p w = do {
     t \<leftarrow> heap w p;
     let (r, k) = sys_setaffinity os (kern w) (tid t) (all_cpus (sys_nprocs os));
     let w = w\<lparr>kern := k\<rparr>;
     if r < 0 then Some (RTF_ERROR, w)
     else do {
       let (r, k) = sys_setscheduler os (kern w) (tid t) SCHED_OTHER 0;
       let w = w\<lparr>kern := k\<rparr>;
       Some (if r < 0 then RTF_ERROR else RTF_OK, w)
     }
   }"

text \<open>The end of every release: a thread that no longer runs under the plugin's policy has
  nothing to detach.\<close>

definition detach_if_policy :: "'k kernel \<Rightarrow> int \<Rightarrow> task_ptr \<Rightarrow> 'k world \<Rightarrow> (int \<times> 'k world) option" where
  "detach_if_policy os policy p w = do {
     t \<leftarrow> heap w p;
     if sys_getscheduler os (kern w) (tid t) \<noteq> policy then Some (RTF_OK, w)
     else posix_detach os p w
   }"

subsection \<open>Well-formed plugins\<close>

text \<open>Every CPU of the plugin indexes its per-CPU arrays.  The arrays have \<open>cputot\<close> entries, so this
  says that every CPU number is below the number of CPUs of the plugin.\<close>

definition plugin_ok :: "rtf_plugin \<Rightarrow> bool" where
  "plugin_ok this \<longleftrightarrow> cpulist this \<noteq> [] \<and> cputot this = int (length (cpulist this)) \<and>
     length (util_free_percpu this) = length (cpulist this) \<and>
     length (task_count_percpu this) = length (cpulist this) \<and>
     length (plg_tasks this) = length (cpulist this) \<and>
     length (cpulist this) \<le> MAX_CPU \<and>
     (\<forall>c \<in> set (cpulist this). 0 \<le> c \<and> nat c < length (cpulist this))"

lemma plugin_okD:
  assumes "plugin_ok this" and "c \<in> set (cpulist this)"
  shows "0 \<le> c" and "nat c < length (util_free_percpu this)" and "nat c < length (task_count_percpu this)"
    and "nat c < length (plg_tasks this)" and "nat c < MAX_CPU"
  using assms by (auto simp: plugin_ok_def)

lemma u32_cpu:
  assumes "plugin_ok this" and "c \<in> set (cpulist this)"
  shows "unat (u32_of_int c) = nat c" and "unat (u64_of_u32 (u32_of_int c)) = nat c"
proof -
  have "0 \<le> c" and "nat c < 32"
    using plugin_okD [OF assms] by (simp_all add: MAX_CPU_def)
  then have "0 \<le> c" "c < 2 ^ 32" by simp_all
  then show "unat (u32_of_int c) = nat c" by (rule unat_u32_of_int)
  then show "unat (u64_of_u32 (u32_of_int c)) = nat c" by simp
qed

subsection \<open>What \<open>least_loaded_cpu\<close> chooses\<close>

text \<open>The loop, on the list of CPUs after the first.\<close>

lemma pick_loop:
  assumes "\<forall>c \<in> set cs. 0 \<le> c \<and> nat c < length load" and "set is \<subseteq> {..<length cs}"
  shows "for_each (\<lambda>choice i. do { c \<leftarrow> aget cs i; l \<leftarrow> iget load c;
            Some (if better l bound then c else choice) }) c0 is =
    Some (fold (\<lambda>i choice. if better (load ! nat (cs ! i)) bound then cs ! i else choice) is c0)"
  using assms(2)
proof (induction "is" arbitrary: c0)
  case (Cons i "is")
  moreover have "cs ! i \<in> set cs" using Cons.prems by simp
  ultimately show ?case using assms(1) by (simp add: c_simps)
qed simp

definition choice_of :: "('l \<Rightarrow> 'l \<Rightarrow> bool) \<Rightarrow> 'l list \<Rightarrow> int list \<Rightarrow> int" where
  "choice_of better load cs =
     (let bound = load ! nat (hd cs)
      in fold (\<lambda>c choice. if better (load ! nat c) bound then c else choice) (tl cs) (hd cs))"

lemma fold_upt_tl: "fold (\<lambda>i. f (cs ! i)) [1..<length cs] a = fold f (tl cs) a"
proof -
  have "tl cs = map (\<lambda>i. cs ! i) [1..<length cs]"
    by (intro nth_equalityI) (auto simp: nth_tl)
  then show ?thesis by (simp add: fold_map comp_def)
qed

lemma pick_cpu_eq:
  assumes "plugin_ok this" and "length load = length (cpulist this)"
  shows "pick_cpu better load this = Some (choice_of better load (cpulist this))"
proof -
  let ?cs = "cpulist this"
  have cs: "\<forall>c \<in> set ?cs. 0 \<le> c \<and> nat c < length load" "?cs \<noteq> []" "cputot this = int (length ?cs)"
    using assms by (auto simp: plugin_ok_def)
  then have "0 \<le> ?cs ! 0 \<and> nat (?cs ! 0) < length load" by simp
  moreover have "for_each (\<lambda>choice i. do { c \<leftarrow> aget ?cs i; l \<leftarrow> iget load c;
        Some (if better l (load ! nat (?cs ! 0)) then c else choice) }) (?cs ! 0) [1..<length ?cs]
      = Some (choice_of better load ?cs)"
  proof -
    have "fold (\<lambda>i choice. if better (load ! nat (?cs ! i)) (load ! nat (?cs ! 0)) then ?cs ! i else choice)
        [1..<length ?cs] (?cs ! 0) = choice_of better load ?cs"
      unfolding choice_of_def Let_def hd_conv_nth [OF cs(2)]
      by (rule fold_upt_tl [of "\<lambda>c choice. if better (load ! nat c) (load ! nat (?cs ! 0)) then c else choice"])
    then show ?thesis using cs(1) by (subst pick_loop) auto
  qed
  ultimately show ?thesis
    using cs by (simp add: pick_cpu_def c_simps)
qed

lemma fold_choice:
  "fold (\<lambda>c choice. if P c then c else choice) cs c0 = c0 \<and> (\<forall>c \<in> set cs. \<not> P c) \<or>
   (fold (\<lambda>c choice. if P c then c else choice) cs c0 \<in> set cs \<and>
    P (fold (\<lambda>c choice. if P c then c else choice) cs c0))"
proof (induction cs arbitrary: c0)
  case (Cons a cs)
  show ?case using Cons [of "if P a then a else c0"] by (cases "P a") auto
qed simp

lemma choice_in_cpulist: "cs \<noteq> [] \<Longrightarrow> choice_of better load cs \<in> set cs"
  using fold_choice [of "\<lambda>c. better (load ! nat c) (load ! nat (hd cs))" "tl cs" "hd cs"]
  by (cases cs) (auto simp: choice_of_def Let_def)

subsection \<open>The contract of a load order\<close>

text \<open>
  What the choice of a CPU needs of the comparison \<open>better\<close>: a strict order.  The choice then is
  the first CPU, or a CPU better than it; with at most two CPUs no CPU is better than the choice.
  With three it may not be the best, see \<open>least_loaded_cpu\<close> of the plugins.
\<close>

locale load_order =
  fixes better :: "'l \<Rightarrow> 'l \<Rightarrow> bool"
  assumes better_irrefl: "\<not> better x x"
    and better_trans: "better x y \<Longrightarrow> better y z \<Longrightarrow> better x z"
begin

lemma first_not_better:
  assumes "cs \<noteq> []"
  shows "\<not> better (load ! nat (hd cs)) (load ! nat (choice_of better load cs))"
proof -
  let ?P = "\<lambda>c. better (load ! nat c) (load ! nat (hd cs))"
  let ?r = "choice_of better load cs"
  have "?r = hd cs \<or> ?P ?r"
    using fold_choice [of ?P "tl cs" "hd cs"] by (auto simp: choice_of_def Let_def)
  then show ?thesis
  proof
    assume "?r = hd cs"
    then show ?thesis by (simp add: better_irrefl)
  next
    assume P: "?P ?r"
    show ?thesis
    proof
      assume "better (load ! nat (hd cs)) (load ! nat ?r)"
      from better_trans [OF this P] show False by (simp add: better_irrefl)
    qed
  qed
qed

lemma choice_optimal:
  assumes "cs \<noteq> []" and "length cs \<le> 2" and "c \<in> set cs"
  shows "\<not> better (load ! nat c) (load ! nat (choice_of better load cs))"
proof -
  consider a where "cs = [a]" | a b where "cs = [a, b]"
    using assms(1,2) by (cases cs; cases "tl cs") (auto simp: Suc_le_eq)
  then show ?thesis
    using assms(3) better_irrefl better_trans by cases (auto simp: choice_of_def)
qed

end

interpretation util_order: load_order "\<lambda>f bound :: f32. f > bound"
  by unfold_locales auto

interpretation count_order: load_order "\<lambda>n bound :: int. n < bound"
  by unfold_locales auto

lemma least_loaded_by_util_eq:
  "plugin_ok this \<Longrightarrow> least_loaded_by_util this =
     Some (u32_of_int (choice_of (\<lambda>f bound. f > bound) (util_free_percpu this) (cpulist this)))"
  by (simp add: least_loaded_by_util_def pick_cpu_eq plugin_ok_def)

lemma least_loaded_by_count_eq:
  "plugin_ok this \<Longrightarrow> least_loaded_by_count this =
     Some (u32_of_int (choice_of (\<lambda>n bound. n < bound) (task_count_percpu this) (cpulist this)))"
  by (simp add: least_loaded_by_count_def pick_cpu_eq plugin_ok_def)

subsection \<open>Does a utilisation fit?\<close>

definition util_ok :: "rtf_plugin \<Rightarrow> bool" where
  "util_ok this \<longleftrightarrow> (\<forall>u \<in> set (util_free_percpu this). on_grid u)"

definition fits :: "rtf_plugin \<Rightarrow> f32 \<Rightarrow> bool" where
  "fits this u \<longleftrightarrow> (\<exists>c \<in> set (cpulist this). u \<le> util_free_percpu this ! nat c)"

lemma fits_some_cpu_eq:
  assumes "plugin_ok this" and "set is \<subseteq> {..<length (cpulist this)}"
  shows "fits_some_cpu this u is = Some (\<exists>i \<in> set is. u \<le> util_free_percpu this ! nat (cpulist this ! i))"
  using assms(2)
proof (induction "is")
  case (Cons i "is")
  then have "cpulist this ! i \<in> set (cpulist this)" by simp
  note c = plugin_okD [OF assms(1) this]
  from Cons c show ?case by (simp add: c_simps)
qed simp

lemma missing_util_spec:
  assumes "plugin_ok this" and "util_ok this" and "on_grid u"
  shows "\<exists>m. missing_util this u = Some m \<and> (m = 0 \<longleftrightarrow> fits this u) \<and> (\<not> fits this u \<longrightarrow> 0 < m)"
proof -
  let ?cs = "cpulist this"
  have n: "nat (cputot this) = length ?cs" using assms(1) by (simp add: plugin_ok_def)
  have "(\<exists>i \<in> {..<length ?cs}. u \<le> util_free_percpu this ! nat (?cs ! i)) \<longleftrightarrow> fits this u"
    unfolding fits_def by (metis in_set_conv_nth lessThan_iff nth_mem)
  then have f: "fits_some_cpu this u [0..<length ?cs] = Some (fits this u)"
    using fits_some_cpu_eq [OF assms(1), of "[0..<length ?cs]" u]
    by (simp add: atLeast0LessThan)
  let ?c = "choice_of (\<lambda>f bound. f > bound) (util_free_percpu this) ?cs"
  have c: "?c \<in> set ?cs" using assms(1) by (intro choice_in_cpulist) (simp add: plugin_ok_def)
  note b = plugin_okD [OF assms(1) c]
  have "s32_of_u32 (u32_of_int ?c) = ?c"
    using b(1,5) by (simp add: s32_of_u32_def u32_of_int_def MAX_CPU_def sint_sbintrunc' signed_take_bit_int_eq_self)
  moreover have "0 < f32_sub u (util_free_percpu this ! nat ?c)" if "\<not> fits this u"
  proof -
    have "util_free_percpu this ! nat ?c < u" using c that by (auto simp: fits_def not_le)
    moreover have "on_grid (util_free_percpu this ! nat ?c)"
      using assms(2) b(2) by (simp add: util_ok_def)
    ultimately show ?thesis using assms(3) by (intro f32_sub_pos)
  qed
  ultimately show ?thesis
    using f n b assms(1)
    by (cases "fits this u") (force simp: missing_util_def least_loaded_by_util_eq c_simps)+
qed

subsection \<open>Ownership\<close>

text \<open>
  The tasks a plugin owns are allocated, carry its id and a CPU of the plugin, and the counter of
  every CPU is the number of owned tasks on it.
\<close>

definition on_cpu :: "heap \<Rightarrow> task_ptr set \<Rightarrow> nat \<Rightarrow> task_ptr set" where
  "on_cpu h own c = {p \<in> own. unat (cpu (the (h p))) = c}"

definition owned_ok :: "rtf_plugin \<Rightarrow> heap \<Rightarrow> task_ptr set \<Rightarrow> bool" where
  "owned_ok this h own \<longleftrightarrow> finite own \<and>
     (\<forall>p \<in> own. \<exists>t. h p = Some t \<and> pluginid t = plg_id this \<and> (\<exists>c \<in> set (cpulist this). unat (cpu t) = nat c))"

definition count_ok :: "rtf_plugin \<Rightarrow> heap \<Rightarrow> task_ptr set \<Rightarrow> bool" where
  "count_ok this h own \<longleftrightarrow>
     (\<forall>c < length (task_count_percpu this). task_count_percpu this ! c = int (card (on_cpu h own c)))"

definition base_inv :: "rtf_plugin \<Rightarrow> heap \<Rightarrow> task_ptr set \<Rightarrow> bool" where
  "base_inv this h own \<longleftrightarrow> plugin_ok this \<and> owned_ok this h own \<and> count_ok this h own"

text \<open>Two states of the store that agree on the placement of the tasks in a set.\<close>

definition same_place :: "heap \<Rightarrow> heap \<Rightarrow> task_ptr set \<Rightarrow> bool" where
  "same_place h h' own \<longleftrightarrow>
     (\<forall>q \<in> own. \<forall>t. h q = Some t \<longrightarrow> (\<exists>t'. h' q = Some t' \<and> cpu t' = cpu t \<and> pluginid t' = pluginid t))"

text \<open>The parts of a plugin that no operation changes.\<close>

definition same_plugin :: "rtf_plugin \<Rightarrow> rtf_plugin \<Rightarrow> bool" where
  "same_plugin a b \<longleftrightarrow> plg_id b = plg_id a \<and> plg_name b = plg_name a \<and> plg_path b = plg_path a \<and>
     dl_ptr b = dl_ptr a \<and> prio_min b = prio_min a \<and> prio_max b = prio_max a \<and>
     cpulist b = cpulist a \<and> cputot b = cputot a"

lemma same_plugin_refl [simp]: "same_plugin a a"
  by (simp add: same_plugin_def)

lemma on_cpu_same_place:
  assumes "owned_ok this h own" and "same_place h h' own"
  shows "on_cpu h' own c = on_cpu h own c"
  using assms by (fastforce simp: on_cpu_def owned_ok_def same_place_def)

lemma owned_ok_same_place:
  assumes "owned_ok this h own" and "same_place h h' own"
    and "plg_id this' = plg_id this" and "cpulist this' = cpulist this"
  shows "owned_ok this' h' own"
  using assms by (fastforce simp: owned_ok_def same_place_def)

lemma base_inv_frame:
  assumes "base_inv this h own" and "same_place h h' own"
  shows "base_inv this h' own"
proof -
  have o: "owned_ok this h own" using assms(1) by (simp add: base_inv_def)
  show ?thesis
    using assms(1) owned_ok_same_place [OF o assms(2), of this]
    by (simp add: base_inv_def count_ok_def on_cpu_same_place [OF o assms(2)])
qed

lemma base_inv_add:
  assumes "base_inv this h own" and "p \<notin> own" and "same_place h h' own"
    and "h' p = Some t" and "pluginid t = plg_id this" and "c \<in> set (cpulist this)" and "unat (cpu t) = nat c"
    and "plugin_ok this'" and "plg_id this' = plg_id this" and "cpulist this' = cpulist this"
    and "task_count_percpu this' = (task_count_percpu this)[nat c := task_count_percpu this ! nat c + 1]"
  shows "base_inv this' h' (insert p own)"
proof -
  have o: "owned_ok this h own" and fin: "finite own" using assms(1) by (auto simp: base_inv_def owned_ok_def)
  have eq: "on_cpu h' own d = on_cpu h own d" for d
    using on_cpu_same_place [OF o assms(3)] .
  have ins: "on_cpu h' (insert p own) d = (if d = nat c then insert p (on_cpu h own d) else on_cpu h own d)" for d
  proof -
    have "on_cpu h' (insert p own) d = (if d = nat c then insert p (on_cpu h' own d) else on_cpu h' own d)"
      using assms(4,7) by (auto simp: on_cpu_def)
    then show ?thesis unfolding eq .
  qed
  have cnt: "count_ok this h own" using assms(1) by (simp add: base_inv_def)
  have "finite (on_cpu h own d)" "p \<notin> on_cpu h own d" for d
    using fin assms(2) by (auto simp: on_cpu_def)
  then have "count_ok this' h' (insert p own)"
    using cnt unfolding count_ok_def assms(11) by (auto simp: ins nth_list_update)
  moreover have "owned_ok this' h' (insert p own)"
    using owned_ok_same_place [OF o assms(3), of this'] assms(4-7,9,10) by (auto simp: owned_ok_def)
  ultimately show ?thesis using assms(8) by (simp add: base_inv_def)
qed

lemma base_inv_remove:
  assumes "base_inv this h own" and "p \<in> own" and "same_place h h' (own - {p})"
    and "h p = Some t" and "plugin_ok this'" and "plg_id this' = plg_id this" and "cpulist this' = cpulist this"
    and "task_count_percpu this' =
      (task_count_percpu this)[unat (cpu t) := task_count_percpu this ! unat (cpu t) - 1]"
  shows "base_inv this' h' (own - {p})"
proof -
  have o: "owned_ok this h own" and fin: "finite own" using assms(1) by (auto simp: base_inv_def owned_ok_def)
  then have o': "owned_ok this h (own - {p})" by (auto simp: owned_ok_def)
  have rem: "on_cpu h' (own - {p}) d = on_cpu h own d - {p}" for d
    using on_cpu_same_place [OF o' assms(3), of d] by (auto simp: on_cpu_def)
  have cnt: "count_ok this h own" using assms(1) by (simp add: base_inv_def)
  have f: "finite (on_cpu h own d)" "p \<in> on_cpu h own d \<longleftrightarrow> d = unat (cpu t)" for d
    using fin assms(2,4) by (auto simp: on_cpu_def)
  have "int (card (on_cpu h own d - {p})) = int (card (on_cpu h own d)) - (if d = unat (cpu t) then 1 else 0)" for d
  proof (cases "d = unat (cpu t)")
    case True
    then show ?thesis using card.remove [of "on_cpu h own d" p] f [of d] by simp
  next
    case False
    then show ?thesis using f [of d] by simp
  qed
  then have "count_ok this' h' (own - {p})"
    using cnt unfolding count_ok_def assms(8) by (auto simp: rem nth_list_update)
  moreover have "owned_ok this' h' (own - {p})"
    using owned_ok_same_place [OF o' assms(3), of this'] assms(6,7) by simp
  ultimately show ?thesis using assms(5) by (simp add: base_inv_def)
qed

subsection \<open>Priority windows\<close>

text \<open>The priorities of the real-time classes on Linux, and a window inside them.\<close>

definition linux_prio :: "'k kernel \<Rightarrow> bool" where
  "linux_prio os \<longleftrightarrow> (\<forall>p. sys_priority_max os p = 99) \<and> (\<forall>p. sys_priority_min os p = 1)"

definition window_ok :: "rtf_plugin \<Rightarrow> bool" where
  "window_ok this \<longleftrightarrow> 0 \<le> prio_min this \<and> prio_min this \<le> prio_max this \<and> prio_max this \<le> 99"

text \<open>The real priorities of the tasks of a plugin lie in its window.\<close>

definition in_window :: "rtf_plugin \<Rightarrow> heap \<Rightarrow> task_ptr set \<Rightarrow> bool" where
  "in_window this h S \<longleftrightarrow>
     (\<forall>p \<in> S. prio_min this \<le> uint (schedprio (the (h p))) \<and> uint (schedprio (the (h p))) \<le> prio_max this)"

text \<open>A linear map into a window, computed in \<open>float\<close>, stays in the window when the exact value is
  a little less than one above it.\<close>

lemma f32_round_upper:
  assumes "0 \<le> x"
  shows "f32_round x \<le> x + x / 2 ^ 24 + 1 / 2 ^ 40"
proof -
  have "(2 :: rat) powi (- 150) \<le> 2 powi (- 40)" by (intro power_int_increasing) auto
  also have "(2 :: rat) powi (- 40) = 1 / 2 ^ 40" by (simp add: power_int_minus_divide)
  finally show ?thesis
    using fround_error(1) [OF assms, of 24 "- 149"] by (simp add: f32_round_def)
qed

lemma remap_in_window:
  fixes a b k :: rat and mn d :: int
  assumes "0 \<le> a" and "0 < b" and "0 \<le> k" and "k \<le> 100" and "0 \<le> mn" and "0 \<le> d" and "mn + d \<le> 99"
    and x: "a / b * k \<le> of_int d + 1 - 1 / 100"
  shows "\<exists>r. u32_of_f32 (f32_add (of_int mn) (f32_mul (f32_div a b) k)) = Some r \<and> mn \<le> uint r \<and> uint r \<le> mn + d"
proof -
  define s where "s = f32_div a b"
  define q where "q = f32_mul s k"
  define y where "y = f32_add (of_int mn) q"
  define u where "u = a / b * k"
  have ab: "0 \<le> a / b" using assms by simp
  have s: "0 \<le> s" "s \<le> a / b + a / b / 2 ^ 24 + 1 / 2 ^ 40"
    unfolding s_def f32_div_def using ab f32_round_upper [OF ab] by (simp_all add: f32_round_def fround_nonneg)
  have "(of_int d :: rat) \<le> of_int 99" using assms(5,7) by (simp only: of_int_le_iff)
  then have u: "0 \<le> u" "u \<le> 101"
    unfolding u_def using mult_nonneg_nonneg [OF ab assms(3)] x by simp_all
  have "s * k \<le> (a / b + a / b / 2 ^ 24 + 1 / 2 ^ 40) * k" using s(2) assms(3) by (rule mult_right_mono)
  also have "\<dots> = u + u / 2 ^ 24 + k / 2 ^ 40" by (simp add: u_def algebra_simps)
  finally have sk: "s * k \<le> u + 1 / 2000" using assms(4) u(2) by simp
  define v where "v = s * k"
  have "q \<le> v + v / 2 ^ 24 + 1 / 2 ^ 40"
    unfolding q_def f32_mul_def v_def using s(1) assms(3) by (intro f32_round_upper) simp
  moreover have "v \<le> u + 1 / 2000" using sk by (simp only: v_def)
  ultimately have "q \<le> u + 1 / 1000" using u(2) by simp
  then have q: "0 \<le> q" "of_int mn + q \<le> of_int (128 * (mn + d + 1) - 1) / 2 ^ 7"
    using x s(1) assms(3) unfolding u_def [symmetric]
    by (simp_all add: q_def f32_mul_def f32_round_def fround_nonneg)
  have "y \<le> f32_round (of_int (128 * (mn + d + 1) - 1) / 2 ^ 7)"
    unfolding y_def f32_add_def using q assms(5) by (intro f32_round_mono) auto
  also have "\<dots> = of_int (128 * (mn + d + 1) - 1) / 2 ^ 7"
    using assms(5-7) by (intro f32_round_half) auto
  also have "\<dots> < of_int (mn + d + 1)" by simp
  finally have up: "y < of_int (mn + d + 1)" .
  have "f32_round (of_int mn / 2 ^ 0) \<le> y"
    unfolding y_def f32_add_def using q(1) assms(5) by (intro f32_round_mono) auto
  moreover have "f32_round (of_int mn / 2 ^ 0) = of_int mn / 2 ^ 0"
    using assms(5-7) by (intro f32_round_half) auto
  ultimately have lo: "of_int mn \<le> y" by simp
  have fl: "mn \<le> \<lfloor>y\<rfloor>" "\<lfloor>y\<rfloor> \<le> mn + d"
    using lo up floor_less_iff [of y "mn + d + 1"] by (simp_all add: le_floor_iff)
  have "of_int (mn + d + 1) \<le> (of_int 100 :: rat)" using assms(7) by (simp only: of_int_le_iff)
  then have "y < 2 ^ 32" "- 1 < y" "\<not> y < 0" using up lo assms(5) by simp_all
  then have "u32_of_f32 y = Some (word_of_int \<lfloor>y\<rfloor>)" by (simp add: u32_of_f32_def)
  moreover have "uint (word_of_int \<lfloor>y\<rfloor> :: u32) = \<lfloor>y\<rfloor>"
  proof (rule uint_u32_of_int [unfolded u32_of_int_def])
    show "0 \<le> \<lfloor>y\<rfloor>" using fl assms(5) by linarith
    have "\<lfloor>y\<rfloor> \<le> 99" using fl assms(7) by linarith
    then show "\<lfloor>y\<rfloor> < 2 ^ 32" by simp
  qed
  ultimately show ?thesis
    using fl by (auto simp: y_def q_def s_def)
qed

lemma u32_of_f32_mono:
  assumes "0 \<le> x" and "x \<le> y" and "u32_of_f32 x = Some r" and "u32_of_f32 y = Some s"
  shows "uint r \<le> uint s"
proof -
  have b: "y < 2 ^ 32" using assms(4) by (simp add: u32_of_f32_def split: if_splits)
  have f: "0 \<le> \<lfloor>x\<rfloor>" "\<lfloor>x\<rfloor> \<le> \<lfloor>y\<rfloor>" using assms(1,2) by (simp_all add: floor_mono)
  moreover have "\<lfloor>y\<rfloor> < 2 ^ 32" using b by (simp add: floor_less_iff)
  ultimately have "uint (word_of_int \<lfloor>x\<rfloor> :: u32) = \<lfloor>x\<rfloor>" "uint (word_of_int \<lfloor>y\<rfloor> :: u32) = \<lfloor>y\<rfloor>"
    by (intro uint_u32_of_int [unfolded u32_of_int_def]; linarith)+
  moreover have "r = word_of_int \<lfloor>x\<rfloor>" "s = word_of_int \<lfloor>y\<rfloor>"
    using assms by (simp_all add: u32_of_f32_def split: if_splits)
  ultimately show ?thesis using f(2) by simp
qed

subsection \<open>The contract of a plugin\<close>

text \<open>The counters of the other libraries, and what an operation on a task may change.\<close>

definition same_statics :: "plugin_lib \<Rightarrow> 'k world \<Rightarrow> 'k world \<Rightarrow> bool" where
  "same_statics lib w w' \<longleftrightarrow> (case lib of
       SCHED_RM_so \<Rightarrow> rm_dist_prio w' = rm_dist_prio w
     | SCHED_RR_so \<Rightarrow> rr_dist_prio w' = rr_dist_prio w \<and> rr_n_per_prio w' = rr_n_per_prio w
     | _ \<Rightarrow> True)"

definition same_identity :: "rtf_task \<Rightarrow> rtf_task \<Rightarrow> bool" where
  "same_identity t t' \<longleftrightarrow> t_id t' = t_id t \<and> ptid t' = ptid t \<and> tid t' = tid t \<and> params t' = params t"

definition same_booking :: "rtf_task \<Rightarrow> rtf_task \<Rightarrow> bool" where
  "same_booking t t' \<longleftrightarrow> cpu t' = cpu t \<and> pluginid t' = pluginid t \<and>
     acceptedt t' = acceptedt t \<and> acceptedu t' = acceptedu t"

definition touches :: "plugin_lib \<Rightarrow> task_ptr \<Rightarrow> task_ptr set \<Rightarrow> 'k world \<Rightarrow> 'k world \<Rightarrow> bool" where
  "touches lib p own w w' \<longleftrightarrow>
     dom (heap w') = dom (heap w) \<and>
     (\<forall>q. q \<notin> insert p own \<longrightarrow> heap w' q = heap w q) \<and>
     (\<forall>q t. heap w q = Some t \<longrightarrow>
        (\<exists>t'. heap w' q = Some t' \<and> same_identity t t' \<and> (q \<noteq> p \<longrightarrow> same_booking t t'))) \<and>
     (\<forall>l. l \<noteq> lib \<longrightarrow> same_statics l w w')"

lemma same_identity_refl [simp]: "same_identity t t" and same_booking_refl [simp]: "same_booking t t"
  by (simp_all add: same_identity_def same_booking_def)

lemma same_statics_refl [simp]: "same_statics l w w"
  by (simp add: same_statics_def split: plugin_lib.splits)

lemma same_statics_heap [simp]:
  "same_statics l w (w'\<lparr>heap := h\<rparr>) = same_statics l w w'" "same_statics l w (w'\<lparr>kern := k\<rparr>) = same_statics l w w'"
  by (simp_all add: same_statics_def split: plugin_lib.splits)

lemma touches_upd:
  assumes "heap w p = Some t" and "heap w' = (heap w)(p \<mapsto> t')" and "same_identity t t'"
    and "\<forall>l. l \<noteq> lib \<longrightarrow> same_statics l w w'"
  shows "touches lib p own w w'"
  using assms by (auto simp: touches_def)

lemma touches_same_place:
  assumes "touches lib p own w w'" and "p \<notin> S"
  shows "same_place (heap w) (heap w') S"
  using assms unfolding touches_def same_place_def same_booking_def by metis

text \<open>A change of the real priorities of tasks in a set, and of nothing else.\<close>

definition reprio :: "heap \<Rightarrow> heap \<Rightarrow> task_ptr set \<Rightarrow> bool" where
  "reprio h h' S \<longleftrightarrow>
     (\<forall>q. h' q = h q \<or> q \<in> S \<and> (\<exists>t x. h q = Some t \<and> h' q = Some (t\<lparr>schedprio := x\<rparr>)))"

lemma reprio_refl [simp]: "reprio h h S"
  by (simp add: reprio_def)

lemma reprio_cases:
  assumes "reprio h h' S" and "h q = Some t"
  obtains x where "h' q = Some (t\<lparr>schedprio := x\<rparr>)" and "q \<notin> S \<Longrightarrow> x = schedprio t"
proof -
  consider "h' q = h q" | x where "q \<in> S" "h' q = Some (t\<lparr>schedprio := x\<rparr>)"
    using assms unfolding reprio_def by force
  then show thesis
  proof cases
    case 1
    then show thesis using that [of "schedprio t"] assms(2) by simp
  qed (use that in blast)
qed

lemma reprio_outside: "reprio h h' S \<Longrightarrow> q \<notin> S \<Longrightarrow> h' q = h q"
  unfolding reprio_def by blast

lemma reprio_None: "reprio h h' S \<Longrightarrow> h q = None \<Longrightarrow> h' q = None"
  unfolding reprio_def by (metis option.distinct(1))

lemma reprio_trans:
  assumes "reprio h h1 S" and "reprio h1 h2 S"
  shows "reprio h h2 S"
  unfolding reprio_def
proof
  fix q
  show "h2 q = h q \<or> q \<in> S \<and> (\<exists>t x. h q = Some t \<and> h2 q = Some (t\<lparr>schedprio := x\<rparr>))"
  proof (cases "h q")
    case None
    then show ?thesis using assms reprio_None by metis
  next
    case (Some t)
    then obtain x where x: "h1 q = Some (t\<lparr>schedprio := x\<rparr>)" using reprio_cases [OF assms(1)] by blast
    then obtain y where "h2 q = Some (t\<lparr>schedprio := x\<rparr>\<lparr>schedprio := y\<rparr>)"
      using reprio_cases [OF assms(2) x] by blast
    moreover have "h2 q = h q" if "q \<notin> S" using that assms reprio_outside by metis
    ultimately show ?thesis using Some by auto
  qed
qed

lemma reprio_mono: "reprio h h' S \<Longrightarrow> S \<subseteq> T \<Longrightarrow> reprio h h' T"
  unfolding reprio_def by blast

lemma reprio_upd: "h p = Some t \<Longrightarrow> p \<in> S \<Longrightarrow> reprio h (h(p \<mapsto> t\<lparr>schedprio := x\<rparr>)) S"
  by (auto simp: reprio_def)

lemma reprio_other:
  assumes "reprio (h(p \<mapsto> t)) h1 S" and "p \<in> S"
  shows "reprio (h(p \<mapsto> t')) (h1(p \<mapsto> t'\<lparr>schedprio := x\<rparr>)) S"
  unfolding reprio_def
proof
  fix q
  show "(h1(p \<mapsto> t'\<lparr>schedprio := x\<rparr>)) q = (h(p \<mapsto> t')) q \<or> q \<in> S \<and>
      (\<exists>u x'. (h(p \<mapsto> t')) q = Some u \<and> (h1(p \<mapsto> t'\<lparr>schedprio := x\<rparr>)) q = Some (u\<lparr>schedprio := x'\<rparr>))"
    using assms(2) assms(1) [unfolded reprio_def, rule_format, of q] by (cases "q = p") auto
qed

lemma reprio_allocated: "reprio h h' S \<Longrightarrow> allocated h' p = allocated h p"
  by (cases "h p") (auto simp: allocated_def dest: reprio_None elim: reprio_cases)

lemma reprio_dom: "reprio h h' S \<Longrightarrow> dom h' = dom h"
  using reprio_allocated unfolding allocated_def by blast

lemma reprio_ts_ok: "reprio h h' S \<Longrightarrow> ts_ok h' ts = ts_ok h ts"
  by (simp add: ts_ok_def reprio_allocated)

lemma reprio_same:
  assumes "reprio h h' S" and "allocated h q"
  shows "params (the (h' q)) = params (the (h q))" and "cpu (the (h' q)) = cpu (the (h q))"
    and "pluginid (the (h' q)) = pluginid (the (h q))" and "t_id (the (h' q)) = t_id (the (h q))"
  using assms by (auto elim!: allocatedE reprio_cases)

lemma touches_reprio:
  assumes "heap w p = Some t" and "same_identity t t'" and "reprio ((heap w)(p \<mapsto> t')) (heap w') (insert p own)"
    and "\<forall>l. l \<noteq> lib \<longrightarrow> same_statics l w w'"
  shows "touches lib p own w w'"
  unfolding touches_def
proof (intro conjI allI impI)
  show "dom (heap w') = dom (heap w)" using reprio_dom [OF assms(3)] assms(1) by auto
next
  fix q assume "q \<notin> insert p own"
  then show "heap w' q = heap w q" using reprio_outside [OF assms(3)] by simp
next
  fix q tq assume q: "heap w q = Some tq"
  show "\<exists>t'. heap w' q = Some t' \<and> same_identity tq t' \<and> (q \<noteq> p \<longrightarrow> same_booking tq t')"
  proof (cases "q = p")
    case True
    then obtain x where "heap w' q = Some (t'\<lparr>schedprio := x\<rparr>)"
      using reprio_cases [OF assms(3), of p t'] by auto
    then show ?thesis using True q assms(1,2) by (auto simp: same_identity_def)
  next
    case False
    then obtain x where "heap w' q = Some (tq\<lparr>schedprio := x\<rparr>)"
      using q reprio_cases [OF assms(3), of q tq] by auto
    then show ?thesis using False by (simp add: same_identity_def same_booking_def)
  qed
qed (use assms(4) in simp)

subsection \<open>Per-CPU task sets\<close>

text \<open>The task set of every CPU holds the owned tasks on that CPU, sorted by a key of the parameters.\<close>

definition lists_ok :: "(rtf_task \<Rightarrow> int) \<Rightarrow> rtf_plugin \<Rightarrow> heap \<Rightarrow> task_ptr set \<Rightarrow> bool" where
  "lists_ok f this h own \<longleftrightarrow> (\<forall>c < length (plg_tasks this).
     ts_ok h (plg_tasks this ! c) \<and> set (ts_tasks (plg_tasks this ! c)) = on_cpu h own c \<and>
     sorted (map (\<lambda>p. f (the (h p))) (ts_tasks (plg_tasks this ! c))))"

definition params_key :: "(rtf_task \<Rightarrow> int) \<Rightarrow> bool" where
  "params_key f \<longleftrightarrow> (\<forall>t t'. params t = params t' \<longrightarrow> f t = f t')"

lemma params_key_sort_key [simp]: "params_key (sort_key p flag)"
  unfolding params_key_def using getters_params(8) by blast

definition same_keys :: "heap \<Rightarrow> heap \<Rightarrow> task_ptr set \<Rightarrow> bool" where
  "same_keys h h' S \<longleftrightarrow>
     (\<forall>q \<in> S. \<forall>t. h q = Some t \<longrightarrow> (\<exists>t'. h' q = Some t' \<and> cpu t' = cpu t \<and> params t' = params t))"

lemma touches_same_keys: "touches lib p own w w' \<Longrightarrow> p \<notin> S \<Longrightarrow> same_keys (heap w) (heap w') S"
  unfolding touches_def same_keys_def same_booking_def same_identity_def by metis

lemma same_keysD:
  assumes "same_keys h h' S" and "allocated h q" and "q \<in> S"
  shows "allocated h' q" "params (the (h' q)) = params (the (h q))" "cpu (the (h' q)) = cpu (the (h q))"
  using assms unfolding same_keys_def by (force elim!: allocatedE simp: allocated_def)+

lemma reprio_same_keys:
  assumes "reprio h h' S"
  shows "same_keys h h' T"
  unfolding same_keys_def
proof (intro ballI allI impI)
  fix q t assume "h q = Some t"
  then obtain x where "h' q = Some (t\<lparr>schedprio := x\<rparr>)" using reprio_cases [OF assms] by blast
  then show "\<exists>t'. h' q = Some t' \<and> cpu t' = cpu t \<and> params t' = params t" by simp
qed

lemma owned_ok_alloc: "owned_ok this h own \<Longrightarrow> q \<in> own \<Longrightarrow> allocated h q"
  unfolding owned_ok_def allocated_def by blast

text \<open>The task set of a CPU after a change of the store that keeps the keys of its tasks.\<close>

lemma ts_ok_same_keys:
  assumes "ts_ok h ts" and "same_keys h h' S" and "set (ts_tasks ts) \<subseteq> S"
  shows "ts_ok h' ts"
  using assms same_keysD(1) unfolding ts_ok_def by (meson subsetD)

lemma keys_same:
  assumes "params_key f"
    and "same_keys h h' S" and "\<forall>q \<in> set xs. allocated h q" and "set xs \<subseteq> S"
  shows "map (\<lambda>p. f (the (h' p))) xs = map (\<lambda>p. f (the (h p))) xs"
proof (rule map_cong [OF refl])
  fix q assume "q \<in> set xs"
  with assms(3,4) have "params (the (h' q)) = params (the (h q))"
    by (intro same_keysD(2) [OF assms(2)]) auto
  then show "f (the (h' q)) = f (the (h q))" using assms(1) unfolding params_key_def by blast
qed

lemma on_cpu_same_keys:
  assumes "same_keys h h' S" and "\<forall>q \<in> S. allocated h q"
  shows "on_cpu h' S c = on_cpu h S c"
proof -
  have "cpu (the (h' q)) = cpu (the (h q))" if "q \<in> S" for q
    using assms(2) that by (intro same_keysD(3) [OF assms(1)]) auto
  then show ?thesis unfolding on_cpu_def by (intro Collect_cong) auto
qed

lemma on_cpu_subset: "on_cpu h own c \<subseteq> own"
  by (auto simp: on_cpu_def)

lemma lists_ok_frame:
  assumes f: "params_key f"
    and l: "lists_ok f this h own" and o: "\<forall>q \<in> own. allocated h q" and k: "same_keys h h' own"
    and "plg_tasks this' = plg_tasks this"
  shows "lists_ok f this' h' own"
  unfolding lists_ok_def assms(5)
proof (intro allI impI)
  fix c assume "c < length (plg_tasks this)"
  with l have c: "ts_ok h (plg_tasks this ! c)" "set (ts_tasks (plg_tasks this ! c)) = on_cpu h own c"
      "sorted (map (\<lambda>p. f (the (h p))) (ts_tasks (plg_tasks this ! c)))"
    by (simp_all add: lists_ok_def)
  then have sub: "set (ts_tasks (plg_tasks this ! c)) \<subseteq> own" by (simp add: on_cpu_subset)
  have oc: "on_cpu h' own c = on_cpu h own c"
    using o by (intro on_cpu_same_keys k)
  have m: "map (\<lambda>p. f (the (h' p))) (ts_tasks (plg_tasks this ! c)) = map (\<lambda>p. f (the (h p))) (ts_tasks (plg_tasks this ! c))"
    using c(1) by (intro keys_same [OF f k _ sub]) (simp_all add: ts_ok_def)
  show "ts_ok h' (plg_tasks this ! c) \<and> set (ts_tasks (plg_tasks this ! c)) = on_cpu h' own c \<and>
      sorted (map (\<lambda>p. f (the (h' p))) (ts_tasks (plg_tasks this ! c)))"
    unfolding oc m using c ts_ok_same_keys [OF c(1) k sub] by simp
qed

lemma on_cpu_insert:
  assumes "unat (cpu (the (h p))) = c"
  shows "on_cpu h (insert p own) d = (if d = c then insert p (on_cpu h own d) else on_cpu h own d)"
  using assms by (auto simp: on_cpu_def)

lemma lists_ok_add:
  assumes f: "params_key f"
    and l: "lists_ok f this h own" and o: "owned_ok this h own" and k: "same_keys h h' own"
    and p: "p \<notin> own" "h' p = Some t" "unat (cpu t) = c" "c < length (plg_tasks this)"
    and eq: "plg_tasks this' = (plg_tasks this)[c := ts_of (insert_by g p (ts_tasks (plg_tasks this ! c)))]"
    and g: "\<And>q. q \<in> insert p own \<Longrightarrow> g q = f (the (h' q))"
  shows "lists_ok f this' h' (insert p own)"
  unfolding lists_ok_def eq
proof (intro allI impI)
  fix d assume "d < length ((plg_tasks this)[c := ts_of (insert_by g p (ts_tasks (plg_tasks this ! c)))])"
  then have d: "d < length (plg_tasks this)" by simp
  have "\<forall>q \<in> own. allocated h q" using owned_ok_alloc [OF o] by blast
  then have "lists_ok f this h' own" by (rule lists_ok_frame [OF f l _ k]) simp_all
  then have L: "\<And>d. d < length (plg_tasks this) \<Longrightarrow> ts_ok h' (plg_tasks this ! d) \<and>
      set (ts_tasks (plg_tasks this ! d)) = on_cpu h' own d \<and>
      sorted (map (\<lambda>p. f (the (h' p))) (ts_tasks (plg_tasks this ! d)))"
    by (simp add: lists_ok_def)
  have ins: "on_cpu h' (insert p own) d = (if d = c then insert p (on_cpu h' own d) else on_cpu h' own d)"
    using p(2,3) by (intro on_cpu_insert) simp
  show "ts_ok h' ((plg_tasks this)[c := ts_of (insert_by g p (ts_tasks (plg_tasks this ! c)))] ! d) \<and>
      set (ts_tasks ((plg_tasks this)[c := ts_of (insert_by g p (ts_tasks (plg_tasks this ! c)))] ! d)) =
        on_cpu h' (insert p own) d \<and>
      sorted (map (\<lambda>p. f (the (h' p)))
        (ts_tasks ((plg_tasks this)[c := ts_of (insert_by g p (ts_tasks (plg_tasks this ! c)))] ! d)))"
  proof (cases "d = c")
    case False
    with L [OF d] ins show ?thesis by simp
  next
    case True
    let ?xs = "ts_tasks (plg_tasks this ! c)"
    have xs: "set ?xs = on_cpu h' own c" "distinct ?xs" "\<forall>q \<in> set ?xs. allocated h' q"
      using L [OF p(4)] by (simp_all add: ts_ok_def)
    then have sub: "set ?xs \<subseteq> own" by (simp add: on_cpu_subset)
    have m: "map g ys = map (\<lambda>p. f (the (h' p))) ys" if "set ys \<subseteq> insert p own" for ys
      using that g by (intro map_cong) auto
    have "set ?xs \<subseteq> insert p own" "set (insert_by g p ?xs) \<subseteq> insert p own" using sub by auto
    from sorted_insert_by [of g ?xs p, unfolded m [OF this(1)] m [OF this(2)]]
    have "sorted (map (\<lambda>p. f (the (h' p))) (insert_by g p ?xs))" using L [OF p(4)] by simp
    moreover have "ts_ok h' (ts_of (insert_by g p ?xs))"
      using xs sub p by (auto simp: distinct_insert_by allocated_Some)
    ultimately show ?thesis using True d xs ins by simp
  qed
qed

lemma find_id:
  assumes "inj_on (\<lambda>q. t_id (the (h q))) S" and "set xs \<subseteq> S" and "p \<in> set xs"
  shows "find (\<lambda>a. t_id (the (h a)) = t_id (the (h p))) xs = Some p"
  using assms
proof (induction xs)
  case (Cons a xs)
  then show ?case by (cases "a = p") (auto dest: inj_onD)
qed simp

lemma lists_ok_remove:
  assumes f: "params_key f"
    and l: "lists_ok f this h own" and o: "owned_ok this h own" and k: "same_keys h h' (own - {p})"
    and p: "p \<in> own" "h p = Some t" "unat (cpu t) = c" "c < length (plg_tasks this)"
    and inj: "inj_on (\<lambda>q. t_id (the (h q))) own"
    and eq: "plg_tasks this' = (plg_tasks this)
      [c := ts_of (drop_first (\<lambda>a. t_id (the (h a)) = t_id t) (ts_tasks (plg_tasks this ! c)))]"
  shows "lists_ok f this' h' (own - {p})"
proof -
  have o': "owned_ok this h (own - {p})" using o by (auto simp: owned_ok_def)
  have rem: "on_cpu h (own - {p}) d = on_cpu h own d - {p}" for d by (auto simp: on_cpu_def)
  let ?m = "\<lambda>a. t_id (the (h a)) = t_id t"
  have "lists_ok f this' h (own - {p})"
    unfolding lists_ok_def eq
  proof (intro allI impI)
    fix d assume "d < length ((plg_tasks this)[c := ts_of (drop_first ?m (ts_tasks (plg_tasks this ! c)))])"
    then have d: "d < length (plg_tasks this)" by simp
    with l have L: "ts_ok h (plg_tasks this ! d)" "set (ts_tasks (plg_tasks this ! d)) = on_cpu h own d"
        "sorted (map (\<lambda>p. f (the (h p))) (ts_tasks (plg_tasks this ! d)))"
      by (simp_all add: lists_ok_def)
    have pd: "p \<in> on_cpu h own d \<longleftrightarrow> d = c" using p by (auto simp: on_cpu_def)
    show "ts_ok h ((plg_tasks this)[c := ts_of (drop_first ?m (ts_tasks (plg_tasks this ! c)))] ! d) \<and>
        set (ts_tasks ((plg_tasks this)[c := ts_of (drop_first ?m (ts_tasks (plg_tasks this ! c)))] ! d)) =
          on_cpu h (own - {p}) d \<and>
        sorted (map (\<lambda>p. f (the (h p)))
          (ts_tasks ((plg_tasks this)[c := ts_of (drop_first ?m (ts_tasks (plg_tasks this ! c)))] ! d)))"
    proof (cases "d = c")
      case True
      let ?xs = "ts_tasks (plg_tasks this ! d)"
      have "set ?xs \<subseteq> own" "p \<in> set ?xs" using L(2) pd True by (simp_all add: on_cpu_subset)
      from find_id [OF inj this] have "find ?m ?xs = Some p" using p(2) by simp
      then have "set (drop_first ?m ?xs) = set ?xs - {p}"
        using L(1) by (intro set_drop_first_distinct) (simp_all add: ts_ok_def)
      moreover have "ts_ok h (ts_of (drop_first ?m ?xs))" using L(1) by (rule ts_ok_drop_first)
      ultimately show ?thesis using True d L(2,3) rem sorted_drop_first [OF L(3)] by simp
    next
      case False
      with L pd rem d show ?thesis by simp
    qed
  qed
  moreover have "\<forall>q \<in> own - {p}. allocated h q" using owned_ok_alloc [OF o'] by blast
  ultimately show ?thesis by (rule lists_ok_frame [OF f _ _ k refl])
qed

lemma util_ok_list_update:
  "util_ok this \<Longrightarrow> on_grid u \<Longrightarrow> util_free_percpu this' = (util_free_percpu this)[c := u] \<Longrightarrow> util_ok this'"
  by (auto simp: util_ok_def dest!: set_update_subset_insert [THEN subsetD])

subsection \<open>Consecutive priorities\<close>

text \<open>The priorities the dense loops of the plugins assign along a list of keys.\<close>

fun dense :: "u32 \<Rightarrow> 'k \<Rightarrow> 'k list \<Rightarrow> u32 list" where
  "dense cur prec [] = []"
| "dense cur prec (k # ks) =
     (if prec = k then cur # dense cur prec ks else (cur + 1) # dense (cur + 1) k ks)"

lemma length_dense [simp]: "length (dense cur prec ks) = length ks"
  by (induction ks arbitrary: cur prec) simp_all

text \<open>Along a sorted list the priority of an entry counts the different keys up to it.\<close>

lemma dense_nth:
  fixes prec :: "'k :: linorder"
  assumes "sorted ks" and "prec \<in> set ks \<longrightarrow> prec = hd ks" and "i < length ks"
  shows "dense cur prec ks ! i = cur + of_nat (card {k \<in> set ks. k \<le> ks ! i \<and> k \<noteq> prec})"
  using assms
proof (induction ks arbitrary: cur prec i)
  case (Cons k ks)
  have le: "k \<le> (k # ks) ! i" using Cons.prems(1,3) by (cases i) auto
  have hd: "k \<in> set ks \<longrightarrow> k = hd ks" using Cons.prems(1) by (cases ks) (auto simp: order_antisym)
  show ?case
  proof (cases i)
    case 0
    have "{x \<in> set (k # ks). x \<le> k \<and> x \<noteq> prec} = (if prec = k then {} else {k})"
      using Cons.prems(1) by (auto simp: order_antisym)
    with 0 show ?thesis by simp
  next
    case (Suc j)
    then have j: "j < length ks" and s: "sorted ks" using Cons.prems by simp_all
    show ?thesis
    proof (cases "prec = k")
      case True
      have "{x \<in> set (k # ks). x \<le> ks ! j \<and> x \<noteq> k} = {x \<in> set ks. x \<le> ks ! j \<and> x \<noteq> k}" by auto
      with Cons.IH [OF s hd j] Suc True show ?thesis by simp
    next
      case False
      then have "prec \<notin> set (k # ks)" using Cons.prems(2) by auto
      then have "{x \<in> set (k # ks). x \<le> ks ! j \<and> x \<noteq> prec} = insert k {x \<in> set ks. x \<le> ks ! j \<and> x \<noteq> k}"
        using le Suc by auto
      then have "card {x \<in> set (k # ks). x \<le> ks ! j \<and> x \<noteq> prec} = Suc (card {x \<in> set ks. x \<le> ks ! j \<and> x \<noteq> k})"
        by simp
      with Cons.IH [OF s hd j, of "cur + 1"] Suc False show ?thesis by (simp add: add.assoc)
    qed
  qed
qed simp

text \<open>The calls into the kernel, and the counters.\<close>

lemma detach_if_policy_spec:
  assumes "heap w p = Some t"
  shows "\<exists>r k. detach_if_policy os policy p w = Some (r, w\<lparr>kern := k\<rparr>)"
proof -
  obtain r1 k1 where "sys_setaffinity os (kern w) (tid t) (all_cpus (sys_nprocs os)) = (r1, k1)" by fastforce
  moreover obtain r2 k2 where "sys_setscheduler os k1 (tid t) SCHED_OTHER 0 = (r2, k2)" by fastforce
  ultimately have "\<exists>r k. posix_detach os p w = Some (r, w\<lparr>kern := k\<rparr>)"
    using assms by (auto simp: posix_detach_def Let_def)
  moreover have "\<exists>k. w = w\<lparr>kern := k\<rparr>" by (rule exI [of _ "kern w"]) simp
  ultimately show ?thesis
    using assms by (cases "sys_getscheduler os (kern w) (tid t) = policy") (simp_all add: detach_if_policy_def)
qed

lemma add_task_count_Some [c_simps]:
  "c < length (task_count_percpu this) \<Longrightarrow> add_task_count this c d =
     Some (this\<lparr>task_count_percpu := (task_count_percpu this)[c := task_count_percpu this ! c + d]\<rparr>)"
  by (simp add: add_task_count_def c_simps)

lemma add_util_free_Some [c_simps]:
  "c < length (util_free_percpu this) \<Longrightarrow> add_util_free this c f =
     Some (this\<lparr>util_free_percpu := (util_free_percpu this)[c := f (util_free_percpu this ! c)]\<rparr>)"
  by (simp add: add_util_free_def c_simps)

lemma owned_cpu:
  assumes "base_inv this h own" and "p \<in> own" and "h p = Some t"
  shows "unat (cpu t) < length (task_count_percpu this)" and "unat (cpu t) < length (util_free_percpu this)"
    and "unat (cpu t) < length (plg_tasks this)" and "unat (cpu t) < MAX_CPU"
    and "pluginid t = plg_id this"
proof -
  obtain c where "c \<in> set (cpulist this)" "unat (cpu t) = nat c" and pid: "pluginid t = plg_id this"
    using assms by (fastforce simp: base_inv_def owned_ok_def)
  moreover have "plugin_ok this" using assms(1) by (simp add: base_inv_def)
  ultimately show "unat (cpu t) < length (task_count_percpu this)" "unat (cpu t) < length (util_free_percpu this)"
    "unat (cpu t) < length (plg_tasks this)" "unat (cpu t) < MAX_CPU" "pluginid t = plg_id this"
    using plugin_okD by auto
qed

lemma base_inv_same_but_tid: "base_inv this h own \<Longrightarrow> (\<forall>q \<in> own. \<forall>t. h q = Some t \<longrightarrow> (\<exists>x. h' q = Some (t\<lparr>tid := x\<rparr>)))
    \<Longrightarrow> base_inv this h' own"
  by (rule base_inv_frame) (force simp: same_place_def)+

lemma prefers_another_name: "plg_name this' = plg_name this \<Longrightarrow> prefers_another this' t = prefers_another this t"
  by (cases "rtf_task_get_preferred_plugin t") (auto simp: prefers_another_def split: option.split)

lemma prefers_another_total: "NUL \<in> set (sched_plugin (params t)) \<Longrightarrow> \<exists>b. prefers_another this t = Some b"
  by (simp add: prefers_another_def rtf_task_get_preferred_plugin_def cstr_def)

text \<open>The tasks are the same but for the thread that is attached to them.\<close>

definition same_but_tid :: "heap \<Rightarrow> heap \<Rightarrow> task_ptr set \<Rightarrow> bool" where
  "same_but_tid h h' own \<longleftrightarrow>
     (\<forall>q \<in> own. \<forall>t. h q = Some t \<longrightarrow> (\<exists>x. h' q = Some (t\<lparr>tid := x\<rparr>)))"

lemma in_window_add:
  assumes "in_window this h own" and "prio_min this' = prio_min this" and "prio_max this' = prio_max this"
    and "prio_min this \<le> uint (schedprio t)" and "uint (schedprio t) \<le> prio_max this"
  shows "in_window this' (h(p \<mapsto> t)) (insert p own)"
  using assms by (simp add: in_window_def)

lemma in_window_remove:
  assumes "in_window this h own" and "prio_min this' = prio_min this" and "prio_max this' = prio_max this"
  shows "in_window this' (h(p \<mapsto> t)) (own - {p})"
  using assms by (simp add: in_window_def)

lemma in_window_same_but_tid:
  assumes "in_window this h own" and "same_but_tid h h' own" and "\<forall>q \<in> own. h q \<noteq> None"
  shows "in_window this h' own"
  using assms by (fastforce simp: in_window_def same_but_tid_def)

text \<open>
  The laws the scheduler relies on.  \<open>inv this w own\<close> relates a plugin, the world and the set of
  tasks it owns; \<open>admissible\<close> excludes the tasks on which the plugin's \<open>schedule\<close> is undefined.
  \<^item> Accepting a task with a terminated plugin name answers OK, PARTIAL or NO; so does the test of a
    change, which may round the plugin's utilisations but keeps the invariant.
  \<^item> Scheduling an admissible task that the plugin does not own returns, and the plugin owns it then.
  \<^item> Releasing an owned task returns, and the plugin does not own it any longer.
  \<^item> Both change no task but this one and the priorities of the owned ones, and no counter of
    another library; the invariant only looks at the owned tasks and the plugin's own counters.
\<close>

locale plugin_contract =
  fixes inv :: "rtf_plugin \<Rightarrow> 'k world \<Rightarrow> task_ptr set \<Rightarrow> bool"
    and admissible :: "rtf_plugin \<Rightarrow> rtf_task \<Rightarrow> bool"
    and accept :: "rtf_plugin \<Rightarrow> rtf_task \<Rightarrow> int option"
    and change :: "rtf_plugin \<Rightarrow> rtf_task \<Rightarrow> (int \<times> rtf_plugin) option"
    and schedule :: "rtf_plugin \<Rightarrow> task_ptr \<Rightarrow> 'k world \<Rightarrow> (rtf_plugin \<times> 'k world) option"
    and release :: "rtf_plugin \<Rightarrow> task_ptr \<Rightarrow> 'k world \<Rightarrow> (int \<times> rtf_plugin \<times> 'k world) option"
  assumes inv_base: "inv this w own \<Longrightarrow> base_inv this (heap w) own"
    and inv_frame: "inv this w own \<Longrightarrow> same_but_tid (heap w) (heap w') own \<Longrightarrow>
      same_statics (dl_ptr this) w w' \<Longrightarrow> inv this w' own"
    and accept_total: "inv this w own \<Longrightarrow> NUL \<in> set (sched_plugin (params t)) \<Longrightarrow>
      \<exists>r \<in> {RTF_OK, RTF_PARTIAL, RTF_NO}. accept this t = Some r"
    and change_law: "inv this w own \<Longrightarrow> heap w p = Some t \<Longrightarrow> pluginid t = plg_id this \<longrightarrow> p \<in> own \<Longrightarrow>
      NUL \<in> set (sched_plugin (params t)) \<Longrightarrow>
      \<exists>r this'. change this t = Some (r, this') \<and> r \<in> {RTF_OK, RTF_PARTIAL, RTF_NO} \<and>
        inv this' w own \<and> same_plugin this this'"
    and schedule_law: "inv this w own \<Longrightarrow> p \<notin> own \<Longrightarrow> heap w p = Some t \<Longrightarrow> admissible this t \<Longrightarrow>
      \<exists>this' w'. schedule this p w = Some (this', w') \<and> inv this' w' (insert p own) \<and>
        same_plugin this this' \<and> touches (dl_ptr this) p own w w'"
    and release_law: "inv this w own \<Longrightarrow> p \<in> own \<Longrightarrow> inj_on (\<lambda>q. t_id (the (heap w q))) own \<Longrightarrow>
      \<exists>r this' w'. release this p w = Some (r, this', w') \<and> inv this' w' (own - {p}) \<and>
        same_plugin this this' \<and> touches (dl_ptr this) p own w w' \<and> pluginid (the (heap w' p)) = - 1"
begin

lemma owned_allocated: "inv this w own \<Longrightarrow> q \<in> own \<Longrightarrow> \<exists>t. heap w q = Some t \<and> pluginid t = plg_id this"
  using inv_base [of this w own] unfolding base_inv_def owned_ok_def by blast

lemma scheduled_task:
  assumes "inv this' w' (insert p own)"
  shows "\<exists>t. heap w' p = Some t \<and> pluginid t = plg_id this'"
  using owned_allocated [OF assms, of p] by simp

end

end
