(* ===== verification/Plugin_FP.thy ===== *)
theory Plugin_FP
  imports PluginBase
begin

text \<open>
  The fixed priority plugin, \<open>plugins/sched_FP.c\<close>: it accepts every task that declares a priority,
  puts it on a CPU with few tasks and maps its priority into the window of the plugin.

  The operations take the plugin and the state they may change and return both; the task set
  argument of the C functions is never read by a plugin and is left out.
\<close>

subsection \<open>Helpers\<close>

text \<open>A division by zero yields an infinity or a NaN, whose conversion to an integer is undefined.\<close>

definition fp_prio_remap :: "'k kernel \<Rightarrow> u32 \<Rightarrow> u32 \<Rightarrow> u32 \<Rightarrow> u32 option" where
  "fp_prio_remap os max_prio_s min_prio_s prio =
     (let max_fp_prio = sys_priority_max os SCHED_FIFO;
          min_fp_prio = sys_priority_min os SCHED_FIFO
      in if f32_of_int (max_fp_prio - min_fp_prio) = 0 then None
         else let slope = f32_div (f32_of_u32 (max_prio_s - min_prio_s)) (f32_of_int (max_fp_prio - min_fp_prio))
              in u32_of_f32 (f32_add (f32_of_u32 min_prio_s)
                   (f32_mul slope (f32_of_u32 (prio - u32_of_int min_fp_prio)))))"

definition fp_least_loaded_cpu :: "rtf_plugin \<Rightarrow> u32 option" where
  "fp_least_loaded_cpu this = least_loaded_by_count this"

definition fp_has_another_preference :: "rtf_plugin \<Rightarrow> rtf_task \<Rightarrow> bool option" where
  "fp_has_another_preference this t = prefers_another this t"

subsection \<open>Plugin methods\<close>

definition fp_task_init :: "rtf_plugin \<Rightarrow> int" where
  "fp_task_init this = RTF_OK"

definition fp_task_accept :: "rtf_plugin \<Rightarrow> rtf_task \<Rightarrow> int option" where
  "fp_task_accept this t =
     (if rtf_task_get_ignore_admission t = 0 \<and> rtf_task_get_priority t = 0 then Some RTF_PARTIAL
      else do {
        other \<leftarrow> fp_has_another_preference this t;
        Some (if other then RTF_PARTIAL else RTF_OK)
      })"

definition fp_task_change :: "rtf_plugin \<Rightarrow> rtf_task \<Rightarrow> int option" where
  "fp_task_change this t = fp_task_accept this t"

definition fp_task_schedule ::
  "'k kernel \<Rightarrow> rtf_plugin \<Rightarrow> task_ptr \<Rightarrow> 'k world \<Rightarrow> (rtf_plugin \<times> 'k world) option" where
  "fp_task_schedule os this p w = do {
     t \<leftarrow> heap w p;
     let priority = rtf_task_get_priority t;
     c \<leftarrow> fp_least_loaded_cpu this;
     w \<leftarrow> upd_world_task w p (\<lambda>t. rtf_task_set_cpu t c);
     w \<leftarrow> upd_world_task w p (\<lambda>t. t\<lparr>pluginid := plg_id this\<rparr>);
     real \<leftarrow> (if priority = 0 then Some (u32_of_int (prio_min this))
             else fp_prio_remap os (u32_of_int (prio_max this)) (u32_of_int (prio_min this)) priority);
     w \<leftarrow> upd_world_task w p (\<lambda>t. rtf_task_set_real_priority t real);
     t \<leftarrow> heap w p;
     this \<leftarrow> add_task_count this (unat (cpu t)) 1;
     Some (this, w)
   }"

definition fp_task_attach :: "'k kernel \<Rightarrow> task_ptr \<Rightarrow> 'k world \<Rightarrow> (int \<times> 'k world) option" where
  "fp_task_attach os p w = posix_attach os SCHED_FIFO p w"

definition fp_task_detach :: "'k kernel \<Rightarrow> task_ptr \<Rightarrow> 'k world \<Rightarrow> (int \<times> 'k world) option" where
  "fp_task_detach os p w = posix_detach os p w"

definition fp_task_release ::
  "'k kernel \<Rightarrow> rtf_plugin \<Rightarrow> task_ptr \<Rightarrow> 'k world \<Rightarrow> (int \<times> rtf_plugin \<times> 'k world) option" where
  "fp_task_release os this p w = do {
     t \<leftarrow> heap w p;
     this \<leftarrow> add_task_count this (unat (cpu t)) (- 1);
     w \<leftarrow> upd_world_task w p (\<lambda>t. t\<lparr>pluginid := - 1\<rparr>);
     (r, w) \<leftarrow> detach_if_policy os SCHED_FIFO p w;
     Some (r, this, w)
   }"

subsection \<open>The contract\<close>

definition fp_inv :: "'k kernel \<Rightarrow> rtf_plugin \<Rightarrow> 'k world \<Rightarrow> task_ptr set \<Rightarrow> bool" where
  "fp_inv os this w own \<longleftrightarrow> dl_ptr this = SCHED_FP_so \<and> base_inv this (heap w) own \<and> window_ok this \<and> linux_prio os \<and>
     in_window this (heap w) own"

definition fp_admissible :: "rtf_plugin \<Rightarrow> rtf_task \<Rightarrow> bool" where
  "fp_admissible this t \<longleftrightarrow> uint (priority (params t)) \<le> 99"

lemma fp_prio_remap_window:
  assumes "linux_prio os" and "0 \<le> mn" and "mn \<le> mx" and "mx \<le> 99" and "1 \<le> uint prio" and "uint prio \<le> 99"
  shows "\<exists>r. fp_prio_remap os (u32_of_int mx) (u32_of_int mn) prio = Some r \<and> mn \<le> uint r \<and> uint r \<le> mx"
proof -
  have "u32_of_int mx - u32_of_int mn = u32_of_int (mx - mn)" by (simp add: u32_of_int_def)
  then have a: "f32_of_u32 (u32_of_int mx - u32_of_int mn) = of_int (mx - mn)"
    using assms by (simp add: f32_of_u32_def uint_u32_of_int f32_of_int_exact)
  have m: "f32_of_u32 (u32_of_int mn) = of_int mn"
    using assms by (simp add: f32_of_u32_def uint_u32_of_int f32_of_int_exact)
  have "uint (prio - u32_of_int 1) = uint prio - 1"
    using assms(5) by (rule uint_pred)
  then have k: "f32_of_u32 (prio - u32_of_int 1) = of_int (uint prio - 1)"
    using assms by (simp add: f32_of_u32_def f32_of_int_exact)
  have "of_int (mx - mn) / 98 * of_int (uint prio - 1) \<le> (of_int (mx - mn) / 98 * 98 :: rat)"
    using assms by (intro mult_left_mono) (simp_all flip: of_int_diff)
  then have x: "of_int (mx - mn) / 98 * of_int (uint prio - 1) \<le> (of_int (mx - mn) + 1 - 1 / 100 :: rat)"
    by simp
  have "\<exists>r. u32_of_f32 (f32_add (of_int mn) (f32_mul (f32_div (of_int (mx - mn)) 98) (of_int (uint prio - 1)))) = Some r
      \<and> mn \<le> uint r \<and> uint r \<le> mn + (mx - mn)"
    by (rule remap_in_window) (use assms x in \<open>simp_all flip: of_int_diff\<close>)
  moreover have "f32_of_int 98 = 98" using f32_of_int_exact [of 98] by simp
  ultimately show ?thesis
    using assms(1) a m k by (simp add: fp_prio_remap_def linux_prio_def)
qed


lemma fp_schedule_spec:
  assumes "fp_inv os this w own" and "heap w p = Some t" and "fp_admissible this t"
  shows "\<exists>c \<in> set (cpulist this). \<exists>real. prio_min this \<le> uint real \<and> uint real \<le> prio_max this \<and>
    fp_task_schedule os this p w = Some
      (this\<lparr>task_count_percpu := (task_count_percpu this)[nat c := task_count_percpu this ! nat c + 1]\<rparr>,
       w\<lparr>heap := (heap w)(p \<mapsto> t\<lparr>cpu := u64_of_u32 (u32_of_int c), pluginid := plg_id this, schedprio := real\<rparr>)\<rparr>)"
proof -
  let ?c = "choice_of (\<lambda>n bound. n < bound) (task_count_percpu this) (cpulist this)"
  have ok: "plugin_ok this" and lp: "linux_prio os" and wo: "window_ok this"
    using assms(1) by (simp_all add: fp_inv_def base_inv_def)
  have c: "?c \<in> set (cpulist this)" using ok by (intro choice_in_cpulist) (simp add: plugin_ok_def)
  note b = plugin_okD [OF ok c] u32_cpu [OF ok c]
  let ?prio = "priority (params t)"
  obtain real where real: "(if ?prio = 0 then Some (u32_of_int (prio_min this))
      else fp_prio_remap os (u32_of_int (prio_max this)) (u32_of_int (prio_min this)) ?prio) = Some real"
      "prio_min this \<le> uint real" "uint real \<le> prio_max this"
  proof (cases "?prio = 0")
    case True
    with wo that [of "u32_of_int (prio_min this)"] show ?thesis
      by (simp add: window_ok_def uint_u32_of_int)
  next
    case False
    then have "1 \<le> uint ?prio" by (metis int_one_le_iff_zero_less uint_ge_0 uint_0_iff order_le_less)
    with fp_prio_remap_window [OF lp, of "prio_min this" "prio_max this" ?prio] wo assms(3) False that
    show ?thesis by (auto simp: window_ok_def fp_admissible_def)
  qed
  have "fp_task_schedule os this p w = Some
      (this\<lparr>task_count_percpu := (task_count_percpu this)[nat ?c := task_count_percpu this ! nat ?c + 1]\<rparr>,
       w\<lparr>heap := (heap w)(p \<mapsto> t\<lparr>cpu := u64_of_u32 (u32_of_int ?c), pluginid := plg_id this, schedprio := real\<rparr>)\<rparr>)"
    using assms(2) real(1) b ok
    by (simp add: fp_task_schedule_def fp_least_loaded_cpu_def least_loaded_by_count_eq c_simps
        rtf_task_get_priority_def rtf_task_set_cpu_def rtf_task_set_real_priority_def cong: if_cong)
  with c real(2,3) show ?thesis by blast
qed

lemma fp_release_spec:
  assumes "fp_inv os this w own" and "p \<in> own" and "heap w p = Some t"
  shows "\<exists>r k. fp_task_release os this p w = Some (r,
    this\<lparr>task_count_percpu := (task_count_percpu this)[unat (cpu t) := task_count_percpu this ! unat (cpu t) - 1]\<rparr>,
    w\<lparr>heap := (heap w)(p \<mapsto> t\<lparr>pluginid := - 1\<rparr>), kern := k\<rparr>)"
proof -
  have "base_inv this (heap w) own" using assms(1) by (simp add: fp_inv_def)
  note c = owned_cpu [OF this assms(2,3)]
  let ?w = "w\<lparr>heap := (heap w)(p \<mapsto> t\<lparr>pluginid := - 1\<rparr>)\<rparr>"
  obtain r k where "detach_if_policy os SCHED_FIFO p ?w = Some (r, ?w\<lparr>kern := k\<rparr>)"
    using detach_if_policy_spec [of ?w p] by fastforce
  with assms(3) c have "fp_task_release os this p w = Some (r,
    this\<lparr>task_count_percpu := (task_count_percpu this)[unat (cpu t) := task_count_percpu this ! unat (cpu t) - 1]\<rparr>,
    ?w\<lparr>kern := k\<rparr>)"
    by (simp add: fp_task_release_def c_simps)
  then show ?thesis by (intro exI [of _ r] exI [of _ k]) simp
qed

interpretation fp: plugin_contract "fp_inv os" fp_admissible fp_task_accept
    "\<lambda>this t. map_option (\<lambda>r. (r, this)) (fp_task_change this t)" "fp_task_schedule os" "fp_task_release os"
  for os
proof unfold_locales
  fix this :: rtf_plugin and w :: "'a world" and own
  assume inv: "fp_inv os this w own"
  then show base: "base_inv this (heap w) own" by (simp add: fp_inv_def)
  have lib: "dl_ptr this = SCHED_FP_so" using inv by (simp add: fp_inv_def)
  {
    fix w' :: "'a world" assume sbt: "same_but_tid (heap w) (heap w') own"
    then have "base_inv this (heap w') own"
      using base_inv_same_but_tid [OF base] by (simp add: same_but_tid_def)
    moreover have al: "\<forall>q \<in> own. heap w q \<noteq> None" using base by (fastforce simp: base_inv_def owned_ok_def)
    have "in_window this (heap w) own" using inv by (simp add: fp_inv_def)
    then have "in_window this (heap w') own" using sbt al by (rule in_window_same_but_tid)
    ultimately show "fp_inv os this w' own" using inv by (simp add: fp_inv_def)
  next
    fix t :: rtf_task assume "NUL \<in> set (sched_plugin (params t))"
    then obtain b where "prefers_another this t = Some b" using prefers_another_total by blast
    then show "\<exists>r \<in> {RTF_OK, RTF_PARTIAL, RTF_NO}. fp_task_accept this t = Some r"
      by (auto simp: fp_task_accept_def fp_has_another_preference_def)
  next
    fix p :: task_ptr and t :: rtf_task assume "NUL \<in> set (sched_plugin (params t))"
    then obtain b where "prefers_another this t = Some b" using prefers_another_total by blast
    then show "\<exists>r this'. map_option (\<lambda>r. (r, this)) (fp_task_change this t) = Some (r, this') \<and>
        r \<in> {RTF_OK, RTF_PARTIAL, RTF_NO} \<and> fp_inv os this' w own \<and> same_plugin this this'"
      using inv by (auto simp: fp_task_change_def fp_task_accept_def fp_has_another_preference_def)
  next
    fix p t
    assume p: "p \<notin> own" "heap w p = Some t" "fp_admissible this t"
    obtain c real where c: "c \<in> set (cpulist this)" and real: "prio_min this \<le> uint real" "uint real \<le> prio_max this"
      and sch: "fp_task_schedule os this p w = Some
        (this\<lparr>task_count_percpu := (task_count_percpu this)[nat c := task_count_percpu this ! nat c + 1]\<rparr>,
         w\<lparr>heap := (heap w)(p \<mapsto> t\<lparr>cpu := u64_of_u32 (u32_of_int c), pluginid := plg_id this, schedprio := real\<rparr>)\<rparr>)"
      (is "_ = Some (?plg, ?w)")
      using fp_schedule_spec [OF inv p(2,3)] by blast
    have tch: "touches (dl_ptr this) p own w ?w"
      by (rule touches_upd [where t' = "t\<lparr>cpu := u64_of_u32 (u32_of_int c), pluginid := plg_id this, schedprio := real\<rparr>",
            OF p(2)]) (auto simp: same_identity_def)
    have ok: "plugin_ok this" using base by (simp add: base_inv_def)
    have "base_inv ?plg (heap ?w) (insert p own)"
      by (rule base_inv_add [OF base p(1) touches_same_place [OF tch p(1)] _ _ c])
         (use ok u32_cpu [OF ok c] in \<open>auto simp: plugin_ok_def\<close>)
    moreover have "in_window ?plg (heap ?w) (insert p own)"
      using inv real by (auto simp: fp_inv_def intro!: in_window_add [of this])
    ultimately have "fp_inv os ?plg ?w (insert p own)" using inv by (simp add: fp_inv_def window_ok_def)
    with sch tch show "\<exists>this' w'. fp_task_schedule os this p w = Some (this', w') \<and>
        fp_inv os this' w' (insert p own) \<and> same_plugin this this' \<and> touches (dl_ptr this) p own w w'"
      by (intro exI [of _ ?plg] exI [of _ ?w]) (simp add: same_plugin_def)
  next
    fix p
    assume p: "p \<in> own"
    then obtain t where t: "heap w p = Some t" using base by (auto simp: base_inv_def owned_ok_def)
    obtain r k where rel: "fp_task_release os this p w = Some (r,
        this\<lparr>task_count_percpu := (task_count_percpu this)[unat (cpu t) := task_count_percpu this ! unat (cpu t) - 1]\<rparr>,
        w\<lparr>heap := (heap w)(p \<mapsto> t\<lparr>pluginid := - 1\<rparr>), kern := k\<rparr>)"
      (is "_ = Some (_, ?plg, ?w)")
      using fp_release_spec [OF inv p t] by blast
    have tch: "touches (dl_ptr this) p own w ?w"
      by (rule touches_upd [where t' = "t\<lparr>pluginid := - 1\<rparr>", OF t]) (auto simp: same_identity_def)
    have "p \<notin> own - {p}" by simp
    then have "base_inv ?plg (heap ?w) (own - {p})"
      by (intro base_inv_remove [OF base p touches_same_place [OF tch] t])
         (use base in \<open>auto simp: base_inv_def plugin_ok_def\<close>)
    moreover have "in_window ?plg (heap ?w) (own - {p})"
      using inv by (auto simp: fp_inv_def intro!: in_window_remove [of this])
    ultimately have "fp_inv os ?plg ?w (own - {p})" using inv by (simp add: fp_inv_def window_ok_def)
    with rel tch show "\<exists>r this' w'. fp_task_release os this p w = Some (r, this', w') \<and>
        fp_inv os this' w' (own - {p}) \<and> same_plugin this this' \<and> touches (dl_ptr this) p own w w' \<and>
        pluginid (the (heap w' p)) = - 1"
      by (intro exI [of _ r] exI [of _ ?plg] exI [of _ ?w]) (simp add: same_plugin_def)
  }
qed

end
