(* ===== verification/Plugin_RR.thy ===== *)
theory Plugin_RR
  imports PluginBase
begin

text \<open>
  The round robin plugin, \<open>plugins/sched_RR.c\<close>.  Every CPU of the plugin has a task set sorted by
  the declared priority; the real priorities are assigned in that order, one for each declared
  priority, as long as the window of the plugin is wide enough, and by \<open>prio_remap\<close> after that.

  The static arrays \<open>n_per_prio\<close> and \<open>dist_prio\<close> are \<open>rr_n_per_prio\<close> and \<open>rr_dist_prio\<close> of the world.
\<close>

subsection \<open>Helpers\<close>

record priorities =
  low :: u64
  high :: u64

text \<open>\<open>0x1 << bitpos\<close> is a shift of an \<open>int\<close>: a position above 30 is undefined.\<close>

definition SHIFT_ONE :: "u32 \<Rightarrow> u64 option" where
  "SHIFT_ONE bitpos = (if unat bitpos < 31 then Some (push_bit (unat bitpos) 1) else None)"

definition is_prio_unique :: "priorities \<Rightarrow> u32 \<Rightarrow> bool option" where
  "is_prio_unique ps prio =
     (let (word, pos) = (if prio > 63 then (high ps, prio - 63) else (low ps, prio))
      in do {
        m \<leftarrow> SHIFT_ONE pos;
        Some (drop_bit (unat pos) (and m word) = 0)
      })"

definition set_prio_unique :: "priorities \<Rightarrow> u32 \<Rightarrow> priorities option" where
  "set_prio_unique ps prio =
     (if prio > 63 then do { m \<leftarrow> SHIFT_ONE (prio - 63); Some (ps\<lparr>high := or m (high ps)\<rparr>) }
      else do { m \<leftarrow> SHIFT_ONE prio; Some (ps\<lparr>low := or m (low ps)\<rparr>) })"

definition rr_prio_remap :: "'k kernel \<Rightarrow> u32 \<Rightarrow> u32 \<Rightarrow> u32 \<Rightarrow> u32 option" where
  "rr_prio_remap os max_prio_s min_prio_s prio =
     (let max_rr_prio = sys_priority_max os SCHED_RR;
          min_rr_prio = sys_priority_min os SCHED_RR
      in if f32_of_int (max_rr_prio - min_rr_prio + 1) = 0 then None
         else let slope = f32_div (f32_of_u32 (max_prio_s - min_prio_s + 1))
                            (f32_of_int (max_rr_prio - min_rr_prio + 1))
              in u32_of_f32 (f32_add (f32_of_u32 min_prio_s)
                   (f32_mul slope (f32_of_u32 (prio - u32_of_int min_rr_prio)))))"

definition rr_least_loaded_cpu :: "rtf_plugin \<Rightarrow> u32 option" where
  "rr_least_loaded_cpu this = least_loaded_by_count this"

text \<open>The two loops of \<open>assign_priorities\<close> over the task set of a CPU.\<close>

fun rr_assign_remapped ::
  "'k kernel \<Rightarrow> rtf_plugin \<Rightarrow> task_ptr list \<Rightarrow> 'k world \<Rightarrow> 'k world option" where
  "rr_assign_remapped os this [] w = Some w"
| "rr_assign_remapped os this (p # ps) w = do {
     t \<leftarrow> heap w p;
     real \<leftarrow> rr_prio_remap os (u32_of_int (prio_max this)) (u32_of_int (prio_min this)) (priority (params t));
     w \<leftarrow> upd_world_task w p (\<lambda>t. rtf_task_set_real_priority t real);
     rr_assign_remapped os this ps w
   }"

fun rr_assign_dense :: "u32 \<Rightarrow> u32 \<Rightarrow> task_ptr list \<Rightarrow> 'k world \<Rightarrow> 'k world option" where
  "rr_assign_dense curr_prio prec_prio [] w = Some w"
| "rr_assign_dense curr_prio prec_prio (p # ps) w = do {
     t \<leftarrow> heap w p;
     if prec_prio = rtf_task_get_priority t then do {
       w \<leftarrow> upd_world_task w p (\<lambda>t. rtf_task_set_real_priority t curr_prio);
       rr_assign_dense curr_prio prec_prio ps w
     } else do {
       w \<leftarrow> upd_world_task w p (\<lambda>t. rtf_task_set_real_priority t (curr_prio + 1));
       rr_assign_dense (curr_prio + 1) (rtf_task_get_priority t) ps w
     }
   }"

definition rr_assign_priorities :: "'k kernel \<Rightarrow> rtf_plugin \<Rightarrow> nat \<Rightarrow> 'k world \<Rightarrow> 'k world option" where
  "rr_assign_priorities os this c w = do {
     ts \<leftarrow> aget (plg_tasks this) c;
     d \<leftarrow> aget (rr_dist_prio w) c;
     if d > u32_of_int ((prio_max this - prio_min this) + 1)
     then rr_assign_remapped os this (list_root ts) w
     else rr_assign_dense (u32_of_int (prio_min this - 1)) (- 1) (list_root ts) w
   }"

definition rr_has_another_preference :: "rtf_plugin \<Rightarrow> rtf_task \<Rightarrow> bool option" where
  "rr_has_another_preference this t = prefers_another this t"

text \<open>The counter \<open>n_per_prio[c][prio]\<close>, read and written.\<close>

definition get_n_per_prio :: "'k world \<Rightarrow> nat \<Rightarrow> nat \<Rightarrow> int option" where
  "get_n_per_prio w c prio = do { row \<leftarrow> aget (rr_n_per_prio w) c; aget row prio }"

definition set_n_per_prio :: "'k world \<Rightarrow> nat \<Rightarrow> nat \<Rightarrow> int \<Rightarrow> 'k world option" where
  "set_n_per_prio w c prio n = do {
     row \<leftarrow> aget (rr_n_per_prio w) c;
     row \<leftarrow> aset row prio n;
     rows \<leftarrow> aset (rr_n_per_prio w) c row;
     Some (w\<lparr>rr_n_per_prio := rows\<rparr>)
   }"

definition add_rr_dist_prio :: "'k world \<Rightarrow> nat \<Rightarrow> u32 \<Rightarrow> 'k world option" where
  "add_rr_dist_prio w c d = do {
     n \<leftarrow> aget (rr_dist_prio w) c;
     ds \<leftarrow> aset (rr_dist_prio w) c (n + d);
     Some (w\<lparr>rr_dist_prio := ds\<rparr>)
   }"

subsection \<open>Plugin methods\<close>

definition rr_task_init :: "rtf_plugin \<Rightarrow> int" where
  "rr_task_init this = RTF_OK"

definition rr_task_accept :: "rtf_plugin \<Rightarrow> rtf_task \<Rightarrow> int option" where
  "rr_task_accept this t =
     (if rtf_task_get_ignore_admission t = 0 \<and> rtf_task_get_priority t = 0 then Some RTF_PARTIAL
      else do {
        other \<leftarrow> rr_has_another_preference this t;
        Some (if other then RTF_PARTIAL else RTF_OK)
      })"

definition rr_task_change :: "rtf_plugin \<Rightarrow> rtf_task \<Rightarrow> int option" where
  "rr_task_change this t = rr_task_accept this t"

text \<open>The middle of the schedule: the first task of a priority makes the priorities of the CPU to be
  assigned again; a later one takes the real priority of the task it was inserted before.\<close>

definition rr_insert_priority ::
  "'k kernel \<Rightarrow> rtf_plugin \<Rightarrow> nat \<Rightarrow> task_ptr \<Rightarrow> task_ptr node_ptr \<Rightarrow> int \<Rightarrow> 'k world \<Rightarrow> 'k world option" where
  "rr_insert_priority os this c p inserted n w =
     (if n = 1 then do {
        w \<leftarrow> add_rr_dist_prio w c 1;
        rr_assign_priorities os this c w
      } else do {
        nxt \<leftarrow> node_next inserted;
        q \<leftarrow> node_elem nxt;
        tn \<leftarrow> heap w q;
        upd_world_task w p (\<lambda>t. rtf_task_set_real_priority t (rtf_task_get_real_priority tn))
      })"

definition rr_task_schedule ::
  "'k kernel \<Rightarrow> rtf_plugin \<Rightarrow> task_ptr \<Rightarrow> 'k world \<Rightarrow> (rtf_plugin \<times> 'k world) option" where
  "rr_task_schedule os this p w = do {
     c32 \<leftarrow> rr_least_loaded_cpu this;
     let c = unat c32;
     w \<leftarrow> upd_world_task w p (\<lambda>t. rtf_task_set_cpu t c32);
     w \<leftarrow> upd_world_task w p (\<lambda>t. t\<lparr>pluginid := plg_id this\<rparr>);
     t \<leftarrow> heap w p;
     let prio = unat (priority (params t));
     n \<leftarrow> get_n_per_prio w c prio;
     w \<leftarrow> set_n_per_prio w c prio (n + 1);
     ts \<leftarrow> aget (plg_tasks this) c;
     (inserted, ts) \<leftarrow> rtf_taskset_add_sorted_prio (heap w) ts p;
     tss \<leftarrow> aset (plg_tasks this) c ts;
     let this = this\<lparr>plg_tasks := tss\<rparr>;
     n \<leftarrow> get_n_per_prio w c prio;
     w \<leftarrow> rr_insert_priority os this c p inserted n w;
     t \<leftarrow> heap w p;
     this \<leftarrow> add_task_count this (unat (cpu t)) 1;
     Some (this, w)
   }"

definition rr_task_attach :: "'k kernel \<Rightarrow> task_ptr \<Rightarrow> 'k world \<Rightarrow> (int \<times> 'k world) option" where
  "rr_task_attach os p w = posix_attach os SCHED_RR p w"

definition rr_task_detach :: "'k kernel \<Rightarrow> task_ptr \<Rightarrow> 'k world \<Rightarrow> (int \<times> 'k world) option" where
  "rr_task_detach os p w = posix_detach os p w"

definition rr_task_release ::
  "'k kernel \<Rightarrow> rtf_plugin \<Rightarrow> task_ptr \<Rightarrow> 'k world \<Rightarrow> (int \<times> rtf_plugin \<times> 'k world) option" where
  "rr_task_release os this p w = do {
     t \<leftarrow> heap w p;
     let c = unat (cpu t);
     let prio = unat (priority (params t));
     this \<leftarrow> add_task_count this c (- 1);
     n \<leftarrow> get_n_per_prio w c prio;
     w \<leftarrow> set_n_per_prio w c prio (n - 1);
     n \<leftarrow> get_n_per_prio w c prio;
     w \<leftarrow> (if n = 0 then add_rr_dist_prio w c (- 1) else Some w);
     ts \<leftarrow> aget (plg_tasks this) c;
     (_, ts) \<leftarrow> rtf_taskset_remove_by_rsvid (heap w) ts (t_id t);
     tss \<leftarrow> aset (plg_tasks this) c ts;
     let this = this\<lparr>plg_tasks := tss\<rparr>;
     w \<leftarrow> upd_world_task w p (\<lambda>t. t\<lparr>pluginid := - 1\<rparr>);
     (r, w) \<leftarrow> detach_if_policy os SCHED_RR p w;
     Some (r, this, w)
   }"

subsection \<open>The assignment of priorities\<close>

abbreviation rr_key :: "rtf_task \<Rightarrow> int" where
  "rr_key \<equiv> sort_key PRIORITY ASC"

lemma rr_key_eq: "rr_key t = uint (priority (params t))"
  by (simp add: sort_key_def ASC_def DSC_def)

lemma rr_prio_remap_window:
  assumes "linux_prio os" and "0 \<le> mn" and "mn \<le> mx" and "mx \<le> 99" and "1 \<le> uint prio" and "uint prio \<le> 99"
  shows "\<exists>r. rr_prio_remap os (u32_of_int mx) (u32_of_int mn) prio = Some r \<and> mn \<le> uint r \<and> uint r \<le> mx"
    and "rr_prio_remap os (u32_of_int mx) (u32_of_int mn) prio =
      u32_of_f32 (f32_add (of_int mn) (f32_mul (f32_div (of_int (mx - mn + 1)) 99) (of_int (uint prio - 1))))"
proof -
  have "u32_of_int mx - u32_of_int mn + 1 = u32_of_int (mx - mn + 1)" by (simp add: u32_of_int_def)
  moreover have "uint (u32_of_int (mx - mn + 1)) = mx - mn + 1" using assms by (intro uint_u32_of_int) auto
  ultimately have a: "f32_of_u32 (u32_of_int mx - u32_of_int mn + 1) = of_int (mx - mn + 1)"
    using assms by (simp only: f32_of_u32_def) (simp add: f32_of_int_exact)
  have m: "f32_of_u32 (u32_of_int mn) = of_int mn"
    using assms by (simp add: f32_of_u32_def uint_u32_of_int f32_of_int_exact)
  have "uint (prio - u32_of_int 1) = uint prio - 1" using assms(5) by (rule uint_pred)
  then have k: "f32_of_u32 (prio - u32_of_int 1) = of_int (uint prio - 1)"
    using assms by (simp add: f32_of_u32_def f32_of_int_exact)
  have n: "f32_of_int 99 = 99" using f32_of_int_exact [of 99] by simp
  show eq: "rr_prio_remap os (u32_of_int mx) (u32_of_int mn) prio =
      u32_of_f32 (f32_add (of_int mn) (f32_mul (f32_div (of_int (mx - mn + 1)) 99) (of_int (uint prio - 1))))"
    using assms(1) n by (simp add: rr_prio_remap_def linux_prio_def a m k Let_def)
  have "of_int (mx - mn + 1) / 99 * of_int (uint prio - 1) \<le> (of_int (mx - mn + 1) / 99 * 98 :: rat)"
    using assms by (intro mult_left_mono) (simp_all flip: of_int_diff of_int_add)
  moreover have "(0 :: rat) \<le> of_int (mx - mn)" using assms(3) by simp
  ultimately have x: "of_int (mx - mn + 1) / 99 * of_int (uint prio - 1) \<le> (of_int (mx - mn) + 1 - 1 / 100 :: rat)"
    by simp
  have "\<exists>r. u32_of_f32 (f32_add (of_int mn) (f32_mul (f32_div (of_int (mx - mn + 1)) 99) (of_int (uint prio - 1)))) = Some r
      \<and> mn \<le> uint r \<and> uint r \<le> mn + (mx - mn)"
    by (rule remap_in_window) (use assms x in \<open>simp_all flip: of_int_diff of_int_add\<close>)
  then show "\<exists>r. rr_prio_remap os (u32_of_int mx) (u32_of_int mn) prio = Some r \<and> mn \<le> uint r \<and> uint r \<le> mx"
    unfolding eq by simp
qed

lemma rr_prio_remap_mono:
  assumes "linux_prio os" and "0 \<le> mn" and "mn \<le> mx" and "mx \<le> 99" and "1 \<le> uint a" and "uint a \<le> uint b" and "uint b \<le> 99"
    and "rr_prio_remap os (u32_of_int mx) (u32_of_int mn) a = Some r"
    and "rr_prio_remap os (u32_of_int mx) (u32_of_int mn) b = Some s"
  shows "uint r \<le> uint s"
proof -
  let ?slope = "f32_div (of_int (mx - mn + 1)) 99"
  let ?y = "\<lambda>p. f32_add (of_int mn) (f32_mul ?slope (of_int (uint (p :: u32) - 1)))"
  have s: "0 \<le> ?slope" using assms by (intro f32_div_nonneg) auto
  have a0: "(0 :: rat) \<le> of_int (uint a - 1)" using assms(5) by (simp only: of_int_0_le_iff)
  have ab: "(of_int (uint a - 1) :: rat) \<le> of_int (uint b - 1)" using assms(6) by (simp only: of_int_le_iff)
  have q: "0 \<le> f32_mul ?slope (of_int (uint a - 1))"
    unfolding f32_mul_def f32_round_def using s a0 by (intro fround_nonneg mult_nonneg_nonneg)
  have "f32_mul ?slope (of_int (uint a - 1)) \<le> f32_mul ?slope (of_int (uint b - 1))"
    unfolding f32_mul_def using s a0 ab by (intro f32_round_mono mult_nonneg_nonneg mult_left_mono)
  then have "?y a \<le> ?y b"
    unfolding f32_add_def using q assms(2) by (intro f32_round_mono) auto
  moreover have "0 \<le> ?y a"
    unfolding f32_add_def f32_round_def using q assms(2) by (intro fround_nonneg) auto
  moreover have "u32_of_f32 (?y a) = Some r" "u32_of_f32 (?y b) = Some s"
    using assms rr_prio_remap_window(2) [OF assms(1-4), of a] rr_prio_remap_window(2) [OF assms(1-4), of b] by auto
  ultimately show ?thesis using u32_of_f32_mono by blast
qed

lemma rr_assign_dense_spec:
  assumes "\<forall>q \<in> set ps. allocated (heap w) q" and "distinct ps"
  shows "\<exists>h'. rr_assign_dense cur prec ps w = Some (w\<lparr>heap := h'\<rparr>) \<and> reprio (heap w) h' (set ps) \<and>
      map (\<lambda>q. schedprio (the (h' q))) ps = dense cur (uint prec) (map (\<lambda>q. rr_key (the (heap w q))) ps)"
  using assms
proof (induction ps arbitrary: cur prec w)
  case Nil
  then show ?case by (intro exI [of _ "heap w"]) simp
next
  case (Cons p ps)
  then obtain t where t: "heap w p = Some t" by (auto elim: allocatedE)
  define c where "c = (if prec = rtf_task_get_priority t then cur else cur + 1)"
  define w1 where "w1 = w\<lparr>heap := (heap w)(p \<mapsto> t\<lparr>schedprio := c\<rparr>)\<rparr>"
  have step: "rr_assign_dense cur prec (p # ps) w = rr_assign_dense c (rtf_task_get_priority t) ps w1"
    using t by (simp add: c_def w1_def c_simps rtf_task_set_real_priority_def)
  have al: "\<forall>q \<in> set ps. allocated (heap w1) q" using Cons.prems by (simp add: w1_def)
  obtain h' where h: "rr_assign_dense c (rtf_task_get_priority t) ps w1 = Some (w1\<lparr>heap := h'\<rparr>)" "reprio (heap w1) h' (set ps)"
      and v: "map (\<lambda>q. schedprio (the (h' q))) ps = dense c (uint (rtf_task_get_priority t)) (map (\<lambda>q. rr_key (the (heap w1 q))) ps)"
    using Cons.IH [OF al, of c "rtf_task_get_priority t"] Cons.prems by auto
  have p: "h' p = Some (t\<lparr>schedprio := c\<rparr>)"
    using reprio_outside [OF h(2), of p] Cons.prems by (simp add: w1_def)
  have keys: "map (\<lambda>q. rr_key (the (heap w1 q))) ps = map (\<lambda>q. rr_key (the (heap w q))) ps"
    using Cons.prems by (intro map_cong) (auto simp: w1_def)
  have "reprio (heap w) (heap w1) (set (p # ps))" using t by (simp add: w1_def reprio_upd)
  then have "reprio (heap w) h' (set (p # ps))"
    using reprio_mono [OF h(2), of "set (p # ps)"] reprio_trans by auto
  moreover have "map (\<lambda>q. schedprio (the (h' q))) (p # ps) =
      dense cur (uint prec) (map (\<lambda>q. rr_key (the (heap w q))) (p # ps))"
    using v [unfolded keys] p t by (auto simp: c_def rr_key_eq rtf_task_get_priority_def word_uint_eq_iff)
  ultimately show ?case using step h(1) by (intro exI [of _ h']) (simp add: w1_def)
qed

lemma rr_assign_remapped_spec:
  assumes "\<forall>q \<in> set ps. allocated (heap w) q" and "distinct ps"
    and "\<forall>q \<in> set ps. 1 \<le> rr_key (the (heap w q)) \<and> rr_key (the (heap w q)) \<le> 99"
    and "linux_prio os" and "window_ok this"
  shows "\<exists>h'. rr_assign_remapped os this ps w = Some (w\<lparr>heap := h'\<rparr>) \<and> reprio (heap w) h' (set ps) \<and>
      (\<forall>q \<in> set ps. rr_prio_remap os (u32_of_int (prio_max this)) (u32_of_int (prio_min this))
         (priority (params (the (heap w q)))) = Some (schedprio (the (h' q))))"
  using assms(1-3)
proof (induction ps arbitrary: w)
  case Nil
  then show ?case by (intro exI [of _ "heap w"]) simp
next
  case (Cons p ps)
  obtain t where t: "heap w p = Some t" using Cons.prems(1) by (auto elim: allocatedE)
  obtain r where r: "rr_prio_remap os (u32_of_int (prio_max this)) (u32_of_int (prio_min this)) (priority (params t)) = Some r"
    using rr_prio_remap_window(1) [OF assms(4), of "prio_min this" "prio_max this" "priority (params t)"]
      assms(5) Cons.prems(3) t by (auto simp: window_ok_def rr_key_eq)
  define w1 where "w1 = w\<lparr>heap := (heap w)(p \<mapsto> t\<lparr>schedprio := r\<rparr>)\<rparr>"
  have step: "rr_assign_remapped os this (p # ps) w = rr_assign_remapped os this ps w1"
    using t r by (simp add: w1_def c_simps rtf_task_set_real_priority_def)
  have same: "\<forall>q \<in> set ps. heap w1 q = heap w q" using Cons.prems by (auto simp: w1_def)
  have al: "\<forall>q \<in> set ps. allocated (heap w1) q" using Cons.prems by (simp add: w1_def)
  obtain h' where h: "rr_assign_remapped os this ps w1 = Some (w1\<lparr>heap := h'\<rparr>)" "reprio (heap w1) h' (set ps)"
      and v: "\<forall>q \<in> set ps. rr_prio_remap os (u32_of_int (prio_max this)) (u32_of_int (prio_min this))
         (priority (params (the (heap w1 q)))) = Some (schedprio (the (h' q)))"
    using Cons.IH [OF al] Cons.prems same by auto
  have p: "h' p = Some (t\<lparr>schedprio := r\<rparr>)"
    using reprio_outside [OF h(2), of p] Cons.prems by (simp add: w1_def)
  have "reprio (heap w) (heap w1) (set (p # ps))" using t by (simp add: w1_def reprio_upd)
  then have "reprio (heap w) h' (set (p # ps))"
    using reprio_mono [OF h(2), of "set (p # ps)"] reprio_trans by auto
  with step h(1) v p t r same show ?case by (intro exI [of _ h']) (simp add: w1_def)
qed

definition prio_of :: "heap \<Rightarrow> task_ptr \<Rightarrow> nat" where
  "prio_of h p = unat (priority (params (the (h p))))"

lemma rr_key_prio_of: "rr_key (the (h p)) = int (prio_of h p)"
  by (simp add: rr_key_eq prio_of_def)

text \<open>The real priorities lie in the window of the plugin and follow the declared ones.\<close>

definition rr_prios_ok :: "rtf_plugin \<Rightarrow> heap \<Rightarrow> task_ptr set \<Rightarrow> bool" where
  "rr_prios_ok this h S \<longleftrightarrow>
     (\<forall>p \<in> S. prio_min this \<le> uint (schedprio (the (h p))) \<and> uint (schedprio (the (h p))) \<le> prio_max this) \<and>
     (\<forall>p \<in> S. \<forall>q \<in> S. unat (cpu (the (h p))) = unat (cpu (the (h q))) \<longrightarrow> prio_of h p \<le> prio_of h q \<longrightarrow>
        uint (schedprio (the (h p))) \<le> uint (schedprio (the (h q))))"

definition prios_declared :: "heap \<Rightarrow> task_ptr set \<Rightarrow> bool" where
  "prios_declared h S \<longleftrightarrow> (\<forall>p \<in> S. 1 \<le> prio_of h p \<and> prio_of h p \<le> 99)"

lemma rr_dense_window:
  assumes "window_ok this" and "sorted ks" and "\<forall>k \<in> set ks. 1 \<le> k \<and> k \<le> (99 :: int)"
    and "int (card (set ks)) \<le> prio_max this - prio_min this + 1" and "i < length ks" and "j < length ks"
  defines "r \<equiv> dense (u32_of_int (prio_min this - 1)) (uint (- 1 :: u32)) ks"
  shows "prio_min this \<le> uint (r ! i)" and "uint (r ! i) \<le> prio_max this"
    and "ks ! i \<le> ks ! j \<Longrightarrow> uint (r ! i) \<le> uint (r ! j)"
proof -
  have m1: "uint (- 1 :: u32) = 2 ^ 32 - 1" by (simp add: unsigned_minus_1_eq_mask mask_eq_exp_minus_1)
  then have prec: "uint (- 1 :: u32) \<notin> set ks" using assms(3) by auto
  define n where "n m = card {k \<in> set ks. k \<le> ks ! m}" for m
  have r: "uint (r ! m) = prio_min this - 1 + int (n m)" "1 \<le> n m" "int (n m) \<le> prio_max this - prio_min this + 1"
    if "m < length ks" for m
  proof -
    have mem: "ks ! m \<in> {k \<in> set ks. k \<le> ks ! m}" using that by simp
    have "{k \<in> set ks. k \<le> ks ! m \<and> k \<noteq> uint (- 1 :: u32)} = {k \<in> set ks. k \<le> ks ! m}" using prec by auto
    then have v: "r ! m = u32_of_int (prio_min this - 1 + int (n m))"
      using dense_nth [OF assms(2) _ that, of "uint (- 1 :: u32)" "u32_of_int (prio_min this - 1)"] prec
      by (simp add: r_def n_def u32_of_int_def)
    show n: "1 \<le> n m" unfolding n_def using mem card_gt_0_iff by (metis One_nat_def Suc_leI empty_iff finite_Collect_conjI finite_set Collect_mem_eq)
    have "n m \<le> card (set ks)" unfolding n_def by (intro card_mono) auto
    then show up: "int (n m) \<le> prio_max this - prio_min this + 1" using assms(4) by linarith
    show "uint (r ! m) = prio_min this - 1 + int (n m)"
      unfolding v using n up assms(1) by (intro uint_u32_of_int) (auto simp: window_ok_def)
  qed
  show "prio_min this \<le> uint (r ! i)" and "uint (r ! i) \<le> prio_max this" using r [OF assms(5)] by linarith+
  assume le: "ks ! i \<le> ks ! j"
  have "n i \<le> n j" unfolding n_def using le by (intro card_mono) auto
  then show "uint (r ! i) \<le> uint (r ! j)" using r(1) [OF assms(5)] r(1) [OF assms(6)] by linarith
qed

lemma card_keys: "card (set (map (\<lambda>q. rr_key (the (h q))) ps)) = card (prio_of h ` set ps)"
proof -
  have "set (map (\<lambda>q. rr_key (the (h q))) ps) = int ` prio_of h ` set ps" by (auto simp: rr_key_prio_of)
  then show ?thesis by (simp add: card_image)
qed

lemma rr_assign_priorities_spec:
  assumes "window_ok this" and "linux_prio os" and "c < length (plg_tasks this)" and "c < length (rr_dist_prio w)"
    and ts: "ts_ok (heap w) (plg_tasks this ! c)"
    and sorted: "sorted (map (\<lambda>q. rr_key (the (heap w q))) (list_root (plg_tasks this ! c)))"
    and decl: "prios_declared (heap w) (set (list_root (plg_tasks this ! c)))"
    and dist: "unat (rr_dist_prio w ! c) = card (prio_of (heap w) ` set (list_root (plg_tasks this ! c)))"
  shows "\<exists>h'. rr_assign_priorities os this c w = Some (w\<lparr>heap := h'\<rparr>) \<and>
    reprio (heap w) h' (set (list_root (plg_tasks this ! c))) \<and> rr_prios_ok this h' (set (list_root (plg_tasks this ! c)))"
proof -
  let ?ps = "list_root (plg_tasks this ! c)" and ?d = "rr_dist_prio w ! c"
  let ?ks = "map (\<lambda>q. rr_key (the (heap w q))) ?ps"
  have ps: "\<forall>q \<in> set ?ps. allocated (heap w) q" "distinct ?ps" using ts by (simp_all add: ts_ok_def)
  have keys: "\<forall>q \<in> set ?ps. 1 \<le> rr_key (the (heap w q)) \<and> rr_key (the (heap w q)) \<le> 99"
    using decl by (auto simp: prios_declared_def rr_key_prio_of)
  have width: "uint (u32_of_int (prio_max this - prio_min this + 1)) = prio_max this - prio_min this + 1"
    using assms(1) by (intro uint_u32_of_int) (auto simp: window_ok_def)
  have ud: "uint ?d = int (card (set ?ks))" using dist unfolding card_keys by (metis uint_nat)
  have prio: "prio_of h' q = prio_of (heap w) q" if "reprio (heap w) h' (set ?ps)" "q \<in> set ?ps" for h' q
    using reprio_same(1) [OF that(1)] ps(1) that(2) by (simp add: prio_of_def)
  show ?thesis
  proof (cases "u32_of_int (prio_max this - prio_min this + 1) < ?d")
    case True
    obtain h' where h: "rr_assign_remapped os this ?ps w = Some (w\<lparr>heap := h'\<rparr>)" "reprio (heap w) h' (set ?ps)"
      and v: "\<forall>q \<in> set ?ps. rr_prio_remap os (u32_of_int (prio_max this)) (u32_of_int (prio_min this))
         (priority (params (the (heap w q)))) = Some (schedprio (the (h' q)))"
      using rr_assign_remapped_spec [OF ps keys assms(2,1)] by blast
    have wo: "0 \<le> prio_min this" "prio_min this \<le> prio_max this" "prio_max this \<le> 99"
      using assms(1) by (simp_all add: window_ok_def)
    have u: "1 \<le> uint (priority (params (the (heap w q))))" "uint (priority (params (the (heap w q)))) \<le> 99"
      if "q \<in> set ?ps" for q using keys that by (auto simp: rr_key_eq)
    have "rr_prios_ok this h' (set ?ps)"
      unfolding rr_prios_ok_def
    proof (intro conjI ballI impI)
      fix p assume p: "p \<in> set ?ps"
      from rr_prio_remap_window(1) [OF assms(2) wo u [OF p]] v p
      show "prio_min this \<le> uint (schedprio (the (h' p)))" "uint (schedprio (the (h' p))) \<le> prio_max this" by auto
      fix q assume q: "q \<in> set ?ps" and "prio_of h' p \<le> prio_of h' q"
      then have "uint (priority (params (the (heap w p)))) \<le> uint (priority (params (the (heap w q))))"
        using prio [OF h(2) p] prio [OF h(2) q] by (simp only: prio_of_def uint_nat of_nat_le_iff)
      from rr_prio_remap_mono [OF assms(2) wo u(1) [OF p] this u(2) [OF q]] v p q
      show "uint (schedprio (the (h' p))) \<le> uint (schedprio (the (h' q)))" by simp
    qed
    with h True assms(3,4) show ?thesis by (auto simp: rr_assign_priorities_def c_simps)
  next
    case False
    then have small: "int (card (set ?ks)) \<le> prio_max this - prio_min this + 1"
      using width ud by (simp add: word_less_def)
    obtain h' where h: "rr_assign_dense (u32_of_int (prio_min this - 1)) (- 1) ?ps w = Some (w\<lparr>heap := h'\<rparr>)"
        "reprio (heap w) h' (set ?ps)"
      and v: "map (\<lambda>q. schedprio (the (h' q))) ?ps = dense (u32_of_int (prio_min this - 1)) (uint (- 1 :: u32)) ?ks"
      using rr_assign_dense_spec [OF ps, of "u32_of_int (prio_min this - 1)" "- 1"] by blast
    have ks: "\<forall>k \<in> set ?ks. 1 \<le> k \<and> k \<le> 99" using keys by auto
    have val: "schedprio (the (h' (?ps ! i))) = dense (u32_of_int (prio_min this - 1)) (uint (- 1 :: u32)) ?ks ! i"
      if "i < length ?ps" for i using arg_cong [OF v, of "\<lambda>xs. xs ! i"] that by simp
    have "rr_prios_ok this h' (set ?ps)"
      unfolding rr_prios_ok_def
    proof (intro conjI ballI impI)
      fix p assume "p \<in> set ?ps"
      then obtain i where i: "i < length ?ps" "p = ?ps ! i" by (auto simp: in_set_conv_nth)
      show "prio_min this \<le> uint (schedprio (the (h' p)))" "uint (schedprio (the (h' p))) \<le> prio_max this"
        using rr_dense_window(1,2) [OF assms(1) sorted ks small, of i i] i val by simp_all
      fix q assume "q \<in> set ?ps" and le: "prio_of h' p \<le> prio_of h' q"
      then obtain j where j: "j < length ?ps" "q = ?ps ! j" by (auto simp: in_set_conv_nth)
      have "?ks ! i \<le> ?ks ! j" using le i j prio [OF h(2)] by (simp add: rr_key_prio_of)
      then show "uint (schedprio (the (h' p))) \<le> uint (schedprio (the (h' q)))"
        using rr_dense_window(3) [OF assms(1) sorted ks small, of i j] i j val by simp
    qed
    with h False assms(3,4) show ?thesis by (auto simp: rr_assign_priorities_def c_simps)
  qed
qed

subsection \<open>The counters\<close>

definition with_prio :: "heap \<Rightarrow> task_ptr set \<Rightarrow> nat \<Rightarrow> nat \<Rightarrow> task_ptr set" where
  "with_prio h own c k = {p \<in> on_cpu h own c. prio_of h p = k}"

text \<open>\<open>n_per_prio\<close> counts the tasks of every CPU and priority, \<open>dist_prio\<close> the priorities in use.\<close>

definition rr_counts :: "nat \<Rightarrow> 'k world \<Rightarrow> heap \<Rightarrow> task_ptr set \<Rightarrow> bool" where
  "rr_counts n w h own \<longleftrightarrow> length (rr_dist_prio w) = MAX_CPU \<and> length (rr_n_per_prio w) = MAX_CPU \<and>
     (\<forall>c < MAX_CPU. length (rr_n_per_prio w ! c) = MAX_PRIO) \<and>
     (\<forall>c < n. (\<forall>k < MAX_PRIO. rr_n_per_prio w ! c ! k = int (card (with_prio h own c k))) \<and>
        unat (rr_dist_prio w ! c) = card (prio_of h ` on_cpu h own c))"

lemma with_prio_empty: "with_prio h own c k = {} \<longleftrightarrow> k \<notin> prio_of h ` on_cpu h own c"
  by (auto simp: with_prio_def)

lemma card_prios: "prios_declared h own \<Longrightarrow> card (prio_of h ` on_cpu h own c) \<le> 99"
  using card_mono [of "{1..99}" "prio_of h ` on_cpu h own c"] on_cpu_subset [of h own c]
  by (force simp: prios_declared_def)

lemma prio_of_same_keys: "same_keys h h' S \<Longrightarrow> allocated h q \<Longrightarrow> q \<in> S \<Longrightarrow> prio_of h' q = prio_of h q"
  using same_keysD(2) unfolding prio_of_def by metis

lemma counts_same_keys:
  assumes "same_keys h h' S" and "\<forall>q \<in> S. allocated h q"
  shows "with_prio h' S c k = with_prio h S c k" and "prio_of h' ` on_cpu h' S c = prio_of h ` on_cpu h S c"
proof -
  have p: "prio_of h' q = prio_of h q" if "q \<in> S" for q using assms that by (intro prio_of_same_keys) auto
  have c: "on_cpu h' S c = on_cpu h S c" by (rule on_cpu_same_keys [OF assms])
  show "with_prio h' S c k = with_prio h S c k"
    unfolding with_prio_def c using p on_cpu_subset [of h S c] by (intro Collect_cong) auto
  show "prio_of h' ` on_cpu h' S c = prio_of h ` on_cpu h S c"
    unfolding c using p on_cpu_subset [of h S c] by (intro image_cong) auto
qed

lemma rr_counts_frame:
  assumes "rr_counts n w h S" and "same_keys h h' S" and "\<forall>q \<in> S. allocated h q"
    and "rr_dist_prio w' = rr_dist_prio w" and "rr_n_per_prio w' = rr_n_per_prio w"
  shows "rr_counts n w' h' S"
  using assms(1,4,5) unfolding rr_counts_def counts_same_keys [OF assms(2,3)] by simp

lemma rr_counts_add:
  assumes cnt: "rr_counts n w h own" and decl: "prios_declared h own" and fin: "finite own"
    and keys: "same_keys h h' own" and al: "\<forall>q \<in> own. allocated h q"
    and p: "p \<notin> own" "unat (cpu (the (h' p))) = c" "c < MAX_CPU" "prio_of h' p = k" "k < MAX_PRIO"
    and np: "rr_n_per_prio w' = (rr_n_per_prio w)[c := (rr_n_per_prio w ! c)[k := rr_n_per_prio w ! c ! k + 1]]"
    and dp: "rr_dist_prio w' = (if with_prio h own c k = {} then (rr_dist_prio w)[c := rr_dist_prio w ! c + 1] else rr_dist_prio w)"
  shows "rr_counts n w' h' (insert p own)"
proof -
  have cpu: "on_cpu h' (insert p own) d = (if d = c then insert p (on_cpu h' own d) else on_cpu h' own d)" for d
    using p(2) by (rule on_cpu_insert)
  have wp: "with_prio h' (insert p own) d j = (if d = c \<and> j = k then insert p (with_prio h' own d j) else with_prio h' own d j)" for d j
    using p(4) by (auto simp: with_prio_def cpu)
  have im: "prio_of h' ` on_cpu h' (insert p own) d =
      (if d = c then insert k (prio_of h' ` on_cpu h' own d) else prio_of h' ` on_cpu h' own d)" for d
    using p(4) by (simp add: cpu)
  note same = counts_same_keys [OF keys al]
  have len: "length (rr_n_per_prio w) = MAX_CPU" "length (rr_dist_prio w) = MAX_CPU"
      "\<And>d. d < MAX_CPU \<Longrightarrow> length (rr_n_per_prio w ! d) = MAX_PRIO"
    using cnt by (simp_all add: rr_counts_def)
  have old: "rr_n_per_prio w ! d ! j = int (card (with_prio h own d j))"
      "unat (rr_dist_prio w ! d) = card (prio_of h ` on_cpu h own d)" if "d < n" "j < MAX_PRIO" for d j
    using cnt that by (simp_all add: rr_counts_def)
  have fw: "finite (with_prio h own d j)" "p \<notin> with_prio h own d j" "finite (prio_of h ` on_cpu h own d)" for d j
    using fin p(1) by (auto simp: with_prio_def on_cpu_def)
  have "rr_n_per_prio w' ! d ! j = int (card (with_prio h' (insert p own) d j))" if "d < n" "j < MAX_PRIO" for d j
    using old [OF that] fw(1,2) [of d j] p(3,5) len that unfolding wp same np by (cases "d = c"; cases "j = k") auto
  moreover have "unat (rr_dist_prio w' ! d) = card (prio_of h' ` on_cpu h' (insert p own) d)" if "d < n" for d
  proof -
    have o: "unat (rr_dist_prio w ! d) = card (prio_of h ` on_cpu h own d)" using old(2) [OF that p(5)] .
    then have "unat (rr_dist_prio w ! d) \<le> 99" using card_prios [OF decl] by simp
    then have "unat (rr_dist_prio w ! d + 1) = unat (rr_dist_prio w ! d) + 1" by (subst unat_add_lem [THEN iffD1]) simp_all
    then show ?thesis
      using o fw(3) [of d] p(3) len(2) unfolding im same dp with_prio_empty by (cases "d = c") auto
  qed
  ultimately show ?thesis
    using len p(3) unfolding rr_counts_def np dp by (auto simp: nth_list_update)
qed

lemma rr_counts_remove:
  assumes cnt: "rr_counts n w h own" and fin: "finite own"
    and keys: "same_keys h h' (own - {p})" and al: "\<forall>q \<in> own. allocated h q"
    and p: "p \<in> own" "unat (cpu (the (h p))) = c" "c < MAX_CPU" "prio_of h p = k" "k < MAX_PRIO" "c < n"
    and np: "rr_n_per_prio w' = (rr_n_per_prio w)[c := (rr_n_per_prio w ! c)[k := rr_n_per_prio w ! c ! k - 1]]"
    and dp: "rr_dist_prio w' = (if rr_n_per_prio w ! c ! k - 1 = 0 then (rr_dist_prio w)[c := rr_dist_prio w ! c - 1] else rr_dist_prio w)"
  shows "rr_counts n w' h' (own - {p})"
proof -
  have al': "\<forall>q \<in> own - {p}. allocated h q" using al by blast
  have cpu: "on_cpu h (own - {p}) d = on_cpu h own d - {p}" for d by (auto simp: on_cpu_def)
  have wp: "with_prio h (own - {p}) d j = (if d = c \<and> j = k then with_prio h own d j - {p} else with_prio h own d j)" for d j
    using p(2,4) by (auto simp: with_prio_def on_cpu_def)
  note same = counts_same_keys [OF keys al']
  have len: "length (rr_n_per_prio w) = MAX_CPU" "length (rr_dist_prio w) = MAX_CPU"
      "\<And>d. d < MAX_CPU \<Longrightarrow> length (rr_n_per_prio w ! d) = MAX_PRIO"
    using cnt by (simp_all add: rr_counts_def)
  have old: "rr_n_per_prio w ! d ! j = int (card (with_prio h own d j))"
      "unat (rr_dist_prio w ! d) = card (prio_of h ` on_cpu h own d)" if "d < n" "j < MAX_PRIO" for d j
    using cnt that by (simp_all add: rr_counts_def)
  have fw: "finite (with_prio h own d j)" "finite (prio_of h ` on_cpu h own d)" for d j
    using fin by (auto simp: with_prio_def on_cpu_def)
  have pm: "p \<in> with_prio h own c k" using p by (simp add: with_prio_def on_cpu_def)
  have card: "card (with_prio h own c k) = Suc (card (with_prio h own c k - {p}))"
    using card.remove [OF fw(1) pm] .
  have "rr_n_per_prio w' ! d ! j = int (card (with_prio h' (own - {p}) d j))" if "d < n" "j < MAX_PRIO" for d j
    using old [OF that] card p(3,5) len that unfolding same wp np by (cases "d = c"; cases "j = k") auto
  moreover have "unat (rr_dist_prio w' ! d) = card (prio_of h' ` on_cpu h' (own - {p}) d)" if "d < n" for d
  proof (cases "d = c")
    case False
    then have "p \<notin> on_cpu h own d" using p(2) by (auto simp: on_cpu_def)
    then show ?thesis using False old(2) [OF that p(5)] p(3) len(2) unfolding same cpu dp by auto
  next
    case True
    have o: "unat (rr_dist_prio w ! c) = card (prio_of h ` on_cpu h own c)" using old(2) [OF p(6,5)] .
    have k: "k \<in> prio_of h ` on_cpu h own c" using pm by (auto simp: with_prio_def)
    have last: "rr_n_per_prio w ! c ! k - 1 = 0 \<longleftrightarrow> with_prio h own c k - {p} = {}"
      using old(1) [OF p(6,5)] card fw(1) by simp
    show ?thesis
    proof (cases "with_prio h own c k - {p} = {}")
      case gone: True
      then have "prio_of h ` (on_cpu h own c - {p}) = prio_of h ` on_cpu h own c - {k}"
        using p(4) by (auto simp: with_prio_def)
      moreover have "card (prio_of h ` on_cpu h own c) = Suc (card (prio_of h ` on_cpu h own c - {k}))"
        using card.remove [OF fw(2) k] .
      moreover from this have "unat (rr_dist_prio w ! c) \<noteq> 0" using o by simp
      then have "unat (rr_dist_prio w ! c - 1) = unat (rr_dist_prio w ! c) - 1" by (intro unat_minus_one) auto
      ultimately show ?thesis using True gone last o p(3) len(2) unfolding same cpu dp by simp
    next
      case there: False
      then obtain x where "x \<in> on_cpu h own c - {p}" "prio_of h x = prio_of h p"
        using p(4) by (auto simp: with_prio_def)
      then have "prio_of h p \<in> prio_of h ` (on_cpu h own c - {p})" by (metis imageI)
      moreover have "on_cpu h own c = insert p (on_cpu h own c - {p})" using pm by (auto simp: with_prio_def)
      ultimately have "prio_of h ` (on_cpu h own c - {p}) = prio_of h ` on_cpu h own c"
        by (metis image_insert insert_absorb)
      then show ?thesis using True there last o unfolding same cpu dp by simp
    qed
  qed
  ultimately show ?thesis
    using len p(3) unfolding rr_counts_def np dp by (auto simp: nth_list_update)
qed

subsection \<open>The contract\<close>

definition rr_inv :: "'k kernel \<Rightarrow> rtf_plugin \<Rightarrow> 'k world \<Rightarrow> task_ptr set \<Rightarrow> bool" where
  "rr_inv os this w own \<longleftrightarrow> dl_ptr this = SCHED_RR_so \<and> base_inv this (heap w) own \<and> window_ok this \<and> linux_prio os \<and>
     lists_ok rr_key this (heap w) own \<and> rr_counts (length (plg_tasks this)) w (heap w) own \<and>
     prios_declared (heap w) own \<and> rr_prios_ok this (heap w) own"

definition rr_admissible :: "rtf_plugin \<Rightarrow> rtf_task \<Rightarrow> bool" where
  "rr_admissible this t \<longleftrightarrow> 1 \<le> unat (priority (params t)) \<and> unat (priority (params t)) \<le> 99"

lemma rr_invD:
  assumes "rr_inv os this w own"
  shows "plugin_ok this" "window_ok this" "linux_prio os" "lists_ok rr_key this (heap w) own"
    "rr_counts (length (plg_tasks this)) w (heap w) own" "prios_declared (heap w) own" "rr_prios_ok this (heap w) own"
    "base_inv this (heap w) own" "owned_ok this (heap w) own" "dl_ptr this = SCHED_RR_so" "finite own"
    "\<forall>q \<in> own. allocated (heap w) q"
  using assms owned_ok_alloc by (auto simp: rr_inv_def base_inv_def owned_ok_def)

lemma rr_schedule_spec:
  assumes inv: "rr_inv os this w own" and "p \<notin> own" and t: "heap w p = Some t" and adm: "rr_admissible this t"
  shows "\<exists>c \<in> set (cpulist this). \<exists>h' dp np.
    reprio ((heap w)(p \<mapsto> t\<lparr>cpu := u64_of_u32 (u32_of_int c), pluginid := plg_id this\<rparr>)) h' (insert p own) \<and>
    rr_counts (length (plg_tasks this)) (w\<lparr>rr_n_per_prio := np, rr_dist_prio := dp, heap := h'\<rparr>) h' (insert p own) \<and>
    rr_prios_ok this h' (insert p own) \<and>
    rr_task_schedule os this p w = Some
      (this\<lparr>plg_tasks := (plg_tasks this)[nat c := ts_of (insert_by
               (\<lambda>q. rr_key (the (((heap w)(p \<mapsto> t)) q))) p (list_root (plg_tasks this ! nat c)))],
            task_count_percpu := (task_count_percpu this)[nat c := task_count_percpu this ! nat c + 1]\<rparr>,
       w\<lparr>rr_n_per_prio := np, rr_dist_prio := dp, heap := h'\<rparr>)"
proof -
  note ok = rr_invD [OF inv]
  define c where "c = choice_of (\<lambda>n bound. n < bound) (task_count_percpu this) (cpulist this)"
  have c: "c \<in> set (cpulist this)" unfolding c_def using ok by (intro choice_in_cpulist) (simp add: plugin_ok_def)
  note b = plugin_okD [OF ok(1) c] u32_cpu [OF ok(1) c]
  define k where "k = unat (priority (params t))"
  have k: "1 \<le> k" "k \<le> 99" "k < MAX_PRIO" using adm by (simp_all add: rr_admissible_def k_def MAX_PRIO_def)
  define t0 where "t0 = t\<lparr>cpu := u64_of_u32 (u32_of_int c), pluginid := plg_id this\<rparr>"
  define h0 where "h0 = (heap w)(p \<mapsto> t0)"
  have len: "length (rr_n_per_prio w) = MAX_CPU" "length (rr_dist_prio w) = MAX_CPU"
      "length (rr_n_per_prio w ! nat c) = MAX_PRIO"
    using ok(5) b(5) by (simp_all add: rr_counts_def)
  define np where "np = (rr_n_per_prio w)[nat c := (rr_n_per_prio w ! nat c)[k := rr_n_per_prio w ! nat c ! k + 1]]"
  define w0 where "w0 = w\<lparr>rr_n_per_prio := np, heap := h0\<rparr>"
  let ?ts = "plg_tasks this ! nat c" and ?key = "\<lambda>q. rr_key (the (((heap w)(p \<mapsto> t)) q))"
  have ts: "ts_ok (heap w) ?ts" "set (list_root ?ts) = on_cpu (heap w) own (nat c)"
      "sorted (map (\<lambda>q. rr_key (the (heap w q))) (list_root ?ts))"
    using ok(4) b(4) by (simp_all add: lists_ok_def)
  then have sub: "set (list_root ?ts) \<subseteq> own" by (simp add: on_cpu_subset)
  have ts0: "ts_ok h0 ?ts" using ts_ok_upd [OF ts(1)] by (simp add: h0_def)
  have key: "rr_key t0 = rr_key t" by (rule getters_params) (simp add: t0_def)
  have keys: "(\<lambda>q. rr_key (the (h0 q))) = ?key" using key by (auto simp: h0_def)
  define new where "new = ts_of (insert_by ?key p (list_root ?ts))"
  define rest where "rest = dropWhile (\<lambda>x. ?key x < ?key p) (list_root ?ts)"
  have add: "rtf_taskset_add_sorted_prio h0 ?ts p = Some (p # rest, new)"
    using ptr_add_sorted [OF ts0, of p PRIORITY ASC] unfolding keys
    by (simp add: rtf_taskset_add_sorted_prio_def taskset_cmp_defs new_def rest_def key h0_def)
  have pn: "p \<notin> set (list_root ?ts)" using assms(2) sub by blast
  have same0: "\<forall>q \<in> own. h0 q = heap w q" using assms(2) by (auto simp: h0_def)
  have sk0: "same_keys (heap w) h0 own" using same0 by (simp add: same_keys_def)
  have oldkeys: "map ?key (list_root ?ts) = map (\<lambda>q. rr_key (the (heap w q))) (list_root ?ts)"
    using pn by (intro map_cong) auto
  have new: "ts_ok h0 new" "set (list_root new) = insert p (set (list_root ?ts))" "sorted (map (\<lambda>q. rr_key (the (h0 q))) (list_root new))"
  proof -
    have "distinct (list_root ?ts)" "\<forall>q \<in> set (list_root ?ts). allocated h0 q" using ts0 by (simp_all add: ts_ok_def)
    then show "ts_ok h0 new"
      unfolding new_def ts_ok_ts_of set_insert_by using pn by (intro conjI distinct_insert_by) (auto simp: h0_def)
    show "set (list_root new) = insert p (set (list_root ?ts))" by (simp add: new_def)
    have "sorted (map ?key (list_root ?ts))" unfolding oldkeys by (rule ts(3))
    then show "sorted (map (\<lambda>q. rr_key (the (h0 q))) (list_root new))"
      unfolding keys new_def list_root_ts_of by (rule sorted_insert_by)
  qed
  define plg where "plg = this\<lparr>plg_tasks := (plg_tasks this)[nat c := new]\<rparr>"
  define n where "n = rr_n_per_prio w ! nat c ! k + 1"
  define w' where "w' dp h = w\<lparr>rr_n_per_prio := np, rr_dist_prio := dp, heap := h\<rparr>" for dp h
  have pc: "unat (cpu t0) = nat c" "prio_of h0 p = k" using b by (simp_all add: t0_def h0_def prio_of_def k_def)
  have cnt0: "rr_counts (length (plg_tasks this))
      (w' (if with_prio (heap w) own (nat c) k = {} then (rr_dist_prio w)[nat c := rr_dist_prio w ! nat c + 1] else rr_dist_prio w) h0)
      h0 (insert p own)"
    by (rule rr_counts_add [OF ok(5,6,11) sk0 ok(12) assms(2) _ b(5) pc(2) k(3)])
       (use pc in \<open>simp_all add: w'_def np_def h0_def\<close>)
  have nk: "rr_n_per_prio w ! nat c ! k = int (card (with_prio (heap w) own (nat c) k))"
    using ok(5) b(4) k(3) by (simp add: rr_counts_def)
  have finw: "finite (with_prio (heap w) own (nat c) k)" using ok(11) by (simp add: with_prio_def on_cpu_def)
  have empty: "n = 1 \<longleftrightarrow> with_prio (heap w) own (nat c) k = {}" using finw by (simp add: n_def nk)
  have al0: "\<forall>q \<in> insert p own. allocated h0 q" using ok(12) by (simp add: h0_def)
  have decl0: "prios_declared h0 (insert p own)"
    using ok(6) same0 k pc(2) by (auto simp: prios_declared_def prio_of_def)
  have cpu0: "on_cpu h0 (insert p own) (nat c) = set (list_root new)"
    using ts(2) new(2) pc(1) same0 by (auto simp: on_cpu_def h0_def)
  have prio0: "rr_prios_ok this h0 own" using ok(7) same0 by (simp add: rr_prios_ok_def prio_of_def)
  have "\<exists>h dp. rr_insert_priority os plg (nat c) p (p # rest) n w0 = Some (w' dp h) \<and>
      reprio h0 h (insert p own) \<and> rr_counts (length (plg_tasks this)) (w' dp h) h0 (insert p own) \<and>
      rr_prios_ok this h (insert p own)"
    (is "\<exists>h dp. ?place = _ \<and> _")
  proof (cases "n = 1")
    case True
    let ?dp = "(rr_dist_prio w)[nat c := rr_dist_prio w ! nat c + 1]"
    have cnt: "rr_counts (length (plg_tasks this)) (w' ?dp h0) h0 (insert p own)" using cnt0 empty True by simp
    then have d: "unat (rr_dist_prio (w' ?dp h0) ! nat c) = card (prio_of h0 ` set (list_root new))"
      using b(4) unfolding rr_counts_def cpu0 [symmetric] by simp
    have pl: "plg_tasks plg ! nat c = new" "nat c < length (plg_tasks plg)" "window_ok plg"
      using b(4) ok(2) by (simp_all add: plg_def window_ok_def)
    have decl: "prios_declared h0 (set (list_root new))" using decl0 new(2) sub by (auto simp: prios_declared_def)
    obtain h where a: "rr_assign_priorities os plg (nat c) (w' ?dp h0) = Some ((w' ?dp h0)\<lparr>heap := h\<rparr>)"
        "reprio h0 h (set (list_root new))" "rr_prios_ok plg h (set (list_root new))"
      using rr_assign_priorities_spec [OF pl(3) ok(3) pl(2), of "w' ?dp h0"] pl(1) new d decl len b(5)
      by (auto simp: w'_def)
    have "add_rr_dist_prio w0 (nat c) 1 = Some (w' ?dp h0)"
      using len b(5) by (simp add: add_rr_dist_prio_def w0_def w'_def c_simps)
    then have "?place = Some (w' ?dp h)" using True a(1) by (simp add: rr_insert_priority_def w'_def)
    moreover have "reprio h0 h (insert p own)" using a(2) new(2) sub by (auto elim: reprio_mono)
    moreover have "rr_counts (length (plg_tasks this)) (w' ?dp h) h0 (insert p own)"
      using cnt by (simp add: rr_counts_def w'_def)
    moreover have "rr_prios_ok this h (insert p own)"
    proof -
      have out: "h q = h0 q" if "q \<notin> set (list_root new)" for q using reprio_outside [OF a(2) that] .
      have cpuh: "cpu (the (h q)) = cpu (the (h0 q))" "prio_of h q = prio_of h0 q" if "q \<in> insert p own" for q
        using reprio_same(1,2) [OF a(2)] al0 that by (auto simp: prio_of_def)
      have side: "q \<in> set (list_root new) \<longleftrightarrow> unat (cpu (the (h0 q))) = nat c" if "q \<in> insert p own" for q
        using cpu0 that by (auto simp: on_cpu_def)
      have sn: "set (list_root new) \<subseteq> insert p own" using new(2) sub by blast
      have pn: "p \<in> set (list_root new)" using new(2) by simp
      from a(3) have A: "rr_prios_ok this h (set (list_root new))" by (simp add: rr_prios_ok_def plg_def)
      show ?thesis
        unfolding rr_prios_ok_def
      proof (intro conjI ballI impI)
        fix q assume q: "q \<in> insert p own"
        show "prio_min this \<le> uint (schedprio (the (h q)))" "uint (schedprio (the (h q))) \<le> prio_max this"
          using A prio0 out [of q] q pn by (cases "q \<in> set (list_root new)"; auto simp: rr_prios_ok_def)+
        fix r assume r: "r \<in> insert p own" and eq: "unat (cpu (the (h q))) = unat (cpu (the (h r)))"
          and le: "prio_of h q \<le> prio_of h r"
        have "q \<in> set (list_root new) \<longleftrightarrow> r \<in> set (list_root new)"
          using side [OF q] side [OF r] cpuh(1) [OF q] cpuh(1) [OF r] eq by simp
        then show "uint (schedprio (the (h q))) \<le> uint (schedprio (the (h r)))"
          using A prio0 out [of q] out [of r] q r pn eq le
          by (cases "q \<in> set (list_root new)") (auto simp: rr_prios_ok_def prio_of_def)
      qed
    qed
    ultimately show ?thesis by blast
  next
    case False
    then obtain y where y: "y \<in> on_cpu (heap w) own (nat c)" "prio_of (heap w) y = k"
      using empty by (auto simp: with_prio_def)
    have kp: "?key p = int k" by (simp add: rr_key_eq k_def)
    have "y \<noteq> p" using y(1) assms(2) on_cpu_subset by blast
    then have ky: "?key y = ?key p" using y(2) kp rr_key_prio_of [of "heap w" y] by simp
    have "sorted (map ?key (list_root ?ts))" unfolding oldkeys by (rule ts(3))
    from next_of_inserted [OF this _ ky] y(1) ts(2)
    obtain z zs where z: "rest = z # zs" "z \<in> set (list_root ?ts)" "?key z = ?key p" by (auto simp: rest_def)
    then have zo: "z \<in> own" "z \<noteq> p" using sub pn by auto
    then obtain tz where tz: "heap w z = Some tz" using ok(12) by (auto elim: allocatedE)
    then have hz: "h0 z = Some tz" using same0 zo by simp
    let ?h = "h0(p \<mapsto> t0\<lparr>schedprio := schedprio tz\<rparr>)"
    have "?place = Some (w' (rr_dist_prio w) ?h)"
      using False z hz by (simp add: rr_insert_priority_def node_next_def node_elem_def w0_def w'_def c_simps
          rtf_task_set_real_priority_def rtf_task_get_real_priority_def h0_def)
    moreover have "reprio h0 ?h (insert p own)" by (rule reprio_upd) (simp_all add: h0_def)
    moreover have "rr_counts (length (plg_tasks this)) (w' (rr_dist_prio w) ?h) h0 (insert p own)"
      using cnt0 empty False by (simp add: rr_counts_def w'_def)
    moreover have "rr_prios_ok this ?h (insert p own)"
    proof -
      have "rr_key (the (heap w z)) = int k" using z(3) zo kp by simp
      then have "prio_of (heap w) z = k" unfolding rr_key_prio_of of_nat_eq_iff .
      then have pz: "prio_of h0 z = k" "unat (cpu tz) = nat c"
        using z(2) tz hz ts(2) by (auto simp: on_cpu_def prio_of_def)
      have out: "?h q = h0 q" if "q \<noteq> p" for q using that by simp
      have ph: "prio_of ?h q = prio_of h0 q" for q by (cases "q = p") (auto simp: prio_of_def h0_def)
      show ?thesis
        unfolding rr_prios_ok_def ph
      proof (intro conjI ballI impI)
        define rep where "rep q = (if q = p then z else q)" for q
        have val: "schedprio (the (?h q)) = schedprio (the (h0 (rep q)))" "unat (cpu (the (?h q))) = unat (cpu (the (h0 (rep q))))"
          "prio_of h0 q = prio_of h0 (rep q)" for q
          using hz pz pc by (auto simp: rep_def)
        have ro: "rep q \<in> own" if "q \<in> insert p own" for q using that zo by (auto simp: rep_def)
        fix q assume q: "q \<in> insert p own"
        show "prio_min this \<le> uint (schedprio (the (?h q)))" "uint (schedprio (the (?h q))) \<le> prio_max this"
          using prio0 ro [OF q] unfolding val(1) rr_prios_ok_def by blast+
        fix r assume r: "r \<in> insert p own" and "unat (cpu (the (?h q))) = unat (cpu (the (?h r)))"
          and "prio_of h0 q \<le> prio_of h0 r"
        then show "uint (schedprio (the (?h q))) \<le> uint (schedprio (the (?h r)))"
          using prio0 ro [OF q] ro [OF r] unfolding val(1,2) val(3) [of q] val(3) [of r] rr_prios_ok_def by blast
      qed
    qed
    ultimately show ?thesis by blast
  qed
  then obtain h dp where place: "?place = Some (w' dp h)" and h: "reprio h0 h (insert p own)"
      and cnt: "rr_counts (length (plg_tasks this)) (w' dp h) h0 (insert p own)"
      and pr: "rr_prios_ok this h (insert p own)" by blast
  obtain x where x: "h p = Some (t0\<lparr>schedprio := x\<rparr>)" using reprio_cases [OF h, of p t0] by (auto simp: h0_def)
  have "same_keys h0 h (insert p own)" using h by (rule reprio_same_keys)
  then have cnt': "rr_counts (length (plg_tasks this)) (w' dp h) h (insert p own)"
    using al0 by (intro rr_counts_frame [OF cnt]) simp_all
  have run: "rr_task_schedule os this p w = Some
      (plg\<lparr>task_count_percpu := (task_count_percpu this)[nat c := task_count_percpu this ! nat c + 1]\<rparr>, w' dp h)"
  proof -
    have heaps: "(heap w)(p \<mapsto> t\<lparr>cpu := u64_of_u32 (u32_of_int c), pluginid := plg_id this\<rparr>) = h0"
      by (simp add: h0_def t0_def)
    have w0: "w\<lparr>heap := h0, rr_n_per_prio := np\<rparr> = w0" "h0 p = Some t0" "heap w0 = h0"
        "get_n_per_prio w0 (nat c) k = Some n"
      using len b(5) k(3) by (simp_all add: w0_def h0_def get_n_per_prio_def np_def n_def c_simps)
    have kt: "unat (priority (params t)) = k" by (simp add: k_def)
    have set: "get_n_per_prio (w\<lparr>heap := h0\<rparr>) (nat c) k = Some (n - 1)"
        "set_n_per_prio (w\<lparr>heap := h0\<rparr>) (nat c) k n = Some w0"
      using len b(5) k(3) w0(1)
      by (simp_all add: get_n_per_prio_def set_n_per_prio_def n_def np_def c_simps)
    have tail: "do { t \<leftarrow> heap (w' dp h) p; this \<leftarrow> add_task_count plg (unat (cpu t)) 1; Some (this, w' dp h) } = Some
      (plg\<lparr>task_count_percpu := (task_count_percpu this)[nat c := task_count_percpu this ! nat c + 1]\<rparr>, w' dp h)"
      using x b pc by (simp add: w'_def plg_def c_simps)
    show ?thesis
      unfolding tail [symmetric]
      using t b add place ok(1)
      by (simp add: rr_task_schedule_def rr_least_loaded_cpu_def least_loaded_by_count_eq c_simps rtf_task_set_cpu_def
          heaps w0 kt set plg_def Let_def flip: c_def)
  qed
  have "reprio ((heap w)(p \<mapsto> t\<lparr>cpu := u64_of_u32 (u32_of_int c), pluginid := plg_id this\<rparr>)) h (insert p own)"
    using h by (simp add: h0_def t0_def)
  with c cnt' pr run show ?thesis
    by (intro bexI [of _ c] exI [of _ h] exI [of _ dp] exI [of _ np]) (simp_all add: plg_def new_def w'_def)
qed

lemma rr_release_spec:
  assumes inv: "rr_inv os this w own" and p: "p \<in> own" and t: "heap w p = Some t"
  shows "\<exists>r k dp np. rr_counts (length (plg_tasks this))
      (w\<lparr>rr_n_per_prio := np, rr_dist_prio := dp, heap := (heap w)(p \<mapsto> t\<lparr>pluginid := - 1\<rparr>)\<rparr>)
      ((heap w)(p \<mapsto> t\<lparr>pluginid := - 1\<rparr>)) (own - {p}) \<and>
    rr_task_release os this p w = Some (r,
    this\<lparr>task_count_percpu := (task_count_percpu this)[unat (cpu t) := task_count_percpu this ! unat (cpu t) - 1],
         plg_tasks := (plg_tasks this)[unat (cpu t) :=
           ts_of (drop_first (\<lambda>a. t_id (the (heap w a)) = t_id t) (list_root (plg_tasks this ! unat (cpu t))))]\<rparr>,
    w\<lparr>rr_n_per_prio := np, rr_dist_prio := dp, heap := (heap w)(p \<mapsto> t\<lparr>pluginid := - 1\<rparr>), kern := k\<rparr>)"
proof -
  note ok = rr_invD [OF inv]
  let ?c = "unat (cpu t)" and ?k = "unat (priority (params t))"
  let ?ts = "plg_tasks this ! ?c"
  note c = owned_cpu [OF ok(8) p t]
  have ts: "ts_ok (heap w) ?ts" using ok(4) c(3) by (simp add: lists_ok_def)
  have k: "prio_of (heap w) p = ?k" "?k < MAX_PRIO"
    using ok(6) p t by (auto simp: prios_declared_def prio_of_def MAX_PRIO_def)
  have len: "length (rr_n_per_prio w) = MAX_CPU" "length (rr_dist_prio w) = MAX_CPU"
      "length (rr_n_per_prio w ! ?c) = MAX_PRIO"
    using ok(5) c(4) by (simp_all add: rr_counts_def)
  define n where "n = rr_n_per_prio w ! ?c ! ?k - 1"
  define np where "np = (rr_n_per_prio w)[?c := (rr_n_per_prio w ! ?c)[?k := n]]"
  define dp where "dp = (if n = 0 then (rr_dist_prio w)[?c := rr_dist_prio w ! ?c - 1] else rr_dist_prio w)"
  let ?h = "(heap w)(p \<mapsto> t\<lparr>pluginid := - 1\<rparr>)"
  have "same_keys (heap w) ?h (own - {p})" by (auto simp: same_keys_def)
  then have cnt: "rr_counts (length (plg_tasks this)) (w\<lparr>rr_n_per_prio := np, rr_dist_prio := dp, heap := ?h\<rparr>) ?h (own - {p})"
    by (rule rr_counts_remove [OF ok(5,11) _ ok(12) p _ c(4) k(1,2) c(3)])
       (use t in \<open>simp_all add: np_def dp_def n_def\<close>)
  define w1 where "w1 = w\<lparr>rr_n_per_prio := np\<rparr>"
  define w2 where "w2 = w\<lparr>rr_n_per_prio := np, rr_dist_prio := dp\<rparr>"
  have 1: "get_n_per_prio w ?c ?k = Some (n + 1)" "set_n_per_prio w ?c ?k n = Some w1" "get_n_per_prio w1 ?c ?k = Some n"
    using len c(4) k(2) by (simp_all add: get_n_per_prio_def set_n_per_prio_def w1_def np_def n_def c_simps)
  have 2: "(if n = 0 then add_rr_dist_prio w1 ?c (- 1) else Some w1) = Some w2"
    using len c(4) by (simp add: add_rr_dist_prio_def c_simps w1_def w2_def dp_def)
  have 3: "heap w2 = heap w" by (simp add: w2_def)
  let ?w = "w2\<lparr>heap := ?h\<rparr>"
  obtain r k' where det: "detach_if_policy os SCHED_RR p ?w = Some (r, ?w\<lparr>kern := k'\<rparr>)"
    using detach_if_policy_spec [of ?w p] by fastforce
  have "rr_task_release os this p w = Some (r,
    this\<lparr>task_count_percpu := (task_count_percpu this)[?c := task_count_percpu this ! ?c - 1],
         plg_tasks := (plg_tasks this)[?c := ts_of (drop_first (\<lambda>a. t_id (the (heap w a)) = t_id t) (list_root ?ts))]\<rparr>,
    ?w\<lparr>kern := k'\<rparr>)"
    using t c ts det by (simp add: rr_task_release_def c_simps ts_remove_by_rsvid 1 2 3 Let_def)
  with cnt show ?thesis
    by (intro exI [of _ r] exI [of _ k'] exI [of _ dp] exI [of _ np]) (simp add: w2_def)
qed

lemma rr_prios_ok_subset: "rr_prios_ok this h S \<Longrightarrow> T \<subseteq> S \<Longrightarrow> rr_prios_ok this h T"
  unfolding rr_prios_ok_def by blast

lemma rr_prios_ok_cong:
  assumes "rr_prios_ok this h S" and "prio_min this' = prio_min this" and "prio_max this' = prio_max this"
    and "\<And>q. q \<in> S \<Longrightarrow> \<exists>t x y. h q = Some t \<and> h' q = Some (t\<lparr>tid := x, pluginid := y\<rparr>)"
  shows "rr_prios_ok this' h' S"
proof -
  have "schedprio (the (h' q)) = schedprio (the (h q))" "cpu (the (h' q)) = cpu (the (h q))" "prio_of h' q = prio_of h q"
    if "q \<in> S" for q using assms(4) [OF that] by (auto simp: prio_of_def)
  with assms(1-3) show ?thesis unfolding rr_prios_ok_def by auto
qed

interpretation rr: plugin_contract "rr_inv os" rr_admissible rr_task_accept
    "\<lambda>this t. map_option (\<lambda>r. (r, this)) (rr_task_change this t)" "rr_task_schedule os" "rr_task_release os"
  for os
proof unfold_locales
  fix this :: rtf_plugin and w :: "'a world" and own
  assume inv: "rr_inv os this w own"
  note ok = rr_invD [OF inv]
  show base: "base_inv this (heap w) own" by (rule ok)
  {
    fix w' :: "'a world" assume same: "same_but_tid (heap w) (heap w') own" and st: "same_statics (dl_ptr this) w w'"
    have k: "same_keys (heap w) (heap w') own" using same by (fastforce simp: same_but_tid_def same_keys_def)
    have "lists_ok rr_key this (heap w') own"
      by (rule lists_ok_frame [OF params_key_sort_key ok(4,12) k refl])
    moreover have "base_inv this (heap w') own"
      using base_inv_same_but_tid [OF base] same by (simp add: same_but_tid_def)
    moreover have "rr_counts (length (plg_tasks this)) w' (heap w') own"
      by (rule rr_counts_frame [OF ok(5) k ok(12)]) (use st ok(10) in \<open>simp_all add: same_statics_def\<close>)
    moreover have "prios_declared (heap w') own"
      using ok(6,12) prio_of_same_keys [OF k] by (simp add: prios_declared_def)
    moreover have "rr_prios_ok this (heap w') own"
    proof (rule rr_prios_ok_cong [OF ok(7) refl refl])
      fix q assume q: "q \<in> own"
      then obtain t where t: "heap w q = Some t" using ok(12) by (auto elim: allocatedE)
      then obtain x where "heap w' q = Some (t\<lparr>tid := x\<rparr>)" using same q by (auto simp: same_but_tid_def)
      then have "heap w' q = Some (t\<lparr>tid := x, pluginid := pluginid t\<rparr>)" by simp
      with t show "\<exists>t x y. heap w q = Some t \<and> heap w' q = Some (t\<lparr>tid := x, pluginid := y\<rparr>)" by blast
    qed
    ultimately show "rr_inv os this w' own" using ok by (simp add: rr_inv_def)
  next
    fix t :: rtf_task assume "NUL \<in> set (sched_plugin (params t))"
    then obtain b where "prefers_another this t = Some b" using prefers_another_total by blast
    then show "\<exists>r \<in> {RTF_OK, RTF_PARTIAL, RTF_NO}. rr_task_accept this t = Some r"
      by (auto simp: rr_task_accept_def rr_has_another_preference_def)
  next
    fix p :: task_ptr and t :: rtf_task assume "NUL \<in> set (sched_plugin (params t))"
    then obtain b where "prefers_another this t = Some b" using prefers_another_total by blast
    then show "\<exists>r this'. map_option (\<lambda>r. (r, this)) (rr_task_change this t) = Some (r, this') \<and>
        r \<in> {RTF_OK, RTF_PARTIAL, RTF_NO} \<and> rr_inv os this' w own \<and> same_plugin this this'"
      using inv by (auto simp: rr_task_change_def rr_task_accept_def rr_has_another_preference_def)
  next
    fix p t
    assume p: "p \<notin> own" "heap w p = Some t" "rr_admissible this t"
    obtain c h' dp np where c: "c \<in> set (cpulist this)"
      and h: "reprio ((heap w)(p \<mapsto> t\<lparr>cpu := u64_of_u32 (u32_of_int c), pluginid := plg_id this\<rparr>)) h' (insert p own)"
        (is "reprio ((heap w)(p \<mapsto> ?t)) _ _")
      and cnt: "rr_counts (length (plg_tasks this)) (w\<lparr>rr_n_per_prio := np, rr_dist_prio := dp, heap := h'\<rparr>) h' (insert p own)"
      and pr: "rr_prios_ok this h' (insert p own)"
      and sch: "rr_task_schedule os this p w = Some
      (this\<lparr>plg_tasks := (plg_tasks this)[nat c := ts_of (insert_by
               (\<lambda>q. rr_key (the (((heap w)(p \<mapsto> t)) q))) p (list_root (plg_tasks this ! nat c)))],
            task_count_percpu := (task_count_percpu this)[nat c := task_count_percpu this ! nat c + 1]\<rparr>,
       w\<lparr>rr_n_per_prio := np, rr_dist_prio := dp, heap := h'\<rparr>)"
      (is "_ = Some (?plg, ?w)")
      using rr_schedule_spec [OF inv p] by blast
    have tch: "touches (dl_ptr this) p own w ?w"
      by (rule touches_reprio [where t' = ?t, OF p(2)])
         (use h ok(10) in \<open>auto simp: same_identity_def same_statics_def split: plugin_lib.splits\<close>)
    obtain x where x: "h' p = Some (?t\<lparr>schedprio := x\<rparr>)" using reprio_cases [OF h, of p ?t] by auto
    note b = plugin_okD [OF ok(1) c] u32_cpu [OF ok(1) c]
    have base': "base_inv ?plg (heap ?w) (insert p own)"
      by (rule base_inv_add [OF base p(1) touches_same_place [OF tch p(1)] _ _ c, where t = "?t\<lparr>schedprio := x\<rparr>"])
         (use ok x b in \<open>auto simp: plugin_ok_def\<close>)
    have sp: "params (the (heap ?w q)) = params (the (((heap w)(p \<mapsto> t)) q))" if q: "q \<in> insert p own" for q
    proof (cases "q = p")
      case False
      with q have "allocated (heap w) q" "q \<in> own" using ok(12) by auto
      from same_keysD(2) [OF touches_same_keys [OF tch p(1)] this] False show ?thesis by simp
    qed (use x in simp)
    have "lists_ok rr_key ?plg (heap ?w) (insert p own)"
    proof (rule lists_ok_add [OF params_key_sort_key ok(4,9) touches_same_keys [OF tch p(1)] p(1), where c = "nat c"])
      show "heap ?w p = Some (?t\<lparr>schedprio := x\<rparr>)" using x by simp
      fix q assume q: "q \<in> insert p own"
      show "rr_key (the (((heap w)(p \<mapsto> t)) q)) = rr_key (the (heap ?w q))"
        by (rule getters_params(8) [OF sp [OF q], symmetric])
    qed (use b in simp_all)
    moreover have "prios_declared (heap ?w) (insert p own)"
      using ok(6) p(1,3) sp unfolding prios_declared_def prio_of_def by (auto simp: rr_admissible_def)
    ultimately have "rr_inv os ?plg ?w (insert p own)"
      using ok base' cnt pr by (simp add: rr_inv_def window_ok_def rr_prios_ok_def)
    with sch tch show "\<exists>this' w'. rr_task_schedule os this p w = Some (this', w') \<and>
        rr_inv os this' w' (insert p own) \<and> same_plugin this this' \<and> touches (dl_ptr this) p own w w'"
      by (intro exI [of _ ?plg] exI [of _ ?w]) (simp add: same_plugin_def)
  next
    fix p
    assume p: "p \<in> own" and inj: "inj_on (\<lambda>q. t_id (the (heap w q))) own"
    then obtain t where t: "heap w p = Some t" using ok(12) by (auto elim: allocatedE)
    let ?h = "(heap w)(p \<mapsto> t\<lparr>pluginid := - 1\<rparr>)"
    obtain r k dp np where cnt: "rr_counts (length (plg_tasks this))
        (w\<lparr>rr_n_per_prio := np, rr_dist_prio := dp, heap := ?h\<rparr>) ?h (own - {p})"
      and rel: "rr_task_release os this p w = Some (r,
      this\<lparr>task_count_percpu := (task_count_percpu this)[unat (cpu t) := task_count_percpu this ! unat (cpu t) - 1],
         plg_tasks := (plg_tasks this)[unat (cpu t) :=
           ts_of (drop_first (\<lambda>a. t_id (the (heap w a)) = t_id t) (list_root (plg_tasks this ! unat (cpu t))))]\<rparr>,
      w\<lparr>rr_n_per_prio := np, rr_dist_prio := dp, heap := ?h, kern := k\<rparr>)"
      (is "_ = Some (_, ?plg, ?w)")
      using rr_release_spec [OF inv p t] by blast
    have tch: "touches (dl_ptr this) p own w ?w"
      by (rule touches_upd [where t' = "t\<lparr>pluginid := - 1\<rparr>", OF t])
         (use ok(10) in \<open>auto simp: same_identity_def same_statics_def split: plugin_lib.splits\<close>)
    have np: "p \<notin> own - {p}" by simp
    have base': "base_inv ?plg (heap ?w) (own - {p})"
      by (rule base_inv_remove [OF base p touches_same_place [OF tch np] t])
         (use ok in \<open>auto simp: plugin_ok_def\<close>)
    have "same_keys (heap w) (heap ?w) (own - {p})" by (auto simp: same_keys_def)
    then have "lists_ok rr_key ?plg (heap ?w) (own - {p})"
      using owned_cpu(3) [OF base p t]
      by (intro lists_ok_remove [OF params_key_sort_key ok(4,9) _ p t refl _ inj]) simp_all
    moreover have "prios_declared (heap ?w) (own - {p})"
      using ok(6) by (simp add: prios_declared_def prio_of_def)
    moreover have "rr_prios_ok ?plg (heap ?w) (own - {p})"
    proof -
      have "rr_prios_ok this (heap w) (own - {p})" by (rule rr_prios_ok_subset [OF ok(7)]) blast
      then show ?thesis by (simp add: rr_prios_ok_def prio_of_def)
    qed
    moreover have "rr_counts (length (plg_tasks ?plg)) ?w (heap ?w) (own - {p})"
      using cnt by (simp add: rr_counts_def)
    ultimately have "rr_inv os ?plg ?w (own - {p})" using ok base' by (simp add: rr_inv_def window_ok_def)
    with rel tch show "\<exists>r this' w'. rr_task_release os this p w = Some (r, this', w') \<and>
        rr_inv os this' w' (own - {p}) \<and> same_plugin this this' \<and> touches (dl_ptr this) p own w w' \<and>
        pluginid (the (heap w' p)) = - 1"
      by (intro exI [of _ r] exI [of _ ?plg] exI [of _ ?w]) (simp add: same_plugin_def)
  }
qed

end
