(* ===== verification/Plugin_RM.thy ===== *)
theory Plugin_RM
  imports PluginBase
begin

text \<open>
  The rate monotonic plugin, \<open>plugins/sched_RM.c\<close>.  A task is accepted when its utilisation fits a
  CPU of the plugin.  Every CPU has a task set sorted by decreasing period, and the real priorities
  are assigned in that order, so that a shorter period gets a higher priority.

  The static array \<open>dist_prio\<close> is \<open>rm_dist_prio\<close> of the world.
\<close>

subsection \<open>Hyperbolic bound\<close>

text \<open>The period converted to \<open>float\<close> is not zero when the period is not.\<close>

fun hyperbolic_product :: "heap \<Rightarrow> task_ptr list \<Rightarrow> f32 \<Rightarrow> f32 option" where
  "hyperbolic_product h [] res = Some res"
| "hyperbolic_product h (p # ps) res = do {
     t \<leftarrow> h p;
     if period (params t) = 0 \<or> runtime (params t) = 0 then hyperbolic_product h ps res
     else hyperbolic_product h ps
            (f32_mul res (f32_add (f32_div (f32_of_u64 (runtime (params t))) (f32_of_u64 (period (params t)))) 1))
   }"

definition hyperbolic_bound :: "heap \<Rightarrow> rtf_taskset \<Rightarrow> u32 option" where
  "hyperbolic_bound h ts = do {
     res \<leftarrow> hyperbolic_product h (list_root ts) 1;
     Some (if res > 2 then 0 else 1)
   }"

subsection \<open>Helpers\<close>

definition rm_prio_remap :: "u32 \<Rightarrow> u32 \<Rightarrow> u32 \<Rightarrow> nat \<Rightarrow> 'k world \<Rightarrow> u32 option" where
  "rm_prio_remap max_prio_s min_prio_s prio c w = do {
     d \<leftarrow> aget (rm_dist_prio w) c;
     if f32_of_u32 (d - 1) = 0 then None
     else let slope = f32_div (f32_of_u32 (max_prio_s - min_prio_s + 1)) (f32_of_u32 (d - 1))
          in u32_of_f32 (f32_add (f32_of_u32 min_prio_s) (f32_mul slope (f32_of_u32 prio)))
   }"

definition rm_least_loaded_cpu :: "rtf_plugin \<Rightarrow> u32 option" where
  "rm_least_loaded_cpu this = least_loaded_by_util this"

definition rm_eval_util_missing :: "rtf_plugin \<Rightarrow> f32 \<Rightarrow> f32 option" where
  "rm_eval_util_missing this task_util = missing_util this task_util"

definition rm_has_another_preference :: "rtf_plugin \<Rightarrow> rtf_task \<Rightarrow> bool option" where
  "rm_has_another_preference this t = prefers_another this t"

definition rm_utilization_test :: "rtf_plugin \<Rightarrow> f32 \<Rightarrow> int option" where
  "rm_utilization_test this task_util = do {
     missing \<leftarrow> rm_eval_util_missing this task_util;
     Some (if missing = 0 then RTF_OK else RTF_NO)
   }"

text \<open>
  The two loops of \<open>assign_priorities\<close>.  \<open>prec_period\<close> is an \<open>unsigned int\<close>: it is widened for the
  comparison with the 64-bit period and narrowed when it is set.
\<close>

fun rm_assign_remapped ::
  "rtf_plugin \<Rightarrow> nat \<Rightarrow> u32 \<Rightarrow> u32 \<Rightarrow> u32 \<Rightarrow> task_ptr list \<Rightarrow> 'k world \<Rightarrow> 'k world option" where
  "rm_assign_remapped this c curr_prio prec_period dist_prio_idx [] w = Some w"
| "rm_assign_remapped this c curr_prio prec_period dist_prio_idx (p # ps) w = do {
     t \<leftarrow> heap w p;
     if u64_of_u32 prec_period = rtf_task_get_period t then do {
       w \<leftarrow> upd_world_task w p (\<lambda>t. rtf_task_set_real_priority t curr_prio);
       rm_assign_remapped this c curr_prio prec_period dist_prio_idx ps w
     } else do {
       curr_prio \<leftarrow> rm_prio_remap (u32_of_int (prio_max this)) (u32_of_int (prio_min this)) dist_prio_idx c w;
       w \<leftarrow> upd_world_task w p (\<lambda>t. rtf_task_set_real_priority t curr_prio);
       rm_assign_remapped this c curr_prio (u32_of_u64 (rtf_task_get_period t)) (dist_prio_idx + 1) ps w
     }
   }"

fun rm_assign_dense :: "u32 \<Rightarrow> u32 \<Rightarrow> task_ptr list \<Rightarrow> 'k world \<Rightarrow> 'k world option" where
  "rm_assign_dense curr_prio prec_period [] w = Some w"
| "rm_assign_dense curr_prio prec_period (p # ps) w = do {
     t \<leftarrow> heap w p;
     if u64_of_u32 prec_period = rtf_task_get_period t then do {
       w \<leftarrow> upd_world_task w p (\<lambda>t. rtf_task_set_real_priority t curr_prio);
       rm_assign_dense curr_prio prec_period ps w
     } else do {
       w \<leftarrow> upd_world_task w p (\<lambda>t. rtf_task_set_real_priority t (curr_prio + 1));
       rm_assign_dense (curr_prio + 1) (u32_of_u64 (rtf_task_get_period t)) ps w
     }
   }"

definition rm_assign_priorities :: "rtf_plugin \<Rightarrow> nat \<Rightarrow> 'k world \<Rightarrow> 'k world option" where
  "rm_assign_priorities this c w = do {
     ts \<leftarrow> aget (plg_tasks this) c;
     d \<leftarrow> aget (rm_dist_prio w) c;
     let curr_prio = u32_of_int (prio_min this - 1);
     if d > u32_of_int ((prio_max this - prio_min this) + 1)
     then rm_assign_remapped this c curr_prio (- 1) 0 (list_root ts) w
     else rm_assign_dense curr_prio (- 1) (list_root ts) w
   }"

definition add_rm_dist_prio :: "'k world \<Rightarrow> nat \<Rightarrow> u32 \<Rightarrow> 'k world option" where
  "add_rm_dist_prio w c d = do {
     n \<leftarrow> aget (rm_dist_prio w) c;
     ds \<leftarrow> aset (rm_dist_prio w) c (n + d);
     Some (w\<lparr>rm_dist_prio := ds\<rparr>)
   }"

subsection \<open>Plugin methods\<close>

definition rm_task_init :: "rtf_plugin \<Rightarrow> int" where
  "rm_task_init this = RTF_OK"

definition rm_task_accept :: "rtf_plugin \<Rightarrow> rtf_task \<Rightarrow> int option" where
  "rm_task_accept this t =
     (let task_util = rtf_task_get_util t
      in if rtf_task_get_period t = 0 then Some RTF_NO
         else do {
           test_res \<leftarrow> (if rtf_task_get_ignore_admission t \<noteq> 0 then Some RTF_OK
                        else rm_utilization_test this task_util);
           other \<leftarrow> rm_has_another_preference this t;
           Some (if other \<and> test_res = RTF_OK then RTF_PARTIAL else test_res)
         })"

definition rm_task_change :: "rtf_plugin \<Rightarrow> rtf_task \<Rightarrow> (int \<times> rtf_plugin) option" where
  "rm_task_change this t = do {
     this \<leftarrow> (if pluginid t = plg_id this \<and> acceptedu t \<noteq> 0
              then add_util_free this (unat (cpu t)) (\<lambda>u. f32_add u (acceptedu t)) else Some this);
     test_res \<leftarrow> rm_task_accept this t;
     this \<leftarrow> (if pluginid t = plg_id this \<and> acceptedu t \<noteq> 0
              then add_util_free this (unat (cpu t)) (\<lambda>u. f32_sub u (acceptedu t)) else Some this);
     Some (test_res, this)
   }"

text \<open>The middle of the schedule: the task inserted before one of the same period takes its priority;
  otherwise its period is new and the priorities of the CPU are assigned again.\<close>

definition rm_insert_priority ::
  "rtf_plugin \<Rightarrow> nat \<Rightarrow> task_ptr \<Rightarrow> task_ptr node_ptr \<Rightarrow> 'k world \<Rightarrow> 'k world option" where
  "rm_insert_priority this c p inserted w = do {
     nxt \<leftarrow> node_next inserted;
     if nxt \<noteq> [] then do {
       q \<leftarrow> node_elem nxt;
       tn \<leftarrow> heap w q;
       t \<leftarrow> heap w p;
       if rtf_task_get_period tn = period (params t)
       then upd_world_task w p (\<lambda>t. rtf_task_set_real_priority t (rtf_task_get_real_priority tn))
       else do { w \<leftarrow> add_rm_dist_prio w c 1; rm_assign_priorities this c w }
     } else do { w \<leftarrow> add_rm_dist_prio w c 1; rm_assign_priorities this c w }
   }"

definition rm_task_schedule :: "rtf_plugin \<Rightarrow> task_ptr \<Rightarrow> 'k world \<Rightarrow> (rtf_plugin \<times> 'k world) option" where
  "rm_task_schedule this p w = do {
     c32 \<leftarrow> rm_least_loaded_cpu this;
     let c = unat c32;
     t \<leftarrow> heap w p;
     let task_util = rtf_task_get_util t;
     w \<leftarrow> upd_world_task w p (\<lambda>t. rtf_task_set_cpu t c32);
     w \<leftarrow> upd_world_task w p (\<lambda>t. t\<lparr>pluginid := plg_id this\<rparr>);
     ts \<leftarrow> aget (plg_tasks this) c;
     (inserted, ts) \<leftarrow> rtf_taskset_add_sorted_pr (heap w) ts p;
     tss \<leftarrow> aset (plg_tasks this) c ts;
     let this = this\<lparr>plg_tasks := tss\<rparr>;
     w \<leftarrow> rm_insert_priority this c p inserted w;
     w \<leftarrow> upd_world_task w p (\<lambda>t. t\<lparr>acceptedt := rtf_task_get_runtime t\<rparr>);
     w \<leftarrow> upd_world_task w p (\<lambda>t. t\<lparr>acceptedu := (if task_util \<noteq> - 1 then task_util else 0)\<rparr>);
     t \<leftarrow> heap w p;
     this \<leftarrow> add_util_free this (unat (cpu t)) (\<lambda>u. f32_sub u (acceptedu t));
     this \<leftarrow> add_task_count this (unat (cpu t)) 1;
     Some (this, w)
   }"

definition rm_task_attach :: "'k kernel \<Rightarrow> task_ptr \<Rightarrow> 'k world \<Rightarrow> (int \<times> 'k world) option" where
  "rm_task_attach os p w = posix_attach os SCHED_FIFO p w"

definition rm_task_detach :: "'k kernel \<Rightarrow> task_ptr \<Rightarrow> 'k world \<Rightarrow> (int \<times> 'k world) option" where
  "rm_task_detach os p w = posix_detach os p w"

text \<open>The loop of the release: is there another task of the same period on the CPU?\<close>

fun rm_shares_period :: "heap \<Rightarrow> rtf_task \<Rightarrow> task_ptr list \<Rightarrow> bool option" where
  "rm_shares_period h t [] = Some False"
| "rm_shares_period h t (q # qs) = do {
     t_rm \<leftarrow> h q;
     if period (params t_rm) = period (params t) \<and> t_id t_rm \<noteq> t_id t then Some True
     else rm_shares_period h t qs
   }"

definition rm_task_release ::
  "'k kernel \<Rightarrow> rtf_plugin \<Rightarrow> task_ptr \<Rightarrow> 'k world \<Rightarrow> (int \<times> rtf_plugin \<times> 'k world) option" where
  "rm_task_release os this p w = do {
     t \<leftarrow> heap w p;
     let c = unat (cpu t);
     ts \<leftarrow> aget (plg_tasks this) c;
     shared \<leftarrow> rm_shares_period (heap w) t (list_root ts);
     w \<leftarrow> (if shared then add_rm_dist_prio w c (- 1) else Some w);
     this \<leftarrow> (if acceptedu t \<noteq> 0 then add_util_free this c (\<lambda>u. f32_add u (acceptedu t)) else Some this);
     (_, ts) \<leftarrow> rtf_taskset_remove_by_rsvid (heap w) ts (t_id t);
     tss \<leftarrow> aset (plg_tasks this) c ts;
     let this = this\<lparr>plg_tasks := tss\<rparr>;
     w \<leftarrow> upd_world_task w p (\<lambda>t. t\<lparr>pluginid := - 1\<rparr>);
     this \<leftarrow> add_task_count this c (- 1);
     (r, w) \<leftarrow> detach_if_policy os SCHED_FIFO p w;
     Some (r, this, w)
   }"

subsection \<open>The assignment of priorities\<close>

abbreviation rm_key :: "rtf_task \<Rightarrow> int" where
  "rm_key \<equiv> sort_key PERIOD DSC"

lemma rm_key_eq: "rm_key t = - uint (period (params t))"
  by (simp add: sort_key_def)

lemma prec_period_eq: "u64_of_u32 prec = rtf_task_get_period t \<longleftrightarrow> - uint prec = rm_key t"
  by (auto simp: rm_key_eq rtf_task_get_period_def word_uint_eq_iff)

lemma rm_assign_dense_spec:
  assumes "\<forall>q \<in> set ps. allocated (heap w) q" and "distinct ps"
  shows "\<exists>h'. rm_assign_dense cur prec ps w = Some (w\<lparr>heap := h'\<rparr>) \<and> reprio (heap w) h' (set ps) \<and>
    ((\<forall>q \<in> set ps. uint (period (params (the (heap w q)))) < 2 ^ 32) \<longrightarrow>
      map (\<lambda>q. schedprio (the (h' q))) ps = dense cur (- uint prec) (map (\<lambda>q. rm_key (the (heap w q))) ps))"
  using assms
proof (induction ps arbitrary: cur prec w)
  case Nil
  then show ?case by (intro exI [of _ "heap w"]) simp
next
  case (Cons p ps)
  then obtain t where t: "heap w p = Some t" by (auto elim: allocatedE)
  define c where "c = (if u64_of_u32 prec = rtf_task_get_period t then cur else cur + 1)"
  define prec' where "prec' = (if u64_of_u32 prec = rtf_task_get_period t then prec else u32_of_u64 (rtf_task_get_period t))"
  define w1 where "w1 = w\<lparr>heap := (heap w)(p \<mapsto> t\<lparr>schedprio := c\<rparr>)\<rparr>"
  have step: "rm_assign_dense cur prec (p # ps) w = rm_assign_dense c prec' ps w1"
    using t by (simp add: c_def prec'_def w1_def c_simps rtf_task_set_real_priority_def)
  have al: "\<forall>q \<in> set ps. allocated (heap w1) q" using Cons.prems by (simp add: w1_def)
  obtain h' where h: "rm_assign_dense c prec' ps w1 = Some (w1\<lparr>heap := h'\<rparr>)" "reprio (heap w1) h' (set ps)"
      and v: "(\<forall>q \<in> set ps. uint (period (params (the (heap w1 q)))) < 2 ^ 32) \<longrightarrow>
        map (\<lambda>q. schedprio (the (h' q))) ps = dense c (- uint prec') (map (\<lambda>q. rm_key (the (heap w1 q))) ps)"
    using Cons.IH [OF al, of c prec'] Cons.prems by auto
  have p: "h' p = Some (t\<lparr>schedprio := c\<rparr>)"
    using reprio_outside [OF h(2), of p] Cons.prems by (simp add: w1_def)
  have same: "\<forall>q \<in> set ps. heap w1 q = heap w q" using Cons.prems by (auto simp: w1_def)
  have "reprio (heap w) (heap w1) (set (p # ps))" using t by (simp add: w1_def reprio_upd)
  then have "reprio (heap w) h' (set (p # ps))"
    using reprio_mono [OF h(2), of "set (p # ps)"] reprio_trans by auto
  moreover have "map (\<lambda>q. schedprio (the (h' q))) (p # ps) =
      dense cur (- uint prec) (map (\<lambda>q. rm_key (the (heap w q))) (p # ps))"
    if small: "\<forall>q \<in> set (p # ps). uint (period (params (the (heap w q)))) < 2 ^ 32"
  proof -
    have "- uint prec' = rm_key t"
      using small t prec_period_eq [of prec t]
      by (auto simp: prec'_def rm_key_eq rtf_task_get_period_def uint_u32_of_u64)
    moreover have keys: "map (\<lambda>q. rm_key (the (heap w1 q))) ps = map (\<lambda>q. rm_key (the (heap w q))) ps"
      using same by (intro map_cong) auto
    moreover have "\<forall>q \<in> set ps. uint (period (params (the (heap w1 q)))) < 2 ^ 32" using small same by simp
    ultimately have "map (\<lambda>q. schedprio (the (h' q))) ps = dense c (rm_key t) (map (\<lambda>q. rm_key (the (heap w q))) ps)"
      using v unfolding keys by presburger
    then show ?thesis
      using p t prec_period_eq [of prec t] by (simp add: c_def)
  qed
  ultimately show ?case using step h(1) by (intro exI [of _ h']) (simp add: w1_def)
qed

lemma rm_prio_remap_defined:
  assumes "c < length (rm_dist_prio w)" and "u32_of_int (mx - mn + 1) < rm_dist_prio w ! c"
    and "0 \<le> mn" and "mn \<le> mx" and "mx \<le> 99" and "uint idx \<le> 2 ^ 20"
  shows "\<exists>r. rm_prio_remap (u32_of_int mx) (u32_of_int mn) idx c w = Some r"
proof -
  let ?d = "rm_dist_prio w ! c"
  have n: "uint (u32_of_int (mx - mn + 1)) = mx - mn + 1" using assms by (intro uint_u32_of_int) auto
  then have "2 \<le> uint ?d" using assms(2,4) by (simp add: word_less_def)
  moreover have "?d - 1 = ?d - u32_of_int 1" by (simp add: u32_of_int_def)
  ultimately have "1 \<le> uint (?d - 1)" using uint_pred [of ?d] by simp
  then have "(1 :: rat) \<le> of_int (uint (?d - 1))" by (simp only: of_int_1_le_iff)
  then have "f32_round 1 \<le> f32_of_u32 (?d - 1)"
    unfolding f32_of_u32_def f32_of_int_def by (intro f32_round_mono) auto
  moreover have "f32_round 1 = 1" using f32_of_int_exact [of 1] by (simp add: f32_of_int_def)
  ultimately have b: "1 \<le> f32_of_u32 (?d - 1)" by simp
  define b where "b = f32_of_u32 (?d - 1)"
  have "u32_of_int mx - u32_of_int mn + 1 = u32_of_int (mx - mn + 1)" by (simp add: u32_of_int_def)
  then have a: "f32_of_u32 (u32_of_int mx - u32_of_int mn + 1) = of_int (mx - mn + 1)"
    using n assms(3-5) by (simp only: f32_of_u32_def) (simp add: f32_of_int_exact)
  have m: "f32_of_u32 (u32_of_int mn) = of_int mn"
    using assms by (simp add: f32_of_u32_def uint_u32_of_int f32_of_int_exact)
  define k where "k = f32_of_u32 idx"
  define s where "s = f32_div (of_int (mx - mn + 1)) b"
  have exact: "f32_round (of_int i * 2 ^ e) = of_int i * 2 ^ e" if "\<bar>i\<bar> < 2 ^ 24" for i :: int and e :: nat
    using fround_dyadic_exact [of i 24 "- 149" "int e"] that by (simp add: f32_round_def)
  have "(of_int (uint idx) :: rat) \<le> of_int (2 ^ 20)" using assms(6) by (simp only: of_int_le_iff)
  moreover have "(0 :: rat) \<le> of_int (uint idx)" by (simp only: of_int_0_le_iff uint_ge_0)
  ultimately have "k \<le> f32_round (of_int 1 * 2 ^ 20)"
    unfolding k_def f32_of_u32_def f32_of_int_def by (intro f32_round_mono) simp_all
  then have k: "0 \<le> k" "k \<le> 2 ^ 20"
    using exact [of 1 20] by (simp_all add: k_def f32_of_u32_def f32_of_int_nonneg)
  have "(of_int (mx - mn + 1) :: rat) \<le> of_int 100" using assms by (simp only: of_int_le_iff)
  then have w: "(of_int (mx - mn + 1) :: rat) \<le> 100" "0 \<le> (of_int (mx - mn + 1) :: rat)"
    using assms(4) by simp_all
  then have "(of_int (mx - mn + 1) :: rat) / b \<le> 100 / 1"
    using b unfolding b_def by (intro frac_le) auto
  then have "s \<le> f32_round (of_int 100 * 2 ^ 0)"
    unfolding s_def f32_div_def using w b by (intro f32_round_mono) (simp_all add: b_def)
  then have s: "0 \<le> s" "s \<le> 100"
    using exact [of 100 0] w b by (simp_all add: s_def f32_div_nonneg b_def)
  have "s * k \<le> 100 * 2 ^ 20" using s k by (intro mult_mono) auto
  then have "f32_mul s k \<le> f32_round (of_int 100 * 2 ^ 20)"
    unfolding f32_mul_def using s k by (intro f32_round_mono) auto
  then have q: "0 \<le> f32_mul s k" "f32_mul s k \<le> 100 * 2 ^ 20"
    using exact [of 100 20] s k by (simp_all add: f32_mul_def f32_round_def fround_nonneg)
  have "(of_int mn :: rat) \<le> of_int 99" using assms by (simp only: of_int_le_iff)
  then have "f32_add (of_int mn) (f32_mul s k) \<le> f32_round (of_int 1 * 2 ^ 30)"
    unfolding f32_add_def using q assms(3) by (intro f32_round_mono) auto
  then have "f32_add (of_int mn) (f32_mul s k) < 2 ^ 32" using exact [of 1 30] by simp
  moreover have "0 \<le> f32_add (of_int mn) (f32_mul s k)"
    using q assms(3) by (simp add: f32_add_def f32_round_def fround_nonneg)
  moreover have "f32_of_u32 (?d - 1) \<noteq> 0" using b by auto
  moreover have "f32_div (of_int mx - of_int mn + 1) b = s" by (simp add: s_def)
  ultimately show ?thesis
    using assms(1) by (simp add: rm_prio_remap_def c_simps a m u32_of_f32_def Let_def flip: k_def b_def)
qed

lemma rm_assign_remapped_spec:
  assumes "\<forall>q \<in> set ps. allocated (heap w) q" and "c < length (rm_dist_prio w)"
    and "u32_of_int (prio_max this - prio_min this + 1) < rm_dist_prio w ! c" and "window_ok this"
    and "uint idx + int (length ps) \<le> 2 ^ 20"
  shows "\<exists>h'. rm_assign_remapped this c cur prec idx ps w = Some (w\<lparr>heap := h'\<rparr>) \<and> reprio (heap w) h' (set ps)"
  using assms
proof (induction ps arbitrary: cur prec idx w)
  case Nil
  then show ?case by (intro exI [of _ "heap w"]) simp
next
  case (Cons p ps)
  obtain t where t: "heap w p = Some t" using Cons.prems(1) by (auto elim: allocatedE)
  obtain r where r: "rm_prio_remap (u32_of_int (prio_max this)) (u32_of_int (prio_min this)) idx c w = Some r"
    using rm_prio_remap_defined [OF Cons.prems(2,3), of idx] Cons.prems(4,5) by (auto simp: window_ok_def)
  define same where "same \<longleftrightarrow> u64_of_u32 prec = rtf_task_get_period t"
  define x where "x = (if same then cur else r)"
  define prec' where "prec' = (if same then prec else u32_of_u64 (rtf_task_get_period t))"
  define idx' where "idx' = (if same then idx else idx + 1)"
  define w1 where "w1 = w\<lparr>heap := (heap w)(p \<mapsto> t\<lparr>schedprio := x\<rparr>)\<rparr>"
  have step: "rm_assign_remapped this c cur prec idx (p # ps) w = rm_assign_remapped this c x prec' idx' ps w1"
    using t r by (simp add: same_def x_def prec'_def idx'_def w1_def c_simps rtf_task_set_real_priority_def)
  have "uint (idx + 1) \<le> uint idx + 1"
    using uint_add_le [of idx 1] by simp
  then have "uint idx' + int (length ps) \<le> 2 ^ 20" using Cons.prems(5) by (simp add: idx'_def)
  moreover have dist: "rm_dist_prio w1 = rm_dist_prio w" by (simp add: w1_def)
  moreover have "\<forall>q \<in> set ps. allocated (heap w1) q" using Cons.prems(1) by (simp add: w1_def)
  ultimately have "\<exists>h'. rm_assign_remapped this c x prec' idx' ps w1 = Some (w1\<lparr>heap := h'\<rparr>) \<and> reprio (heap w1) h' (set ps)"
    using Cons.prems(2-4) dist by (intro Cons.IH) simp_all
  then obtain h' where h: "rm_assign_remapped this c x prec' idx' ps w1 = Some (w1\<lparr>heap := h'\<rparr>)"
      "reprio (heap w1) h' (set ps)" by blast
  have "reprio (heap w) (heap w1) (set (p # ps))" using t by (simp add: w1_def reprio_upd)
  then have "reprio (heap w) h' (set (p # ps))"
    using reprio_mono [OF h(2), of "set (p # ps)"] reprio_trans by auto
  with step h(1) show ?case by (intro exI [of _ h']) (simp add: w1_def)
qed

lemma rm_assign_priorities_spec:
  assumes "window_ok this" and "c < length (plg_tasks this)" and "c < length (rm_dist_prio w)"
    and "ts_ok (heap w) (plg_tasks this ! c)" and "length (list_root (plg_tasks this ! c)) \<le> 2 ^ 20"
  shows "\<exists>h'. rm_assign_priorities this c w = Some (w\<lparr>heap := h'\<rparr>) \<and>
    reprio (heap w) h' (set (list_root (plg_tasks this ! c)))"
proof -
  let ?ps = "list_root (plg_tasks this ! c)"
  have ps: "\<forall>q \<in> set ?ps. allocated (heap w) q" "distinct ?ps" using assms(4) by (simp_all add: ts_ok_def)
  have "int (length ?ps) \<le> 2 ^ 20" using assms(5) by simp
  then show ?thesis
    using assms(2,3) rm_assign_remapped_spec [OF ps(1) assms(3) _ assms(1), of 0 "u32_of_int (prio_min this - 1)" "- 1"]
      rm_assign_dense_spec [OF ps, of "u32_of_int (prio_min this - 1)" "- 1"]
    by (cases "u32_of_int (prio_max this - prio_min this + 1) < rm_dist_prio w ! c")
       (auto simp: rm_assign_priorities_def c_simps)
qed

subsection \<open>The contract\<close>

definition rm_inv :: "'k kernel \<Rightarrow> rtf_plugin \<Rightarrow> 'k world \<Rightarrow> task_ptr set \<Rightarrow> bool" where
  "rm_inv os this w own \<longleftrightarrow> dl_ptr this = SCHED_RM_so \<and> base_inv this (heap w) own \<and> util_ok this \<and> window_ok this \<and>
     lists_ok rm_key this (heap w) own \<and> length (rm_dist_prio w) = MAX_CPU"

text \<open>The remapping is defined for up to a million tasks on a CPU.\<close>

definition rm_admissible :: "rtf_plugin \<Rightarrow> rtf_task \<Rightarrow> bool" where
  "rm_admissible this t \<longleftrightarrow> (\<forall>ts \<in> set (plg_tasks this). length (list_root ts) < 2 ^ 20)"

lemma rm_accept_spec:
  assumes "plugin_ok this" and "util_ok this" and "prefers_another this t = Some other"
  shows "rm_task_accept this t = Some
    (if period (params t) = 0 then RTF_NO
     else if ignore_admission (params t) \<noteq> 0 \<or> fits this (rtf_task_get_util t)
          then (if other then RTF_PARTIAL else RTF_OK)
     else RTF_NO)"
proof -
  have "on_grid (rtf_task_get_util t)" by (simp add: rtf_task_get_util_def Let_def)
  from missing_util_spec [OF assms(1,2) this]
  have "rm_utilization_test this (rtf_task_get_util t) = Some (if fits this (rtf_task_get_util t) then RTF_OK else RTF_NO)"
    by (auto simp: rm_utilization_test_def rm_eval_util_missing_def)
  with assms(3) show ?thesis
    by (simp add: rm_task_accept_def rm_has_another_preference_def Let_def rtf_codes
        rtf_task_get_ignore_admission_def rtf_task_get_period_def)
qed

lemma rm_assign_after_insert:
  assumes "window_ok this" and "c < length (plg_tasks this)" and "c < length (rm_dist_prio w)"
    and "ts_ok (heap w) (plg_tasks this ! c)" and "length (list_root (plg_tasks this ! c)) \<le> 2 ^ 20"
  shows "\<exists>h dp. do { w \<leftarrow> add_rm_dist_prio w c 1; rm_assign_priorities this c w } = Some (w\<lparr>rm_dist_prio := dp, heap := h\<rparr>) \<and>
    reprio (heap w) h (set (list_root (plg_tasks this ! c))) \<and> length dp = length (rm_dist_prio w)"
proof -
  let ?dp = "(rm_dist_prio w)[c := rm_dist_prio w ! c + 1]" and ?ts = "plg_tasks this ! c"
  have "add_rm_dist_prio w c 1 = Some (w\<lparr>rm_dist_prio := ?dp\<rparr>)"
    using assms(3) by (simp add: add_rm_dist_prio_def c_simps)
  moreover obtain h where "rm_assign_priorities this c (w\<lparr>rm_dist_prio := ?dp\<rparr>) = Some (w\<lparr>rm_dist_prio := ?dp\<rparr>\<lparr>heap := h\<rparr>)"
      "reprio (heap w) h (set (list_root ?ts))"
    using rm_assign_priorities_spec [OF assms(1,2), of "w\<lparr>rm_dist_prio := ?dp\<rparr>"] assms(3-5) by auto
  ultimately show ?thesis by (intro exI [of _ h] exI [of _ ?dp]) simp
qed

lemma rm_schedule_spec:
  assumes inv: "rm_inv os this w own" and "p \<notin> own" and t: "heap w p = Some t" and "rm_admissible this t"
  shows "\<exists>c \<in> set (cpulist this). \<exists>u h' dp. on_grid u \<and> length dp = MAX_CPU \<and>
    reprio ((heap w)(p \<mapsto> t\<lparr>cpu := u64_of_u32 (u32_of_int c), pluginid := plg_id this,
                             acceptedt := runtime (params t), acceptedu := u\<rparr>)) h' (insert p own) \<and>
    rm_task_schedule this p w = Some
      (this\<lparr>plg_tasks := (plg_tasks this)[nat c := ts_of (insert_by
               (\<lambda>q. rm_key (the (((heap w)(p \<mapsto> t)) q))) p (list_root (plg_tasks this ! nat c)))],
            util_free_percpu := (util_free_percpu this)[nat c := f32_sub (util_free_percpu this ! nat c) u],
            task_count_percpu := (task_count_percpu this)[nat c := task_count_percpu this ! nat c + 1]\<rparr>,
       w\<lparr>rm_dist_prio := dp, heap := h'\<rparr>)"
proof -
  define c where "c = choice_of (\<lambda>f bound. f > bound) (util_free_percpu this) (cpulist this)"
  have ok: "plugin_ok this" "window_ok this" "lists_ok rm_key this (heap w) own" "length (rm_dist_prio w) = MAX_CPU"
    using inv by (simp_all add: rm_inv_def base_inv_def)
  have c: "c \<in> set (cpulist this)" unfolding c_def using ok by (intro choice_in_cpulist) (simp add: plugin_ok_def)
  note b = plugin_okD [OF ok(1) c] u32_cpu [OF ok(1) c]
  define u where "u = (if rtf_task_get_util t \<noteq> - 1 then rtf_task_get_util t else 0)"
  define t0 where "t0 = t\<lparr>cpu := u64_of_u32 (u32_of_int c), pluginid := plg_id this\<rparr>"
  define w0 where "w0 = w\<lparr>heap := (heap w)(p \<mapsto> t0)\<rparr>"
  let ?ts = "plg_tasks this ! nat c" and ?key = "\<lambda>q. rm_key (the (((heap w)(p \<mapsto> t)) q))"
  have ts: "ts_ok (heap w) ?ts" "set (list_root ?ts) = on_cpu (heap w) own (nat c)"
    using ok(3) b(4) by (simp_all add: lists_ok_def)
  then have sub: "set (list_root ?ts) \<subseteq> own" by (simp add: on_cpu_subset)
  have ts0: "ts_ok (heap w0) ?ts" using ts_ok_upd [OF ts(1)] by (simp add: w0_def)
  have key: "rm_key t0 = rm_key t" by (rule getters_params) (simp add: t0_def)
  have keys: "(\<lambda>q. rm_key (the (heap w0 q))) = ?key" using key by (auto simp: w0_def)
  define new where "new = ts_of (insert_by ?key p (list_root ?ts))"
  define rest where "rest = dropWhile (\<lambda>x. ?key x < ?key p) (list_root ?ts)"
  have add: "rtf_taskset_add_sorted_pr (heap w0) ?ts p = Some (p # rest, new)"
    using ptr_add_sorted [OF ts0, of p PERIOD DSC] unfolding keys
    by (simp add: rtf_taskset_add_sorted_pr_def taskset_cmp_defs new_def rest_def key w0_def)
  have new: "ts_ok (heap w0) new" "set (list_root new) = insert p (set (list_root ?ts))"
      "length (list_root new) \<le> 2 ^ 20"
  proof -
    have "distinct (list_root ?ts)" "\<forall>q \<in> set (list_root ?ts). allocated (heap w0) q" using ts0 by (simp_all add: ts_ok_def)
    moreover have "p \<notin> set (list_root ?ts)" using assms(2) sub by blast
    moreover have "allocated (heap w0) p" by (simp add: w0_def)
    ultimately show "ts_ok (heap w0) new"
      unfolding new_def ts_ok_ts_of set_insert_by by (intro conjI distinct_insert_by) auto
    show "set (list_root new) = insert p (set (list_root ?ts))" by (simp add: new_def)
    have "?ts \<in> set (plg_tasks this)" using b(4) by simp
    then show "length (list_root new) \<le> 2 ^ 20"
      using assms(4) unfolding rm_admissible_def new_def by fastforce
  qed
  define plg where "plg = this\<lparr>plg_tasks := (plg_tasks this)[nat c := new]\<rparr>"
  have "\<exists>h dp. rm_insert_priority plg (nat c) p (p # rest) w0 = Some (w0\<lparr>rm_dist_prio := dp, heap := h\<rparr>) \<and>
      reprio (heap w0) h (insert p own) \<and> length dp = MAX_CPU"
    (is "\<exists>h dp. ?place = _ \<and> _")
  proof -
    have pl: "plg_tasks plg ! nat c = new" "nat c < length (plg_tasks plg)" "nat c < length (rm_dist_prio w0)"
        "window_ok plg" "length (rm_dist_prio w0) = MAX_CPU"
      using b ok by (simp_all add: plg_def w0_def window_ok_def)
    obtain h dp where a: "do { w \<leftarrow> add_rm_dist_prio w0 (nat c) 1; rm_assign_priorities plg (nat c) w } =
        Some (w0\<lparr>rm_dist_prio := dp, heap := h\<rparr>)" "reprio (heap w0) h (set (list_root new))" "length dp = MAX_CPU"
      using rm_assign_after_insert [OF pl(4,2,3)] pl new by auto
    have a2: "reprio (heap w0) h (insert p own)" using a(2) new(2) sub by (auto elim: reprio_mono)
    show ?thesis
    proof (cases rest)
      case Nil
      with a a2 show ?thesis by (auto simp: rm_insert_priority_def node_next_def)
    next
      case (Cons q qs)
      then have "q \<in> set (list_root ?ts)" unfolding rest_def by (metis list.set_intros(1) set_dropWhileD)
      then obtain tn where tn: "heap w0 q = Some tn" using ts0 by (auto simp: ts_ok_def elim: allocatedE)
      show ?thesis
      proof (cases "rtf_task_get_period tn = period (params t0)")
        case True
        let ?h = "(heap w0)(p \<mapsto> t0\<lparr>schedprio := rtf_task_get_real_priority tn\<rparr>)"
        have "?place = Some (w0\<lparr>heap := ?h\<rparr>)"
          using True Cons tn by (simp add: rm_insert_priority_def node_next_def node_elem_def w0_def c_simps rtf_task_set_real_priority_def)
        moreover have "w0\<lparr>heap := ?h\<rparr> = w0\<lparr>rm_dist_prio := rm_dist_prio w0, heap := ?h\<rparr>" by simp
        moreover have "reprio (heap w0) ?h (insert p own)" by (rule reprio_upd) (simp_all add: w0_def)
        ultimately show ?thesis using pl(5) by metis
      next
        case False
        then have "?place = do { w \<leftarrow> add_rm_dist_prio w0 (nat c) 1; rm_assign_priorities plg (nat c) w }"
          using Cons tn by (simp add: rm_insert_priority_def node_next_def node_elem_def w0_def)
        with a a2 show ?thesis by auto
      qed
    qed
  qed
  then obtain h dp where place: "?place = Some (w0\<lparr>rm_dist_prio := dp, heap := h\<rparr>)"
      and h: "reprio (heap w0) h (insert p own)" and dp: "length dp = MAX_CPU"
    by blast
  obtain x where x: "h p = Some (t0\<lparr>schedprio := x\<rparr>)"
    using reprio_cases [OF h, of p t0] by (auto simp: w0_def)
  define t' where "t' = t0\<lparr>acceptedt := runtime (params t), acceptedu := u\<rparr>"
  define h' where "h' = h(p \<mapsto> t0\<lparr>schedprio := x, acceptedt := runtime (params t), acceptedu := u\<rparr>)"
  have run: "rm_task_schedule this p w = Some
      (plg\<lparr>util_free_percpu := (util_free_percpu this)[nat c := f32_sub (util_free_percpu this ! nat c) u],
            task_count_percpu := (task_count_percpu this)[nat c := task_count_percpu this ! nat c + 1]\<rparr>,
       w\<lparr>rm_dist_prio := dp, heap := h'\<rparr>)"
  proof -
    have w0: "w\<lparr>heap := (heap w)(p \<mapsto> t\<lparr>cpu := u64_of_u32 (u32_of_int c), pluginid := plg_id this\<rparr>)\<rparr> = w0"
      "(heap w)(p \<mapsto> t\<lparr>cpu := u64_of_u32 (u32_of_int c), pluginid := plg_id this\<rparr>) = heap w0"
      "w\<lparr>heap := heap w0\<rparr> = w0"
      by (simp_all add: w0_def t0_def)
    have "rtf_task_get_util t0 = rtf_task_get_util t" by (rule getters_params) (simp add: t0_def)
    have tail: "do { w \<leftarrow> upd_world_task (w0\<lparr>rm_dist_prio := dp, heap := h\<rparr>) p (\<lambda>t. t\<lparr>acceptedt := rtf_task_get_runtime t\<rparr>);
        w \<leftarrow> upd_world_task w p (\<lambda>t'. t'\<lparr>acceptedu := (if rtf_task_get_util t \<noteq> - 1 then rtf_task_get_util t else 0)\<rparr>);
        t \<leftarrow> heap w p;
        this \<leftarrow> add_util_free plg (unat (cpu t)) (\<lambda>u. f32_sub u (acceptedu t));
        this \<leftarrow> add_task_count this (unat (cpu t)) 1;
        Some (this, w) } = Some
      (plg\<lparr>util_free_percpu := (util_free_percpu this)[nat c := f32_sub (util_free_percpu this ! nat c) u],
            task_count_percpu := (task_count_percpu this)[nat c := task_count_percpu this ! nat c + 1]\<rparr>,
       w\<lparr>rm_dist_prio := dp, heap := h'\<rparr>)"
      using x b by (simp add: c_simps plg_def w0_def h'_def t'_def t0_def u_def rtf_task_get_runtime_def)
    show ?thesis
      unfolding tail [symmetric]
      using t b add place ok(1)
      by (simp add: rm_task_schedule_def rm_least_loaded_cpu_def least_loaded_by_util_eq c_simps rtf_task_set_cpu_def
          w0 plg_def Let_def flip: c_def)
  qed
  have "reprio ((heap w)(p \<mapsto> t')) h' (insert p own)"
  proof -
    have "t0\<lparr>schedprio := x, acceptedt := runtime (params t), acceptedu := u\<rparr> = t'\<lparr>schedprio := x\<rparr>"
      unfolding t'_def by (cases t0) simp
    moreover have "reprio ((heap w)(p \<mapsto> t0)) h (insert p own)" using h by (simp add: w0_def)
    ultimately show ?thesis using reprio_other [of "heap w" p t0 h "insert p own" t' x] by (simp add: h'_def)
  qed
  moreover have "on_grid u" by (simp add: u_def rtf_task_get_util_def Let_def)
  ultimately show ?thesis
    using c dp run by (intro bexI [of _ c] exI [of _ u] exI [of _ h'] exI [of _ dp])
      (simp_all add: t'_def t0_def plg_def new_def)
qed

lemma rm_shares_period_defined:
  "\<forall>q \<in> set qs. allocated h q \<Longrightarrow> \<exists>b. rm_shares_period h t qs = Some b"
  by (induction qs) (auto elim!: allocatedE)

lemma rm_release_spec:
  assumes inv: "rm_inv os this w own" and p: "p \<in> own" and t: "heap w p = Some t"
  shows "\<exists>r k dp u. on_grid u \<and> length dp = MAX_CPU \<and> rm_task_release os this p w = Some (r,
    this\<lparr>util_free_percpu := (util_free_percpu this)[unat (cpu t) := u],
         plg_tasks := (plg_tasks this)[unat (cpu t) :=
           ts_of (drop_first (\<lambda>a. t_id (the (heap w a)) = t_id t) (list_root (plg_tasks this ! unat (cpu t))))],
         task_count_percpu := (task_count_percpu this)[unat (cpu t) := task_count_percpu this ! unat (cpu t) - 1]\<rparr>,
    w\<lparr>rm_dist_prio := dp, heap := (heap w)(p \<mapsto> t\<lparr>pluginid := - 1\<rparr>), kern := k\<rparr>)"
proof -
  let ?c = "unat (cpu t)"
  let ?ts = "plg_tasks this ! ?c"
  have base: "base_inv this (heap w) own" and u: "util_ok this" and l: "lists_ok rm_key this (heap w) own"
    and d: "length (rm_dist_prio w) = MAX_CPU"
    using inv by (simp_all add: rm_inv_def)
  note c = owned_cpu [OF base p t]
  have ts: "ts_ok (heap w) ?ts" using l c(3) by (simp add: lists_ok_def)
  then have "\<forall>q \<in> set (list_root ?ts). allocated (heap w) q" by (simp add: ts_ok_def)
  then obtain b where b: "rm_shares_period (heap w) t (list_root ?ts) = Some b"
    using rm_shares_period_defined by blast
  define dp where "dp = (if b then (rm_dist_prio w)[?c := rm_dist_prio w ! ?c + - 1] else rm_dist_prio w)"
  define w1 where "w1 = w\<lparr>rm_dist_prio := dp\<rparr>"
  have w1: "(if b then add_rm_dist_prio w ?c (- 1) else Some w) = Some w1"
    using c(4) d by (cases b) (simp_all add: add_rm_dist_prio_def c_simps w1_def dp_def)
  define free where "free = (if acceptedu t \<noteq> 0 then f32_add (util_free_percpu this ! ?c) (acceptedu t)
      else util_free_percpu this ! ?c)"
  have free: "(if acceptedu t \<noteq> 0 then add_util_free this ?c (\<lambda>u. f32_add u (acceptedu t)) else Some this) =
      Some (this\<lparr>util_free_percpu := (util_free_percpu this)[?c := free]\<rparr>)"
    using c(2) by (simp add: c_simps free_def)
  have "on_grid (util_free_percpu this ! ?c)" using u c(2) by (simp add: util_ok_def)
  then have grid: "on_grid free" by (simp add: free_def)
  let ?w = "w1\<lparr>heap := (heap w)(p \<mapsto> t\<lparr>pluginid := - 1\<rparr>)\<rparr>"
  obtain r k where det: "detach_if_policy os SCHED_FIFO p ?w = Some (r, ?w\<lparr>kern := k\<rparr>)"
    using detach_if_policy_spec [of ?w p] by fastforce
  have w1h: "heap w1 = heap w" by (simp add: w1_def)
  have "rm_task_release os this p w = Some (r,
    this\<lparr>util_free_percpu := (util_free_percpu this)[?c := free],
         plg_tasks := (plg_tasks this)[?c := ts_of (drop_first (\<lambda>a. t_id (the (heap w a)) = t_id t) (list_root ?ts))],
         task_count_percpu := (task_count_percpu this)[?c := task_count_percpu this ! ?c - 1]\<rparr>,
    ?w\<lparr>kern := k\<rparr>)"
    using t c ts b w1 free det
    by (simp add: rm_task_release_def c_simps ts_remove_by_rsvid w1h Let_def)
  moreover have "length dp = MAX_CPU" using d by (simp add: dp_def)
  ultimately show ?thesis
    using grid by (intro exI [of _ r] exI [of _ k] exI [of _ dp] exI [of _ free]) (simp add: w1_def)
qed

text \<open>A change test gives the plugin's own utilisation back, tests, and takes it again.\<close>

lemma rm_change_spec:
  assumes inv: "rm_inv os this w own" and t: "heap w p = Some t" and own: "pluginid t = plg_id this \<longrightarrow> p \<in> own"
    and nul: "NUL \<in> set (sched_plugin (params t))"
  shows "\<exists>r us. rm_task_change this t = Some (r, this\<lparr>util_free_percpu := us\<rparr>) \<and> r \<in> {RTF_OK, RTF_PARTIAL, RTF_NO} \<and>
    length us = length (util_free_percpu this) \<and> util_ok (this\<lparr>util_free_percpu := us\<rparr>)"
proof -
  let ?c = "unat (cpu t)" and ?us = "util_free_percpu this"
  have ok: "plugin_ok this" "util_ok this" "base_inv this (heap w) own" using inv by (simp_all add: rm_inv_def base_inv_def)
  obtain other where other: "prefers_another this t = Some other" using prefers_another_total [OF nul] by blast
  show ?thesis
  proof (cases "pluginid t = plg_id this \<and> acceptedu t \<noteq> 0")
    case False
    obtain r where r: "rm_task_accept this t = Some r" "r \<in> {RTF_OK, RTF_PARTIAL, RTF_NO}"
      using rm_accept_spec [OF ok(1,2) other] by simp
    then have "rm_task_change this t = Some (r, this)"
      using False by (cases "pluginid t = plg_id this") (simp_all add: rm_task_change_def)
    with r(2) ok(2) show ?thesis by (intro exI [of _ r] exI [of _ ?us]) simp
  next
    case True
    with own have c: "?c < length ?us" using owned_cpu(2) [OF ok(3) _ t] by simp
    let ?v = "f32_add (?us ! ?c) (acceptedu t)"
    let ?plg = "this\<lparr>util_free_percpu := ?us[?c := ?v]\<rparr>"
    have ok': "plugin_ok ?plg" "util_ok ?plg" "prefers_another ?plg t = Some other"
      using ok(1) other util_ok_list_update [OF ok(2), of ?v ?plg ?c] prefers_another_name [of ?plg this t]
      by (simp_all add: plugin_ok_def)
    obtain r where r: "rm_task_accept ?plg t = Some r" "r \<in> {RTF_OK, RTF_PARTIAL, RTF_NO}"
      using rm_accept_spec [OF ok'] by simp
    let ?us' = "?us[?c := f32_sub ?v (acceptedu t)]"
    have "util_ok (this\<lparr>util_free_percpu := ?us'\<rparr>)" by (rule util_ok_list_update [OF ok(2)]) simp_all
    moreover have "rm_task_change this t = Some (r, this\<lparr>util_free_percpu := ?us'\<rparr>)"
      using True c r(1) by (simp add: rm_task_change_def c_simps)
    ultimately show ?thesis using r(2) by (intro exI [of _ r] exI [of _ ?us']) simp
  qed
qed

interpretation rm: plugin_contract "rm_inv os" rm_admissible rm_task_accept rm_task_change rm_task_schedule "rm_task_release os"
  for os
proof unfold_locales
  fix this :: rtf_plugin and w :: "'a world" and own
  assume inv: "rm_inv os this w own"
  then show base: "base_inv this (heap w) own" by (simp add: rm_inv_def)
  have ok: "plugin_ok this" "util_ok this" "window_ok this" "lists_ok rm_key this (heap w) own" "owned_ok this (heap w) own"
      "dl_ptr this = SCHED_RM_so"
    using inv base by (simp_all add: rm_inv_def base_inv_def)
  {
    fix w' :: "'a world" assume same: "same_but_tid (heap w) (heap w') own" and st: "same_statics (dl_ptr this) w w'"
    have "same_keys (heap w) (heap w') own" using same by (fastforce simp: same_but_tid_def same_keys_def)
    moreover have "\<forall>q \<in> own. allocated (heap w) q" using owned_ok_alloc [OF ok(5)] by blast
    ultimately have "lists_ok rm_key this (heap w') own"
      by (intro lists_ok_frame [OF params_key_sort_key ok(4)]) simp_all
    moreover have "base_inv this (heap w') own"
      using base_inv_same_but_tid [OF base] same by (simp add: same_but_tid_def)
    ultimately show "rm_inv os this w' own" using inv st by (simp add: rm_inv_def same_statics_def)
  next
    fix t :: rtf_task assume "NUL \<in> set (sched_plugin (params t))"
    then obtain other where "prefers_another this t = Some other" using prefers_another_total by blast
    from rm_accept_spec [OF ok(1,2) this]
    show "\<exists>r \<in> {RTF_OK, RTF_PARTIAL, RTF_NO}. rm_task_accept this t = Some r" by simp
  next
    fix p t assume t: "heap w p = Some t" "pluginid t = plg_id this \<longrightarrow> p \<in> own" "NUL \<in> set (sched_plugin (params t))"
    show "\<exists>r this'. rm_task_change this t = Some (r, this') \<and> r \<in> {RTF_OK, RTF_PARTIAL, RTF_NO} \<and>
        rm_inv os this' w own \<and> same_plugin this this'"
      using rm_change_spec [OF inv t] inv by (auto simp: rm_inv_def base_inv_def plugin_ok_def owned_ok_def count_ok_def
          lists_ok_def window_ok_def same_plugin_def)
  next
    fix p t
    assume p: "p \<notin> own" "heap w p = Some t" "rm_admissible this t"
    obtain c u h' dp where c: "c \<in> set (cpulist this)" and u: "on_grid u" and dp: "length dp = MAX_CPU"
      and h: "reprio ((heap w)(p \<mapsto> t\<lparr>cpu := u64_of_u32 (u32_of_int c), pluginid := plg_id this,
                             acceptedt := runtime (params t), acceptedu := u\<rparr>)) h' (insert p own)"
        (is "reprio ((heap w)(p \<mapsto> ?t)) _ _")
      and sch: "rm_task_schedule this p w = Some
      (this\<lparr>plg_tasks := (plg_tasks this)[nat c := ts_of (insert_by
               (\<lambda>q. rm_key (the (((heap w)(p \<mapsto> t)) q))) p (list_root (plg_tasks this ! nat c)))],
            util_free_percpu := (util_free_percpu this)[nat c := f32_sub (util_free_percpu this ! nat c) u],
            task_count_percpu := (task_count_percpu this)[nat c := task_count_percpu this ! nat c + 1]\<rparr>,
       w\<lparr>rm_dist_prio := dp, heap := h'\<rparr>)"
      (is "_ = Some (?plg, ?w)")
      using rm_schedule_spec [OF inv p] by blast
    have tch: "touches (dl_ptr this) p own w ?w"
      by (rule touches_reprio [where t' = ?t, OF p(2)])
         (use h ok(6) in \<open>auto simp: same_identity_def same_statics_def split: plugin_lib.splits\<close>)
    obtain x where x: "h' p = Some (?t\<lparr>schedprio := x\<rparr>)" using reprio_cases [OF h, of p ?t] by auto
    note b = plugin_okD [OF ok(1) c] u32_cpu [OF ok(1) c]
    have base': "base_inv ?plg (heap ?w) (insert p own)"
      by (rule base_inv_add [OF base p(1) touches_same_place [OF tch p(1)] _ _ c, where t = "?t\<lparr>schedprio := x\<rparr>"])
         (use ok x b in \<open>auto simp: plugin_ok_def\<close>)
    have "lists_ok rm_key ?plg (heap ?w) (insert p own)"
    proof (rule lists_ok_add [OF params_key_sort_key ok(4,5) touches_same_keys [OF tch p(1)] p(1), where c = "nat c"])
      show "heap ?w p = Some (?t\<lparr>schedprio := x\<rparr>)" using x by simp
      fix q assume q: "q \<in> insert p own"
      have "params (the (heap ?w q)) = params (the (((heap w)(p \<mapsto> t)) q))"
      proof (cases "q = p")
        case False
        with q have "allocated (heap w) q" "q \<in> own" using owned_ok_alloc [OF ok(5)] by auto
        from same_keysD(2) [OF touches_same_keys [OF tch p(1)] this] False show ?thesis by simp
      qed (use x in simp)
      then show "rm_key (the (((heap w)(p \<mapsto> t)) q)) = rm_key (the (heap ?w q))" by (rule getters_params(8) [symmetric])
    qed (use b in simp_all)
    moreover have "util_ok ?plg" by (rule util_ok_list_update [OF ok(2)]) simp_all
    ultimately have "rm_inv os ?plg ?w (insert p own)"
      using inv base' dp by (simp add: rm_inv_def window_ok_def)
    with sch tch show "\<exists>this' w'. rm_task_schedule this p w = Some (this', w') \<and>
        rm_inv os this' w' (insert p own) \<and> same_plugin this this' \<and> touches (dl_ptr this) p own w w'"
      by (intro exI [of _ ?plg] exI [of _ ?w]) (simp add: same_plugin_def)
  next
    fix p
    assume p: "p \<in> own" and inj: "inj_on (\<lambda>q. t_id (the (heap w q))) own"
    then obtain t where t: "heap w p = Some t" using base by (auto simp: base_inv_def owned_ok_def)
    obtain r k dp u where u: "on_grid u" and dp: "length dp = MAX_CPU" and rel: "rm_task_release os this p w = Some (r,
      this\<lparr>util_free_percpu := (util_free_percpu this)[unat (cpu t) := u],
         plg_tasks := (plg_tasks this)[unat (cpu t) :=
           ts_of (drop_first (\<lambda>a. t_id (the (heap w a)) = t_id t) (list_root (plg_tasks this ! unat (cpu t))))],
         task_count_percpu := (task_count_percpu this)[unat (cpu t) := task_count_percpu this ! unat (cpu t) - 1]\<rparr>,
      w\<lparr>rm_dist_prio := dp, heap := (heap w)(p \<mapsto> t\<lparr>pluginid := - 1\<rparr>), kern := k\<rparr>)"
      (is "_ = Some (_, ?plg, ?w)")
      using rm_release_spec [OF inv p t] by blast
    have tch: "touches (dl_ptr this) p own w ?w"
      by (rule touches_upd [where t' = "t\<lparr>pluginid := - 1\<rparr>", OF t])
         (use ok(6) in \<open>auto simp: same_identity_def same_statics_def split: plugin_lib.splits\<close>)
    have np: "p \<notin> own - {p}" by simp
    have base': "base_inv ?plg (heap ?w) (own - {p})"
      by (rule base_inv_remove [OF base p touches_same_place [OF tch np] t])
         (use ok in \<open>auto simp: plugin_ok_def\<close>)
    have "same_keys (heap w) (heap ?w) (own - {p})" by (auto simp: same_keys_def)
    then have "lists_ok rm_key ?plg (heap ?w) (own - {p})"
      using owned_cpu(3) [OF base p t]
      by (intro lists_ok_remove [OF params_key_sort_key ok(4,5) _ p t refl _ inj]) simp_all
    moreover have "util_ok ?plg" by (rule util_ok_list_update [OF ok(2) u]) simp
    ultimately have "rm_inv os ?plg ?w (own - {p})" using inv base' dp by (simp add: rm_inv_def window_ok_def)
    with rel tch show "\<exists>r this' w'. rm_task_release os this p w = Some (r, this', w') \<and>
        rm_inv os this' w' (own - {p}) \<and> same_plugin this this' \<and> touches (dl_ptr this) p own w w' \<and>
        pluginid (the (heap w' p)) = - 1"
      by (intro exI [of _ r] exI [of _ ?plg] exI [of _ ?w]) (simp add: same_plugin_def)
  }
qed

end
