(* ===== verification/Plugin_EDF.thy ===== *)
theory Plugin_EDF
  imports PluginBase
begin

text \<open>
  The earliest deadline first plugin, \<open>plugins/sched_EDF.c\<close>.  A task is accepted when the
  utilisation of its runtime (or, if it declares one, of its desired runtime) fits a CPU of the
  plugin; the accepted runtime and utilisation are recorded in the task and the utilisation is taken
  from the CPU.  The kernel's \<open>SCHED_DEADLINE\<close> runs the attached threads.
\<close>

subsection \<open>Helpers\<close>

definition edf_least_loaded_cpu :: "rtf_plugin \<Rightarrow> u32 option" where
  "edf_least_loaded_cpu this = least_loaded_by_util this"

definition edf_eval_util_missing :: "rtf_plugin \<Rightarrow> f32 \<Rightarrow> f32 option" where
  "edf_eval_util_missing this task_util = missing_util this task_util"

definition edf_has_another_preference :: "rtf_plugin \<Rightarrow> rtf_task \<Rightarrow> bool option" where
  "edf_has_another_preference this t = prefers_another this t"

definition edf_utilization_test :: "rtf_plugin \<Rightarrow> f32 \<Rightarrow> int option" where
  "edf_utilization_test this task_util = do {
     missing \<leftarrow> edf_eval_util_missing this task_util;
     Some (if missing = 0 then RTF_OK else RTF_NO)
   }"

definition edf_desired_utilization_test :: "rtf_plugin \<Rightarrow> f32 \<Rightarrow> f32 \<Rightarrow> int option" where
  "edf_desired_utilization_test this task_util task_des_util = do {
     missing \<leftarrow> edf_eval_util_missing this task_util;
     missing_des \<leftarrow> edf_eval_util_missing this task_des_util;
     Some (if missing_des = 0 then RTF_OK
           else if missing_des > 0 \<and> missing = 0 then RTF_PARTIAL
           else RTF_NO)
   }"

definition MICRO_TO_NANO :: "u64 \<Rightarrow> u64" where
  "MICRO_TO_NANO us = us * 1000"

subsection \<open>Plugin methods\<close>

definition edf_task_init :: "rtf_plugin \<Rightarrow> int" where
  "edf_task_init this = RTF_OK"

definition edf_task_accept :: "rtf_plugin \<Rightarrow> rtf_task \<Rightarrow> int option" where
  "edf_task_accept this t =
     (let task_util = rtf_task_get_util t;
          task_des_util = rtf_task_get_des_util t
      in if rtf_task_get_ignore_admission t \<noteq> 0 then Some RTF_NO
         else if rtf_task_get_period t = 0 then Some RTF_NO
         else if task_util = - 1 then Some RTF_NO
         else do {
           test_res \<leftarrow> (if task_des_util = - 1 then edf_utilization_test this task_util
                        else edf_desired_utilization_test this task_util task_des_util);
           other \<leftarrow> edf_has_another_preference this t;
           Some (if other \<and> test_res = RTF_OK then RTF_PARTIAL else test_res)
         })"

definition edf_task_change :: "rtf_plugin \<Rightarrow> rtf_task \<Rightarrow> (int \<times> rtf_plugin) option" where
  "edf_task_change this t = do {
     this \<leftarrow> (if pluginid t = plg_id this
              then add_util_free this (unat (cpu t)) (\<lambda>u. f32_add u (acceptedu t)) else Some this);
     test_res \<leftarrow> edf_task_accept this t;
     this \<leftarrow> (if pluginid t = plg_id this
              then add_util_free this (unat (cpu t)) (\<lambda>u. f32_sub u (acceptedu t)) else Some this);
     Some (test_res, this)
   }"

text \<open>What the three branches of the schedule accept: a runtime and a utilisation.\<close>

definition edf_accepted :: "rtf_plugin \<Rightarrow> rtf_task \<Rightarrow> (u64 \<times> f32) option" where
  "edf_accepted this t =
     (let task_util = rtf_task_get_util t;
          task_des_util = rtf_task_get_des_util t
      in if task_des_util = - 1 then Some (rtf_task_get_runtime t, task_util)
         else do {
           res \<leftarrow> edf_desired_utilization_test this task_util task_des_util;
           if res = RTF_OK then Some (rtf_task_get_des_runtime t, task_util)
           else do {
             free \<leftarrow> aget (util_free_percpu this) (unat (cpu t));
             budget \<leftarrow> u64_of_f32 (f32_mul free (f32_of_u64 (rtf_task_get_min_declared t)));
             Some (budget, f32_div (f32_of_u64 budget) (f32_of_u64 (rtf_task_get_min_declared t)))
           }
         })"

definition edf_task_schedule :: "rtf_plugin \<Rightarrow> task_ptr \<Rightarrow> 'k world \<Rightarrow> (rtf_plugin \<times> 'k world) option" where
  "edf_task_schedule this p w = do {
     c \<leftarrow> edf_least_loaded_cpu this;
     w \<leftarrow> upd_world_task w p (\<lambda>t. t\<lparr>cpu := u64_of_u32 c\<rparr>);
     w \<leftarrow> upd_world_task w p (\<lambda>t. t\<lparr>pluginid := plg_id this\<rparr>);
     t \<leftarrow> heap w p;
     (rt, u) \<leftarrow> edf_accepted this t;
     w \<leftarrow> upd_world_task w p (\<lambda>t. t\<lparr>acceptedt := rt, acceptedu := u\<rparr>);
     t \<leftarrow> heap w p;
     this \<leftarrow> add_util_free this (unat (cpu t)) (\<lambda>f. f32_sub f (acceptedu t));
     this \<leftarrow> add_task_count this (unat (cpu t)) 1;
     Some (this, w)
   }"

definition edf_task_attach :: "'k kernel \<Rightarrow> task_ptr \<Rightarrow> 'k world \<Rightarrow> (int \<times> 'k world) option" where
  "edf_task_attach os p w = do {
     t \<leftarrow> heap w p;
     let (r, k) = set_affinity_one os (kern w) t;
     let w = w\<lparr>kern := k\<rparr>;
     if r < 0 then Some (RTF_ERROR, w)
     else do {
       let rt = rtf_task_get_accepted_runtime t;
       let dl = (if rtf_task_get_deadline t \<noteq> 0 then rtf_task_get_deadline t else rtf_task_get_period t);
       let pr = rtf_task_get_period t;
       let attr = \<lparr>sched_policy = SCHED_DEADLINE, sched_runtime = MICRO_TO_NANO rt,
                   sched_deadline = MICRO_TO_NANO dl, sched_period = MICRO_TO_NANO pr\<rparr>;
       let (r, k) = sys_setattr os (kern w) (tid t) attr;
       let w = w\<lparr>kern := k\<rparr>;
       Some (if r < 0 then RTF_ERROR else RTF_OK, w)
     }
   }"

definition edf_task_detach :: "'k kernel \<Rightarrow> task_ptr \<Rightarrow> 'k world \<Rightarrow> (int \<times> 'k world) option" where
  "edf_task_detach os p w = posix_detach os p w"

definition edf_task_release ::
  "'k kernel \<Rightarrow> rtf_plugin \<Rightarrow> task_ptr \<Rightarrow> 'k world \<Rightarrow> (int \<times> rtf_plugin \<times> 'k world) option" where
  "edf_task_release os this p w = do {
     t \<leftarrow> heap w p;
     this \<leftarrow> add_util_free this (unat (cpu t)) (\<lambda>u. f32_add u (acceptedu t));
     this \<leftarrow> add_task_count this (unat (cpu t)) (- 1);
     w \<leftarrow> upd_world_task w p (\<lambda>t. t\<lparr>pluginid := - 1\<rparr>);
     (r, w) \<leftarrow> detach_if_policy os SCHED_DEADLINE p w;
     Some (r, this, w)
   }"

subsection \<open>The contract\<close>

definition edf_inv :: "'k kernel \<Rightarrow> rtf_plugin \<Rightarrow> 'k world \<Rightarrow> task_ptr set \<Rightarrow> bool" where
  "edf_inv os this w own \<longleftrightarrow> dl_ptr this = SCHED_EDF_so \<and> base_inv this (heap w) own \<and> util_ok this"

text \<open>A task that declares a desired runtime is scheduled with what is left of the chosen CPU when the
  desired utilisation does not fit; the conversion of that budget is defined when the free
  utilisations are between 0 and 1.\<close>

definition edf_admissible :: "rtf_plugin \<Rightarrow> rtf_task \<Rightarrow> bool" where
  "edf_admissible this t \<longleftrightarrow> rtf_task_get_des_util t = - 1 \<or> fits this (rtf_task_get_des_util t) \<or>
     (\<forall>u \<in> set (util_free_percpu this). 0 \<le> u \<and> u \<le> 1) \<and> uint (rtf_task_get_min_declared t) \<le> 2 ^ 63"

lemma on_grid_util [simp]: "on_grid (rtf_task_get_util t)" "on_grid (rtf_task_get_des_util t)"
  by (simp_all add: rtf_task_get_util_def rtf_task_get_des_util_def Let_def)

lemma edf_utilization_test_spec:
  assumes "plugin_ok this" and "util_ok this" and "on_grid u"
  shows "edf_utilization_test this u = Some (if fits this u then RTF_OK else RTF_NO)"
  using missing_util_spec [OF assms] by (auto simp: edf_utilization_test_def edf_eval_util_missing_def)

lemma edf_desired_utilization_test_spec:
  assumes "plugin_ok this" and "util_ok this" and "on_grid u" and "on_grid d"
  shows "edf_desired_utilization_test this u d =
    Some (if fits this d then RTF_OK else if fits this u then RTF_PARTIAL else RTF_NO)"
  using missing_util_spec [OF assms(1,2,3)] missing_util_spec [OF assms(1,2,4)]
  by (auto simp: edf_desired_utilization_test_def edf_eval_util_missing_def)

lemma edf_accept_spec:
  assumes "plugin_ok this" and "util_ok this" and "prefers_another this t = Some other"
  shows "edf_task_accept this t = Some
    (if ignore_admission (params t) \<noteq> 0 \<or> period (params t) = 0 \<or> rtf_task_get_util t = - 1 then RTF_NO
     else if rtf_task_get_des_util t \<noteq> - 1 \<and> fits this (rtf_task_get_des_util t) \<or>
             rtf_task_get_des_util t = - 1 \<and> fits this (rtf_task_get_util t)
          then (if other then RTF_PARTIAL else RTF_OK)
     else if rtf_task_get_des_util t \<noteq> - 1 \<and> fits this (rtf_task_get_util t) then RTF_PARTIAL else RTF_NO)"
  using assms edf_utilization_test_spec [OF assms(1,2), of "rtf_task_get_util t"]
    edf_desired_utilization_test_spec [OF assms(1,2), of "rtf_task_get_util t" "rtf_task_get_des_util t"]
  by (simp add: edf_task_accept_def edf_has_another_preference_def Let_def rtf_codes
      rtf_task_get_ignore_admission_def rtf_task_get_period_def)

lemma u64_of_f32_scaled:
  assumes "0 \<le> free" and "free \<le> 1" and "uint m \<le> 2 ^ 63"
  shows "\<exists>b. u64_of_f32 (f32_mul free (f32_of_u64 m)) = Some b"
proof -
  let ?m = "f32_of_u64 m"
  have big: "f32_round (of_int (2 ^ 63)) = 2 ^ 63"
    using fround_dyadic_exact [of 1 24 "- 149" 63] by (simp add: f32_round_def)
  have "(of_int (uint m) :: rat) \<le> of_int (2 ^ 63)" using assms(3) by (simp only: of_int_le_iff)
  moreover have "(0 :: rat) \<le> of_int (uint m)" by (simp only: of_int_0_le_iff uint_ge_0)
  ultimately have "?m \<le> f32_round (of_int (2 ^ 63))"
    unfolding f32_of_u64_def f32_of_int_def by (intro f32_round_mono)
  then have m: "0 \<le> ?m" "?m \<le> 2 ^ 63" using big f32_of_u64_nonneg by simp_all
  have "free * ?m \<le> 1 * 2 ^ 63" using assms(1,2) m by (intro mult_mono) auto
  then have "f32_mul free ?m \<le> f32_round (of_int (2 ^ 63))"
    unfolding f32_mul_def using assms(1) m by (intro f32_round_mono) auto
  moreover have "0 \<le> f32_mul free ?m" using assms(1) m by (simp add: f32_mul_def f32_round_def fround_nonneg)
  ultimately have "- 1 < f32_mul free ?m" "f32_mul free ?m < 2 ^ 64" using big by simp_all
  then show ?thesis by (simp add: u64_of_f32_def)
qed

lemma edf_accepted_defined:
  assumes "plugin_ok this" and "util_ok this" and "edf_admissible this t" and "unat c < length (util_free_percpu this)"
  shows "\<exists>rt u. edf_accepted this (t\<lparr>cpu := c, pluginid := i\<rparr>) = Some (rt, u) \<and> on_grid u"
proof -
  let ?t = "t\<lparr>cpu := c, pluginid := i\<rparr>"
  have "params ?t = params t" by simp
  note same = getters_params [OF this]
  note test = edf_desired_utilization_test_spec [OF assms(1,2), of "rtf_task_get_util t" "rtf_task_get_des_util t"]
  show ?thesis
  proof (cases "rtf_task_get_des_util t = - 1 \<or> fits this (rtf_task_get_des_util t)")
    case True
    with test show ?thesis by (auto simp: edf_accepted_def same Let_def)
  next
    case False
    let ?free = "util_free_percpu this ! unat c" and ?m = "f32_of_u64 (rtf_task_get_min_declared t)"
    from False assms(3,4) have free: "0 \<le> ?free" "?free \<le> 1" and mn: "uint (rtf_task_get_min_declared t) \<le> 2 ^ 63"
      by (auto simp: edf_admissible_def)
    from u64_of_f32_scaled [OF free mn]
    have "\<exists>b. u64_of_f32 (f32_mul ?free ?m) = Some b" .
    with False test assms(4) show ?thesis by (auto simp: edf_accepted_def same c_simps rtf_codes Let_def)
  qed
qed

lemma util_ok_upd: "util_ok this \<Longrightarrow> on_grid u \<Longrightarrow> util_ok (this\<lparr>util_free_percpu := (util_free_percpu this)[c := u]\<rparr>)"
  by (auto simp: util_ok_def dest!: set_update_subset_insert [THEN subsetD])

lemma edf_schedule_spec:
  assumes "edf_inv os this w own" and "heap w p = Some t" and "edf_admissible this t"
  shows "\<exists>c \<in> set (cpulist this). \<exists>rt u. on_grid u \<and> edf_task_schedule this p w = Some
      (this\<lparr>util_free_percpu := (util_free_percpu this)[nat c := f32_sub (util_free_percpu this ! nat c) u],
            task_count_percpu := (task_count_percpu this)[nat c := task_count_percpu this ! nat c + 1]\<rparr>,
       w\<lparr>heap := (heap w)(p \<mapsto> t\<lparr>cpu := u64_of_u32 (u32_of_int c), pluginid := plg_id this,
                                 acceptedt := rt, acceptedu := u\<rparr>)\<rparr>)"
proof -
  let ?c = "choice_of (\<lambda>f bound. f > bound) (util_free_percpu this) (cpulist this)"
  have ok: "plugin_ok this" "util_ok this"
    using assms(1) by (simp_all add: edf_inv_def base_inv_def)
  have c: "?c \<in> set (cpulist this)" using ok by (intro choice_in_cpulist) (simp add: plugin_ok_def)
  note b = plugin_okD [OF ok(1) c] u32_cpu [OF ok(1) c]
  obtain rt u where u: "edf_accepted this (t\<lparr>cpu := u64_of_u32 (u32_of_int ?c), pluginid := plg_id this\<rparr>) = Some (rt, u)"
      "on_grid u"
    using edf_accepted_defined [OF ok assms(3), of "u64_of_u32 (u32_of_int ?c)" "plg_id this"] b by auto
  have "edf_task_schedule this p w = Some
      (this\<lparr>util_free_percpu := (util_free_percpu this)[nat ?c := f32_sub (util_free_percpu this ! nat ?c) u],
            task_count_percpu := (task_count_percpu this)[nat ?c := task_count_percpu this ! nat ?c + 1]\<rparr>,
       w\<lparr>heap := (heap w)(p \<mapsto> t\<lparr>cpu := u64_of_u32 (u32_of_int ?c), pluginid := plg_id this,
                                 acceptedt := rt, acceptedu := u\<rparr>)\<rparr>)"
    using assms(2) u(1) b ok(1)
    by (simp add: edf_task_schedule_def edf_least_loaded_cpu_def least_loaded_by_util_eq c_simps)
  with c u(2) show ?thesis by blast
qed

lemma edf_release_spec:
  assumes "edf_inv os this w own" and "p \<in> own" and "heap w p = Some t"
  shows "\<exists>r k. edf_task_release os this p w = Some (r,
    this\<lparr>util_free_percpu := (util_free_percpu this)
           [unat (cpu t) := f32_add (util_free_percpu this ! unat (cpu t)) (acceptedu t)],
         task_count_percpu := (task_count_percpu this)[unat (cpu t) := task_count_percpu this ! unat (cpu t) - 1]\<rparr>,
    w\<lparr>heap := (heap w)(p \<mapsto> t\<lparr>pluginid := - 1\<rparr>), kern := k\<rparr>)"
proof -
  have "base_inv this (heap w) own" using assms(1) by (simp add: edf_inv_def)
  note c = owned_cpu [OF this assms(2,3)]
  let ?w = "w\<lparr>heap := (heap w)(p \<mapsto> t\<lparr>pluginid := - 1\<rparr>)\<rparr>"
  obtain r k where "detach_if_policy os SCHED_DEADLINE p ?w = Some (r, ?w\<lparr>kern := k\<rparr>)"
    using detach_if_policy_spec [of ?w p] by fastforce
  with assms(3) c have "edf_task_release os this p w = Some (r,
      this\<lparr>util_free_percpu := (util_free_percpu this)
             [unat (cpu t) := f32_add (util_free_percpu this ! unat (cpu t)) (acceptedu t)],
           task_count_percpu := (task_count_percpu this)[unat (cpu t) := task_count_percpu this ! unat (cpu t) - 1]\<rparr>,
      ?w\<lparr>kern := k\<rparr>)"
    by (simp add: edf_task_release_def c_simps)
  then show ?thesis by (intro exI [of _ r] exI [of _ k]) simp
qed

text \<open>A change test gives the plugin's own utilisation back, tests, and takes it again.\<close>

lemma edf_change_spec:
  assumes inv: "edf_inv os this w own" and t: "heap w p = Some t" and own: "pluginid t = plg_id this \<longrightarrow> p \<in> own"
    and nul: "NUL \<in> set (sched_plugin (params t))"
  shows "\<exists>r us. edf_task_change this t = Some (r, this\<lparr>util_free_percpu := us\<rparr>) \<and> r \<in> {RTF_OK, RTF_PARTIAL, RTF_NO} \<and>
    length us = length (util_free_percpu this) \<and> util_ok (this\<lparr>util_free_percpu := us\<rparr>)"
proof -
  let ?c = "unat (cpu t)" and ?us = "util_free_percpu this"
  have ok: "plugin_ok this" "util_ok this" "base_inv this (heap w) own" using inv by (simp_all add: edf_inv_def base_inv_def)
  obtain other where other: "prefers_another this t = Some other" using prefers_another_total [OF nul] by blast
  show ?thesis
  proof (cases "pluginid t = plg_id this")
    case False
    obtain r where r: "edf_task_accept this t = Some r" "r \<in> {RTF_OK, RTF_PARTIAL, RTF_NO}"
      using edf_accept_spec [OF ok(1,2) other] by simp
    then have "edf_task_change this t = Some (r, this)"
      using False by (cases "pluginid t = plg_id this") (simp_all add: edf_task_change_def)
    with r(2) ok(2) show ?thesis by (intro exI [of _ r] exI [of _ ?us]) simp
  next
    case True
    with own have c: "?c < length ?us" using owned_cpu(2) [OF ok(3) _ t] by simp
    let ?v = "f32_add (?us ! ?c) (acceptedu t)"
    let ?plg = "this\<lparr>util_free_percpu := ?us[?c := ?v]\<rparr>"
    have ok': "plugin_ok ?plg" "util_ok ?plg" "prefers_another ?plg t = Some other"
      using ok(1) other util_ok_list_update [OF ok(2), of ?v ?plg ?c] prefers_another_name [of ?plg this t]
      by (simp_all add: plugin_ok_def)
    obtain r where r: "edf_task_accept ?plg t = Some r" "r \<in> {RTF_OK, RTF_PARTIAL, RTF_NO}"
      using edf_accept_spec [OF ok'] by simp
    let ?us' = "?us[?c := f32_sub ?v (acceptedu t)]"
    have "util_ok (this\<lparr>util_free_percpu := ?us'\<rparr>)" by (rule util_ok_list_update [OF ok(2)]) simp_all
    moreover have "edf_task_change this t = Some (r, this\<lparr>util_free_percpu := ?us'\<rparr>)"
      using True c r(1) by (simp add: edf_task_change_def c_simps)
    ultimately show ?thesis using r(2) by (intro exI [of _ r] exI [of _ ?us']) simp
  qed
qed

interpretation edf: plugin_contract "edf_inv os" edf_admissible edf_task_accept edf_task_change edf_task_schedule "edf_task_release os"
  for os
proof unfold_locales
  fix this :: rtf_plugin and w :: "'a world" and own
  assume inv: "edf_inv os this w own"
  then show base: "base_inv this (heap w) own" by (simp add: edf_inv_def)
  have ok: "plugin_ok this" "util_ok this" using inv base by (simp_all add: edf_inv_def base_inv_def)
  {
    fix w' :: "'a world" assume "same_but_tid (heap w) (heap w') own"
    then have "base_inv this (heap w') own"
      using base_inv_same_but_tid [OF base] by (simp add: same_but_tid_def)
    then show "edf_inv os this w' own" using inv by (simp add: edf_inv_def)
  next
    fix t :: rtf_task assume "NUL \<in> set (sched_plugin (params t))"
    then obtain other where "prefers_another this t = Some other" using prefers_another_total by blast
    from edf_accept_spec [OF ok this]
    show "\<exists>r \<in> {RTF_OK, RTF_PARTIAL, RTF_NO}. edf_task_accept this t = Some r" by simp
  next
    fix p t assume t: "heap w p = Some t" "pluginid t = plg_id this \<longrightarrow> p \<in> own" "NUL \<in> set (sched_plugin (params t))"
    show "\<exists>r this'. edf_task_change this t = Some (r, this') \<and> r \<in> {RTF_OK, RTF_PARTIAL, RTF_NO} \<and>
        edf_inv os this' w own \<and> same_plugin this this'"
      using edf_change_spec [OF inv t] inv by (auto simp: edf_inv_def base_inv_def plugin_ok_def owned_ok_def count_ok_def
          lists_ok_def window_ok_def same_plugin_def)
  next
    fix p t
    assume p: "p \<notin> own" "heap w p = Some t" "edf_admissible this t"
    obtain c rt u where c: "c \<in> set (cpulist this)" and u: "on_grid u" and sch: "edf_task_schedule this p w = Some
        (this\<lparr>util_free_percpu := (util_free_percpu this)[nat c := f32_sub (util_free_percpu this ! nat c) u],
              task_count_percpu := (task_count_percpu this)[nat c := task_count_percpu this ! nat c + 1]\<rparr>,
         w\<lparr>heap := (heap w)(p \<mapsto> t\<lparr>cpu := u64_of_u32 (u32_of_int c), pluginid := plg_id this,
                                   acceptedt := rt, acceptedu := u\<rparr>)\<rparr>)"
      (is "_ = Some (?plg, ?w)")
      using edf_schedule_spec [OF inv p(2,3)] by blast
    have tch: "touches (dl_ptr this) p own w ?w"
      by (rule touches_upd [where t' = "the (heap ?w p)", OF p(2)]) (simp_all add: same_identity_def)
    have "base_inv ?plg (heap ?w) (insert p own)"
      by (rule base_inv_add [OF base p(1) touches_same_place [OF tch p(1)] _ _ c])
         (use ok u32_cpu [OF ok(1) c] in \<open>auto simp: plugin_ok_def\<close>)
    then have "edf_inv os ?plg ?w (insert p own)"
      using inv util_ok_upd [OF ok(2), of "f32_sub (util_free_percpu this ! nat c) u" "nat c"]
      by (simp add: edf_inv_def util_ok_def)
    with sch tch show "\<exists>this' w'. edf_task_schedule this p w = Some (this', w') \<and>
        edf_inv os this' w' (insert p own) \<and> same_plugin this this' \<and> touches (dl_ptr this) p own w w'"
      by (intro exI [of _ ?plg] exI [of _ ?w]) (simp add: same_plugin_def)
  next
    fix p
    assume p: "p \<in> own"
    then obtain t where t: "heap w p = Some t" using base by (auto simp: base_inv_def owned_ok_def)
    obtain r k where rel: "edf_task_release os this p w = Some (r,
        this\<lparr>util_free_percpu := (util_free_percpu this)
               [unat (cpu t) := f32_add (util_free_percpu this ! unat (cpu t)) (acceptedu t)],
             task_count_percpu := (task_count_percpu this)[unat (cpu t) := task_count_percpu this ! unat (cpu t) - 1]\<rparr>,
        w\<lparr>heap := (heap w)(p \<mapsto> t\<lparr>pluginid := - 1\<rparr>), kern := k\<rparr>)"
      (is "_ = Some (_, ?plg, ?w)")
      using edf_release_spec [OF inv p t] by blast
    have tch: "touches (dl_ptr this) p own w ?w"
      by (rule touches_upd [where t' = "the (heap ?w p)", OF t]) (simp_all add: same_identity_def)
    have "p \<notin> own - {p}" by simp
    then have "base_inv ?plg (heap ?w) (own - {p})"
      by (intro base_inv_remove [OF base p touches_same_place [OF tch] t])
         (use ok in \<open>auto simp: plugin_ok_def\<close>)
    then have "edf_inv os ?plg ?w (own - {p})"
      using inv util_ok_upd [OF ok(2), of "f32_add (util_free_percpu this ! unat (cpu t)) (acceptedu t)" "unat (cpu t)"]
      by (simp add: edf_inv_def util_ok_def)
    with rel tch show "\<exists>r this' w'. edf_task_release os this p w = Some (r, this', w') \<and>
        edf_inv os this' w' (own - {p}) \<and> same_plugin this this' \<and> touches (dl_ptr this) p own w w' \<and>
        pluginid (the (heap w' p)) = - 1"
      by (intro exI [of _ r] exI [of _ ?plg] exI [of _ ?w]) (simp add: same_plugin_def)
  }
qed

end
