(* ===== verification/Plugins.thy ===== *)
theory Plugins
  imports Plugin_FP Plugin_RR Plugin_RM Plugin_EDF
begin

text \<open>
  Calls through the function pointers of a plugin.  \<open>dl_ptr\<close> is the library the pointers of
  \<open>struct rtf_plugin\<close> were resolved in, so a call runs the method of that library.
\<close>

definition rtf_plg_task_accept :: "rtf_plugin \<Rightarrow> rtf_task \<Rightarrow> int option" where
  "rtf_plg_task_accept this t =
     (case dl_ptr this of
        SCHED_FP_so \<Rightarrow> fp_task_accept this t
      | SCHED_RR_so \<Rightarrow> rr_task_accept this t
      | SCHED_RM_so \<Rightarrow> rm_task_accept this t
      | SCHED_EDF_so \<Rightarrow> edf_task_accept this t)"

definition rtf_plg_task_change :: "rtf_plugin \<Rightarrow> rtf_task \<Rightarrow> (int \<times> rtf_plugin) option" where
  "rtf_plg_task_change this t =
     (case dl_ptr this of
        SCHED_FP_so \<Rightarrow> map_option (\<lambda>r. (r, this)) (fp_task_change this t)
      | SCHED_RR_so \<Rightarrow> map_option (\<lambda>r. (r, this)) (rr_task_change this t)
      | SCHED_RM_so \<Rightarrow> rm_task_change this t
      | SCHED_EDF_so \<Rightarrow> edf_task_change this t)"

definition rtf_plg_task_schedule ::
  "'k kernel \<Rightarrow> rtf_plugin \<Rightarrow> task_ptr \<Rightarrow> 'k world \<Rightarrow> (rtf_plugin \<times> 'k world) option" where
  "rtf_plg_task_schedule os this p w =
     (case dl_ptr this of
        SCHED_FP_so \<Rightarrow> fp_task_schedule os this p w
      | SCHED_RR_so \<Rightarrow> rr_task_schedule os this p w
      | SCHED_RM_so \<Rightarrow> rm_task_schedule this p w
      | SCHED_EDF_so \<Rightarrow> edf_task_schedule this p w)"

definition rtf_plg_task_attach ::
  "'k kernel \<Rightarrow> rtf_plugin \<Rightarrow> task_ptr \<Rightarrow> 'k world \<Rightarrow> (int \<times> 'k world) option" where
  "rtf_plg_task_attach os this p w =
     (case dl_ptr this of
        SCHED_FP_so \<Rightarrow> fp_task_attach os p w
      | SCHED_RR_so \<Rightarrow> rr_task_attach os p w
      | SCHED_RM_so \<Rightarrow> rm_task_attach os p w
      | SCHED_EDF_so \<Rightarrow> edf_task_attach os p w)"

definition rtf_plg_task_detach ::
  "'k kernel \<Rightarrow> rtf_plugin \<Rightarrow> task_ptr \<Rightarrow> 'k world \<Rightarrow> (int \<times> 'k world) option" where
  "rtf_plg_task_detach os this p w =
     (case dl_ptr this of
        SCHED_FP_so \<Rightarrow> fp_task_detach os p w
      | SCHED_RR_so \<Rightarrow> rr_task_detach os p w
      | SCHED_RM_so \<Rightarrow> rm_task_detach os p w
      | SCHED_EDF_so \<Rightarrow> edf_task_detach os p w)"

definition rtf_plg_task_release ::
  "'k kernel \<Rightarrow> rtf_plugin \<Rightarrow> task_ptr \<Rightarrow> 'k world \<Rightarrow> (int \<times> rtf_plugin \<times> 'k world) option" where
  "rtf_plg_task_release os this p w =
     (case dl_ptr this of
        SCHED_FP_so \<Rightarrow> fp_task_release os this p w
      | SCHED_RR_so \<Rightarrow> rr_task_release os this p w
      | SCHED_RM_so \<Rightarrow> rm_task_release os this p w
      | SCHED_EDF_so \<Rightarrow> edf_task_release os this p w)"

subsection \<open>The contract\<close>

text \<open>The calls satisfy the contract of the plugins because every library does.\<close>

definition plg_inv :: "'k kernel \<Rightarrow> rtf_plugin \<Rightarrow> 'k world \<Rightarrow> task_ptr set \<Rightarrow> bool" where
  "plg_inv os this w own \<longleftrightarrow>
     (case dl_ptr this of
        SCHED_FP_so \<Rightarrow> fp_inv os this w own
      | SCHED_RR_so \<Rightarrow> rr_inv os this w own
      | SCHED_RM_so \<Rightarrow> rm_inv os this w own
      | SCHED_EDF_so \<Rightarrow> edf_inv os this w own)"

definition plg_admissible :: "rtf_plugin \<Rightarrow> rtf_task \<Rightarrow> bool" where
  "plg_admissible this t \<longleftrightarrow>
     (case dl_ptr this of
        SCHED_FP_so \<Rightarrow> fp_admissible this t
      | SCHED_RR_so \<Rightarrow> rr_admissible this t
      | SCHED_RM_so \<Rightarrow> rm_admissible this t
      | SCHED_EDF_so \<Rightarrow> edf_admissible this t)"

lemmas plg_defs = plg_inv_def plg_admissible_def rtf_plg_task_accept_def rtf_plg_task_schedule_def
  rtf_plg_task_release_def

interpretation plg: plugin_contract "plg_inv os" plg_admissible rtf_plg_task_accept rtf_plg_task_change
    "rtf_plg_task_schedule os" "rtf_plg_task_release os"
  for os
proof unfold_locales
  fix this :: rtf_plugin and w w' :: "'a world" and own p t r
  assume inv: "plg_inv os this w own"
  show "base_inv this (heap w) own"
    using inv fp.inv_base rr.inv_base rm.inv_base edf.inv_base
    by (cases "dl_ptr this") (auto simp: plg_inv_def)
  show "plg_inv os this w' own" if "same_but_tid (heap w) (heap w') own" "same_statics (dl_ptr this) w w'"
    using inv fp.inv_frame [OF _ that] rr.inv_frame [OF _ that] rm.inv_frame [OF _ that] edf.inv_frame [OF _ that]
    by (cases "dl_ptr this") (auto simp: plg_inv_def)
  show "\<exists>r \<in> {RTF_OK, RTF_PARTIAL, RTF_NO}. rtf_plg_task_accept this t = Some r" if "NUL \<in> set (sched_plugin (params t))"
    using inv that fp.accept_total rr.accept_total rm.accept_total edf.accept_total
    by (cases "dl_ptr this") (simp_all add: plg_inv_def rtf_plg_task_accept_def)
  show "\<exists>r this'. rtf_plg_task_change this t = Some (r, this') \<and> r \<in> {RTF_OK, RTF_PARTIAL, RTF_NO} \<and>
      plg_inv os this' w own \<and> same_plugin this this'"
    if "heap w p = Some t" "pluginid t = plg_id this \<longrightarrow> p \<in> own" "NUL \<in> set (sched_plugin (params t))"
    using inv fp.change_law [OF _ that] rr.change_law [OF _ that] rm.change_law [OF _ that] edf.change_law [OF _ that]
    by (cases "dl_ptr this") (fastforce simp: plg_inv_def rtf_plg_task_change_def same_plugin_def)+
  show "\<exists>this' w'. rtf_plg_task_schedule os this p w = Some (this', w') \<and> plg_inv os this' w' (insert p own) \<and>
      same_plugin this this' \<and> touches (dl_ptr this) p own w w'"
    if "p \<notin> own" "heap w p = Some t" "plg_admissible this t"
    using inv that(3) fp.schedule_law [OF _ that(1,2)] rr.schedule_law [OF _ that(1,2)]
      rm.schedule_law [OF _ that(1,2)] edf.schedule_law [OF _ that(1,2)]
    by (cases "dl_ptr this") (fastforce simp: plg_defs same_plugin_def)+
  show "\<exists>r this' w'. rtf_plg_task_release os this p w = Some (r, this', w') \<and> plg_inv os this' w' (own - {p}) \<and>
      same_plugin this this' \<and> touches (dl_ptr this) p own w w' \<and> pluginid (the (heap w' p)) = - 1"
    if "p \<in> own" "inj_on (\<lambda>q. t_id (the (heap w q))) own"
    using inv fp.release_law [OF _ that] rr.release_law [OF _ that] rm.release_law [OF _ that] edf.release_law [OF _ that]
    by (cases "dl_ptr this") (fastforce simp: plg_defs same_plugin_def)+
qed

subsection \<open>What a call leaves alone\<close>

text \<open>These hold in every state, also where the contract does not apply.\<close>

lemma detach_heap: "detach_if_policy os policy p w = Some (r, w') \<Longrightarrow> heap w' = heap w"
  by (auto simp: detach_if_policy_def posix_detach_def Let_def bind_eq_Some split: prod.splits if_splits)

lemmas release_defs = bind_eq_Some upd_world_task_eq_Some Let_def

lemma counter_heap:
  "set_n_per_prio w c k n = Some w' \<Longrightarrow> heap w' = heap w"
  "add_rr_dist_prio w c d = Some w' \<Longrightarrow> heap w' = heap w"
  "add_rm_dist_prio w c d = Some w' \<Longrightarrow> heap w' = heap w"
  by (auto simp: set_n_per_prio_def add_rr_dist_prio_def add_rm_dist_prio_def bind_eq_Some)

lemma release_heap_parts:
  "fp_task_release os plg p w = Some (r, plg', w') \<Longrightarrow> \<exists>t. heap w p = Some t \<and> heap w' = (heap w)(p \<mapsto> t\<lparr>pluginid := - 1\<rparr>)"
  "edf_task_release os plg p w = Some (r, plg', w') \<Longrightarrow> \<exists>t. heap w p = Some t \<and> heap w' = (heap w)(p \<mapsto> t\<lparr>pluginid := - 1\<rparr>)"
  "rr_task_release os plg p w = Some (r, plg', w') \<Longrightarrow> \<exists>t. heap w p = Some t \<and> heap w' = (heap w)(p \<mapsto> t\<lparr>pluginid := - 1\<rparr>)"
  "rm_task_release os plg p w = Some (r, plg', w') \<Longrightarrow> \<exists>t. heap w p = Some t \<and> heap w' = (heap w)(p \<mapsto> t\<lparr>pluginid := - 1\<rparr>)"
proof -
  show "fp_task_release os plg p w = Some (r, plg', w') \<Longrightarrow> \<exists>t. heap w p = Some t \<and> heap w' = (heap w)(p \<mapsto> t\<lparr>pluginid := - 1\<rparr>)"
    by (auto simp: fp_task_release_def release_defs dest!: detach_heap)
  show "edf_task_release os plg p w = Some (r, plg', w') \<Longrightarrow> \<exists>t. heap w p = Some t \<and> heap w' = (heap w)(p \<mapsto> t\<lparr>pluginid := - 1\<rparr>)"
    by (auto simp: edf_task_release_def release_defs dest!: detach_heap)
  show "rr_task_release os plg p w = Some (r, plg', w') \<Longrightarrow> \<exists>t. heap w p = Some t \<and> heap w' = (heap w)(p \<mapsto> t\<lparr>pluginid := - 1\<rparr>)"
    unfolding rr_task_release_def release_defs case_prod_beta by (elim exE conjE) (auto dest!: detach_heap counter_heap split: if_splits)
  show "rm_task_release os plg p w = Some (r, plg', w') \<Longrightarrow> \<exists>t. heap w p = Some t \<and> heap w' = (heap w)(p \<mapsto> t\<lparr>pluginid := - 1\<rparr>)"
    unfolding rm_task_release_def release_defs case_prod_beta by (elim exE conjE) (auto dest!: detach_heap counter_heap split: if_splits)
qed

lemma release_heap:
  "rtf_plg_task_release os plg p w = Some (r, plg', w') \<Longrightarrow>
   \<exists>t. heap w p = Some t \<and> heap w' = (heap w)(p \<mapsto> t\<lparr>pluginid := - 1\<rparr>)"
  by (cases "dl_ptr plg") (simp_all add: rtf_plg_task_release_def release_heap_parts)

lemma counter_plg_id:
  "add_util_free this c f = Some this' \<Longrightarrow> plg_id this' = plg_id this"
  "add_task_count this c d = Some this' \<Longrightarrow> plg_id this' = plg_id this"
  by (auto simp: add_util_free_def add_task_count_def bind_eq_Some)

lemma release_plg_id:
  "rtf_plg_task_release os plg p w = Some (r, plg', w') \<Longrightarrow> plg_id plg' = plg_id plg"
proof (cases "dl_ptr plg")
  case SCHED_FP_so
  assume "rtf_plg_task_release os plg p w = Some (r, plg', w')"
  with SCHED_FP_so have "fp_task_release os plg p w = Some (r, plg', w')" by (simp add: rtf_plg_task_release_def)
  then show ?thesis unfolding fp_task_release_def release_defs case_prod_beta
    by (elim exE conjE) (auto dest!: counter_plg_id)
next
  case SCHED_EDF_so
  assume "rtf_plg_task_release os plg p w = Some (r, plg', w')"
  with SCHED_EDF_so have "edf_task_release os plg p w = Some (r, plg', w')" by (simp add: rtf_plg_task_release_def)
  then show ?thesis unfolding edf_task_release_def release_defs case_prod_beta
    by (elim exE conjE) (auto dest!: counter_plg_id)
next
  case SCHED_RR_so
  assume "rtf_plg_task_release os plg p w = Some (r, plg', w')"
  with SCHED_RR_so have "rr_task_release os plg p w = Some (r, plg', w')" by (simp add: rtf_plg_task_release_def)
  then show ?thesis unfolding rr_task_release_def release_defs case_prod_beta
    by (elim exE conjE) (auto dest!: counter_plg_id)
next
  case SCHED_RM_so
  assume "rtf_plg_task_release os plg p w = Some (r, plg', w')"
  with SCHED_RM_so have "rm_task_release os plg p w = Some (r, plg', w')" by (simp add: rtf_plg_task_release_def)
  then show ?thesis unfolding rm_task_release_def release_defs case_prod_beta
    by (elim exE conjE) (auto dest!: counter_plg_id split: if_splits)
qed

text \<open>Two stores that agree on the identity and the booking of every task but one.\<close>

definition agree_but :: "task_ptr \<Rightarrow> heap \<Rightarrow> heap \<Rightarrow> bool" where
  "agree_but p h h' \<longleftrightarrow> (\<forall>q t. q \<noteq> p \<longrightarrow> h q = Some t \<longrightarrow>
     (\<exists>t'. h' q = Some t' \<and> same_identity t t' \<and> same_booking t t'))"

lemma agree_but_refl [simp]: "agree_but p h h"
  by (simp add: agree_but_def)

lemma agree_but_trans:
  assumes "agree_but p h1 h2" and "agree_but p h2 h3"
  shows "agree_but p h1 h3"
  unfolding agree_but_def
proof (intro allI impI)
  fix q t assume q: "q \<noteq> p" "h1 q = Some t"
  then obtain t' where t': "h2 q = Some t'" "same_identity t t'" "same_booking t t'"
    using assms(1) unfolding agree_but_def by blast
  then obtain t'' where "h3 q = Some t''" "same_identity t' t''" "same_booking t' t''"
    using q(1) assms(2) unfolding agree_but_def by blast
  with t' show "\<exists>t'. h3 q = Some t' \<and> same_identity t t' \<and> same_booking t t'"
    by (auto simp: same_identity_def same_booking_def)
qed

lemma set_prio_agree: "upd_world_task w q (\<lambda>t. rtf_task_set_real_priority t x) = Some w' \<Longrightarrow> agree_but p (heap w) (heap w')"
  by (auto simp: upd_world_task_eq_Some agree_but_def rtf_task_set_real_priority_def same_identity_def same_booking_def)

lemma upd_agree: "upd_world_task w p f = Some w' \<Longrightarrow> agree_but p (heap w) (heap w')"
  by (auto simp: upd_world_task_eq_Some agree_but_def)

lemma rr_assign_remapped_agree: "rr_assign_remapped os this ps w = Some w' \<Longrightarrow> agree_but p (heap w) (heap w')"
  by (induction ps arbitrary: w) (auto simp: bind_eq_Some dest!: set_prio_agree [where p = p] intro: agree_but_trans)

lemma rr_assign_dense_agree: "rr_assign_dense cur prec ps w = Some w' \<Longrightarrow> agree_but p (heap w) (heap w')"
  by (induction ps arbitrary: cur prec w)
     (auto simp: bind_eq_Some dest!: set_prio_agree [where p = p] intro: agree_but_trans split: if_splits)

lemma rm_assign_remapped_agree: "rm_assign_remapped this c cur prec i ps w = Some w' \<Longrightarrow> agree_but p (heap w) (heap w')"
  by (induction ps arbitrary: cur prec i w)
     (auto simp: bind_eq_Some dest!: set_prio_agree [where p = p] intro: agree_but_trans split: if_splits)

lemma rm_assign_dense_agree: "rm_assign_dense cur prec ps w = Some w' \<Longrightarrow> agree_but p (heap w) (heap w')"
  by (induction ps arbitrary: cur prec w)
     (auto simp: bind_eq_Some dest!: set_prio_agree [where p = p] intro: agree_but_trans split: if_splits)

lemma rr_insert_agree: "rr_insert_priority os this c q new n w = Some w' \<Longrightarrow> agree_but p (heap w) (heap w')"
  by (auto simp: rr_insert_priority_def add_rr_dist_prio_def rr_assign_priorities_def bind_eq_Some Let_def
      dest: set_prio_agree [where p = p] rr_assign_remapped_agree [where p = p] rr_assign_dense_agree [where p = p]
      split: if_splits)

lemma rm_insert_agree: "rm_insert_priority this c q new w = Some w' \<Longrightarrow> agree_but p (heap w) (heap w')"
  by (auto simp: rm_insert_priority_def add_rm_dist_prio_def rm_assign_priorities_def bind_eq_Some Let_def
      dest: set_prio_agree [where p = p] rm_assign_remapped_agree [where p = p] rm_assign_dense_agree [where p = p]
      split: if_splits)

text \<open>A schedule changes the booking of its task only, and books it for the plugin.\<close>

definition books :: "task_ptr \<Rightarrow> int \<Rightarrow> heap \<Rightarrow> heap \<Rightarrow> bool" where
  "books p i h h' \<longleftrightarrow> agree_but p h h' \<and> (\<exists>t t'. h p = Some t \<and> h' p = Some t' \<and> same_identity t t' \<and> pluginid t' = i)"

lemma books_agree:
  assumes "books p i h h1" and "\<And>q. agree_but q h1 h2"
  shows "books p i h h2"
proof -
  from assms(1) obtain t t1 where t: "h p = Some t" "h1 p = Some t1" "same_identity t t1" "pluginid t1 = i"
    unfolding books_def by blast
  obtain t2 where "h2 p = Some t2" "same_identity t1 t2" "same_booking t1 t2"
    using assms(2) [of "Suc p"] t(2) unfolding agree_but_def by (metis n_not_Suc_n)
  moreover have "agree_but p h h2" using assms agree_but_trans unfolding books_def by blast
  ultimately show ?thesis
    using t unfolding books_def by (auto simp: same_identity_def same_booking_def)
qed

lemma books_upd:
  assumes "books p i h h1" and "h1 p = Some t" and "same_identity t t'" and "pluginid t' = pluginid t"
  shows "books p i h (h1(p \<mapsto> t'))"
  using assms unfolding books_def agree_but_def by (auto simp: same_identity_def)

lemma books_start: "h p = Some t \<Longrightarrow> same_identity t t' \<Longrightarrow> pluginid t' = i \<Longrightarrow> books p i h (h(p \<mapsto> t'))"
  by (auto simp: books_def agree_but_def)

lemmas schedule_defs = bind_eq_Some upd_world_task_eq_Some Let_def case_prod_beta

lemma fp_schedule_books: "fp_task_schedule os plg p w = Some (plg', w') \<Longrightarrow> books p (plg_id plg) (heap w) (heap w')"
  unfolding fp_task_schedule_def schedule_defs
  by (elim exE conjE)
     (auto intro!: books_start simp: same_identity_def rtf_task_set_cpu_def rtf_task_set_real_priority_def split: if_splits)

lemma edf_schedule_books: "edf_task_schedule plg p w = Some (plg', w') \<Longrightarrow> books p (plg_id plg) (heap w) (heap w')"
  unfolding edf_task_schedule_def schedule_defs
  by (elim exE conjE) (auto intro!: books_start simp: same_identity_def)

lemma rr_schedule_books:
  assumes "rr_task_schedule os plg p w = Some (plg', w')"
  shows "books p (plg_id plg) (heap w) (heap w')"
proof -
  from assms obtain c t w1 new n this2 w2 where t: "heap w p = Some t"
    and w1: "heap w1 = (heap w)(p \<mapsto> t\<lparr>cpu := u64_of_u32 c, pluginid := plg_id plg\<rparr>)"
    and w2: "rr_insert_priority os this2 (unat c) p new n w1 = Some w2" and w': "heap w' = heap w2"
    unfolding rr_task_schedule_def schedule_defs
    by (elim exE conjE) (auto dest!: counter_heap simp: rtf_task_set_cpu_def)
  have "books p (plg_id plg) (heap w) (heap w1)"
    unfolding w1 using t by (rule books_start) (simp_all add: same_identity_def)
  then show ?thesis unfolding w' using rr_insert_agree [OF w2] by (rule books_agree)
qed

lemma books_upd_world:
  assumes "books p i h (heap w1)" and "upd_world_task w1 p f = Some w2"
    and "\<And>t. same_identity t (f t) \<and> pluginid (f t) = pluginid t"
  shows "books p i h (heap w2)"
  using assms books_upd [of p i h "heap w1"] by (auto simp: upd_world_task_eq_Some)

lemma rm_schedule_books:
  assumes "rm_task_schedule plg p w = Some (plg', w')"
  shows "books p (plg_id plg) (heap w) (heap w')"
proof -
  from assms obtain c wa w1 new this2 w2 t w3 w4 where wa: "upd_world_task w p (\<lambda>t. rtf_task_set_cpu t c) = Some wa"
    and w1: "upd_world_task wa p (\<lambda>t. t\<lparr>pluginid := plg_id plg\<rparr>) = Some w1"
    and w2: "rm_insert_priority this2 (unat c) p new w1 = Some w2"
    and w3: "upd_world_task w2 p (\<lambda>t. t\<lparr>acceptedt := rtf_task_get_runtime t\<rparr>) = Some w3"
    and w4: "upd_world_task w3 p (\<lambda>t'. t'\<lparr>acceptedu := (if rtf_task_get_util t \<noteq> - 1 then rtf_task_get_util t else 0)\<rparr>) = Some w4"
    and w': "w' = w4"
    unfolding rm_task_schedule_def bind_eq_Some Let_def case_prod_beta
    by (elim exE conjE) (rule that, assumption+, simp)
  have "books p (plg_id plg) (heap w) (heap w1)"
    using wa w1 by (auto simp: upd_world_task_eq_Some same_identity_def rtf_task_set_cpu_def intro!: books_start)
  then have "books p (plg_id plg) (heap w) (heap w2)" using rm_insert_agree [OF w2] by (rule books_agree)
  from books_upd_world [OF books_upd_world [OF this w3] w4] show ?thesis
    unfolding w' by (simp add: same_identity_def)
qed

lemma schedule_books:
  "rtf_plg_task_schedule os plg p w = Some (plg', w') \<Longrightarrow> books p (plg_id plg) (heap w) (heap w')"
  by (cases "dl_ptr plg") (simp_all add: rtf_plg_task_schedule_def fp_schedule_books edf_schedule_books
      rr_schedule_books rm_schedule_books)

text \<open>The test of a change keeps the counters of the plugin.\<close>

lemma change_plugin:
  assumes "rtf_plg_task_change plg t = Some (r, plg')"
  shows "\<exists>us. plg' = plg\<lparr>util_free_percpu := us\<rparr>"
proof -
  have self: "\<exists>us. this = this\<lparr>util_free_percpu := us\<rparr>" for this :: rtf_plugin
    by (rule exI [of _ "util_free_percpu this"]) simp
  have step: "\<exists>us. this' = this\<lparr>util_free_percpu := us\<rparr>"
    if "(if b then add_util_free this c f else Some this) = Some this'" for b c f and this this' :: rtf_plugin
    using that self [of this] by (cases b) (auto simp: add_util_free_def bind_eq_Some)
  have two: "\<exists>us. this2 = this\<lparr>util_free_percpu := us\<rparr>"
    if "(if b then add_util_free this c f else Some this) = Some this1"
      and "(if b' then add_util_free this1 c' f' else Some this1) = Some this2"
    for b c f b' c' f' and this this1 this2 :: rtf_plugin
    using step [OF that(1)] step [OF that(2)] by auto
  show ?thesis
  proof (cases "dl_ptr plg")
    case SCHED_EDF_so
    with assms have "edf_task_change plg t = Some (r, plg')" by (simp add: rtf_plg_task_change_def)
    then show ?thesis
      unfolding edf_task_change_def bind_eq_Some by (elim exE conjE) (drule (1) two, simp)
  next
    case SCHED_RM_so
    with assms have "rm_task_change plg t = Some (r, plg')" by (simp add: rtf_plg_task_change_def)
    then show ?thesis
      unfolding rm_task_change_def bind_eq_Some by (elim exE conjE) (drule (1) two, simp)
  qed (use assms self [of plg] in \<open>auto simp: rtf_plg_task_change_def\<close>)
qed

end
