(* ===== verification/Scheduler.thy ===== *)
theory Scheduler
  imports Plugins
begin

text \<open>
  The scheduler, \<open>daemon/retif_scheduler.c\<close>: it asks the plugins in turn whether they accept a task
  and hands the task to the first that does.

  The scheduler record and the world (the task store, the kernel, the counters of the plugin
  libraries) are passed along.  The array of results is as long as the plugin array; its
  allocation is taken to succeed.
\<close>

record rtf_scheduler =
  num_of_cpu :: int
  num_of_plugins :: int
  last_task_id :: int
  taskset :: rtf_taskset
  plugin :: "rtf_plugin list"

type_synonym 'k sched_state = "rtf_scheduler \<times> 'k world"

definition CLK :: int where "CLK = 1"

subsection \<open>Testing\<close>

text \<open>The first loop of \<open>test_and_assign\<close>: the index of the plugin that answered \<open>RTF_OK\<close>, if any,
  and the answers so far.\<close>

fun accept_loop ::
  "rtf_scheduler \<Rightarrow> rtf_task \<Rightarrow> nat list \<Rightarrow> int list \<Rightarrow> (nat option \<times> int list) option" where
  "accept_loop s t [] results = Some (None, results)"
| "accept_loop s t (i # is) results = do {
     plg \<leftarrow> aget (plugin s) i;
     r \<leftarrow> rtf_plg_task_accept plg t;
     results \<leftarrow> aset results i r;
     if r = RTF_OK then Some (Some i, results) else accept_loop s t is results
   }"

text \<open>The second loop: the first plugin that answered \<open>RTF_PARTIAL\<close>.\<close>

fun partial_loop :: "nat list \<Rightarrow> int list \<Rightarrow> nat option option" where
  "partial_loop [] results = Some None"
| "partial_loop (i # is) results = do {
     r \<leftarrow> aget results i;
     if r = RTF_PARTIAL then Some (Some i) else partial_loop is results
   }"

definition schedule_on :: "'k kernel \<Rightarrow> nat \<Rightarrow> task_ptr \<Rightarrow> 'k sched_state \<Rightarrow> 'k sched_state option" where
  "schedule_on os i p = (\<lambda>(s, w). do {
     plg \<leftarrow> aget (plugin s) i;
     (plg, w) \<leftarrow> rtf_plg_task_schedule os plg p w;
     Some (s\<lparr>plugin := (plugin s)[i := plg]\<rparr>, w)
   })"

definition release_on ::
  "'k kernel \<Rightarrow> int \<Rightarrow> task_ptr \<Rightarrow> 'k sched_state \<Rightarrow> 'k sched_state option" where
  "release_on os i p = (\<lambda>(s, w). do {
     plg \<leftarrow> iget (plugin s) i;
     (_, plg, w) \<leftarrow> rtf_plg_task_release os plg p w;
     Some (s\<lparr>plugin := (plugin s)[nat i := plg]\<rparr>, w)
   })"

definition rtf_scheduler_test_and_assign ::
  "'k kernel \<Rightarrow> task_ptr \<Rightarrow> 'k sched_state \<Rightarrow> (int \<times> 'k sched_state) option" where
  "rtf_scheduler_test_and_assign os p = (\<lambda>(s, w). do {
     t \<leftarrow> heap w p;
     let ids = [0..<nat (num_of_plugins s)];
     (ok, results) \<leftarrow> accept_loop s t ids (replicate (nat (num_of_plugins s)) 0);
     case ok of
       Some i \<Rightarrow> do {
         let s = s\<lparr>taskset := rtf_taskset_add_top (taskset s) p\<rparr>;
         sw \<leftarrow> schedule_on os i p (s, w);
         Some (RTF_OK, sw)
       }
     | None \<Rightarrow> do {
         part \<leftarrow> partial_loop ids results;
         case part of
           Some i \<Rightarrow> do {
             let s = s\<lparr>taskset := rtf_taskset_add_top (taskset s) p\<rparr>;
             sw \<leftarrow> schedule_on os i p (s, w);
             Some (RTF_PARTIAL, sw)
           }
         | None \<Rightarrow> Some (RTF_NO, s, w)
       }
   })"

text \<open>The first loop of \<open>test_and_modify\<close>: a change test may round the plugin's utilisations.\<close>

fun change_loop ::
  "rtf_task \<Rightarrow> nat list \<Rightarrow> int list \<Rightarrow> rtf_scheduler \<Rightarrow> (nat option \<times> int list \<times> rtf_scheduler) option" where
  "change_loop t [] results s = Some (None, results, s)"
| "change_loop t (i # is) results s = do {
     plg \<leftarrow> aget (plugin s) i;
     (r, plg) \<leftarrow> rtf_plg_task_change plg t;
     let s = s\<lparr>plugin := (plugin s)[i := plg]\<rparr>;
     results \<leftarrow> aset results i r;
     if r = RTF_OK then Some (Some i, results, s) else change_loop t is results s
   }"

definition rtf_scheduler_test_and_modify ::
  "'k kernel \<Rightarrow> task_ptr \<Rightarrow> 'k sched_state \<Rightarrow> (int \<times> 'k sched_state) option" where
  "rtf_scheduler_test_and_modify os p = (\<lambda>(s, w). do {
     t \<leftarrow> heap w p;
     let ids = [0..<nat (num_of_plugins s)];
     (ok, results, s) \<leftarrow> change_loop t ids (replicate (nat (num_of_plugins s)) 0) s;
     case ok of
       Some i \<Rightarrow> do {
         sw \<leftarrow> release_on os (int i) p (s, w);
         sw \<leftarrow> schedule_on os i p sw;
         Some (RTF_OK, sw)
       }
     | None \<Rightarrow> do {
         part \<leftarrow> partial_loop ids results;
         case part of
           Some i \<Rightarrow> do {
             sw \<leftarrow> release_on os (int i) p (s, w);
             sw \<leftarrow> schedule_on os i p sw;
             Some (RTF_PARTIAL, sw)
           }
         | None \<Rightarrow> Some (RTF_NO, s, w)
       }
   })"

subsection \<open>Public operations\<close>

lemma ts_remove_by_ppid_shorter:
  "rtf_taskset_remove_by_ppid h ts ppid = Some (Some p, ts') \<Longrightarrow>
   length (list_root ts') < length (list_root ts)"
  by (auto simp: rtf_taskset_remove_by_ppid_def dest: list_remove_shorter)

lemma release_on_taskset: "release_on os i p (s, w) = Some (s', w') \<Longrightarrow> taskset s' = taskset s"
  by (auto simp: release_on_def bind_eq_Some)

text \<open>The loop ends because every round takes a task from the task set.\<close>

function rtf_scheduler_delete :: "'k kernel \<Rightarrow> int \<Rightarrow> 'k sched_state \<Rightarrow> 'k sched_state option" where
  "rtf_scheduler_delete os ppid (s, w) = do {
     (t, ts) \<leftarrow> rtf_taskset_remove_by_ppid (heap w) (taskset s) ppid;
     let s = s\<lparr>taskset := ts\<rparr>;
     case t of
       None \<Rightarrow> Some (s, w)
     | Some p \<Rightarrow> do {
         t \<leftarrow> heap w p;
         (s, w) \<leftarrow> release_on os (pluginid t) p (s, w);
         let w = w\<lparr>heap := rtf_task_release (heap w) p\<rparr>;
         rtf_scheduler_delete os ppid (s, w)
       }
   }"
  by pat_completeness auto
termination
  by (relation "measure (\<lambda>(os, ppid, s, w). length (list_root (taskset s)))")
     (auto simp: release_on_taskset dest: ts_remove_by_ppid_shorter)

declare rtf_scheduler_delete.simps [simp del]

definition rtf_scheduler_task_create ::
  "'k kernel \<Rightarrow> rtf_params \<Rightarrow> int \<Rightarrow> 'k sched_state \<Rightarrow> (int \<times> 'k sched_state) option" where
  "rtf_scheduler_task_create os tp ppid = (\<lambda>(s, w). do {
     let (_, t, h) = rtf_task_init (heap w) (sys_calloc os (heap w)) 0 CLK;
     p \<leftarrow> t;
     let w = w\<lparr>heap := h\<rparr>;
     let s = s\<lparr>last_task_id := last_task_id s + 1\<rparr>;
     w \<leftarrow> upd_world_task w p (\<lambda>t. t\<lparr>t_id := u32_of_int (last_task_id s)\<rparr>);
     w \<leftarrow> upd_world_task w p (\<lambda>t. t\<lparr>ptid := ppid\<rparr>);
     w \<leftarrow> upd_world_task w p (\<lambda>t. t\<lparr>pluginid := - 1\<rparr>);
     w \<leftarrow> upd_world_task w p (\<lambda>t. t\<lparr>params := tp\<rparr>);
     rtf_scheduler_test_and_assign os p (s, w)
   })"

definition rtf_scheduler_task_change ::
  "'k kernel \<Rightarrow> rtf_params \<Rightarrow> u32 \<Rightarrow> 'k sched_state \<Rightarrow> (int \<times> 'k sched_state) option" where
  "rtf_scheduler_task_change os tp rtf_id = (\<lambda>(s, w). do {
     t \<leftarrow> rtf_taskset_search (heap w) (taskset s) rtf_id;
     case t of
       None \<Rightarrow> Some (RTF_ERROR, s, w)
     | Some p \<Rightarrow> rtf_scheduler_test_and_modify os p (s, w)
   })"

definition rtf_scheduler_task_attach ::
  "'k kernel \<Rightarrow> u32 \<Rightarrow> int \<Rightarrow> 'k sched_state \<Rightarrow> (int \<times> 'k sched_state) option" where
  "rtf_scheduler_task_attach os rtf_id pid = (\<lambda>(s, w). do {
     t \<leftarrow> rtf_taskset_search (heap w) (taskset s) rtf_id;
     case t of
       None \<Rightarrow> Some (RTF_ERROR, s, w)
     | Some p \<Rightarrow> do {
         w \<leftarrow> upd_world_task w p (\<lambda>t. t\<lparr>tid := pid\<rparr>);
         t \<leftarrow> heap w p;
         plg \<leftarrow> iget (plugin s) (pluginid t);
         (r, w) \<leftarrow> rtf_plg_task_attach os plg p w;
         Some (r, s, w)
       }
   })"

definition rtf_scheduler_task_detach ::
  "'k kernel \<Rightarrow> u32 \<Rightarrow> 'k sched_state \<Rightarrow> (int \<times> 'k sched_state) option" where
  "rtf_scheduler_task_detach os rtf_id = (\<lambda>(s, w). do {
     t \<leftarrow> rtf_taskset_search (heap w) (taskset s) rtf_id;
     case t of
       None \<Rightarrow> Some (RTF_ERROR, s, w)
     | Some p \<Rightarrow> do {
         t \<leftarrow> heap w p;
         plg \<leftarrow> iget (plugin s) (pluginid t);
         (r, w) \<leftarrow> rtf_plg_task_detach os plg p w;
         Some (r, s, w)
       }
   })"

definition rtf_scheduler_task_destroy ::
  "'k kernel \<Rightarrow> u32 \<Rightarrow> 'k sched_state \<Rightarrow> (int \<times> 'k sched_state) option" where
  "rtf_scheduler_task_destroy os rtf_id = (\<lambda>(s, w). do {
     (t, ts) \<leftarrow> rtf_taskset_remove_by_rsvid (heap w) (taskset s) rtf_id;
     let s = s\<lparr>taskset := ts\<rparr>;
     case t of
       None \<Rightarrow> Some (RTF_ERROR, s, w)
     | Some p \<Rightarrow> do {
         t \<leftarrow> heap w p;
         (s, w) \<leftarrow> release_on os (pluginid t) p (s, w);
         Some (RTF_OK, s, w\<lparr>heap := rtf_task_release (heap w) p\<rparr>)
       }
   })"

end
