(* ===== verification/TimeUtils.thy ===== *)
theory TimeUtils
  imports CFloat
begin

text \<open>
  Time arithmetic and small files, \<open>daemon/retif_utils.c\<close>.

  The fields of a \<open>struct timespec\<close> are \<open>long\<close>; they are integers here, with the conversion to
  64 bits written where the code stores a sum.  The clock and the files under \<open>/proc\<close> are
  parameters.
\<close>

record timespec =
  tv_sec :: int
  tv_nsec :: int

definition EXP3 :: int where "EXP3 = 1000"
definition EXP6 :: int where "EXP6 = 1000000"
definition EXP9 :: int where "EXP9 = 1000000000"

lemmas exp_defs = EXP3_def EXP6_def EXP9_def

definition s64 :: "int \<Rightarrow> int" where
  "s64 i = sint (word_of_int i :: u64)"

lemma s64_id: "- (2 ^ 63) \<le> i \<Longrightarrow> i < 2 ^ 63 \<Longrightarrow> s64 i = i"
  by (simp add: s64_def sint_sbintrunc' signed_take_bit_int_eq_self)

text \<open>C's division truncates towards zero.\<close>

definition cdiv :: "int \<Rightarrow> int \<Rightarrow> int" where
  "cdiv a b = sgn a * sgn b * (\<bar>a\<bar> div \<bar>b\<bar>)"

lemma cdiv_nonneg [simp]: "0 \<le> a \<Longrightarrow> 0 < b \<Longrightarrow> cdiv a b = a div b"
  by (cases "a = 0") (simp_all add: cdiv_def)

subsection \<open>Adding to a time\<close>

definition carry_nsec :: "timespec \<Rightarrow> timespec" where
  "carry_nsec t = (if tv_nsec t > EXP9
     then \<lparr>tv_sec = s64 (tv_sec t + 1), tv_nsec = tv_nsec t - EXP9\<rparr> else t)"

definition time_add_us :: "timespec \<Rightarrow> u64 \<Rightarrow> timespec" where
  "time_add_us t us = carry_nsec
     \<lparr>tv_sec = s64 (tv_sec t + uint us div EXP6),
      tv_nsec = s64 (tv_nsec t + uint us mod EXP6 * EXP3)\<rparr>"

definition time_add_ms :: "timespec \<Rightarrow> u32 \<Rightarrow> timespec" where
  "time_add_ms t ms = carry_nsec
     \<lparr>tv_sec = s64 (tv_sec t + uint ms div EXP3),
      tv_nsec = s64 (tv_nsec t + uint ms mod EXP3 * EXP6)\<rparr>"

definition time_cmp :: "timespec \<Rightarrow> timespec \<Rightarrow> int" where
  "time_cmp t1 t2 =
     (if tv_sec t1 > tv_sec t2 then 1
      else if tv_sec t1 < tv_sec t2 then - 1
      else if tv_nsec t1 > tv_nsec t2 then 1
      else if tv_nsec t1 < tv_nsec t2 then - 1
      else 0)"

definition time_copy :: "timespec \<Rightarrow> timespec" where
  "time_copy ts = \<lparr>tv_sec = tv_sec ts, tv_nsec = tv_nsec ts\<rparr>"

subsection \<open>Conversions\<close>

definition timespec_to_us :: "timespec \<Rightarrow> u64" where
  "timespec_to_us t = word_of_int (tv_sec t * EXP6) + word_of_int (cdiv (tv_nsec t) EXP3)"

definition us_to_timespec :: "u64 \<Rightarrow> timespec" where
  "us_to_timespec us = \<lparr>tv_sec = uint us div EXP6, tv_nsec = uint us mod EXP6 * EXP3\<rparr>"

definition timespec_to_ms :: "timespec \<Rightarrow> u32" where
  "timespec_to_ms t = word_of_int (tv_sec t * EXP3) + word_of_int (cdiv (tv_nsec t) EXP6)"

definition ms_to_timespec :: "u32 \<Rightarrow> timespec" where
  "ms_to_timespec ms = \<lparr>tv_sec = uint ms div EXP3, tv_nsec = uint ms mod EXP3 * EXP6\<rparr>"

definition get_time_now :: "(int \<Rightarrow> timespec) \<Rightarrow> int \<Rightarrow> timespec" where
  "get_time_now clock clkid = clock clkid"

definition get_time_now2 :: "(int \<Rightarrow> timespec) \<Rightarrow> int \<Rightarrow> timespec" where
  "get_time_now2 clock clkid = clock clkid"

definition get_time_now_ms :: "(int \<Rightarrow> timespec) \<Rightarrow> int \<Rightarrow> u32" where
  "get_time_now_ms clock clkid = timespec_to_ms (clock clkid)"

definition CLOCK_THREAD_CPUTIME_ID :: int where "CLOCK_THREAD_CPUTIME_ID = 3"

definition get_thread_time :: "(int \<Rightarrow> timespec) \<Rightarrow> timespec" where
  "get_thread_time clock = clock CLOCK_THREAD_CPUTIME_ID"

definition get_thread_time_ms :: "(int \<Rightarrow> timespec) \<Rightarrow> u32" where
  "get_thread_time_ms clock = timespec_to_ms (clock CLOCK_THREAD_CPUTIME_ID)"

text \<open>The time the thread sleeps until.\<close>

definition wait_next_activation :: "timespec \<Rightarrow> u32 \<Rightarrow> timespec" where
  "wait_next_activation t_act period_milli = time_add_ms t_act period_milli"

text \<open>
  Burning processor time.  \<open>clk n\<close> is the \<open>n\<close>-th reading of the clock of the thread, and the state is the number of
  readings taken; the loop need not end.  A bound of 0 divides by zero.
\<close>

partial_function (option) busy_until :: "(nat \<Rightarrow> timespec) \<Rightarrow> timespec \<Rightarrow> nat \<Rightarrow> nat option" where
  "busy_until clk t_end n = (if time_cmp (clk n) t_end > 0 then Some (n + 1) else busy_until clk t_end (n + 1))"

definition compute_for :: "(nat \<Rightarrow> timespec) \<Rightarrow> u32 \<Rightarrow> u32 \<Rightarrow> nat \<Rightarrow> nat option" where
  "compute_for clk rnd exec_milli_max n =
     (if exec_milli_max = 0 then None
      else busy_until clk (time_add_ms (clk n) (rnd mod exec_milli_max)) (n + 1))"

text \<open>The timer's interval in microseconds; its first expiry is never set and keeps what the stack held.\<close>

record itimerval =
  it_interval_usec :: int
  it_value :: timespec

definition set_timer :: "timespec \<Rightarrow> u32 \<Rightarrow> itimerval" where
  "set_timer stack milli = \<lparr>it_interval_usec = uint (milli * 1000), it_value = stack\<rparr>"

subsection \<open>Numbers in files\<close>

text \<open>\<open>fs_scan\<close> opens a file and scans a number: \<open>None\<close> when it cannot be opened, \<open>Some None\<close>
  when it holds no number.  \<open>fs_print\<close> opens for writing and prints: the number of characters
  printed, and the files.\<close>

record 'f files =
  fs_scan :: "'f \<Rightarrow> string \<Rightarrow> int option option"
  fs_print :: "'f \<Rightarrow> string \<Rightarrow> int \<Rightarrow> (int \<times> 'f) option"

text \<open>The result and the value read, if any.\<close>

definition file_read_long :: "'f files \<Rightarrow> 'f \<Rightarrow> string \<Rightarrow> int \<times> int option" where
  "file_read_long io fs path =
     (case fs_scan io fs path of
        None \<Rightarrow> (- 1, None)
      | Some None \<Rightarrow> (1, None)
      | Some (Some v) \<Rightarrow> (0, Some v))"

definition file_write_long :: "'f files \<Rightarrow> 'f \<Rightarrow> string \<Rightarrow> int \<Rightarrow> int \<times> 'f" where
  "file_write_long io fs path v =
     (case fs_print io fs path v of
        None \<Rightarrow> (- 1, fs)
      | Some (res, fs) \<Rightarrow> (if res > 0 then 0 else 1, fs))"

subsection \<open>Correctness\<close>

definition nsec_total :: "timespec \<Rightarrow> int" where
  "nsec_total t = tv_sec t * EXP9 + tv_nsec t"

lemma carry_nsec_sum:
  assumes "0 \<le> sec" and "sec < 2 ^ 60" and "0 \<le> n" and "n < EXP9"
    and "0 \<le> q" and "q < 2 ^ 60" and "0 \<le> r" and "r < EXP9"
  shows "nsec_total (carry_nsec \<lparr>tv_sec = s64 (sec + q), tv_nsec = s64 (n + r)\<rparr>) = (sec + q) * EXP9 + n + r
    \<and> 0 \<le> tv_nsec (carry_nsec \<lparr>tv_sec = s64 (sec + q), tv_nsec = s64 (n + r)\<rparr>)
    \<and> tv_nsec (carry_nsec \<lparr>tv_sec = s64 (sec + q), tv_nsec = s64 (n + r)\<rparr>) \<le> EXP9
    \<and> (tv_nsec (carry_nsec \<lparr>tv_sec = s64 (sec + q), tv_nsec = s64 (n + r)\<rparr>) = EXP9 \<longleftrightarrow> n + r = EXP9)"
proof -
  have "s64 (sec + q) = sec + q" "s64 (sec + q + 1) = sec + q + 1" "s64 (n + r) = n + r"
    using assms by (simp_all add: s64_id exp_defs)
  then show ?thesis
    using assms by (auto simp: carry_nsec_def nsec_total_def exp_defs)
qed

text \<open>C37: Adding microseconds or milliseconds to a normal time (nanoseconds from 0 to 999999999)
  adds exactly that many nanoseconds to it.  The nanoseconds of the result are at most 10^9, and
  they are normal unless they are exactly 10^9: the comparison with 10^9 is strict, so a sum of
  exactly one second is not carried.\<close>

theorem time_add_correct:
  assumes "0 \<le> tv_sec t" and "tv_sec t < 2 ^ 60" and "0 \<le> tv_nsec t" and "tv_nsec t < EXP9"
  shows "nsec_total (time_add_us t us) = nsec_total t + uint us * EXP3
    \<and> nsec_total (time_add_ms t ms) = nsec_total t + uint ms * EXP6
    \<and> 0 \<le> tv_nsec (time_add_us t us) \<and> tv_nsec (time_add_us t us) \<le> EXP9
    \<and> 0 \<le> tv_nsec (time_add_ms t ms) \<and> tv_nsec (time_add_ms t ms) \<le> EXP9
    \<and> (tv_nsec (time_add_us t us) = EXP9 \<longleftrightarrow> tv_nsec t + uint us mod EXP6 * EXP3 = EXP9)
    \<and> (tv_nsec (time_add_ms t ms) = EXP9 \<longleftrightarrow> tv_nsec t + uint ms mod EXP3 * EXP6 = EXP9)"
proof -
  have us: "uint us < 2 ^ 64" and ms: "uint ms < 2 ^ 32"
    using uint_bounded [of us] uint_bounded [of ms] by simp_all
  have d: "0 \<le> uint us div EXP6" "uint us div EXP6 < 2 ^ 60"
      "0 \<le> uint ms div EXP3" "uint ms div EXP3 < 2 ^ 60"
      "0 \<le> uint us mod EXP6 * EXP3" "uint us mod EXP6 * EXP3 < EXP9"
      "0 \<le> uint ms mod EXP3 * EXP6" "uint ms mod EXP3 * EXP6 < EXP9"
    using us ms by (simp_all add: exp_defs pos_imp_zdiv_nonneg_iff)
  have q: "uint us * EXP3 = uint us div EXP6 * EXP9 + uint us mod EXP6 * EXP3"
      "uint ms * EXP6 = uint ms div EXP3 * EXP9 + uint ms mod EXP3 * EXP6"
    unfolding exp_defs by presburger+
  show ?thesis
    using carry_nsec_sum [OF assms d(1,2,5,6)] carry_nsec_sum [OF assms d(3,4,7,8)]
    unfolding time_add_us_def time_add_ms_def q by (simp add: nsec_total_def algebra_simps)
qed

theorem time_add_correct_witness:
  "tv_nsec (time_add_us \<lparr>tv_sec = 1, tv_nsec = 999999000\<rparr> 1) = 1000000000"
  using time_add_correct [of "\<lparr>tv_sec = 1, tv_nsec = 999999000\<rparr>" 1 0] by (simp add: exp_defs)

text \<open>A 64-bit number of microseconds and a 32-bit number of milliseconds survive the conversion
  to a \<open>timespec\<close> and back, and the \<open>timespec\<close> is normal.\<close>

theorem timespec_roundtrip:
  "timespec_to_us (us_to_timespec us) = us \<and> timespec_to_ms (ms_to_timespec ms) = ms
   \<and> 0 \<le> tv_nsec (us_to_timespec us) \<and> tv_nsec (us_to_timespec us) < EXP9
   \<and> 0 \<le> tv_nsec (ms_to_timespec ms) \<and> tv_nsec (ms_to_timespec ms) < EXP9"
proof -
  have b: "0 \<le> uint us mod EXP6" "uint us mod EXP6 < EXP6" "0 \<le> uint ms mod EXP3" "uint ms mod EXP3 < EXP3"
    by (simp_all add: exp_defs)
  have "cdiv (uint us mod EXP6 * EXP3) EXP3 = uint us mod EXP6"
      "cdiv (uint ms mod EXP3 * EXP6) EXP6 = uint ms mod EXP3"
    using b by (simp_all add: exp_defs)
  then have "timespec_to_us (us_to_timespec us) = of_int (uint us div EXP6 * EXP6 + uint us mod EXP6)"
      "timespec_to_ms (ms_to_timespec ms) = of_int (uint ms div EXP3 * EXP3 + uint ms mod EXP3)"
    by (simp_all only: timespec_to_us_def us_to_timespec_def timespec_to_ms_def ms_to_timespec_def
        timespec.simps of_int_add)
  then show ?thesis
    using b unfolding div_mult_mod_eq word_of_int_uint
    by (simp add: us_to_timespec_def ms_to_timespec_def exp_defs)
qed

lemma busy_until_returns:
  assumes "time_cmp (clk m) t_end > 0" and "n \<le> m" and "\<forall>k. n \<le> k \<longrightarrow> k < m \<longrightarrow> \<not> time_cmp (clk k) t_end > 0"
  shows "busy_until clk t_end n = Some (m + 1)"
  using assms(2,3)
proof (induction "m - n" arbitrary: n)
  case 0
  then have "n = m" by simp
  then show ?case using assms(1) by (subst busy_until.simps) simp
next
  case (Suc d)
  then have "n < m" by simp
  then have "busy_until clk t_end (n + 1) = Some (m + 1)" using Suc.prems Suc.hyps(2) by (intro Suc.hyps(1)) auto
  then show ?case using Suc.prems(2) \<open>n < m\<close> by (subst busy_until.simps) simp
qed

lemma busy_until_sound:
  assumes "busy_until clk t_end n = Some m"
  shows "n < m \<and> time_cmp (clk (m - 1)) t_end > 0 \<and> (\<forall>k. n \<le> k \<longrightarrow> k < m - 1 \<longrightarrow> \<not> time_cmp (clk k) t_end > 0)"
proof (rule busy_until.raw_induct [OF _ assms])
  fix loop clk t_end and n m :: nat
  assume IH: "\<And>clk t_end n m. loop clk t_end n = Some m \<Longrightarrow>
      n < m \<and> time_cmp (clk (m - 1)) t_end > 0 \<and> (\<forall>k. n \<le> k \<longrightarrow> k < m - 1 \<longrightarrow> \<not> time_cmp (clk k) t_end > 0)"
    and body: "(if 0 < time_cmp (clk n) t_end then Some (n + 1) else loop clk t_end (n + 1)) = Some m"
  show "n < m \<and> time_cmp (clk (m - 1)) t_end > 0 \<and> (\<forall>k. n \<le> k \<longrightarrow> k < m - 1 \<longrightarrow> \<not> time_cmp (clk k) t_end > 0)"
  proof (cases "time_cmp (clk n) t_end > 0")
    case True
    then show ?thesis using body by auto
  next
    case False
    then have R: "n + 1 < m \<and> time_cmp (clk (m - 1)) t_end > 0 \<and> (\<forall>k. n + 1 \<le> k \<longrightarrow> k < m - 1 \<longrightarrow> \<not> time_cmp (clk k) t_end > 0)"
      using body by (intro IH) simp
    have "k = n \<or> n + 1 \<le> k" if "n \<le> k" for k using that by linarith
    with R False show ?thesis by (metis add_lessD1)
  qed
qed

lemma busy_until_iff:
  "busy_until clk t_end n = Some m \<longleftrightarrow>
     n < m \<and> time_cmp (clk (m - 1)) t_end > 0 \<and> (\<forall>k. n \<le> k \<longrightarrow> k < m - 1 \<longrightarrow> \<not> time_cmp (clk k) t_end > 0)"
    (is "_ \<longleftrightarrow> ?R")
proof
  assume "busy_until clk t_end n = Some m"
  then show ?R by (rule busy_until_sound)
next
  assume R: ?R
  then have "busy_until clk t_end n = Some (m - 1 + 1)" by (intro busy_until_returns) auto
  then show "busy_until clk t_end n = Some m" using R by simp
qed

text \<open>The busy wait ends exactly when the clock gets past the end: it returns after the first reading that is
  later than the first reading plus the drawn number of milliseconds, which is below the bound, and if no reading ever is,
  it does not return.\<close>

theorem compute_for_correct:
  assumes "exec_milli_max \<noteq> 0"
  shows "(compute_for clk rnd exec_milli_max n = Some m \<longleftrightarrow>
      (let t_end = time_add_ms (clk n) (rnd mod exec_milli_max)
       in n + 1 < m \<and> time_cmp (clk (m - 1)) t_end > 0 \<and> (\<forall>k. n < k \<longrightarrow> k < m - 1 \<longrightarrow> \<not> time_cmp (clk k) t_end > 0))) \<and>
    uint (rnd mod exec_milli_max) < uint exec_milli_max"
proof -
  let ?t = "time_add_ms (clk n) (rnd mod exec_milli_max)"
  have "0 < exec_milli_max" using assms by (simp add: word_neq_0_conv)
  then have "rnd mod exec_milli_max < exec_milli_max" by (rule word_mod_less_divisor)
  then have b: "uint (rnd mod exec_milli_max) < uint exec_milli_max" by (simp add: word_less_def)
  have "compute_for clk rnd exec_milli_max n = Some m \<longleftrightarrow>
      n + 1 < m \<and> time_cmp (clk (m - 1)) ?t > 0 \<and> (\<forall>k. n + 1 \<le> k \<longrightarrow> k < m - 1 \<longrightarrow> \<not> time_cmp (clk k) ?t > 0)"
    using assms by (simp only: compute_for_def if_False busy_until_iff)
  moreover have "n + 1 \<le> k \<longleftrightarrow> n < k" for k by auto
  ultimately show ?thesis using b unfolding Let_def by simp
qed

lemma compute_for_correct_witness:
  "compute_for (\<lambda>n. \<lparr>tv_sec = int n, tv_nsec = 0\<rparr>) 7 5 0 = Some 2"
proof -
  have "time_cmp \<lparr>tv_sec = 1, tv_nsec = 0\<rparr> (time_add_ms \<lparr>tv_sec = 0, tv_nsec = 0\<rparr> (7 mod 5)) > 0" by code_simp
  then show ?thesis
    using compute_for_correct [of 5 "\<lambda>n. \<lparr>tv_sec = int n, tv_nsec = 0\<rparr>" 7 0 2] by (auto simp: Let_def)
qed

end
