(* ===== verification/Vector.thy ===== *)
theory Vector
  imports Prelude
begin

text \<open>
  Growable arrays, \<open>daemon/vector.c\<close> and the inline functions of \<open>daemon/vector.h\<close>.

  Addresses inside a vector are counted in elements.  The memory behind a vector has \<open>capacity\<close>
  cells; a cell that was never written is \<open>None\<close>.  \<open>reallocarray\<close> is a parameter that says
  whether a request for so many elements is granted; the cells it adds are unwritten.  Sizes are
  natural numbers below \<open>2 ^ 64\<close>, with the wrap-around of \<open>size_t\<close> written where the code relies
  on it.
\<close>

record 'a vector =
  capacity :: nat
  vsize :: nat
  vdata :: "'a option list"

definition SIZE_T :: nat where "SIZE_T = 2 ^ 64"

definition vector_initialize :: "'a vector" where
  "vector_initialize = \<lparr>capacity = 0, vsize = 0, vdata = []\<rparr>"

definition vector_realloc :: "(nat \<Rightarrow> bool) \<Rightarrow> 'a vector \<Rightarrow> nat \<Rightarrow> bool \<Rightarrow> int \<times> 'a vector" where
  "vector_realloc grant v new_cap can_erase =
     (if capacity v = new_cap then (0, v)
      else if \<not> can_erase \<and> vsize v > new_cap then (1, v)
      else if \<not> grant new_cap then (1, v)
      else (0, \<lparr>capacity = new_cap,
                vsize = (if vsize v > new_cap then new_cap else vsize v),
                vdata = take new_cap (vdata v) @ replicate (new_cap - length (vdata v)) None\<rparr>))"

definition vector_reserve :: "(nat \<Rightarrow> bool) \<Rightarrow> 'a vector \<Rightarrow> nat \<Rightarrow> int \<times> 'a vector" where
  "vector_reserve grant v new_cap =
     (if new_cap \<le> capacity v then (0, v)
      else let overalloc = capacity v * 2 mod SIZE_T
           in if new_cap < overalloc \<and> fst (vector_realloc grant v overalloc False) = 0
              then (0, snd (vector_realloc grant v overalloc False))
              else vector_realloc grant v new_cap False)"

definition vector_shrink_to_fit :: "(nat \<Rightarrow> bool) \<Rightarrow> 'a vector \<Rightarrow> int \<times> 'a vector" where
  "vector_shrink_to_fit grant v = vector_realloc grant v (vsize v) False"

text \<open>Copying a block of cells within or into the memory; leaving the memory is undefined.\<close>

definition write_cells :: "'a option list \<Rightarrow> nat \<Rightarrow> 'a option list \<Rightarrow> 'a option list option" where
  "write_cells mem dst cells =
     (if dst + length cells \<le> length mem
      then Some (take dst mem @ cells @ drop (dst + length cells) mem) else None)"

definition read_cells :: "'a option list \<Rightarrow> nat \<Rightarrow> nat \<Rightarrow> 'a option list option" where
  "read_cells mem src n = (if src + n \<le> length mem then Some (take n (drop src mem)) else None)"

text \<open>
  The cells between \<open>pos\<close> and the end are to be moved, but \<open>__vector_addr_diff\<close> is called with the
  end first: the number of cells to move is \<open>pos - size\<close>, as a \<open>size_t\<close>.
\<close>

definition vector_insert_multi ::
  "(nat \<Rightarrow> bool) \<Rightarrow> 'a vector \<Rightarrow> nat \<Rightarrow> 'a option list \<Rightarrow> (int \<times> 'a vector) option" where
  "vector_insert_multi grant v pos vals =
     (if vals = [] then Some (0, v)
      else if pos > vsize v then Some (1, v)
      else let des_size = (vsize v + length vals) mod SIZE_T
           in if des_size < vsize v then Some (1, v)
              else let (r, v) = vector_reserve grant v des_size
                   in if r \<noteq> 0 then Some (1, v)
                      else do {
                        let n = nat ((int pos - int (vsize v)) mod int SIZE_T);
                        moved \<leftarrow> read_cells (vdata v) pos n;
                        mem \<leftarrow> write_cells (vdata v) (pos + length vals) moved;
                        mem \<leftarrow> write_cells mem pos vals;
                        Some (0, v\<lparr>vdata := mem, vsize := des_size\<rparr>)
                      })"

definition vector_insert ::
  "(nat \<Rightarrow> bool) \<Rightarrow> 'a vector \<Rightarrow> nat \<Rightarrow> 'a \<Rightarrow> (int \<times> 'a vector) option" where
  "vector_insert grant v pos x = vector_insert_multi grant v pos [Some x]"

fun vector_insert_ncopies ::
  "(nat \<Rightarrow> bool) \<Rightarrow> 'a vector \<Rightarrow> nat \<Rightarrow> nat \<Rightarrow> 'a \<Rightarrow> (int \<times> 'a vector) option" where
  "vector_insert_ncopies grant v pos 0 x = Some (0, v)"
| "vector_insert_ncopies grant v pos (Suc n) x = do {
     (r, v) \<leftarrow> vector_insert grant v pos x;
     if r \<noteq> 0 then Some (r, v) else vector_insert_ncopies grant v pos n x
   }"

definition vector_erase_multi :: "'a vector \<Rightarrow> nat \<Rightarrow> nat \<Rightarrow> (int \<times> 'a vector) option" where
  "vector_erase_multi v fst_ix lst_ix =
     (if fst_ix = lst_ix then Some (0, v)
      else if fst_ix > lst_ix then Some (1, v)
      else if lst_ix > vsize v then Some (1, v)
      else do {
        moved \<leftarrow> read_cells (vdata v) lst_ix (vsize v - lst_ix);
        mem \<leftarrow> write_cells (vdata v) fst_ix moved;
        Some (0, v\<lparr>vdata := mem, vsize := vsize v - (lst_ix - fst_ix)\<rparr>)
      })"

definition vector_erase :: "'a vector \<Rightarrow> nat \<Rightarrow> (int \<times> 'a vector) option" where
  "vector_erase v pos = vector_erase_multi v pos (pos + 1)"

definition vector_at :: "'a vector \<Rightarrow> nat \<Rightarrow> 'a option" where
  "vector_at v i = do { cell \<leftarrow> aget (vdata v) i; cell }"

definition vector_back :: "'a vector \<Rightarrow> 'a option" where
  "vector_back v = (if vsize v = 0 then None else vector_at v (vsize v - 1))"

definition vector_pop_back :: "'a vector \<Rightarrow> (int \<times> 'a option \<times> 'a vector) option" where
  "vector_pop_back v =
     (if vsize v < 1 then Some (1, None, v)
      else do {
        x \<leftarrow> vector_back v;
        (r, v) \<leftarrow> vector_erase v (vsize v - 1);
        Some (r, Some x, v)
      })"

definition vector_push_back :: "(nat \<Rightarrow> bool) \<Rightarrow> 'a vector \<Rightarrow> 'a \<Rightarrow> (int \<times> 'a vector) option" where
  "vector_push_back grant v x = vector_insert grant v (vsize v) x"

text \<open>The simple accessors.  An iterator is the index of a cell; the end is the index behind the last element.\<close>

definition vector_front :: "'a vector \<Rightarrow> 'a option" where
  "vector_front v = vector_at v 0"

definition vector_begin :: nat where
  "vector_begin = 0"

definition vector_end :: "'a vector \<Rightarrow> nat" where
  "vector_end v = vsize v"

definition vector_data :: "'a vector \<Rightarrow> 'a option list" where
  "vector_data v = vdata v"

definition vector_empty :: "'a vector \<Rightarrow> bool" where
  "vector_empty v \<longleftrightarrow> vsize v < 1"

definition vector_size :: "'a vector \<Rightarrow> nat" where
  "vector_size v = vsize v"

definition vector_capacity :: "'a vector \<Rightarrow> nat" where
  "vector_capacity v = capacity v"

definition vector_swap :: "'a vector \<Rightarrow> 'a vector \<Rightarrow> 'a vector \<times> 'a vector" where
  "vector_swap v1 v2 = (v2, v1)"

text \<open>\<open>zero\<close> is the element whose bytes are all zero.\<close>

definition vector_resize ::
  "(nat \<Rightarrow> bool) \<Rightarrow> 'a \<Rightarrow> 'a vector \<Rightarrow> nat \<Rightarrow> (int \<times> 'a vector) option" where
  "vector_resize grant zero v des_size =
     (let (r, v) = vector_reserve grant v des_size
      in if r \<noteq> 0 then Some (1, v)
         else do {
           mem \<leftarrow> (if vsize v < des_size
                   then write_cells (vdata v) (vsize v) (replicate (des_size - vsize v) (Some zero))
                   else Some (vdata v));
           Some (0, v\<lparr>vdata := mem, vsize := des_size\<rparr>)
         })"

definition vector_clear :: "(nat \<Rightarrow> bool) \<Rightarrow> 'a \<Rightarrow> 'a vector \<Rightarrow> 'a vector option" where
  "vector_clear grant zero v = map_option snd (vector_resize grant zero v 0)"

subsection \<open>The list a vector stands for\<close>

definition vector_ok :: "'a vector \<Rightarrow> bool" where
  "vector_ok v \<longleftrightarrow> length (vdata v) = capacity v \<and> vsize v \<le> capacity v \<and> capacity v < SIZE_T
     \<and> (\<forall>c \<in> set (take (vsize v) (vdata v)). c \<noteq> None)"

definition elems :: "'a vector \<Rightarrow> 'a list" where
  "elems v = map the (take (vsize v) (vdata v))"

lemma vector_ok_initialize [simp]: "vector_ok vector_initialize" "elems vector_initialize = []"
  by (simp_all add: vector_ok_def vector_initialize_def elems_def SIZE_T_def)

lemma length_elems: "vector_ok v \<Longrightarrow> length (elems v) = vsize v"
  by (simp add: vector_ok_def elems_def)

lemma realloc_grow:
  assumes "vector_ok v" and "vector_realloc grant v n False = (r, v')" and "capacity v \<le> n" and "n < SIZE_T"
  shows "vector_ok v' \<and> elems v' = elems v \<and> vsize v' = vsize v \<and> (r = 0 \<longrightarrow> capacity v' = n)
    \<and> (r \<noteq> 0 \<longrightarrow> v' = v)"
  using assms by (auto simp: vector_realloc_def vector_ok_def elems_def split: if_splits)

lemma reserve_correct:
  assumes "vector_ok v" and "vector_reserve grant v n = (r, v')" and "n < SIZE_T"
  shows "vector_ok v' \<and> elems v' = elems v \<and> vsize v' = vsize v \<and> (r = 0 \<longrightarrow> n \<le> capacity v')
    \<and> (r \<noteq> 0 \<longrightarrow> v' = v)"
proof (cases "n \<le> capacity v")
  case True
  with assms show ?thesis by (simp add: vector_reserve_def)
next
  case False
  let ?o = "capacity v * 2 mod SIZE_T"
  show ?thesis
  proof (cases "n < ?o \<and> fst (vector_realloc grant v ?o False) = 0")
    case True
    then have v': "vector_realloc grant v ?o False = (0, v')" "r = 0"
      using assms(2) False by (auto simp: vector_reserve_def Let_def prod_eq_iff)
    have "?o < SIZE_T" by (simp add: SIZE_T_def)
    with realloc_grow [OF assms(1) v'(1)] True False v'(2) show ?thesis by simp
  next
    case no: False
    then have "vector_realloc grant v n False = (r, v')"
      using assms(2) False by (auto simp: vector_reserve_def Let_def)
    with realloc_grow [OF assms(1)] False assms(3) show ?thesis by fastforce
  qed
qed

text \<open>Appending to a well-formed vector appends to the list it stands for, or returns an error and
  leaves the vector as it was; it never leaves the memory of the vector.\<close>

theorem vector_push_back_appends:
  assumes "vector_ok v" and "vsize v + 1 < SIZE_T"
  shows "\<exists>r v'. vector_push_back grant v x = Some (r, v') \<and> vector_ok v'
    \<and> (r = 0 \<longrightarrow> elems v' = elems v @ [x]) \<and> (r \<noteq> 0 \<longrightarrow> r = 1 \<and> v' = v)
    \<and> ((\<forall>n. grant n) \<longrightarrow> r = 0)"
proof -
  obtain r v1 where rv: "vector_reserve grant v (vsize v + 1) = (r, v1)" by (meson surj_pair)
  note R = reserve_correct [OF assms(1) rv assms(2)]
  have g: "(\<forall>n. grant n) \<longrightarrow> r = 0"
    using rv assms(1) by (auto simp: vector_reserve_def vector_realloc_def vector_ok_def Let_def split: if_splits)
  show ?thesis
  proof (cases "r = 0")
    case False
    with R rv assms(2) g show ?thesis
      by (simp add: vector_push_back_def vector_insert_def vector_insert_multi_def assms(1))
  next
    case True
    then have v1: "vector_ok v1" "elems v1 = elems v" "vsize v1 = vsize v" "Suc (vsize v) \<le> capacity v1"
      using R by auto
    let ?n = "vsize v1"
    let ?mem = "take ?n (vdata v1) @ [Some x] @ drop (Suc ?n) (vdata v1)"
    let ?v' = "v1\<lparr>vdata := ?mem, vsize := Suc ?n\<rparr>"
    have n: "?n < length (vdata v1)" using v1 by (simp add: vector_ok_def)
    have id: "take ?n (vdata v1) @ drop ?n (vdata v1) = vdata v1" by simp
    have w: "read_cells (vdata v1) ?n 0 = Some []"
        "write_cells (vdata v1) (Suc ?n) [] = Some (vdata v1)"
        "write_cells (vdata v1) ?n [Some x] = Some ?mem"
      using n by (simp_all add: read_cells_def write_cells_def)
    have "vector_push_back grant v x = Some (0, ?v')"
      using rv True assms(2) w v1(3)
      by (simp add: vector_push_back_def vector_insert_def vector_insert_multi_def)
    moreover have "vector_ok ?v'"
      using v1 n by (auto simp: vector_ok_def)
    moreover have "elems ?v' = elems v @ [x]"
      using v1 n by (simp add: elems_def flip: v1(2))
    ultimately show ?thesis using g by auto
  qed
qed

theorem vector_push_back_appends_witness:
  "\<exists>v'. vector_push_back (\<lambda>_. True) vector_initialize (7 :: int) = Some (0, v') \<and> elems v' = [7]"
  using vector_push_back_appends [of vector_initialize "\<lambda>_. True" "7 :: int"]
  by (auto simp: vector_initialize_def SIZE_T_def vector_ok_def elems_def)

text \<open>Inserting anywhere but at the end of a vector is undefined: the number of cells to move is
  computed as \<open>pos - size\<close> instead of \<open>size - pos\<close>, wraps around and moves memory far beyond the
  vector.\<close>

theorem vector_insert_inside_undefined:
  assumes "vector_ok v" and "pos < vsize v" and "\<forall>n. grant n" and "2 * capacity v < SIZE_T - vsize v"
  shows "vector_insert grant v pos x = None"
proof -
  obtain r v1 where rv: "vector_reserve grant v (vsize v + 1) = (r, v1)" by (meson surj_pair)
  have c: "vsize v + 1 < SIZE_T" "vsize v + 1 \<le> capacity v * 2" "capacity v * 2 mod SIZE_T = capacity v * 2"
    using assms by (auto simp: vector_ok_def)
  have "r = 0 \<and> length (vdata v1) \<le> capacity v * 2 \<and> vsize v1 = vsize v"
    using rv assms(1,3) c
    by (auto simp: vector_reserve_def vector_realloc_def vector_ok_def Let_def split: if_splits)
  then have r: "r = 0" and len: "length (vdata v1) \<le> capacity v * 2" and s: "vsize v1 = vsize v"
    by simp_all
  let ?a = "int pos - int (vsize v)"
  have "?a mod int SIZE_T = (?a + int SIZE_T) mod int SIZE_T" by simp
  also have "\<dots> = ?a + int SIZE_T"
    using assms(2) c(1) by (intro mod_pos_pos_trivial) auto
  finally have "capacity v * 2 < nat (?a mod int SIZE_T)"
    using assms(2,4) by simp
  then have "read_cells (vdata v1) pos (nat (?a mod int SIZE_T)) = None"
    using len by (simp add: read_cells_def)
  then show ?thesis
    using rv r s c(1) assms(2) by (simp add: vector_insert_def vector_insert_multi_def)
qed

theorem vector_insert_inside_undefined_witness:
  "vector_insert (\<lambda>_. True) \<lparr>capacity = 2, vsize = 1, vdata = [Some 5, None]\<rparr> 0 (7 :: int) = None"
  by (rule vector_insert_inside_undefined) (simp_all add: vector_ok_def SIZE_T_def)

end
