(* ===== verification/Config.thy ===== *)
theory Config
  imports TimeUtils Vector
begin

text \<open>
  The configuration file, \<open>daemon/retif_config.c\<close>, and the YAML helpers of \<open>daemon/retif_yaml.h\<close>.

  libyaml is a parameter: it turns a path into a document, a tree of nodes.  A new list item is
  \<open>malloc\<close>ed, so the fields of a plugin are \<open>None\<close> until the file sets them; reading an unset
  field is undefined.  The vectors of the configuration are lists (\<open>vector_push_back\<close> appends as
  long as memory is granted).  \<open>errno\<close> is state: no function resets it before it calls \<open>strtol\<close> or
  \<open>strtod\<close>, so a parser state is the output and whether \<open>errno\<close> is set.
\<close>

datatype yaml_node =
    YAML_SCALAR string
  | YAML_SEQUENCE "yaml_node list"
  | YAML_MAPPING "(yaml_node \<times> yaml_node) list"

text \<open>A \<open>double\<close> that was read from the file; \<open>Infinite True\<close> is the negative infinity.\<close>

datatype c_double = Finite f64 | Infinite bool | NaN

fun double_less :: "c_double \<Rightarrow> f64 \<Rightarrow> bool" where
  "double_less (Finite x) y = (x < y)"
| "double_less (Infinite neg) y = neg"
| "double_less NaN y = False"

fun double_greater :: "c_double \<Rightarrow> f64 \<Rightarrow> bool" where
  "double_greater (Finite x) y = (x > y)"
| "double_greater (Infinite neg) y = (\<not> neg)"
| "double_greater NaN y = False"

record conf_system =
  rr_timeslice :: int
  sched_max_util :: c_double

record conf_plugin =
  cp_name :: "string option"
  cp_path :: "string option"
  cp_prio_min :: "int option"
  cp_prio_max :: "int option"
  cp_cores :: "int list option"

record configuration =
  csystem :: conf_system
  cplugins :: "conf_plugin list"

record proc_backup =
  bk_rr_timeslice :: int
  bk_rt_runtime :: int

definition zero_configuration :: configuration where
  "zero_configuration = \<lparr>csystem = \<lparr>rr_timeslice = 0, sched_max_util = Finite 0\<rparr>, cplugins = []\<rparr>"

definition fresh_plugin :: conf_plugin where
  "fresh_plugin = \<lparr>cp_name = None, cp_path = None, cp_prio_min = None, cp_prio_max = None, cp_cores = None\<rparr>"

subsection \<open>Kernel parameters\<close>

definition PROC_RT_PERIOD_FILE :: string where
  "PROC_RT_PERIOD_FILE = ''/proc/sys/kernel/sched_rt_period_us''"

definition PROC_RT_RUNTIME_FILE :: string where
  "PROC_RT_RUNTIME_FILE = ''/proc/sys/kernel/sched_rt_runtime_us''"

definition PROC_RR_TIMESLICE_FILE :: string where
  "PROC_RR_TIMESLICE_FILE = ''/proc/sys/kernel/sched_rr_timeslice_ms''"

definition set_rt_kernel_params :: "'f files \<Rightarrow> 'f \<Rightarrow> conf_system \<Rightarrow> int \<times> 'f" where
  "set_rt_kernel_params io fs c =
     (let (res, fs) = file_write_long io fs PROC_RR_TIMESLICE_FILE (rr_timeslice c)
      in if res \<noteq> 0 then (res, fs)
         else let (res, fs) = file_write_long io fs PROC_RT_RUNTIME_FILE (- 1)
              in if res \<noteq> 0 then (res, fs) else (0, fs))"

text \<open>A value that is read replaces the old one even when the next read fails.\<close>

definition save_rt_kernel_params :: "'f files \<Rightarrow> 'f \<Rightarrow> proc_backup \<Rightarrow> int \<times> proc_backup" where
  "save_rt_kernel_params io fs b =
     (let (res, v) = file_read_long io fs PROC_RR_TIMESLICE_FILE;
          b = (case v of None \<Rightarrow> b | Some x \<Rightarrow> b\<lparr>bk_rr_timeslice := x\<rparr>)
      in if res \<noteq> 0 then (res, b)
         else let (res, v) = file_read_long io fs PROC_RT_RUNTIME_FILE;
                  b = (case v of None \<Rightarrow> b | Some x \<Rightarrow> b\<lparr>bk_rt_runtime := x\<rparr>)
              in if res \<noteq> 0 then (res, b) else (0, b))"

definition restore_rt_kernel_params :: "'f files \<Rightarrow> 'f \<Rightarrow> proc_backup \<Rightarrow> int \<times> 'f" where
  "restore_rt_kernel_params io fs b =
     (let (res, fs) = file_write_long io fs PROC_RR_TIMESLICE_FILE (bk_rr_timeslice b)
      in if res \<noteq> 0 then (res, fs)
         else let (res, fs) = file_write_long io fs PROC_RT_RUNTIME_FILE (bk_rt_runtime b)
              in if res \<noteq> 0 then (res, fs) else (0, fs))"

subsection \<open>Numbers in strings\<close>

definition is_space :: "char \<Rightarrow> bool" where
  "is_space c \<longleftrightarrow> c \<in> {CHR '' '', CHR 0x09, CHR 0x0A, CHR 0x0B, CHR 0x0C, CHR 0x0D}"

definition is_digit :: "char \<Rightarrow> bool" where
  "is_digit c \<longleftrightarrow> 48 \<le> (of_char c :: nat) \<and> (of_char c :: nat) \<le> 57"

definition digits_value :: "string \<Rightarrow> int" where
  "digits_value ds = foldl (\<lambda>n c. 10 * n + (of_char c - 48)) 0 ds"

definition LONG_MAX :: int where "LONG_MAX = 2 ^ 63 - 1"
definition LONG_MIN :: int where "LONG_MIN = - (2 ^ 63)"

text \<open>The sign and the rest of a number after leading white space.\<close>

definition split_sign :: "string \<Rightarrow> int \<times> string" where
  "split_sign s = (case dropWhile is_space s of
       [] \<Rightarrow> (1, [])
     | c # r \<Rightarrow> if c = CHR ''-'' then (- 1, r) else if c = CHR ''+'' then (1, r) else (1, c # r))"

text \<open>\<open>strtol\<close> in base 10: \<open>None\<close> when no digit was consumed, otherwise the value and whether it
  was out of range.\<close>

definition strtol :: "string \<Rightarrow> (int \<times> bool) option" where
  "strtol s =
     (let (sg, r) = split_sign s; ds = takeWhile is_digit r
      in if ds = [] then None
         else let v = sg * digits_value ds
              in Some (if v > LONG_MAX then (LONG_MAX, True) else if v < LONG_MIN then (LONG_MIN, True) else (v, False)))"

text \<open>The result code, the value when the code is 0, and \<open>errno\<close>.\<close>

definition string_to_long :: "bool \<Rightarrow> string \<Rightarrow> int \<times> int option \<times> bool" where
  "string_to_long errno s =
     (let e = (errno \<or> (case strtol s of Some (_, True) \<Rightarrow> True | _ \<Rightarrow> False))
      in if e then (2, None, e)
         else case strtol s of None \<Rightarrow> (3, None, e) | Some (v, _) \<Rightarrow> (0, Some v, e))"

text \<open>\<open>strtod\<close>: a decimal number with an optional fraction and exponent, a hexadecimal one with an optional
  binary exponent, an infinity or a NaN, in either case of the letters; \<open>None\<close> when nothing was consumed,
  otherwise the value and whether it was out of range.\<close>

definition is_hex :: "char \<Rightarrow> bool" where
  "is_hex c \<longleftrightarrow> is_digit c \<or> c \<in> set ''abcdefABCDEF''"

definition hex_digit :: "char \<Rightarrow> int" where
  "hex_digit c = (if is_digit c then of_char c - 48 else if c \<in> set ''abcdef'' then of_char c - 87 else of_char c - 55)"

definition hex_value :: "string \<Rightarrow> int" where
  "hex_value ds = foldl (\<lambda>n c. 16 * n + hex_digit c) 0 ds"

definition exponent_of :: "string \<Rightarrow> string \<Rightarrow> int" where
  "exponent_of marks r = (case r of
       [] \<Rightarrow> 0
     | c # r' \<Rightarrow> if c \<in> set marks
                then (case r' of
                        [] \<Rightarrow> 0
                      | d # r'' \<Rightarrow>
                          if d = CHR ''-'' then - digits_value (takeWhile is_digit r'')
                          else if d = CHR ''+'' then digits_value (takeWhile is_digit r'')
                          else digits_value (takeWhile is_digit r'))
                else 0)"

text \<open>The digits before and after the point, and what follows them.\<close>

definition split_point :: "(char \<Rightarrow> bool) \<Rightarrow> string \<Rightarrow> string \<times> string \<times> string" where
  "split_point P r =
     (let r1 = dropWhile P r
      in (takeWhile P r,
          case r1 of [] \<Rightarrow> [] | c # r2 \<Rightarrow> if c = CHR ''.'' then takeWhile P r2 else [],
          case r1 of [] \<Rightarrow> [] | c # r2 \<Rightarrow> if c = CHR ''.'' then dropWhile P r2 else r1))"

definition rounded_double :: "rat \<Rightarrow> c_double \<times> bool" where
  "rounded_double v =
     (let x = f64_round v
      in if \<bar>x\<bar> \<ge> 2 ^ 1024 then (Infinite (x < 0), True) else (Finite x, \<bar>v\<bar> < 1 / 2 ^ 1022 \<and> x \<noteq> v))"

definition strtod_decimal :: "int \<Rightarrow> string \<Rightarrow> (c_double \<times> bool) option" where
  "strtod_decimal sg r =
     (let (ip, fp, r3) = split_point is_digit r
      in if ip @ fp = [] then None
         else Some (rounded_double (of_int (sg * digits_value (ip @ fp)) * 10 powi (exponent_of ''eE'' r3 - int (length fp)))))"

definition strtod_hex :: "int \<Rightarrow> string \<Rightarrow> (c_double \<times> bool) option" where
  "strtod_hex sg r =
     (let (ip, fp, r3) = split_point is_hex r
      in if ip @ fp = [] then None
         else Some (rounded_double (of_int (sg * hex_value (ip @ fp)) * 2 powi (exponent_of ''pP'' r3 - 4 * int (length fp)))))"

definition lower :: "char \<Rightarrow> char" where
  "lower c = (if 65 \<le> (of_char c :: nat) \<and> (of_char c :: nat) \<le> 90 then char_of ((of_char c :: nat) + 32) else c)"

text \<open>\<open>0x\<close> without a hexadecimal digit is the number 0.\<close>

definition strtod :: "string \<Rightarrow> (c_double \<times> bool) option" where
  "strtod s =
     (let (sg, r) = split_sign s
      in if map lower (take 3 r) = ''inf'' then Some (Infinite (sg < 0), False)
         else if map lower (take 3 r) = ''nan'' then Some (NaN, False)
         else if map lower (take 2 r) = ''0x'' \<and> strtod_hex sg (drop 2 r) \<noteq> None then strtod_hex sg (drop 2 r)
         else strtod_decimal sg r)"

definition string_to_double :: "bool \<Rightarrow> string \<Rightarrow> int \<times> c_double option \<times> bool" where
  "string_to_double errno s =
     (let e = (errno \<or> (case strtod s of Some (_, True) \<Rightarrow> True | _ \<Rightarrow> False))
      in if e then (2, None, e)
         else case strtod s of None \<Rightarrow> (3, None, e) | Some (v, _) \<Rightarrow> (0, Some v, e))"

definition string_to_bool :: "string \<Rightarrow> int \<times> bool option" where
  "string_to_bool s = (if s = ''true'' then (0, Some True) else if s = ''false'' then (0, Some False) else (2, None))"

subsection \<open>YAML values\<close>

text \<open>The copy stops at a NUL.  \<open>None\<close>: the node is no scalar, code 1.\<close>

definition yaml_get_string :: "yaml_node \<Rightarrow> string option" where
  "yaml_get_string n = (case n of YAML_SCALAR s \<Rightarrow> Some (takeWhile (\<lambda>c. c \<noteq> NUL) s) | _ \<Rightarrow> None)"

definition yaml_get_long :: "bool \<Rightarrow> yaml_node \<Rightarrow> int \<times> int option \<times> bool" where
  "yaml_get_long errno n =
     (case yaml_get_string n of None \<Rightarrow> (1, None, errno) | Some s \<Rightarrow> string_to_long errno s)"

definition yaml_get_double :: "bool \<Rightarrow> yaml_node \<Rightarrow> int \<times> c_double option \<times> bool" where
  "yaml_get_double errno n =
     (case yaml_get_string n of None \<Rightarrow> (1, None, errno) | Some s \<Rightarrow> string_to_double errno s)"

definition yaml_get_bool :: "yaml_node \<Rightarrow> int \<times> bool option" where
  "yaml_get_bool n = (case yaml_get_string n of None \<Rightarrow> (1, None) | Some s \<Rightarrow> string_to_bool s)"

text \<open>A parser takes a node, the output and \<open>errno\<close>.\<close>

type_synonym 'o parser = "yaml_node \<Rightarrow> 'o \<times> bool \<Rightarrow> (int \<times> 'o \<times> bool) option"

fun yaml_parse_pairs :: "(string \<rightharpoonup> 'o parser) \<Rightarrow> (yaml_node \<times> yaml_node) list \<Rightarrow> 'o \<times> bool
    \<Rightarrow> (int \<times> 'o \<times> bool) option" where
  "yaml_parse_pairs keys [] st = Some (0, st)"
| "yaml_parse_pairs keys ((k, v) # ps) st =
     (case yaml_get_string k of
        None \<Rightarrow> Some (1, st)
      | Some key \<Rightarrow>
          (case keys key of
             None \<Rightarrow> yaml_parse_pairs keys ps st
           | Some f \<Rightarrow> do {
               (ret, st) \<leftarrow> f v st;
               if ret \<noteq> 0 then Some (ret, st) else yaml_parse_pairs keys ps st
             }))"

definition yaml_parse_mapping :: "(string \<rightharpoonup> 'o parser) \<Rightarrow> 'o parser" where
  "yaml_parse_mapping keys n st =
     (case n of YAML_MAPPING ps \<Rightarrow> yaml_parse_pairs keys ps st | _ \<Rightarrow> Some (1, st))"

fun yaml_parse_items :: "'e parser \<Rightarrow> 'e \<Rightarrow> yaml_node list \<Rightarrow> 'e list \<times> bool
    \<Rightarrow> (int \<times> 'e list \<times> bool) option" where
  "yaml_parse_items p fresh [] st = Some (0, st)"
| "yaml_parse_items p fresh (n # ns) (xs, e) = do {
     (ret, x, e) \<leftarrow> p n (fresh, e);
     if ret \<noteq> 0 then Some (ret, xs, e) else yaml_parse_items p fresh ns (xs @ [x], e)
   }"

definition yaml_parse_list :: "'e parser \<Rightarrow> 'e \<Rightarrow> 'e list parser" where
  "yaml_parse_list p fresh n st =
     (case n of YAML_SEQUENCE ns \<Rightarrow> yaml_parse_items p fresh ns st | _ \<Rightarrow> Some (1, st))"

subsection \<open>Parsers of the configuration\<close>

definition parse_conf_system_rr_timeslice :: "conf_system parser" where
  "parse_conf_system_rr_timeslice n = (\<lambda>(o', e).
     let (ret, v, e) = yaml_get_long e n
     in Some (ret, (case v of None \<Rightarrow> o' | Some x \<Rightarrow> o'\<lparr>rr_timeslice := x\<rparr>), e))"

definition parse_conf_system_sched_max_util :: "conf_system parser" where
  "parse_conf_system_sched_max_util n = (\<lambda>(o', e).
     let (ret, v, e) = yaml_get_double e n
     in Some (ret, (case v of None \<Rightarrow> o' | Some x \<Rightarrow> o'\<lparr>sched_max_util := x\<rparr>), e))"

definition parse_conf_system :: "configuration parser" where
  "parse_conf_system n = (\<lambda>(c, e). do {
     (ret, sys, e) \<leftarrow> yaml_parse_mapping
       [''rr_timeslice'' \<mapsto> parse_conf_system_rr_timeslice,
        ''sched_max_util'' \<mapsto> parse_conf_system_sched_max_util] n (csystem c, e);
     Some (ret, c\<lparr>csystem := sys\<rparr>, e)
   })"

definition parse_conf_plugins_item_name :: "conf_plugin parser" where
  "parse_conf_plugins_item_name n = (\<lambda>(p, e).
     case yaml_get_string n of None \<Rightarrow> Some (1, p, e) | Some s \<Rightarrow> Some (0, p\<lparr>cp_name := Some s\<rparr>, e))"

definition parse_conf_plugins_item_plugin_path :: "conf_plugin parser" where
  "parse_conf_plugins_item_plugin_path n = (\<lambda>(p, e).
     case yaml_get_string n of None \<Rightarrow> Some (1, p, e) | Some s \<Rightarrow> Some (0, p\<lparr>cp_path := Some s\<rparr>, e))"

text \<open>\<open>strtok_r\<close>: the next token, the delimiter that ended it (none at the end of the string) and
  what is left.\<close>

definition strtok :: "string \<Rightarrow> string \<Rightarrow> (string \<times> char option \<times> string) option" where
  "strtok delim s =
     (let s' = dropWhile (\<lambda>c. c \<in> set delim) s;
          tok = takeWhile (\<lambda>c. c \<notin> set delim) s';
          rest = dropWhile (\<lambda>c. c \<notin> set delim) s'
      in if s' = [] then None
         else Some (tok, (case rest of [] \<Rightarrow> None | d # _ \<Rightarrow> Some d), tl rest))"

definition s32_of_int :: "int \<Rightarrow> int" where
  "s32_of_int i = s32_of_u32 (u32_of_int i)"

text \<open>The end of both branches: a window of non-negative priorities is stored as two \<open>int\<close>s.\<close>

definition store_priorities :: "int \<Rightarrow> int \<Rightarrow> conf_plugin \<Rightarrow> int \<times> conf_plugin" where
  "store_priorities mn mx p =
     (if mn < 0 \<or> mx < 0 then (1, p)
      else (0, p\<lparr>cp_prio_min := Some (s32_of_int mn), cp_prio_max := Some (s32_of_int mx)\<rparr>))"

definition priority_scalar :: "string \<Rightarrow> conf_plugin \<times> bool \<Rightarrow> int \<times> conf_plugin \<times> bool" where
  "priority_scalar str = (\<lambda>(p, e).
     case strtok ''-'' str of
       None \<Rightarrow> (1, p, e)
     | Some (tok, _, rest) \<Rightarrow>
         (case string_to_long e tok of
            (ret, None, e) \<Rightarrow> (ret, p, e)
          | (_, Some mn, e) \<Rightarrow>
              (case strtok ''-'' rest of
                 None \<Rightarrow> (case store_priorities mn mn p of (ret, p) \<Rightarrow> (ret, p, e))
               | Some (tok, _, _) \<Rightarrow>
                   (case string_to_long e tok of
                      (ret, None, e) \<Rightarrow> (ret, p, e)
                    | (_, Some mx, e) \<Rightarrow> (case store_priorities mn mx p of (ret, p) \<Rightarrow> (ret, p, e))))))"

definition priority_sequence :: "yaml_node list \<Rightarrow> conf_plugin \<times> bool \<Rightarrow> int \<times> conf_plugin \<times> bool" where
  "priority_sequence ns = (\<lambda>(p, e).
     case ns of
       [] \<Rightarrow> (1, p, e)
     | n0 # ns' \<Rightarrow>
         (case yaml_get_long e n0 of
            (ret, None, e) \<Rightarrow> (ret, p, e)
          | (_, Some mn, e) \<Rightarrow>
              (case ns' of
                 [] \<Rightarrow> (case store_priorities mn mn p of (ret, p) \<Rightarrow> (ret, p, e))
               | n1 # ns'' \<Rightarrow>
                   (case yaml_get_long e n1 of
                      (ret, None, e) \<Rightarrow> (ret, p, e)
                    | (_, Some mx, e) \<Rightarrow>
                        if ns'' \<noteq> [] then (1, p, e)
                        else (case store_priorities mn mx p of (ret, p) \<Rightarrow> (ret, p, e))))))"

definition parse_conf_plugins_item_priority :: "conf_plugin parser" where
  "parse_conf_plugins_item_priority n st =
     Some (case n of
        YAML_SCALAR s \<Rightarrow> priority_scalar (takeWhile (\<lambda>c. c \<noteq> NUL) s) st
      | YAML_SEQUENCE ns \<Rightarrow> priority_sequence ns st
      | YAML_MAPPING _ \<Rightarrow> (1, st))"

lemma strtok_shorter:
  assumes "strtok dl str = Some (tok, d, rest)"
  shows "length rest < length str"
proof -
  define s where "s = dropWhile (\<lambda>c. c \<in> set dl) str"
  define r where "r = dropWhile (\<lambda>c. c \<notin> set dl) s"
  have "s \<noteq> []" and rest: "rest = tl r"
    using assms by (auto simp: strtok_def Let_def s_def r_def split: if_splits)
  then have "0 < length s" by simp
  moreover have "length r \<le> length s" "length s \<le> length str"
    by (simp_all add: length_dropWhile_le s_def r_def)
  ultimately show ?thesis unfolding rest length_tl by linarith
qed

text \<open>
  The tokens of a list of cores.  Each value must exceed the last core; a value after \<open>-\<close> closes a
  range.  A range up to a value that no \<open>int\<close> reaches overflows.  The result is the cores pushed
  before the end or the first error.
\<close>

function cores_scalar :: "bool \<Rightarrow> bool \<Rightarrow> string \<Rightarrow> int list \<Rightarrow> (int list \<times> bool) option" where
  "cores_scalar e in_range str cs =
     (case strtok '',-'' str of
        None \<Rightarrow> Some (cs, e)
      | Some (tok, d, rest) \<Rightarrow>
          (case string_to_long e tok of
             (_, None, e) \<Rightarrow> Some (cs, e)
           | (_, Some v, e) \<Rightarrow>
               if cs \<noteq> [] \<and> v \<le> last cs then Some (cs, e)
               else if in_range \<and> v > 2 ^ 31 - 1 then None
               else let cs = (if in_range then cs @ [last cs + 1..v] else cs @ [s32_of_int v])
                    in if d = Some (CHR '','') then cores_scalar e False rest cs
                       else if d = Some (CHR ''-'')
                       then (if in_range then Some (cs, e) else cores_scalar e True rest cs)
                       else cores_scalar e in_range rest cs))"
  by pat_completeness auto
termination
  by (relation "measure (\<lambda>(_, _, str, _). length str)") (auto dest: strtok_shorter)

declare cores_scalar.simps [simp del]

fun cores_sequence :: "bool \<Rightarrow> yaml_node list \<Rightarrow> int list \<Rightarrow> int list \<times> bool" where
  "cores_sequence e [] cs = (cs, e)"
| "cores_sequence e (n # ns) cs =
     (case yaml_get_long e n of
        (_, None, e) \<Rightarrow> (cs, e)
      | (_, Some v, e) \<Rightarrow> cores_sequence e ns (cs @ [s32_of_int v]))"

text \<open>The function returns 0 whatever \<open>ret\<close> is: errors in the list of cores are dropped.\<close>

definition parse_conf_plugins_item_cores :: "conf_plugin parser" where
  "parse_conf_plugins_item_cores n = (\<lambda>(p, e).
     (case n of
        YAML_SCALAR s \<Rightarrow> do {
          (cs, e) \<leftarrow> cores_scalar e False (takeWhile (\<lambda>c. c \<noteq> NUL) s) [];
          Some (0, p\<lparr>cp_cores := Some cs\<rparr>, e)
        }
      | YAML_SEQUENCE ns \<Rightarrow>
          (let (cs, e) = cores_sequence e ns [] in Some (0, p\<lparr>cp_cores := Some cs\<rparr>, e))
      | YAML_MAPPING _ \<Rightarrow> Some (0, p\<lparr>cp_cores := Some []\<rparr>, e)))"

definition parse_conf_plugins_item :: "conf_plugin parser" where
  "parse_conf_plugins_item = yaml_parse_mapping
     [''name'' \<mapsto> parse_conf_plugins_item_name,
      ''plugin'' \<mapsto> parse_conf_plugins_item_plugin_path,
      ''priority'' \<mapsto> parse_conf_plugins_item_priority,
      ''cores'' \<mapsto> parse_conf_plugins_item_cores]"

definition parse_conf_plugins :: "configuration parser" where
  "parse_conf_plugins n = (\<lambda>(c, e). do {
     (ret, ps, e) \<leftarrow> yaml_parse_list parse_conf_plugins_item fresh_plugin n ([], e);
     Some (ret, c\<lparr>cplugins := ps\<rparr>, e)
   })"

definition parse_conf_acl_rules :: "configuration parser" where
  "parse_conf_acl_rules n st = Some (0, st)"

text \<open>\<open>parse_conf\<close> and the loop over its pairs; the key \<open>configuration\<close> nests.\<close>

fun parse_conf :: "configuration parser"
and parse_conf_pairs :: "(yaml_node \<times> yaml_node) list \<Rightarrow> configuration \<times> bool
    \<Rightarrow> (int \<times> configuration \<times> bool) option" where
  "parse_conf (YAML_MAPPING ps) st = parse_conf_pairs ps st"
| "parse_conf (YAML_SCALAR s) st = Some (1, st)"
| "parse_conf (YAML_SEQUENCE ns) st = Some (1, st)"
| "parse_conf_pairs [] st = Some (0, st)"
| "parse_conf_pairs ((k, v) # ps) st =
     (case yaml_get_string k of
        None \<Rightarrow> Some (1, st)
      | Some key \<Rightarrow> do {
          (ret, st) \<leftarrow>
            (if key = ''configuration'' then parse_conf v st
             else if key = ''system'' then parse_conf_system v st
             else if key = ''plugins'' then parse_conf_plugins v st
             else if key = ''rules'' then parse_conf_acl_rules v st
             else Some (0, st));
          if ret \<noteq> 0 then Some (ret, st) else parse_conf_pairs ps st
        })"

subsection \<open>Checks\<close>

text \<open>\<open>*c >= num_procs\<close> compares as \<open>size_t\<close>: a negative core is a huge one.\<close>

definition check_cpus :: "int \<Rightarrow> configuration \<Rightarrow> bool option" where
  "check_cpus nprocs conf =
     for_each (\<lambda>ok p. if \<not> ok then Some False
       else do { cs \<leftarrow> cp_cores p; Some (\<forall>c \<in> set cs. 0 \<le> c \<and> c < nprocs) }) True (cplugins conf)"

fun common_cpu :: "int list \<Rightarrow> int list \<Rightarrow> bool" where
  "common_cpu (a # as) (b # bs) =
     (if a < b then common_cpu as (b # bs)
      else if a > b then common_cpu (a # as) bs
      else True)"
| "common_cpu _ _ = False"

definition plugins_have_common_cpus :: "conf_plugin \<Rightarrow> conf_plugin \<Rightarrow> bool option" where
  "plugins_have_common_cpus p1 p2 = do {
     c1 \<leftarrow> cp_cores p1;
     c2 \<leftarrow> cp_cores p2;
     Some (common_cpu c1 c2)
   }"

text \<open>A check of every pair of plugins, the earlier one first, that stops at the first failure.\<close>

fun check_pairs :: "(conf_plugin \<Rightarrow> conf_plugin \<Rightarrow> bool option) \<Rightarrow> conf_plugin list \<Rightarrow> bool option" where
  "check_pairs ok [] = Some True"
| "check_pairs ok (h # ls) = do {
     r \<leftarrow> for_each (\<lambda>b l. if \<not> b then Some False else ok h l) True ls;
     if \<not> r then Some False else check_pairs ok ls
   }"

definition check_priority_windows :: "configuration \<Rightarrow> bool option" where
  "check_priority_windows conf =
     check_pairs (\<lambda>phigh plow. do {
       common \<leftarrow> plugins_have_common_cpus phigh plow;
       if common then do {
         mn \<leftarrow> cp_prio_min phigh;
         mx \<leftarrow> cp_prio_max plow;
         Some (\<not> mn \<le> mx)
       } else Some True
     }) (cplugins conf)"

definition check_minmax_priorities :: "configuration \<Rightarrow> bool option" where
  "check_minmax_priorities conf =
     for_each (\<lambda>ok p. if \<not> ok then Some False
       else do { mn \<leftarrow> cp_prio_min p; mx \<leftarrow> cp_prio_max p; Some (\<not> mn > mx) }) True (cplugins conf)"

definition check_max_util :: "configuration \<Rightarrow> bool option" where
  "check_max_util conf =
     Some (\<not> (double_less (sched_max_util (csystem conf)) 0 \<or> double_greater (sched_max_util (csystem conf)) 1))"

definition check_plugin_names :: "configuration \<Rightarrow> bool option" where
  "check_plugin_names conf =
     check_pairs (\<lambda>phigh plow. do {
       a \<leftarrow> cp_name phigh;
       b \<leftarrow> cp_name plow;
       Some (a \<noteq> b)
     }) (cplugins conf)"

definition configuration_valid :: "int \<Rightarrow> configuration \<Rightarrow> bool option" where
  "configuration_valid nprocs conf =
     for_each (\<lambda>ok check. if \<not> ok then Some False else check conf) True
       [check_max_util, check_cpus nprocs, check_minmax_priorities, check_priority_windows, check_plugin_names]"

text \<open>
  What libyaml makes of the file.  \<open>YamlNoFile\<close>: the file cannot be opened, and
  \<open>yaml_parser_set_input_file\<close> aborts on NULL.  \<open>YamlBad\<close>: loading returned 0.  A document may be
  empty, without a root node.
\<close>

datatype yaml_file = YamlNoFile | YamlBad | YamlDoc "yaml_node option"

definition parse_configuration ::
  "(string \<Rightarrow> yaml_file) \<Rightarrow> int \<Rightarrow> bool \<Rightarrow> configuration \<Rightarrow> string \<Rightarrow> (int \<times> configuration) option" where
  "parse_configuration yaml nprocs errno conf path =
     (case yaml path of
        YamlNoFile \<Rightarrow> None
      | YamlBad \<Rightarrow> Some (0, conf)
      | YamlDoc None \<Rightarrow> None
      | YamlDoc (Some node) \<Rightarrow> do {
          (res, conf, _) \<leftarrow> parse_conf node (conf, errno);
          if res \<noteq> 0 then Some (res, conf)
          else do {
            valid \<leftarrow> configuration_valid nprocs conf;
            Some (if \<not> valid then 1 else 0, conf)
          }
        })"

end
