(* ===== verification/USocket.thy ===== *)
theory USocket
  imports Prelude
begin

text \<open>
  Unix domain sockets, \<open>channel/usocket.c\<close>.

  The socket calls of the kernel are a parameter, the record \<open>('n, 'q, 'p) sockets\<close>: \<open>'n\<close> is their
  state, \<open>'q\<close> what a server receives (requests) and \<open>'p\<close> what a client receives (replies).
  A receive overwrites as much of the buffer as it got bytes, so it maps the old contents of the
  buffer to the new ones.  Descriptors of a set are below \<open>FD_SETSIZE\<close>; adding another one is
  undefined.
\<close>

definition SET_MAX_SIZE :: nat where "SET_MAX_SIZE = 1024"
definition BACKLOG_MAX :: int where "BACKLOG_MAX = 128"
definition TCP :: int where "TCP = 1"
definition SUN_PATH_MAX :: nat where "SUN_PATH_MAX = 108"

record ucred =
  ucred_pid :: int
  ucred_uid :: int
  ucred_gid :: int

type_synonym fd_set = "nat set"

record usocket =
  sock_fd :: int
  filepath :: "string option"
  conn_set_max :: int
  conn_set :: fd_set
  ucredp :: "ucred option list"

record ('n, 'q, 'p) sockets =
  sys_socket :: "'n \<Rightarrow> int \<Rightarrow> int \<times> 'n"
  sys_connect :: "'n \<Rightarrow> int \<Rightarrow> string \<Rightarrow> int \<times> 'n"
  sys_bind :: "'n \<Rightarrow> int \<Rightarrow> string \<Rightarrow> int \<times> 'n"
  sys_unlink :: "'n \<Rightarrow> string \<Rightarrow> 'n"
  sys_chmod :: "'n \<Rightarrow> string \<Rightarrow> int \<times> 'n"
  sys_listen :: "'n \<Rightarrow> int \<Rightarrow> int \<Rightarrow> int \<times> 'n"
  sys_accept :: "'n \<Rightarrow> int \<Rightarrow> int \<times> 'n"
  sys_select :: "'n \<Rightarrow> int \<Rightarrow> fd_set \<Rightarrow> int \<times> fd_set \<times> 'n"
  sys_recv_req :: "'n \<Rightarrow> int \<Rightarrow> 'q \<Rightarrow> int \<times> 'q \<times> 'n"
  sys_recv_rep :: "'n \<Rightarrow> int \<Rightarrow> 'p \<Rightarrow> int \<times> 'p \<times> 'n"
  sys_send_req :: "'n \<Rightarrow> int \<Rightarrow> 'q \<Rightarrow> int \<times> 'n"
  sys_send_rep :: "'n \<Rightarrow> int \<Rightarrow> 'p \<Rightarrow> int \<times> 'n"
  sys_setsockopt_timeout :: "'n \<Rightarrow> int \<Rightarrow> bool \<Rightarrow> int \<Rightarrow> int \<times> 'n"
  sys_set_flags :: "'n \<Rightarrow> int \<Rightarrow> bool \<Rightarrow> int \<times> 'n"
  sys_calloc_ucred :: "'n \<Rightarrow> bool"
  sys_peercred :: "'n \<Rightarrow> int \<Rightarrow> ucred option"
  sys_close :: "'n \<Rightarrow> int \<Rightarrow> 'n"

subsection \<open>Descriptor sets\<close>

definition FD_ISSET :: "int \<Rightarrow> fd_set \<Rightarrow> bool option" where
  "FD_ISSET fd s = (if 0 \<le> fd \<and> nat fd < SET_MAX_SIZE then Some (nat fd \<in> s) else None)"

definition FD_SET :: "int \<Rightarrow> fd_set \<Rightarrow> fd_set option" where
  "FD_SET fd s = (if 0 \<le> fd \<and> nat fd < SET_MAX_SIZE then Some (insert (nat fd) s) else None)"

definition FD_CLR :: "int \<Rightarrow> fd_set \<Rightarrow> fd_set option" where
  "FD_CLR fd s = (if 0 \<le> fd \<and> nat fd < SET_MAX_SIZE then Some (s - {nat fd}) else None)"

subsection \<open>Clients and servers\<close>

text \<open>After a failed \<open>socket\<close> the structure is zeroed.\<close>

definition zero_usocket :: usocket where
  "zero_usocket = \<lparr>sock_fd = 0, filepath = None, conn_set_max = 0, conn_set = {},
     ucredp = replicate SET_MAX_SIZE None\<rparr>"

definition usocket_init :: "('n, 'q, 'p) sockets \<Rightarrow> 'n \<Rightarrow> int \<Rightarrow> int \<times> usocket \<times> 'n" where
  "usocket_init net k socktype =
     (let (sock, k) = sys_socket net k socktype
      in if sock < 0 then (- 1, zero_usocket, k)
         else (0, zero_usocket\<lparr>sock_fd := sock\<rparr>, k))"

text \<open>\<open>strcpy\<close> into \<open>sun_path\<close>: a longer path overflows the buffer.\<close>

definition usocket_connect ::
  "('n, 'q, 'p) sockets \<Rightarrow> 'n \<Rightarrow> usocket \<Rightarrow> string \<Rightarrow> (int \<times> 'n) option" where
  "usocket_connect net k us path =
     (if length path < SUN_PATH_MAX then Some (sys_connect net k (sock_fd us) path) else None)"

definition usocket_recv :: "('n, 'q, 'p) sockets \<Rightarrow> 'n \<Rightarrow> usocket \<Rightarrow> 'p \<Rightarrow> int \<times> 'p \<times> 'n" where
  "usocket_recv net k us buf = sys_recv_rep net k (sock_fd us) buf"

definition usocket_send :: "('n, 'q, 'p) sockets \<Rightarrow> 'n \<Rightarrow> usocket \<Rightarrow> 'q \<Rightarrow> int \<times> 'n" where
  "usocket_send net k us buf = sys_send_req net k (sock_fd us) buf"

definition usocket_bind ::
  "('n, 'q, 'p) sockets \<Rightarrow> 'n \<Rightarrow> usocket \<Rightarrow> string \<Rightarrow> (int \<times> 'n) option" where
  "usocket_bind net k us path =
     (if length path < SUN_PATH_MAX
      then Some (let k = sys_unlink net k path;
                     (ret, k) = sys_bind net k (sock_fd us) path
                 in if ret < 0 then (- 1, k) else sys_chmod net k path)
      else None)"

definition usocket_listen :: "('n, 'q, 'p) sockets \<Rightarrow> 'n \<Rightarrow> usocket \<Rightarrow> int \<Rightarrow> int \<times> 'n" where
  "usocket_listen net k us max_req =
     (let max_req = (if max_req = 0 then BACKLOG_MAX else max_req)
      in sys_listen net k (sock_fd us) max_req)"

definition usocket_accept :: "('n, 'q, 'p) sockets \<Rightarrow> 'n \<Rightarrow> usocket \<Rightarrow> int \<times> 'n" where
  "usocket_accept net k us = sys_accept net k (sock_fd us)"

definition usocket_recvfrom :: "('n, 'q, 'p) sockets \<Rightarrow> 'n \<Rightarrow> 'q \<Rightarrow> int \<Rightarrow> int \<times> 'q \<times> 'n" where
  "usocket_recvfrom net k buf i = sys_recv_req net k i buf"

definition usocket_sendto :: "('n, 'q, 'p) sockets \<Rightarrow> 'n \<Rightarrow> 'p \<Rightarrow> int \<Rightarrow> int \<times> 'n" where
  "usocket_sendto net k buf i = sys_send_rep net k i buf"

definition usocket_nonblock :: "('n, 'q, 'p) sockets \<Rightarrow> 'n \<Rightarrow> usocket \<Rightarrow> int \<times> 'n" where
  "usocket_nonblock net k us = sys_set_flags net k (sock_fd us) True"

definition usocket_block :: "('n, 'q, 'p) sockets \<Rightarrow> 'n \<Rightarrow> usocket \<Rightarrow> int \<times> 'n" where
  "usocket_block net k us = sys_set_flags net k (sock_fd us) False"

text \<open>The timeout is given in microseconds, all of them in \<open>tv_usec\<close>.\<close>

definition usocket_timeout :: "('n, 'q, 'p) sockets \<Rightarrow> 'n \<Rightarrow> usocket \<Rightarrow> int \<Rightarrow> int \<times> 'n" where
  "usocket_timeout net k us ms =
     (let (r, k) = sys_setsockopt_timeout net k (sock_fd us) True (ms * 1000)
      in if r < 0 then (- 1, k)
         else let (r, k) = sys_setsockopt_timeout net k (sock_fd us) False (ms * 1000)
              in if r < 0 then (- 1, k) else (0, k))"

definition usocket_get_maxfd :: "usocket \<Rightarrow> int" where
  "usocket_get_maxfd us = (if conn_set_max us > sock_fd us then conn_set_max us else sock_fd us)"

definition usocket_prepare_recv :: "usocket \<Rightarrow> usocket option" where
  "usocket_prepare_recv us = do {
     s \<leftarrow> FD_SET (sock_fd us) {};
     Some (us\<lparr>conn_set := s, conn_set_max := sock_fd us\<rparr>)
   }"

definition usocket_get_credentials ::
  "('n, 'q, 'p) sockets \<Rightarrow> 'n \<Rightarrow> usocket \<Rightarrow> int \<Rightarrow> (int \<times> usocket) option" where
  "usocket_get_credentials net k us fd =
     (if \<not> sys_calloc_ucred net k then Some (- 1, us)
      else case sys_peercred net k fd of
        None \<Rightarrow> Some (- 1, us)
      | Some cred \<Rightarrow> do {
          creds \<leftarrow> iset (ucredp us) fd (Some cred);
          Some (0, us\<lparr>ucredp := creds\<rparr>)
        })"

definition usocket_add_connections ::
  "('n, 'q, 'p) sockets \<Rightarrow> 'n \<Rightarrow> usocket \<Rightarrow> (int \<times> usocket \<times> 'n) option" where
  "usocket_add_connections net k us =
     (let (newfd, k) = usocket_accept net k us
      in if newfd < 0 then Some (- 1, us, k)
         else do {
           (r, us) \<leftarrow> usocket_get_credentials net k us newfd;
           if r < 0 then Some (- 1, us, k)
           else do {
             s \<leftarrow> FD_SET newfd (conn_set us);
             Some (newfd,
               us\<lparr>conn_set := s,
                  conn_set_max := (if conn_set_max us > newfd then conn_set_max us else newfd)\<rparr>, k)
           }
         })"

text \<open>
  The loop of \<open>usocket_recvall\<close> over the descriptors that are ready.  An accepted connection may
  raise the bound while the loop runs.  A descriptor outside the set is undefined to test, so the
  loop ends at \<open>FD_SETSIZE\<close> at the latest.
\<close>

function recvall_loop ::
  "('n, 'q, 'p) sockets \<Rightarrow> fd_set \<Rightarrow> nat \<Rightarrow> usocket \<Rightarrow> 'q list \<Rightarrow> int list \<Rightarrow> 'n
     \<Rightarrow> (usocket \<times> 'q list \<times> int list \<times> 'n) option" where
  "recvall_loop net ready i us data nrecv k =
     (if int i > conn_set_max us then Some (us, data, nrecv, k)
      else case FD_ISSET (int i) ready of
        None \<Rightarrow> None
      | Some False \<Rightarrow> recvall_loop net ready (Suc i) us data nrecv k
      | Some True \<Rightarrow>
          if int i = sock_fd us then do {
            (n, us, k) \<leftarrow> usocket_add_connections net k us;
            nrecv \<leftarrow> aset nrecv i n;
            recvall_loop net ready (Suc i) us data nrecv k
          } else do {
            buf \<leftarrow> aget data i;
            let (n, buf, k) = sys_recv_req net k (int i) buf;
            data \<leftarrow> aset data i buf;
            if n = 0 then do {
              nrecv \<leftarrow> aset nrecv i (- 1);
              s \<leftarrow> FD_CLR (int i) (conn_set us);
              recvall_loop net ready (Suc i) (us\<lparr>conn_set := s\<rparr>) data nrecv k
            } else do {
              nrecv \<leftarrow> aset nrecv i n;
              recvall_loop net ready (Suc i) us data nrecv k
            }
          })"
  by pat_completeness auto
termination
  by (relation "measure (\<lambda>(net, ready, i, us, data, nrecv, k). SET_MAX_SIZE - i)")
     (auto simp: FD_ISSET_def split: if_splits)

declare recvall_loop.simps [simp del]

definition usocket_recvall ::
  "('n, 'q, 'p) sockets \<Rightarrow> 'n \<Rightarrow> usocket \<Rightarrow> 'q list \<Rightarrow> int list
     \<Rightarrow> (int \<times> usocket \<times> 'q list \<times> int list \<times> 'n) option" where
  "usocket_recvall net k us data nrecv =
     (let (r, ready, k) = sys_select net k (conn_set_max us + 1) (conn_set us)
      in if r < 0 then Some (- 1, us, data, nrecv, k)
         else do {
           (us, data, nrecv, k) \<leftarrow> recvall_loop net ready 0 us data nrecv k;
           Some (0, us, data, nrecv, k)
         })"

definition usocket_remove_connection ::
  "('n, 'q, 'p) sockets \<Rightarrow> 'n \<Rightarrow> usocket \<Rightarrow> int \<Rightarrow> (usocket \<times> 'n) option" where
  "usocket_remove_connection net k us fd = do {
     s \<leftarrow> FD_CLR fd (conn_set us);
     Some (us\<lparr>conn_set := s\<rparr>, sys_close net k fd)
   }"

end
