(* ===== verification/Channel.thy ===== *)
theory Channel
  imports USocket Task
begin

text \<open>
  The channel between clients and the daemon, \<open>channel/retif_channel.c\<close>, and the messages of
  \<open>common/retif_types.h\<close>.  The \<^emph>\<open>access\<close> is the client side, the \<^emph>\<open>carrier\<close> the server side.

  The payload of a request is a union.  Its members overlap: on the little-endian machines the
  daemon runs on, the first word of \<open>q\<close> and of \<open>ids\<close> is the low half of \<open>param.runtime\<close> and their
  second word is its high half.  The payload is modelled by the largest member, \<open>param\<close>, and the
  two halves of its first field are read and written through the other members.
\<close>

subsection \<open>Messages\<close>

datatype REQ_TYPE =
    RTF_CONNECTION | RTF_CONNECTIONS_INFO | RTF_CONNECTION_INFO | RTF_PLUGINS_INFO
  | RTF_PLUGIN_INFO | RTF_PLUGIN_CPU_INFO | RTF_TASKS_INFO | RTF_TASK_INFO | RTF_TASK_MONITOR
  | RTF_TASK_CREATE | RTF_TASK_MODIFY | RTF_TASK_ATTACH | RTF_TASK_DETACH | RTF_TASK_DESTROY
  | RTF_DECONNECTION

datatype REP_TYPE =
    RTF_REQUEST_ERR | RTF_CONNECTION_OK | RTF_CONNECTION_ERR | RTF_CONNECTIONS_INFO_OK
  | RTF_CONNECTION_INFO_OK | RTF_CONNECTION_INFO_ERR | RTF_PLUGINS_INFO_OK | RTF_PLUGIN_INFO_OK
  | RTF_PLUGIN_INFO_ERR | RTF_PLUGIN_CPU_INFO_OK | RTF_PLUGIN_CPU_INFO_ERR | RTF_TASKS_INFO_OK
  | RTF_TASK_INFO_OK | RTF_TASK_INFO_ERR | RTF_TASK_CREATE_OK | RTF_TASK_CREATE_PART
  | RTF_TASK_CREATE_ERR | RTF_TASK_MODIFY_OK | RTF_TASK_MODIFY_PART | RTF_TASK_MODIFY_ERR
  | RTF_TASK_ATTACH_OK | RTF_TASK_ATTACH_ERR | RTF_TASK_DETACH_OK | RTF_TASK_DETACH_ERR
  | RTF_TASK_DESTROY_OK | RTF_TASK_DESTROY_ERR | RTF_DECONNECTION_OK | RTF_DECONNECTION_ERR

datatype CLIENT_STATE = EMPTY | CONNECTED | DISCONNECTED | ERROR

text \<open>\<open>None\<close>: a number that is no request type.\<close>

record rtf_request =
  req_type :: "REQ_TYPE option"
  param :: rtf_params

definition low_half :: "u64 \<Rightarrow> u32" where
  "low_half w = ucast w"

definition high_half :: "u64 \<Rightarrow> u32" where
  "high_half w = ucast (drop_bit 32 w)"

definition join_halves :: "u32 \<Rightarrow> u32 \<Rightarrow> u64" where
  "join_halves lo hi = or (ucast lo) (push_bit 32 (ucast hi))"

definition ids_pid :: "rtf_request \<Rightarrow> int" where
  "ids_pid r = s32_of_u32 (low_half (runtime (param r)))"

definition ids_rsvid :: "rtf_request \<Rightarrow> u32" where
  "ids_rsvid r = high_half (runtime (param r))"

definition q_id :: "rtf_request \<Rightarrow> int" where
  "q_id r = s32_of_u32 (low_half (runtime (param r)))"

definition q_desc :: "rtf_request \<Rightarrow> int" where
  "q_desc r = s32_of_u32 (high_half (runtime (param r)))"

definition set_low :: "u32 \<Rightarrow> rtf_request \<Rightarrow> rtf_request" where
  "set_low v r = r\<lparr>param := (param r)\<lparr>runtime := join_halves v (high_half (runtime (param r)))\<rparr>\<rparr>"

definition set_high :: "u32 \<Rightarrow> rtf_request \<Rightarrow> rtf_request" where
  "set_high v r = r\<lparr>param := (param r)\<lparr>runtime := join_halves (low_half (runtime (param r))) v\<rparr>\<rparr>"

record rtf_client_info =
  ci_pid :: int
  ci_state :: CLIENT_STATE

text \<open>\<open>ti_util\<close> is \<open>None\<close> when the field was never written.\<close>

record rtf_task_info =
  ti_tid :: int
  ti_ppid :: int
  ti_priority :: int
  ti_period :: int
  ti_util :: "f32 option"
  ti_pluginid :: int

record rtf_plugin_info =
  pi_name :: "char list"
  pi_cputot :: int

record rtf_cpu_info =
  cpunum :: int
  freeu :: f32
  ntask :: int

text \<open>The payload of a reply: the member last written, \<open>Unset\<close> when none was.\<close>

datatype reply_payload =
    Unset
  | Response f32
  | Nconnected int
  | Ntask int
  | Nplugin int
  | ClientInfo rtf_client_info
  | TaskInfo rtf_task_info
  | PluginInfo rtf_plugin_info
  | CpuInfo rtf_cpu_info

record rtf_reply =
  rep_type :: REP_TYPE
  payload :: reply_payload

record rtf_client =
  cl_state :: CLIENT_STATE
  cl_pid :: int

type_synonym 'n rtf_sockets = "('n, rtf_request, rtf_reply) sockets"

definition CHANNEL_PATH :: string where "CHANNEL_PATH = ''/run/retif_channel.sock''"
definition CHANNEL_MAX_SIZE :: nat where "CHANNEL_MAX_SIZE = SET_MAX_SIZE"

subsection \<open>Access\<close>

record rtf_access =
  acc_sock :: usocket
  acc_req :: rtf_request
  acc_rep :: rtf_reply

definition rtf_access_init :: "'n rtf_sockets \<Rightarrow> 'n \<Rightarrow> rtf_access \<Rightarrow> int \<times> rtf_access \<times> 'n" where
  "rtf_access_init net k c =
     (let (r, us, k) = usocket_init net k TCP
      in (if r < 0 then - 1 else 0, c\<lparr>acc_sock := us\<rparr>, k))"

definition rtf_access_connect :: "'n rtf_sockets \<Rightarrow> 'n \<Rightarrow> rtf_access \<Rightarrow> (int \<times> 'n) option" where
  "rtf_access_connect net k c = usocket_connect net k (acc_sock c) CHANNEL_PATH"

definition rtf_access_recv :: "'n rtf_sockets \<Rightarrow> 'n \<Rightarrow> rtf_access \<Rightarrow> int \<times> rtf_access \<times> 'n" where
  "rtf_access_recv net k c =
     (let (n, rep, k) = usocket_recv net k (acc_sock c) (acc_rep c) in (n, c\<lparr>acc_rep := rep\<rparr>, k))"

definition rtf_access_send :: "'n rtf_sockets \<Rightarrow> 'n \<Rightarrow> rtf_access \<Rightarrow> int \<times> 'n" where
  "rtf_access_send net k c = usocket_send net k (acc_sock c) (acc_req c)"

subsection \<open>Carrier\<close>

record rtf_carrier =
  sock :: usocket
  last_n :: "int list"
  last_req :: "rtf_request list"
  client :: "rtf_client list"

text \<open>\<open>memset (c, 0, sizeof (struct rtf_access))\<close> clears a prefix of the larger carrier: the socket
  and the next bytes; \<open>cleared\<close> says what the rest held before, which the daemon's static carrier
  makes zero.\<close>

definition rtf_carrier_init ::
  "'n rtf_sockets \<Rightarrow> 'n \<Rightarrow> rtf_carrier \<Rightarrow> (int \<times> rtf_carrier \<times> 'n) option" where
  "rtf_carrier_init net k cleared =
     (let (r, us, k) = usocket_init net k TCP;
          c = cleared\<lparr>sock := us\<rparr>
      in if r < 0 then Some (- 1, c, k)
         else do {
           (r, k) \<leftarrow> usocket_bind net k us CHANNEL_PATH;
           if r < 0 then Some (- 1, c, k)
           else let (r, k) = usocket_listen net k us BACKLOG_MAX
                in if r < 0 then Some (- 1, c, k)
                   else do { us \<leftarrow> usocket_prepare_recv us; Some (0, c\<lparr>sock := us\<rparr>, k) }
         })"

text \<open>The transition of one client: \<open>n\<close> is what the last receive returned for it.\<close>

definition client_step :: "CLIENT_STATE \<Rightarrow> int \<Rightarrow> CLIENT_STATE" where
  "client_step st n =
     (if st = EMPTY \<and> n = 0 then st
      else if st = EMPTY \<and> n > 0 then CONNECTED
      else if st = CONNECTED \<and> n \<ge> 0 then st
      else if n < 0 then DISCONNECTED
      else ERROR)"

definition update_client :: "int \<Rightarrow> int list \<Rightarrow> rtf_client list \<Rightarrow> nat \<Rightarrow> rtf_client list option" where
  "update_client main lastn cs i =
     (if int i = main then Some cs
      else do {
        c \<leftarrow> aget cs i;
        n \<leftarrow> aget lastn i;
        aset cs i (c\<lparr>cl_state := client_step (cl_state c) n\<rparr>)
      })"

definition rtf_carrier_update ::
  "'n rtf_sockets \<Rightarrow> 'n \<Rightarrow> rtf_carrier \<Rightarrow> (rtf_carrier \<times> 'n) option" where
  "rtf_carrier_update net k c = do {
     let n = usocket_get_maxfd (sock c);
     lastn \<leftarrow> for_each (\<lambda>l i. aset l i 0) (last_n c) [0..<nat (n + 1)];
     (r, us, reqs, lastn, k) \<leftarrow> usocket_recvall net k (sock c) (last_req c) lastn;
     let c = c\<lparr>sock := us, last_req := reqs, last_n := lastn\<rparr>;
     if r < 0 then Some (c, k)
     else do {
       cs \<leftarrow> for_each (update_client (sock_fd us) lastn) (client c) [0..<nat (n + 1)];
       Some (c\<lparr>client := cs\<rparr>, k)
     }
   }"

definition rtf_carrier_send :: "'n rtf_sockets \<Rightarrow> 'n \<Rightarrow> rtf_reply \<Rightarrow> int \<Rightarrow> int \<times> 'n" where
  "rtf_carrier_send net k r cli_id = usocket_sendto net k r cli_id"

definition rtf_carrier_get_conn :: "rtf_carrier \<Rightarrow> int" where
  "rtf_carrier_get_conn c = usocket_get_maxfd (sock c)"

definition rtf_carrier_get_req :: "rtf_carrier \<Rightarrow> int \<Rightarrow> rtf_request option" where
  "rtf_carrier_get_req c cli_id = iget (last_req c) cli_id"

definition rtf_carrier_is_updated :: "rtf_carrier \<Rightarrow> int \<Rightarrow> bool option" where
  "rtf_carrier_is_updated c cli_id = do { n \<leftarrow> iget (last_n c) cli_id; Some (n > 0) }"

definition rtf_carrier_req_clear :: "rtf_carrier \<Rightarrow> int \<Rightarrow> rtf_carrier option" where
  "rtf_carrier_req_clear c cli_id = do { l \<leftarrow> iset (last_n c) cli_id 0; Some (c\<lparr>last_n := l\<rparr>) }"

definition rtf_carrier_get_state :: "rtf_carrier \<Rightarrow> int \<Rightarrow> CLIENT_STATE option" where
  "rtf_carrier_get_state c cli_id = map_option cl_state (iget (client c) cli_id)"

definition rtf_carrier_set_state :: "rtf_carrier \<Rightarrow> int \<Rightarrow> CLIENT_STATE \<Rightarrow> rtf_carrier option" where
  "rtf_carrier_set_state c cli_id s = do {
     x \<leftarrow> iget (client c) cli_id;
     xs \<leftarrow> iset (client c) cli_id (x\<lparr>cl_state := s\<rparr>);
     Some (c\<lparr>client := xs\<rparr>)
   }"

definition rtf_carrier_get_pid :: "rtf_carrier \<Rightarrow> int \<Rightarrow> int option" where
  "rtf_carrier_get_pid c cli_id = map_option cl_pid (iget (client c) cli_id)"

definition rtf_carrier_set_pid :: "rtf_carrier \<Rightarrow> int \<Rightarrow> int \<Rightarrow> rtf_carrier option" where
  "rtf_carrier_set_pid c cli_id pid = do {
     x \<leftarrow> iget (client c) cli_id;
     xs \<leftarrow> iset (client c) cli_id (x\<lparr>cl_pid := pid\<rparr>);
     Some (c\<lparr>client := xs\<rparr>)
   }"

definition rtf_carrier_close ::
  "'n rtf_sockets \<Rightarrow> 'n \<Rightarrow> rtf_carrier \<Rightarrow> int \<Rightarrow> (rtf_carrier \<times> 'n) option" where
  "rtf_carrier_close net k c cli_id = do {
     (us, k) \<leftarrow> usocket_remove_connection net k (sock c) cli_id;
     Some (c\<lparr>sock := us\<rparr>, k)
   }"

end
