(* ===== verification/Scheduler_Correct.thy ===== *)
theory Scheduler_Correct
  imports Scheduler
begin

text \<open>
  The correctness of the scheduler.  \<open>sched_inv\<close> is its invariant: the task set is well formed, every
  plugin satisfies the invariant of its contract for the tasks that carry its id, and the ids differ.
  Creating, destroying, deleting, attaching and detaching keep it; the proofs use the contract of the
  plugins only, never a definition of a single plugin.  A change keeps it when it is refused; a change
  that moves a task to another plugin loses it.
\<close>

subsection \<open>Ownership\<close>

text \<open>
  \<open>plugins_ok os s w own\<close>: every plugin satisfies the invariant of its contract for the tasks
  \<open>own i\<close>, and carries its position as its id.  Two plugins of the same library are allowed when the
  library has no counters.
\<close>

definition libs_ok :: "rtf_plugin list \<Rightarrow> bool" where
  "libs_ok ps \<longleftrightarrow> (\<forall>i < length ps. \<forall>j < length ps. i \<noteq> j \<longrightarrow> dl_ptr (ps ! i) = dl_ptr (ps ! j) \<longrightarrow>
     dl_ptr (ps ! i) = SCHED_FP_so \<or> dl_ptr (ps ! i) = SCHED_EDF_so)"

definition plugins_ok :: "'k kernel \<Rightarrow> rtf_scheduler \<Rightarrow> 'k world \<Rightarrow> (nat \<Rightarrow> task_ptr set) \<Rightarrow> bool" where
  "plugins_ok os s w own \<longleftrightarrow> libs_ok (plugin s) \<and>
     (\<forall>i < length (plugin s). plg_id (plugin s ! i) = int i \<and> plg_inv os (plugin s ! i) w (own i))"

lemma plugins_owned:
  assumes "plugins_ok os s w own" and "i < length (plugin s)" and "q \<in> own i"
  shows "\<exists>t. heap w q = Some t \<and> pluginid t = int i"
  using assms plg.owned_allocated unfolding plugins_ok_def by metis

text \<open>The plugins after an operation of plugin \<open>i\<close>.\<close>

definition same_plugins :: "nat \<Rightarrow> rtf_scheduler \<Rightarrow> rtf_scheduler \<Rightarrow> bool" where
  "same_plugins i s s' \<longleftrightarrow> (\<exists>ps. s' = s\<lparr>plugin := ps\<rparr> \<and> length ps = length (plugin s) \<and>
     (\<forall>j < length ps. same_plugin (plugin s ! j) (ps ! j) \<and> (j \<noteq> i \<longrightarrow> ps ! j = plugin s ! j)))"

lemma same_plugins_libs: "same_plugins i s s' \<Longrightarrow> map dl_ptr (plugin s') = map dl_ptr (plugin s)"
  by (rule nth_equalityI) (auto simp: same_plugins_def same_plugin_def)

lemma plugins_ok_step:
  assumes ok: "plugins_ok os s w own" and i: "i < length (plugin s)"
    and sp: "same_plugin (plugin s ! i) this'" and tch: "touches (dl_ptr (plugin s ! i)) p (own i) w w'"
    and inv: "plg_inv os this' w' S" and p: "\<forall>j < length (plugin s). j \<noteq> i \<longrightarrow> p \<notin> own j"
  shows "plugins_ok os (s\<lparr>plugin := (plugin s)[i := this']\<rparr>) w' (own(i := S))"
    and "same_plugins i s (s\<lparr>plugin := (plugin s)[i := this']\<rparr>)"
proof -
  have libs: "libs_ok (plugin s)" using ok by (simp add: plugins_ok_def)
  have dl: "dl_ptr ((plugin s)[i := this'] ! j) = dl_ptr (plugin s ! j)" if "j < length (plugin s)" for j
    using sp i that by (cases "j = i") (simp_all add: same_plugin_def)
  have "libs_ok ((plugin s)[i := this'])"
    using libs dl by (auto simp: libs_ok_def)
  moreover have "plg_id ((plugin s)[i := this'] ! j) = int j \<and> plg_inv os ((plugin s)[i := this'] ! j) w' ((own(i := S)) j)"
    if j: "j < length (plugin s)" for j
  proof (cases "j = i")
    case True
    with ok i sp inv show ?thesis by (simp add: plugins_ok_def same_plugin_def)
  next
    case False
    have oj: "plg_id (plugin s ! j) = int j" "plg_inv os (plugin s ! j) w (own j)" using ok j by (simp_all add: plugins_ok_def)
    have "q \<notin> insert p (own i)" if "q \<in> own j" for q
      using that p j False plugins_owned [OF ok j that] plugins_owned [OF ok i, of q] by auto
    then have "\<forall>q \<in> own j. heap w' q = heap w q" using tch unfolding touches_def by blast
    moreover have "\<exists>x. Some t = Some (t\<lparr>tid := x\<rparr>)" for t :: rtf_task by (rule exI [of _ "tid t"]) simp
    ultimately have "same_but_tid (heap w) (heap w') (own j)" by (simp add: same_but_tid_def)
    moreover have "same_statics (dl_ptr (plugin s ! j)) w w'"
    proof (cases "dl_ptr (plugin s ! j) = dl_ptr (plugin s ! i)")
      case True
      then have "dl_ptr (plugin s ! j) = SCHED_FP_so \<or> dl_ptr (plugin s ! j) = SCHED_EDF_so"
        using libs i j False unfolding libs_ok_def by metis
      then show ?thesis by (auto simp: same_statics_def)
    next
      case False
      with tch show ?thesis by (simp add: touches_def)
    qed
    ultimately show ?thesis using plg.inv_frame [OF oj(2)] oj(1) False by simp
  qed
  ultimately show "plugins_ok os (s\<lparr>plugin := (plugin s)[i := this']\<rparr>) w' (own(i := S))"
    by (simp add: plugins_ok_def)
  show "same_plugins i s (s\<lparr>plugin := (plugin s)[i := this']\<rparr>)"
    unfolding same_plugins_def using sp i by (intro exI [of _ "(plugin s)[i := this']"]) (auto simp: nth_list_update)
qed

lemma schedule_on_ok:
  assumes ok: "plugins_ok os s w own" and i: "i < length (plugin s)" and p: "\<forall>j < length (plugin s). p \<notin> own j"
    and t: "heap w p = Some t" and adm: "plg_admissible (plugin s ! i) t"
  shows "\<exists>s' w'. schedule_on os i p (s, w) = Some (s', w') \<and> plugins_ok os s' w' (own(i := insert p (own i))) \<and>
    same_plugins i s s' \<and> touches (dl_ptr (plugin s ! i)) p (own i) w w'"
proof -
  have inv: "plg_inv os (plugin s ! i) w (own i)" using ok i by (simp add: plugins_ok_def)
  obtain this' w' where sch: "rtf_plg_task_schedule os (plugin s ! i) p w = Some (this', w')"
      and inv': "plg_inv os this' w' (insert p (own i))" and sp: "same_plugin (plugin s ! i) this'"
      and tch: "touches (dl_ptr (plugin s ! i)) p (own i) w w'"
    using plg.schedule_law [OF inv _ t adm] p i by blast
  have "schedule_on os i p (s, w) = Some (s\<lparr>plugin := (plugin s)[i := this']\<rparr>, w')"
    using i sch by (simp add: schedule_on_def c_simps)
  with plugins_ok_step [OF ok i sp tch inv'] p tch show ?thesis by auto
qed

lemma release_on_ok:
  assumes ok: "plugins_ok os s w own" and i: "i < length (plugin s)" and p: "p \<in> own i"
    and ids: "inj_on (\<lambda>q. t_id (the (heap w q))) (own i)"
  shows "\<exists>s' w'. release_on os (int i) p (s, w) = Some (s', w') \<and> plugins_ok os s' w' (own(i := own i - {p})) \<and>
    same_plugins i s s' \<and> touches (dl_ptr (plugin s ! i)) p (own i) w w' \<and> pluginid (the (heap w' p)) = - 1"
proof -
  have inv: "plg_inv os (plugin s ! i) w (own i)" using ok i by (simp add: plugins_ok_def)
  obtain r this' w' where rel: "rtf_plg_task_release os (plugin s ! i) p w = Some (r, this', w')"
      and inv': "plg_inv os this' w' (own i - {p})" and sp: "same_plugin (plugin s ! i) this'"
      and tch: "touches (dl_ptr (plugin s ! i)) p (own i) w w'" and pid: "pluginid (the (heap w' p)) = - 1"
    using plg.release_law [OF inv p ids] by blast
  have "release_on os (int i) p (s, w) = Some (s\<lparr>plugin := (plugin s)[i := this']\<rparr>, w')"
    using i rel by (simp add: release_on_def c_simps)
  moreover have "\<forall>j < length (plugin s). j \<noteq> i \<longrightarrow> p \<notin> own j"
    using plugins_owned [OF ok i p] plugins_owned [OF ok, of _ p] by fastforce
  ultimately show ?thesis using plugins_ok_step [OF ok i sp tch inv'] tch pid by auto
qed

text \<open>Only the store changes outside the plugins.\<close>

lemma plugins_ok_frame:
  assumes ok: "plugins_ok os s w own" and "\<forall>i < length (plugin s). same_but_tid (heap w) (heap w') (own i)"
    and "rm_dist_prio w' = rm_dist_prio w" and "rr_dist_prio w' = rr_dist_prio w" and "rr_n_per_prio w' = rr_n_per_prio w"
    and "plugin s' = plugin s"
  shows "plugins_ok os s' w' own"
proof -
  have "same_statics l w w'" for l using assms(3-5) by (simp add: same_statics_def split: plugin_lib.splits)
  with assms plg.inv_frame show ?thesis unfolding plugins_ok_def by metis
qed

lemma plugins_ok_cong:
  "plugins_ok os s w own \<Longrightarrow> plugin s' = plugin s \<Longrightarrow> \<forall>i < length (plugin s). own' i = own i \<Longrightarrow> plugins_ok os s' w own'"
  by (simp add: plugins_ok_def)

subsection \<open>The decision of a test\<close>

definition first_answer :: "rtf_plugin list \<Rightarrow> rtf_task \<Rightarrow> int \<Rightarrow> nat option" where
  "first_answer ps t r = find (\<lambda>i. rtf_plg_task_accept (ps ! i) t = Some r) [0..<length ps]"

text \<open>The first plugin that accepts the task, else the first that accepts it partially.\<close>

definition decision :: "rtf_plugin list \<Rightarrow> rtf_task \<Rightarrow> (int \<times> nat) option" where
  "decision ps t = (case first_answer ps t RTF_OK of
       Some i \<Rightarrow> Some (RTF_OK, i)
     | None \<Rightarrow> (case first_answer ps t RTF_PARTIAL of Some i \<Rightarrow> Some (RTF_PARTIAL, i) | None \<Rightarrow> None))"

lemma first_answer_Some: "first_answer ps t r = Some i \<Longrightarrow> i < length ps \<and> rtf_plg_task_accept (ps ! i) t = Some r"
  by (auto simp: first_answer_def dest!: find_in_set)

lemma decision_Some:
  "decision ps t = Some (r, i) \<Longrightarrow>
     i < length ps \<and> rtf_plg_task_accept (ps ! i) t = Some r \<and> (r = RTF_OK \<or> r = RTF_PARTIAL)"
  by (auto simp: decision_def dest!: first_answer_Some split: option.splits)

text \<open>A fixed priority plugin takes every task.\<close>

lemma fp_decides:
  assumes "0 < length ps" and "dl_ptr (ps ! 0) = SCHED_FP_so" and "NUL \<in> set (sched_plugin (params t))"
  shows "decision ps t \<noteq> None"
proof -
  obtain b where "prefers_another (ps ! 0) t = Some b" using prefers_another_total [OF assms(3)] by blast
  then have "\<exists>r. rtf_plg_task_accept (ps ! 0) t = Some r \<and> (r = RTF_OK \<or> r = RTF_PARTIAL)"
    using assms(2) by (auto simp: rtf_plg_task_accept_def fp_task_accept_def fp_has_another_preference_def)
  then have "first_answer ps t RTF_OK \<noteq> None \<or> first_answer ps t RTF_PARTIAL \<noteq> None"
    using assms(1) by (fastforce simp: first_answer_def find_None_iff)
  then show ?thesis by (auto simp: decision_def split: option.split)
qed

lemma accept_loop_spec:
  assumes "\<forall>i \<in> set is. i < length (plugin s) \<and> i < length results \<and> rtf_plg_task_accept (plugin s ! i) t = Some (acc i)"
  shows "\<exists>res. accept_loop s t is results = Some (find (\<lambda>i. acc i = RTF_OK) is, res) \<and>
    (find (\<lambda>i. acc i = RTF_OK) is = None \<longrightarrow> length res = length results \<and>
       (\<forall>j < length results. res ! j = (if j \<in> set is then acc j else results ! j)))"
  using assms
proof (induction "is" arbitrary: results)
  case (Cons i "is")
  then have i: "i < length (plugin s)" "i < length results" "rtf_plg_task_accept (plugin s ! i) t = Some (acc i)" by simp_all
  show ?case
  proof (cases "acc i = RTF_OK")
    case True
    with i show ?thesis by (simp add: c_simps)
  next
    case False
    obtain res where "accept_loop s t is (results[i := acc i]) = Some (find (\<lambda>i. acc i = RTF_OK) is, res)"
        "find (\<lambda>i. acc i = RTF_OK) is = None \<longrightarrow> length res = length results \<and>
         (\<forall>j < length results. res ! j = (if j \<in> set is then acc j else results[i := acc i] ! j))"
      using Cons.IH [of "results[i := acc i]"] Cons.prems by auto
    with i False show ?thesis by (auto simp: c_simps nth_list_update)
  qed
qed simp

lemma partial_loop_spec:
  "\<forall>i \<in> set is. i < length results \<Longrightarrow> partial_loop is results = Some (find (\<lambda>i. results ! i = RTF_PARTIAL) is)"
  by (induction "is") (simp_all add: c_simps)

lemma find_cong_set: "(\<And>x. x \<in> set xs \<Longrightarrow> P x = Q x) \<Longrightarrow> find P xs = find Q xs"
  by (induction xs) simp_all

lemma test_and_assign_eq:
  assumes acc: "\<forall>i < length (plugin s). \<exists>r. rtf_plg_task_accept (plugin s ! i) t = Some r"
    and n: "num_of_plugins s = int (length (plugin s))" and t: "heap w p = Some t"
  shows "rtf_scheduler_test_and_assign os p (s, w) =
    (case decision (plugin s) t of
       None \<Rightarrow> Some (RTF_NO, s, w)
     | Some (r, i) \<Rightarrow> do {
         sw \<leftarrow> schedule_on os i p (s\<lparr>taskset := rtf_taskset_add_top (taskset s) p\<rparr>, w);
         Some (r, sw)
       })"
proof -
  let ?is = "[0..<length (plugin s)]" and ?res0 = "replicate (length (plugin s)) (0 :: int)"
  define acc where "acc i = the (rtf_plg_task_accept (plugin s ! i) t)" for i
  have A: "rtf_plg_task_accept (plugin s ! i) t = Some (acc i)" if "i < length (plugin s)" for i
    using assms(1) that by (auto simp: acc_def)
  then have fa: "first_answer (plugin s) t r = find (\<lambda>i. acc i = r) ?is" for r
    unfolding first_answer_def by (intro find_cong_set) simp
  obtain res where a: "accept_loop s t ?is ?res0 = Some (find (\<lambda>i. acc i = RTF_OK) ?is, res)"
      and res: "find (\<lambda>i. acc i = RTF_OK) ?is = None \<Longrightarrow> length res = length (plugin s) \<and>
       (\<forall>j < length (plugin s). res ! j = acc j)"
    using accept_loop_spec [of ?is s ?res0 t acc] A by auto
  have nn: "nat (num_of_plugins s) = length (plugin s)" using n by simp
  show ?thesis
  proof (cases "find (\<lambda>i. acc i = RTF_OK) ?is")
    case (Some i)
    then show ?thesis using t a
      by (simp add: rtf_scheduler_test_and_assign_def nn decision_def fa)
  next
    case None
    then have pl: "partial_loop ?is res = Some (find (\<lambda>i. res ! i = RTF_PARTIAL) ?is)"
      using res by (intro partial_loop_spec) simp
    have "find (\<lambda>i. res ! i = RTF_PARTIAL) ?is = find (\<lambda>i. acc i = RTF_PARTIAL) ?is"
      using res [OF None] by (intro find_cong_set) simp
    with pl None a t show ?thesis
      by (simp add: rtf_scheduler_test_and_assign_def nn decision_def fa split: option.split)
  qed
qed

subsection \<open>The invariant of the scheduler\<close>

definition owns :: "rtf_scheduler \<Rightarrow> heap \<Rightarrow> nat \<Rightarrow> task_ptr set" where
  "owns s h i = {p \<in> set (ts_tasks (taskset s)). pluginid (the (h p)) = int i}"

text \<open>
  The task set is well formed, the plugins own the tasks that carry their id and satisfy their
  invariants, every task belongs to a plugin, and the ids are different and were given out before.
\<close>

definition sched_inv :: "'k kernel \<Rightarrow> 'k sched_state \<Rightarrow> bool" where
  "sched_inv os = (\<lambda>(s, w). ts_ok (heap w) (taskset s) \<and> num_of_plugins s = int (length (plugin s)) \<and>
     plugins_ok os s w (owns s (heap w)) \<and>
     (\<forall>p \<in> set (ts_tasks (taskset s)). \<exists>i < length (plugin s). pluginid (the (heap w p)) = int i) \<and>
     inj_on (\<lambda>p. t_id (the (heap w p))) (set (ts_tasks (taskset s))) \<and>
     0 \<le> last_task_id s \<and> (\<forall>p \<in> set (ts_tasks (taskset s)). uint (t_id (the (heap w p))) \<le> last_task_id s))"

lemma sched_invD:
  assumes "sched_inv os (s, w)"
  shows "ts_ok (heap w) (taskset s)" "num_of_plugins s = int (length (plugin s))" "plugins_ok os s w (owns s (heap w))"
    "\<And>p. p \<in> set (ts_tasks (taskset s)) \<Longrightarrow> \<exists>i < length (plugin s). pluginid (the (heap w p)) = int i"
    "inj_on (\<lambda>p. t_id (the (heap w p))) (set (ts_tasks (taskset s)))" "0 \<le> last_task_id s"
    "\<And>p. p \<in> set (ts_tasks (taskset s)) \<Longrightarrow> uint (t_id (the (heap w p))) \<le> last_task_id s"
    "\<And>p. p \<in> set (ts_tasks (taskset s)) \<Longrightarrow> allocated (heap w) p"
  using assms by (auto simp: sched_inv_def ts_ok_def)

lemma accept_defined:
  assumes "sched_inv os (s, w)" and "NUL \<in> set (sched_plugin (params t))" and "i < length (plugin s)"
  shows "\<exists>r. rtf_plg_task_accept (plugin s ! i) t = Some r"
  using sched_invD(3) [OF assms(1)] assms(2,3) plg.accept_total unfolding plugins_ok_def by metis

text \<open>The record a new task starts with.\<close>

definition new_task :: "rtf_scheduler \<Rightarrow> rtf_params \<Rightarrow> int \<Rightarrow> rtf_task" where
  "new_task s tp ppid = zero_task\<lparr>t_id := u32_of_int (last_task_id s + 1), clk := CLK, ptid := ppid,
     pluginid := - 1, params := tp\<rparr>"

lemma create_eq:
  assumes "sys_calloc os (heap w) = Some p"
  shows "rtf_scheduler_task_create os tp ppid (s, w) =
    rtf_scheduler_test_and_assign os p (s\<lparr>last_task_id := last_task_id s + 1\<rparr>,
      w\<lparr>heap := (heap w)(p \<mapsto> new_task s tp ppid)\<rparr>)"
proof -
  have "zero_task\<lparr>t_id := u32_of_int (last_task_id s + 1), ptid := ppid, pluginid := - 1, params := tp\<rparr>\<lparr>clk := CLK\<rparr>
      = new_task s tp ppid" by (simp add: new_task_def zero_task_def)
  then show ?thesis
    using assms by (simp add: rtf_scheduler_task_create_def rtf_task_init_def c_simps new_task_def zero_task_def)
qed

lemma touches_task:
  assumes "touches lib p own w w'" and "heap w q = Some t"
  obtains t' where "heap w' q = Some t'" "t_id t' = t_id t" "ptid t' = ptid t" "params t' = params t"
    "q \<noteq> p \<Longrightarrow> pluginid t' = pluginid t"
  using assms unfolding touches_def same_identity_def same_booking_def by metis

lemma sched_inv_same_tasks:
  assumes "sched_inv os (s, w)" and "\<forall>p \<in> set (ts_tasks (taskset s)). heap w' p = heap w p"
    and "rm_dist_prio w' = rm_dist_prio w" and "rr_dist_prio w' = rr_dist_prio w" and "rr_n_per_prio w' = rr_n_per_prio w"
    and "last_task_id s \<le> i"
  shows "sched_inv os (s\<lparr>last_task_id := i\<rparr>, w')"
    and "plugins_ok os s w' (owns s (heap w))"
proof -
  note inv = sched_invD [OF assms(1)]
  have own: "owns (s\<lparr>last_task_id := i\<rparr>) (heap w') = owns s (heap w)"
    using assms(2) by (auto simp: owns_def fun_eq_iff)
  have "\<exists>x. heap w q = Some (t\<lparr>tid := x\<rparr>)" if "heap w q = Some t" for q t
    using that by (intro exI [of _ "tid t"]) simp
  then have "\<forall>i < length (plugin s). same_but_tid (heap w) (heap w') (owns s (heap w) i)"
    using assms(2) by (auto simp: same_but_tid_def owns_def)
  from plugins_ok_frame [OF inv(3) this assms(3-5) refl]
  show ok: "plugins_ok os s w' (owns s (heap w))" .
  have "ts_ok (heap w') (taskset s)" using inv(1) assms(2) by (auto simp: ts_ok_def allocated_def domIff)
  moreover have "inj_on (\<lambda>p. t_id (the (heap w' p))) (set (ts_tasks (taskset s)))"
    using inv(5) assms(2) by (simp add: inj_on_def)
  moreover have "plugins_ok os (s\<lparr>last_task_id := i\<rparr>) w' (owns s (heap w))"
    using ok by (rule plugins_ok_cong) simp_all
  ultimately show "sched_inv os (s\<lparr>last_task_id := i\<rparr>, w')"
    using inv(2,4,6,7) assms(2,6) own by (fastforce simp: sched_inv_def)
qed

subsection \<open>Creating a task\<close>

lemma sched_inv_after_schedule:
  assumes inv: "sched_inv os (s, w)" and ok: "plugins_ok os s' w' ((owns s (heap w1))(i := insert p (owns s (heap w1) i)))"
    and sp: "same_plugins i (s\<lparr>last_task_id := n, taskset := rtf_taskset_add_top (taskset s) p\<rparr>) s'"
    and tch: "touches lib p own w1 w'" and w1: "heap w1 = (heap w)(p \<mapsto> t)" and new: "heap w p = None"
    and i: "i < length (plugin s)" and ids: "last_task_id s < uint (t_id t)" "uint (t_id t) \<le> n"
  shows "sched_inv os (s', w')" and "ts_tasks (taskset s') = p # ts_tasks (taskset s)" and "pluginid (the (heap w' p)) = int i"
proof -
  note I = sched_invD [OF inv]
  let ?xs = "ts_tasks (taskset s)"
  obtain ps where s': "s' = s\<lparr>last_task_id := n, taskset := rtf_taskset_add_top (taskset s) p, plugin := ps\<rparr>"
      and len: "length ps = length (plugin s)"
    using sp unfolding same_plugins_def by auto
  show tasks: "ts_tasks (taskset s') = p # ?xs"
    by (simp add: s' rtf_taskset_add_top_def list_add_top_def)
  have pn: "p \<notin> set ?xs" using I(8) new by (auto simp: allocated_def)
  obtain tp where tp: "heap w' p = Some tp" "t_id tp = t_id t"
    using touches_task [OF tch, of p t] w1 by auto
  have old: "\<exists>t'. heap w' q = Some t' \<and> t_id t' = t_id (the (heap w q)) \<and> pluginid t' = pluginid (the (heap w q))"
    if q: "q \<in> set ?xs" for q
  proof -
    obtain tq where tq: "heap w q = Some tq" using I(8) [OF q] by (auto elim: allocatedE)
    have "q \<noteq> p" using q pn by blast
    moreover from this tq w1 have "heap w1 q = Some tq" by simp
    ultimately show ?thesis using tq touches_task [OF tch, of q tq] by auto
  qed
  show pid: "pluginid (the (heap w' p)) = int i"
    using plugins_owned [OF ok, of i p] i len s' by auto
  have oldv: "pluginid (the (heap w' q)) = pluginid (the (heap w q))" "t_id (the (heap w' q)) = t_id (the (heap w q))"
    "allocated (heap w') q" if "q \<in> set ?xs" for q using old [OF that] by (auto simp: allocated_Some)
  have own: "owns s' (heap w') j = ((owns s (heap w1))(i := insert p (owns s (heap w1) i))) j" for j
    using oldv(1) pn pid tasks unfolding owns_def w1 by auto
  have "list_ok (taskset s')" using I(1) by (simp add: ts_ok_def list_ok_def s' rtf_taskset_add_top_def list_add_top_def)
  then have "ts_ok (heap w') (taskset s')"
    using I(1) pn tasks tp oldv(3) unfolding ts_ok_def by (auto simp: allocated_Some)
  moreover have "plugins_ok os s' w' (owns s' (heap w'))" using ok by (rule plugins_ok_cong) (simp_all add: own)
  moreover have "inj_on (\<lambda>q. t_id (the (heap w' q))) (set (ts_tasks (taskset s')))"
  proof -
    have "t_id t \<noteq> t_id (the (heap w q))" if "q \<in> set ?xs" for q using ids I(7) [OF that] by auto
    moreover have "inj_on (\<lambda>q. t_id (the (heap w' q))) (set ?xs)"
      using I(5) oldv(2) unfolding inj_on_def by metis
    ultimately show ?thesis using tp oldv(2) pn unfolding tasks by auto
  qed
  moreover have "\<exists>j < length (plugin s'). pluginid (the (heap w' q)) = int j" if "q \<in> set (ts_tasks (taskset s'))" for q
  proof (cases "q = p")
    case True
    then show ?thesis using pid i len s' by auto
  next
    case False
    then have "q \<in> set ?xs" using that tasks by simp
    then show ?thesis using I(4) [of q] oldv(1) [of q] len s' by simp
  qed
  moreover have "uint (t_id (the (heap w' q))) \<le> n" if "q \<in> set (ts_tasks (taskset s'))" for q
  proof (cases "q = p")
    case False
    then have "q \<in> set ?xs" using that tasks by simp
    then show ?thesis using I(7) [of q] oldv(2) [of q] ids by simp
  qed (use tp ids in simp)
  ultimately show "sched_inv os (s', w')"
    using I(2,6) ids len by (simp add: sched_inv_def s')
qed

lemma create_full:
  assumes "sched_inv os (s, w)" and "sys_calloc os (heap w) = Some p" and "heap w p = None"
    and "last_task_id s < 2 ^ 31 - 1" and "NUL \<in> set (sched_plugin tp)"
    and "\<forall>r i. decision (plugin s) (new_task s tp ppid) = Some (r, i) \<longrightarrow> plg_admissible (plugin s ! i) (new_task s tp ppid)"
  shows "\<exists>r s' w'. rtf_scheduler_task_create os tp ppid (s, w) = Some (r, s', w') \<and> sched_inv os (s', w') \<and>
    map dl_ptr (plugin s') = map dl_ptr (plugin s) \<and> dom (heap w') = insert p (dom (heap w)) \<and>
    (\<forall>q \<in> set (ts_tasks (taskset s)). \<exists>t t'. heap w q = Some t \<and> heap w' q = Some t' \<and>
       t_id t' = t_id t \<and> ptid t' = ptid t \<and> pluginid t' = pluginid t \<and> params t' = params t) \<and>
    last_task_id s' = last_task_id s + 1 \<and>
    (case decision (plugin s) (new_task s tp ppid) of
       None \<Rightarrow> r = RTF_NO \<and> taskset s' = taskset s \<and> plugin s' = plugin s
     | Some (a, i) \<Rightarrow> r = a \<and> ts_tasks (taskset s') = p # ts_tasks (taskset s) \<and>
         (\<exists>t. heap w' p = Some t \<and> pluginid t = int i \<and> ptid t = ppid \<and> params t = tp \<and>
            t_id t = u32_of_int (last_task_id s + 1)))"
proof -
  note I = sched_invD [OF assms(1)]
  let ?t = "new_task s tp ppid" and ?n = "last_task_id s + 1"
  define s1 where "s1 = s\<lparr>last_task_id := ?n\<rparr>"
  define w1 where "w1 = w\<lparr>heap := (heap w)(p \<mapsto> ?t)\<rparr>"
  have pn: "p \<notin> set (ts_tasks (taskset s))" using I(8) assms(3) by (auto simp: allocated_def)
  have inv1: "sched_inv os (s1, w1)" and ok1: "plugins_ok os s w1 (owns s (heap w))"
    unfolding s1_def
    by (rule sched_inv_same_tasks [OF assms(1)]; use pn in \<open>force simp: w1_def\<close>)+
  have acc: "\<forall>i < length (plugin s1). \<exists>r. rtf_plg_task_accept (plugin s1 ! i) ?t = Some r"
    using accept_defined [OF assms(1), of ?t] assms(5) by (simp add: s1_def new_task_def)
  have run: "rtf_scheduler_task_create os tp ppid (s, w) =
    (case decision (plugin s) ?t of
       None \<Rightarrow> Some (RTF_NO, s1, w1)
     | Some (r, i) \<Rightarrow> do {
         sw \<leftarrow> schedule_on os i p (s1\<lparr>taskset := rtf_taskset_add_top (taskset s1) p\<rparr>, w1);
         Some (r, sw)
       })"
    using test_and_assign_eq [OF acc, of w1 p os] I(2)
    by (simp add: create_eq [OF assms(2)] w1_def s1_def)
  show ?thesis
  proof (cases "decision (plugin s) ?t")
    case None
    moreover have "heap w q \<noteq> None \<and> heap w1 q = heap w q" if "q \<in> set (ts_tasks (taskset s))" for q
      using that pn I(8) [OF that] by (auto simp: w1_def allocated_def)
    ultimately show ?thesis using run inv1 by (fastforce simp: s1_def w1_def)
  next
    case (Some d)
    then obtain r i where d: "decision (plugin s) ?t = Some (r, i)" by (cases d) auto
    note D = decision_Some [OF d]
    define s2 where "s2 = s1\<lparr>taskset := rtf_taskset_add_top (taskset s1) p\<rparr>"
    have own: "owns s (heap w) = owns s (heap w1)" using pn by (auto simp: owns_def w1_def fun_eq_iff)
    have ok2: "plugins_ok os s2 w1 (owns s (heap w1))"
      using ok1 unfolding own by (rule plugins_ok_cong) (simp_all add: s2_def s1_def)
    have uid: "uint (t_id ?t) = ?n" using I(6) assms(4) by (simp add: new_task_def uint_u32_of_int)
    have "\<exists>s' w'. schedule_on os i p (s2, w1) = Some (s', w') \<and>
        plugins_ok os s' w' ((owns s (heap w1))(i := insert p (owns s (heap w1) i))) \<and>
        same_plugins i s2 s' \<and> touches (dl_ptr (plugin s2 ! i)) p (owns s (heap w1) i) w1 w'"
    proof (rule schedule_on_ok [OF ok2])
      show "i < length (plugin s2)" "plg_admissible (plugin s2 ! i) ?t"
        using D assms(6) [rule_format, OF d] by (simp_all add: s2_def s1_def)
      show "heap w1 p = Some ?t" by (simp add: w1_def)
      show "\<forall>j < length (plugin s2). p \<notin> owns s (heap w1) j" using pn by (simp add: owns_def)
    qed
    then obtain s' w' where sch: "schedule_on os i p (s2, w1) = Some (s', w')"
        and ok': "plugins_ok os s' w' ((owns s (heap w1))(i := insert p (owns s (heap w1) i)))"
        and sp: "same_plugins i s2 s'" and tch: "touches (dl_ptr (plugin s2 ! i)) p (owns s (heap w1) i) w1 w'"
      by blast
    have sp': "same_plugins i (s\<lparr>last_task_id := ?n, taskset := rtf_taskset_add_top (taskset s) p\<rparr>) s'"
      using sp by (simp add: s2_def s1_def)
    have h1: "heap w1 = (heap w)(p \<mapsto> ?t)" by (simp add: w1_def)
    have il: "i < length (plugin s)" using D by simp
    have lt: "last_task_id s < uint (t_id ?t)" "uint (t_id ?t) \<le> ?n" using uid by simp_all
    note R = sched_inv_after_schedule [OF assms(1) ok' sp' tch h1 assms(3) il lt]
    obtain t' where t': "heap w' p = Some t'" "t_id t' = t_id ?t" "ptid t' = ptid ?t" "params t' = params ?t"
      using touches_task [OF tch, of p ?t] by (auto simp: w1_def)
    have libs: "map dl_ptr (plugin s') = map dl_ptr (plugin s)" using same_plugins_libs [OF sp'] by simp
    have dm: "dom (heap w') = insert p (dom (heap w))" using tch by (simp add: touches_def h1)
    have old: "\<forall>q \<in> set (ts_tasks (taskset s)). \<exists>t t'. heap w q = Some t \<and> heap w' q = Some t' \<and>
       t_id t' = t_id t \<and> ptid t' = ptid t \<and> pluginid t' = pluginid t \<and> params t' = params t"
    proof
      fix q assume q: "q \<in> set (ts_tasks (taskset s))"
      then obtain tq where tq: "heap w q = Some tq" using I(8) by (auto elim: allocatedE)
      have "q \<noteq> p" using q pn by blast
      moreover from this have "heap w1 q = Some tq" using tq by (simp add: h1)
      ultimately show "\<exists>t t'. heap w q = Some t \<and> heap w' q = Some t' \<and>
          t_id t' = t_id t \<and> ptid t' = ptid t \<and> pluginid t' = pluginid t \<and> params t' = params t"
        using tq touches_task [OF tch, of q tq] by metis
    qed
    have lid: "last_task_id s' = ?n" using sp' by (auto simp: same_plugins_def)
    have "rtf_scheduler_task_create os tp ppid (s, w) = Some (r, s', w')" using run d sch by (simp add: s2_def)
    moreover have "\<exists>t. heap w' p = Some t \<and> pluginid t = int i \<and> ptid t = ppid \<and> params t = tp \<and>
        t_id t = u32_of_int ?n"
      using t' R(3) by (simp add: new_task_def)
    ultimately show ?thesis unfolding d option.case prod.case using R(1,2) lid libs dm old by blast
  qed
qed

lemma create_ok:
  assumes "sched_inv os (s, w)" and "sys_calloc os (heap w) = Some p" and "heap w p = None"
    and "last_task_id s < 2 ^ 31 - 1" and "NUL \<in> set (sched_plugin tp)"
    and "\<forall>r i. decision (plugin s) (new_task s tp ppid) = Some (r, i) \<longrightarrow> plg_admissible (plugin s ! i) (new_task s tp ppid)"
  shows "\<exists>r s' w'. rtf_scheduler_task_create os tp ppid (s, w) = Some (r, s', w') \<and> sched_inv os (s', w') \<and>
    map dl_ptr (plugin s') = map dl_ptr (plugin s) \<and> dom (heap w') = insert p (dom (heap w)) \<and>
    (\<forall>q \<in> set (ts_tasks (taskset s)). t_id (the (heap w' q)) = t_id (the (heap w q))) \<and>
    last_task_id s' = last_task_id s + 1 \<and>
    (case decision (plugin s) (new_task s tp ppid) of
       None \<Rightarrow> r = RTF_NO \<and> taskset s' = taskset s \<and> plugin s' = plugin s
     | Some (a, i) \<Rightarrow> r = a \<and> ts_tasks (taskset s') = p # ts_tasks (taskset s) \<and>
         (\<exists>t. heap w' p = Some t \<and> pluginid t = int i \<and> ptid t = ppid \<and> params t = tp \<and>
            t_id t = u32_of_int (last_task_id s + 1)))"
proof -
  from create_full [OF assms] obtain r s' w' where "rtf_scheduler_task_create os tp ppid (s, w) = Some (r, s', w')" and
    R: "\<forall>q \<in> set (ts_tasks (taskset s)). \<exists>t t'. heap w q = Some t \<and> heap w' q = Some t' \<and>
       t_id t' = t_id t \<and> ptid t' = ptid t \<and> pluginid t' = pluginid t \<and> params t' = params t"
    by blast
  moreover from R have "\<forall>q \<in> set (ts_tasks (taskset s)). t_id (the (heap w' q)) = t_id (the (heap w q))" by fastforce
  ultimately show ?thesis using create_full [OF assms] by auto
qed

subsection \<open>Removing tasks\<close>

text \<open>A task is released by its plugin and its memory is freed; the task set already misses it.\<close>

lemma release_and_free:
  assumes inv: "sched_inv os (s, w)" and p: "p \<in> set (ts_tasks (taskset s))" and t: "heap w p = Some t"
    and xs: "distinct xs" "set xs = set (ts_tasks (taskset s)) - {p}"
  shows "\<exists>s' w'. release_on os (pluginid t) p (s\<lparr>taskset := ts_of xs\<rparr>, w) = Some (s', w') \<and>
    sched_inv os (s', w'\<lparr>heap := rtf_task_release (heap w') p\<rparr>) \<and> taskset s' = ts_of xs \<and>
    last_task_id s' = last_task_id s \<and> map dl_ptr (plugin s') = map dl_ptr (plugin s) \<and>
    (\<forall>q \<in> set xs. \<exists>t'. heap w' q = Some t' \<and> t_id t' = t_id (the (heap w q)) \<and>
       ptid t' = ptid (the (heap w q)) \<and> params t' = params (the (heap w q)) \<and> pluginid t' = pluginid (the (heap w q))) \<and>
    dom (heap w') = dom (heap w) \<and> (\<forall>q. q \<notin> set (ts_tasks (taskset s)) \<longrightarrow> heap w' q = heap w q)"
proof -
  note I = sched_invD [OF inv]
  let ?own = "owns s (heap w)"
  obtain i where i: "i < length (plugin s)" "pluginid t = int i" using I(4) [OF p] t by auto
  define s1 where "s1 = s\<lparr>taskset := ts_of xs\<rparr>"
  have ok1: "plugins_ok os s1 w ?own" using I(3) by (rule plugins_ok_cong) (simp_all add: s1_def)
  have po: "p \<in> ?own i" using p t i by (simp add: owns_def)
  have inj: "inj_on (\<lambda>q. t_id (the (heap w q))) (?own i)" by (rule inj_on_subset [OF I(5)]) (auto simp: owns_def)
  obtain s' w' where rel: "release_on os (int i) p (s1, w) = Some (s', w')"
      and ok': "plugins_ok os s' w' (?own(i := ?own i - {p}))" and sp: "same_plugins i s1 s'"
      and tch: "touches (dl_ptr (plugin s1 ! i)) p (?own i) w w'"
    using release_on_ok [OF ok1 _ po inj] i by (auto simp: s1_def)
  obtain ps where s': "s' = s\<lparr>taskset := ts_of xs, plugin := ps\<rparr>" and len: "length ps = length (plugin s)"
    using sp unfolding same_plugins_def s1_def by auto
  have old: "\<exists>t'. heap w' q = Some t' \<and> t_id t' = t_id (the (heap w q)) \<and> ptid t' = ptid (the (heap w q)) \<and>
      params t' = params (the (heap w q)) \<and> pluginid t' = pluginid (the (heap w q))"
    if q: "q \<in> set xs" for q
  proof -
    have "q \<in> set (ts_tasks (taskset s))" "q \<noteq> p" using q xs by auto
    moreover from this(1) obtain tq where "heap w q = Some tq" using I(8) by (auto elim: allocatedE)
    ultimately show ?thesis using touches_task [OF tch, of q tq] by auto
  qed
  have oldv: "pluginid (the (heap w' q)) = pluginid (the (heap w q))" "t_id (the (heap w' q)) = t_id (the (heap w q))"
    "allocated (heap w') q" if "q \<in> set xs" for q using old [OF that] by (auto simp: allocated_Some)
  let ?w = "w'\<lparr>heap := rtf_task_release (heap w') p\<rparr>"
  have hw: "heap ?w q = heap w' q" if "q \<noteq> p" for q using that by (simp add: rtf_task_release_def)
  have px: "p \<notin> set xs" using xs by simp
  have np: "q \<noteq> p" if "q \<in> set xs" for q using that px by blast
  have "p \<notin> (?own(i := ?own i - {p})) j" for j using t i by (auto simp: owns_def)
  then have "\<forall>j < length (plugin s'). same_but_tid (heap w') (heap ?w) ((?own(i := ?own i - {p})) j)"
    unfolding same_but_tid_def by (metis (no_types, lifting) hw rtf_task.surjective rtf_task.update_convs(3))
  then have ok2: "plugins_ok os s' ?w (?own(i := ?own i - {p}))"
    using ok' by (intro plugins_ok_frame [OF ok']) simp_all
  have own: "owns s' (heap ?w) j = (?own(i := ?own i - {p})) j" for j
  proof -
    have "pluginid (the (heap ?w q)) = pluginid (the (heap w q))" if "q \<in> set xs" for q
      using oldv(1) [OF that] hw [OF np [OF that]] by simp
    then have "owns s' (heap ?w) j = {q \<in> set xs. pluginid (the (heap w q)) = int j}"
      unfolding owns_def s' by auto
    also have "\<dots> = {q \<in> set (ts_tasks (taskset s)). pluginid (the (heap w q)) = int j} - {p}"
      unfolding xs(2) by blast
    also have "\<dots> = (?own(i := ?own i - {p})) j"
      using t i(2) by (cases "j = i") (auto simp: owns_def)
    finally show ?thesis .
  qed
  have "sched_inv os (s', ?w)"
    unfolding sched_inv_def
  proof (clarify, intro conjI ballI)
    show "ts_ok (heap ?w) (taskset s')"
      using xs(1) oldv(3) hw np by (simp add: s' allocated_def domIff)
    show "num_of_plugins s' = int (length (plugin s'))" using I(2) len by (simp add: s')
    show "plugins_ok os s' ?w (owns s' (heap ?w))" using ok2 own by (intro plugins_ok_cong [OF ok2]) simp_all
    show "inj_on (\<lambda>q. t_id (the (heap ?w q))) (set (ts_tasks (taskset s')))"
      using I(5) oldv(2) hw np xs(2) unfolding s' inj_on_def by auto
    show "0 \<le> last_task_id s'" using I(6) by (simp add: s')
    fix q assume "q \<in> set (ts_tasks (taskset s'))"
    then have q: "q \<in> set xs" "q \<in> set (ts_tasks (taskset s))" using xs(2) by (auto simp: s')
    show "\<exists>j < length (plugin s'). pluginid (the (heap ?w q)) = int j"
      using I(4) [OF q(2)] oldv(1) [OF q(1)] hw np [OF q(1)] len by (simp add: s')
    show "uint (t_id (the (heap ?w q))) \<le> last_task_id s'"
      using I(7) [OF q(2)] oldv(2) [OF q(1)] hw np [OF q(1)] by (simp add: s')
  qed
  moreover have "\<forall>q. q \<notin> set (ts_tasks (taskset s)) \<longrightarrow> heap w' q = heap w q"
    using tch p unfolding touches_def by (auto simp: owns_def)
  moreover have "dom (heap w') = dom (heap w)" using tch by (simp add: touches_def)
  moreover have "map dl_ptr ps = map dl_ptr (plugin s)" using same_plugins_libs [OF sp] s' by (simp add: s1_def)
  ultimately show ?thesis using rel i(2) old s' by (simp add: s1_def)
qed

lemma destroy_ok:
  assumes "sched_inv os (s, w)"
  shows "\<exists>r s' w'. rtf_scheduler_task_destroy os rtf_id (s, w) = Some (r, s', w') \<and> sched_inv os (s', w') \<and>
    map dl_ptr (plugin s') = map dl_ptr (plugin s) \<and> dom (heap w') \<subseteq> dom (heap w) \<and> last_task_id s' = last_task_id s \<and>
    (case find (\<lambda>p. t_id (the (heap w p)) = rtf_id) (ts_tasks (taskset s)) of
       None \<Rightarrow> r = RTF_ERROR \<and> s' = s \<and> w' = w
     | Some p \<Rightarrow> r = RTF_OK \<and> heap w' p = None \<and> ts_tasks (taskset s') = filter (\<lambda>q. q \<noteq> p) (ts_tasks (taskset s)) \<and>
         (\<forall>q \<in> set (ts_tasks (taskset s')). \<exists>t t'. heap w q = Some t \<and> heap w' q = Some t' \<and>
            t_id t' = t_id t \<and> ptid t' = ptid t \<and> pluginid t' = pluginid t \<and> params t' = params t))"
proof -
  note I = sched_invD [OF assms]
  let ?m = "\<lambda>p. t_id (the (heap w p)) = rtf_id" and ?xs = "ts_tasks (taskset s)"
  have rem: "rtf_taskset_remove_by_rsvid (heap w) (taskset s) rtf_id = Some (find ?m ?xs, ts_of (drop_first ?m ?xs))"
    using I(1) by (rule ts_remove_by_rsvid)
  show ?thesis
  proof (cases "find ?m ?xs")
    case None
    have "taskset s = ts_of ?xs" using I(1) by (intro list_ok_ts_of_eq) (simp add: ts_ok_def)
    then have "s\<lparr>taskset := ts_of ?xs\<rparr> = s" by simp
    with None rem assms show ?thesis
      by (simp add: rtf_scheduler_task_destroy_def drop_first_absent)
  next
    case (Some p)
    then have p: "p \<in> set ?xs" by (auto dest: find_in_set)
    then obtain t where t: "heap w p = Some t" using I(8) by (auto elim: allocatedE)
    have d: "distinct ?xs" using I(1) by (simp add: ts_ok_def)
    have sub: "distinct (drop_first ?m ?xs)" "set (drop_first ?m ?xs) = set ?xs - {p}"
      using distinct_drop_first [OF d] set_drop_first_distinct [OF d Some] by simp_all
    obtain us vs where split: "?xs = us @ p # vs" "drop_first ?m ?xs = us @ vs"
      using drop_first_split [OF Some] by blast
    with d have "filter (\<lambda>q. q \<noteq> p) us = us" "filter (\<lambda>q. q \<noteq> p) vs = vs"
      by (auto simp: filter_id_conv)
    then have fl: "drop_first ?m ?xs = filter (\<lambda>q. q \<noteq> p) ?xs" unfolding split(2) unfolding split(1) by simp
    from release_and_free [OF assms p t sub]
    obtain s' w' where R: "release_on os (pluginid t) p (s\<lparr>taskset := ts_of (drop_first ?m ?xs)\<rparr>, w) = Some (s', w')"
        "sched_inv os (s', w'\<lparr>heap := rtf_task_release (heap w') p\<rparr>)" "taskset s' = ts_of (drop_first ?m ?xs)"
        "\<forall>q \<in> set (drop_first ?m ?xs). \<exists>t'. heap w' q = Some t' \<and> t_id t' = t_id (the (heap w q)) \<and>
       ptid t' = ptid (the (heap w q)) \<and> params t' = params (the (heap w q)) \<and> pluginid t' = pluginid (the (heap w q))"
        "last_task_id s' = last_task_id s" "map dl_ptr (plugin s') = map dl_ptr (plugin s)" "dom (heap w') = dom (heap w)"
      by blast
    have dm: "dom (rtf_task_release (heap w') p) \<subseteq> dom (heap w)" using R(7) by (auto simp: rtf_task_release_def)
    have "\<exists>t t'. heap w q = Some t \<and> rtf_task_release (heap w') p q = Some t' \<and> t_id t' = t_id t \<and> ptid t' = ptid t \<and>
        pluginid t' = pluginid t \<and> params t' = params t" if "q \<in> set (drop_first ?m ?xs)" for q
    proof -
      have "q \<in> set ?xs" "q \<noteq> p" using that sub(2) by auto
      then obtain tq where "heap w q = Some tq" using I(8) by (auto elim: allocatedE)
      with R(4) that \<open>q \<noteq> p\<close> show ?thesis by (auto simp: rtf_task_release_def)
    qed
    with Some rem t R(1-6) dm show ?thesis
      by (simp add: rtf_scheduler_task_destroy_def flip: fl) (simp add: rtf_task_release_def)
  qed
qed

lemma delete_ok:
  assumes "sched_inv os (s, w)"
  shows "\<exists>s' w'. rtf_scheduler_delete os ppid (s, w) = Some (s', w') \<and> sched_inv os (s', w') \<and>
    map dl_ptr (plugin s') = map dl_ptr (plugin s) \<and> dom (heap w') \<subseteq> dom (heap w) \<and> last_task_id s' = last_task_id s \<and>
    ts_tasks (taskset s') = filter (\<lambda>p. ptid (the (heap w p)) \<noteq> ppid) (ts_tasks (taskset s)) \<and>
    (\<forall>p \<in> set (ts_tasks (taskset s)). ptid (the (heap w p)) = ppid \<longrightarrow> heap w' p = None) \<and>
    (\<forall>p \<in> set (ts_tasks (taskset s')). \<exists>t t'. heap w p = Some t \<and> heap w' p = Some t' \<and>
       t_id t' = t_id t \<and> ptid t' = ptid t \<and> pluginid t' = pluginid t \<and> params t' = params t) \<and>
    (\<forall>q. q \<notin> set (ts_tasks (taskset s)) \<longrightarrow> heap w' q = heap w q)"
  using assms
proof (induction "length (ts_tasks (taskset s))" arbitrary: s w rule: less_induct)
  case less
  note I = sched_invD [OF less.prems]
  let ?m = "\<lambda>p. ptid (the (heap w p)) = ppid" and ?xs = "ts_tasks (taskset s)"
  have rem: "rtf_taskset_remove_by_ppid (heap w) (taskset s) ppid = Some (find ?m ?xs, ts_of (drop_first ?m ?xs))"
    using I(1) by (rule ts_remove_by_ppid)
  show ?case
  proof (cases "find ?m ?xs")
    case None
    then have all: "\<forall>x \<in> set ?xs. \<not> ?m x" by (auto simp: find_None_iff)
    then have fl: "filter (\<lambda>p. \<not> ?m p) ?xs = ?xs" by (simp add: filter_id_conv)
    have "taskset s = ts_of ?xs" using I(1) by (intro list_ok_ts_of_eq) (simp add: ts_ok_def)
    then have "s\<lparr>taskset := ts_of ?xs\<rparr> = s" by simp
    then have run: "rtf_scheduler_delete os ppid (s, w) = Some (s, w)"
      using None rem by (subst rtf_scheduler_delete.simps) (simp add: drop_first_absent)
    have "\<exists>t t'. heap w p = Some t \<and> heap w p = Some t' \<and> t_id t' = t_id t \<and> ptid t' = ptid t \<and>
        pluginid t' = pluginid t \<and> params t' = params t" if "p \<in> set ?xs" for p
      using I(8) [OF that] by (auto elim: allocatedE)
    with run less.prems fl all show ?thesis by (intro exI [of _ s] exI [of _ w]) auto
  next
    case (Some p)
    then have p: "p \<in> set ?xs" "?m p" by (auto dest: find_in_set)
    then obtain t where t: "heap w p = Some t" using I(8) by (auto elim: allocatedE)
    have d: "distinct ?xs" using I(1) by (simp add: ts_ok_def)
    let ?ys = "drop_first ?m ?xs"
    have sub: "distinct ?ys" "set ?ys = set ?xs - {p}"
      using distinct_drop_first [OF d] set_drop_first_distinct [OF d Some] by simp_all
    obtain us vs where split: "?xs = us @ p # vs" "?ys = us @ vs" using drop_first_split [OF Some] by blast
    have fl: "filter (\<lambda>q. \<not> ?m q) ?ys = filter (\<lambda>q. \<not> ?m q) ?xs" unfolding split(2) unfolding split(1) using p(2) by simp
    from release_and_free [OF less.prems p(1) t sub]
    obtain s1 w1 where R: "release_on os (pluginid t) p (s\<lparr>taskset := ts_of ?ys\<rparr>, w) = Some (s1, w1)"
        "sched_inv os (s1, w1\<lparr>heap := rtf_task_release (heap w1) p\<rparr>)" "taskset s1 = ts_of ?ys"
        "\<forall>q \<in> set ?ys. \<exists>t'. heap w1 q = Some t' \<and> t_id t' = t_id (the (heap w q)) \<and>
          ptid t' = ptid (the (heap w q)) \<and> params t' = params (the (heap w q)) \<and> pluginid t' = pluginid (the (heap w q))"
        "\<forall>q. q \<notin> set ?xs \<longrightarrow> heap w1 q = heap w q"
        "last_task_id s1 = last_task_id s" "map dl_ptr (plugin s1) = map dl_ptr (plugin s)" "dom (heap w1) = dom (heap w)"
      by blast
    let ?w2 = "w1\<lparr>heap := rtf_task_release (heap w1) p\<rparr>"
    have h2: "heap ?w2 q = (if q = p then None else heap w1 q)" for q by (simp add: rtf_task_release_def)
    have np: "q \<noteq> p" if "q \<in> set ?ys" for q using that sub(2) by blast
    have same: "\<exists>t t'. heap w q = Some t \<and> heap ?w2 q = Some t' \<and> t_id t' = t_id t \<and> ptid t' = ptid t \<and>
        pluginid t' = pluginid t \<and> params t' = params t" if q: "q \<in> set ?ys" for q
    proof -
      have "q \<in> set ?xs" using q sub(2) by blast
      then obtain tq where "heap w q = Some tq" using I(8) by (auto elim: allocatedE)
      with R(4) q np [OF q] show ?thesis unfolding h2 by auto
    qed
    then have mid: "ptid (the (heap ?w2 q)) = ptid (the (heap w q))" if "q \<in> set ?ys" for q using that by fastforce
    have "length (ts_tasks (taskset s1)) < length ?xs"
      unfolding R(3) list_root_ts_of split(2) unfolding split(1) by simp
    from less.hyps [OF this R(2)] obtain s' w' where D: "rtf_scheduler_delete os ppid (s1, ?w2) = Some (s', w')"
        "sched_inv os (s', w')" "ts_tasks (taskset s') = filter (\<lambda>q. ptid (the (heap ?w2 q)) \<noteq> ppid) ?ys"
        "\<forall>q \<in> set ?ys. ptid (the (heap ?w2 q)) = ppid \<longrightarrow> heap w' q = None"
        "\<forall>q \<in> set (ts_tasks (taskset s')). \<exists>t t'. heap ?w2 q = Some t \<and> heap w' q = Some t' \<and>
           t_id t' = t_id t \<and> ptid t' = ptid t \<and> pluginid t' = pluginid t \<and> params t' = params t"
        "\<forall>q. q \<notin> set ?ys \<longrightarrow> heap w' q = heap ?w2 q"
        "map dl_ptr (plugin s') = map dl_ptr (plugin s1)" "dom (heap w') \<subseteq> dom (heap ?w2)" "last_task_id s' = last_task_id s1"
      unfolding R(3) list_root_ts_of by blast
    have tasks: "ts_tasks (taskset s') = filter (\<lambda>q. ptid (the (heap w q)) \<noteq> ppid) ?xs"
    proof -
      have "filter (\<lambda>q. ptid (the (heap ?w2 q)) \<noteq> ppid) ?ys = filter (\<lambda>q. ptid (the (heap w q)) \<noteq> ppid) ?ys"
        using mid by (intro filter_cong) simp_all
      then show ?thesis using D(3) fl by simp
    qed
    have run: "rtf_scheduler_delete os ppid (s, w) = Some (s', w')"
      using Some rem t R(1) D(1) by (subst rtf_scheduler_delete.simps) (simp add: Let_def)
    have "heap w' q = None" if q: "q \<in> set ?xs" "?m q" for q
    proof (cases "q = p")
      case True
      then have "q \<notin> set ?ys" using sub(2) by blast
      then show ?thesis using D(6) True h2 by simp
    next
      case False
      then have "q \<in> set ?ys" using q sub(2) by blast
      then show ?thesis using D(4) mid q(2) by simp
    qed
    moreover have "\<exists>t t'. heap w q = Some t \<and> heap w' q = Some t' \<and> t_id t' = t_id t \<and> ptid t' = ptid t \<and>
        pluginid t' = pluginid t \<and> params t' = params t" if q: "q \<in> set (ts_tasks (taskset s'))" for q
    proof -
      have "q \<in> set ?ys" using q D(3) by simp
      from same [OF this] D(5) q show ?thesis by fastforce
    qed
    moreover have "heap w' q = heap w q" if "q \<notin> set ?xs" for q
      using that D(6) sub(2) p(1) R(5) h2 [of q] by (metis Diff_iff)
    moreover have "map dl_ptr (plugin s') = map dl_ptr (plugin s) \<and> dom (heap w') \<subseteq> dom (heap w) \<and>
        last_task_id s' = last_task_id s"
      using D(7-9) R(6-8) by (auto simp: rtf_task_release_def split: if_splits)
    ultimately show ?thesis using run D(2) tasks by blast
  qed
qed

subsection \<open>Attaching and detaching\<close>

text \<open>What attaching and detaching a thread asks of the kernel: two calls, the second one only when the first one
  succeeds; the answer and the kernel afterwards.  A thread is attached by fixing it to the CPU of its task and giving it the policy of the
  plugin with the priority, or the runtime, deadline and period in nanoseconds, of the task; it is detached by
  letting it run on every CPU under the default policy.\<close>

definition in_turn :: "int \<times> 'k \<Rightarrow> ('k \<Rightarrow> int \<times> 'k) \<Rightarrow> int \<times> 'k" where
  "in_turn = (\<lambda>(r, k) f. if r < 0 then (RTF_ERROR, k) else let (r, k) = f k in (if r < 0 then RTF_ERROR else RTF_OK, k))"

definition asks_attach :: "'k kernel \<Rightarrow> plugin_lib \<Rightarrow> rtf_task \<Rightarrow> 'k \<Rightarrow> int \<times> 'k" where
  "asks_attach os lib t k = in_turn (sys_setaffinity os k (tid t) (CPU_SET (unat (cpu t)) {}))
     (\<lambda>k. case lib of
        SCHED_FP_so \<Rightarrow> sys_setscheduler os k (tid t) SCHED_FIFO (s32_of_u32 (schedprio t))
      | SCHED_RR_so \<Rightarrow> sys_setscheduler os k (tid t) SCHED_RR (s32_of_u32 (schedprio t))
      | SCHED_RM_so \<Rightarrow> sys_setscheduler os k (tid t) SCHED_FIFO (s32_of_u32 (schedprio t))
      | SCHED_EDF_so \<Rightarrow> sys_setattr os k (tid t) \<lparr>sched_policy = SCHED_DEADLINE, sched_runtime = acceptedt t * 1000,
          sched_deadline = (if deadline (params t) \<noteq> 0 then deadline (params t) else period (params t)) * 1000,
          sched_period = period (params t) * 1000\<rparr>)"

definition asks_detach :: "'k kernel \<Rightarrow> rtf_task \<Rightarrow> 'k \<Rightarrow> int \<times> 'k" where
  "asks_detach os t k = in_turn (sys_setaffinity os k (tid t) (all_cpus (sys_nprocs os)))
     (\<lambda>k. sys_setscheduler os k (tid t) SCHED_OTHER 0)"

lemma in_turn_answer: "fst (in_turn x f) = RTF_OK \<or> fst (in_turn x f) = RTF_ERROR"
  by (auto simp: in_turn_def Let_def split: prod.split)

lemma posix_attach_kern:
  "heap w p = Some t \<Longrightarrow> posix_attach os policy p w = (let (r, k) = in_turn (set_affinity_one os (kern w) t)
     (\<lambda>k. sys_setscheduler os k (tid t) policy (s32_of_u32 (schedprio t))) in Some (r, w\<lparr>kern := k\<rparr>))"
  by (simp add: posix_attach_def in_turn_def split_def Let_def)

lemma plg_attach_kern:
  "heap w p = Some t \<Longrightarrow> rtf_plg_task_attach os plg p w =
     (let (r, k) = asks_attach os (dl_ptr plg) t (kern w) in Some (r, w\<lparr>kern := k\<rparr>))"
  by (cases "dl_ptr plg") (simp_all add: rtf_plg_task_attach_def fp_task_attach_def rr_task_attach_def rm_task_attach_def
      posix_attach_kern asks_attach_def set_affinity_one_def edf_task_attach_def in_turn_def split_def Let_def
      rtf_task_get_accepted_runtime_def rtf_task_get_deadline_def rtf_task_get_period_def MICRO_TO_NANO_def)

lemma plg_detach_kern:
  "heap w p = Some t \<Longrightarrow> rtf_plg_task_detach os plg p w =
     (let (r, k) = asks_detach os t (kern w) in Some (r, w\<lparr>kern := k\<rparr>))"
  by (cases "dl_ptr plg") (simp_all add: rtf_plg_task_detach_def fp_task_detach_def rr_task_detach_def
      rm_task_detach_def edf_task_detach_def posix_detach_def asks_detach_def in_turn_def split_def Let_def)

lemma sched_inv_tid:
  assumes inv: "sched_inv os (s, w)" and t: "heap w p = Some t"
  shows "sched_inv os (s, w\<lparr>heap := (heap w)(p \<mapsto> t\<lparr>tid := x\<rparr>), kern := k\<rparr>)"
proof -
  note I = sched_invD [OF inv]
  let ?w = "w\<lparr>heap := (heap w)(p \<mapsto> t\<lparr>tid := x\<rparr>), kern := k\<rparr>"
  have same: "pluginid (the (heap ?w q)) = pluginid (the (heap w q))" "t_id (the (heap ?w q)) = t_id (the (heap w q))" for q
    using t by auto
  have "\<exists>y. heap ?w q = Some (tq\<lparr>tid := y\<rparr>)" if "heap w q = Some tq" for q tq
  proof (cases "q = p")
    case True
    then show ?thesis using that t by auto
  next
    case False
    then show ?thesis using that by (intro exI [of _ "tid tq"]) simp
  qed
  then have "\<forall>i < length (plugin s). same_but_tid (heap w) (heap ?w) (owns s (heap w) i)"
    by (auto simp: same_but_tid_def)
  then have "plugins_ok os s ?w (owns s (heap w))" by (rule plugins_ok_frame [OF I(3)]) simp_all
  moreover have "owns s (heap ?w) = owns s (heap w)" unfolding owns_def same by simp
  moreover have "ts_ok (heap ?w) (taskset s)" using ts_ok_upd [OF I(1)] by simp
  ultimately show ?thesis
    using I(2,4-7) unfolding sched_inv_def split same by simp
qed

lemma attach_full:
  assumes "sched_inv os (s, w)"
  shows "(\<exists>r w'. rtf_scheduler_task_attach os rtf_id pid (s, w) = Some (r, s, w') \<and> sched_inv os (s, w') \<and>
      (case find (\<lambda>p. t_id (the (heap w p)) = rtf_id) (ts_tasks (taskset s)) of
         None \<Rightarrow> r = RTF_ERROR \<and> w' = w
       | Some p \<Rightarrow> \<exists>k t. heap w p = Some t \<and> (r, k) = asks_attach os (dl_ptr (plugin s ! nat (pluginid t))) (t\<lparr>tid := pid\<rparr>) (kern w) \<and>
           w' = w\<lparr>heap := (heap w)(p \<mapsto> t\<lparr>tid := pid\<rparr>), kern := k\<rparr>))
    \<and> (\<exists>r w'. rtf_scheduler_task_detach os rtf_id (s, w) = Some (r, s, w') \<and> sched_inv os (s, w') \<and>
      (case find (\<lambda>p. t_id (the (heap w p)) = rtf_id) (ts_tasks (taskset s)) of
         None \<Rightarrow> r = RTF_ERROR \<and> w' = w
       | Some p \<Rightarrow> \<exists>k t. heap w p = Some t \<and> (r, k) = asks_detach os t (kern w) \<and> w' = w\<lparr>kern := k\<rparr>))"
proof -
  note I = sched_invD [OF assms]
  let ?m = "\<lambda>p. t_id (the (heap w p)) = rtf_id" and ?xs = "ts_tasks (taskset s)"
  have search: "rtf_taskset_search (heap w) (taskset s) rtf_id = Some (find ?m ?xs)" using I(1) by (rule ts_search)
  show ?thesis
  proof (cases "find ?m ?xs")
    case None
    with search assms show ?thesis
      by (simp add: rtf_scheduler_task_attach_def rtf_scheduler_task_detach_def)
  next
    case (Some p)
    then have p: "p \<in> set ?xs" by (auto dest: find_in_set)
    then obtain t where t: "heap w p = Some t" using I(8) by (auto elim: allocatedE)
    obtain i where i: "i < length (plugin s)" "pluginid t = int i" using I(4) [OF p] t by auto
    let ?w = "w\<lparr>heap := (heap w)(p \<mapsto> t\<lparr>tid := pid\<rparr>)\<rparr>"
    have "heap ?w p = Some (t\<lparr>tid := pid\<rparr>)" by simp
    note at = plg_attach_kern [OF this, of os "plugin s ! i"] and de = plg_detach_kern [OF t, of os "plugin s ! i"]
    obtain r k where rk: "asks_attach os (dl_ptr (plugin s ! i)) (t\<lparr>tid := pid\<rparr>) (kern w) = (r, k)" by fastforce
    obtain r' k' where rk': "asks_detach os t (kern w) = (r', k')" by fastforce
    have "rtf_scheduler_task_attach os rtf_id pid (s, w) = Some (r, s, ?w\<lparr>kern := k\<rparr>)"
      using search Some t i at rk by (simp add: rtf_scheduler_task_attach_def c_simps)
    moreover have "rtf_scheduler_task_detach os rtf_id (s, w) = Some (r', s, w\<lparr>kern := k'\<rparr>)"
      using search Some t i de rk' by (simp add: rtf_scheduler_task_detach_def c_simps)
    moreover have "sched_inv os (s, w\<lparr>kern := k'\<rparr>)"
    proof -
      have "t\<lparr>tid := tid t\<rparr> = t" by simp
      then have "(heap w)(p \<mapsto> t\<lparr>tid := tid t\<rparr>) = heap w" using t by (simp add: fun_upd_idem)
      then show ?thesis using sched_inv_tid [OF assms t, where x = "tid t" and k = k'] by simp
    qed
    ultimately show ?thesis
      using sched_inv_tid [OF assms t, where x = pid and k = k] Some t i(2) rk rk' by simp
  qed
qed

lemma asks_answer:
  "(r, k) = asks_attach os lib t k0 \<Longrightarrow> r = RTF_OK \<or> r = RTF_ERROR" "(r, k) = asks_detach os t k0 \<Longrightarrow> r = RTF_OK \<or> r = RTF_ERROR"
  by (drule arg_cong [of _ _ fst], simp add: asks_attach_def asks_detach_def in_turn_answer)+

lemma attach_ok:
  assumes "sched_inv os (s, w)"
  shows "(\<exists>r w'. rtf_scheduler_task_attach os rtf_id pid (s, w) = Some (r, s, w') \<and> sched_inv os (s, w') \<and>
      (case find (\<lambda>p. t_id (the (heap w p)) = rtf_id) (ts_tasks (taskset s)) of
         None \<Rightarrow> r = RTF_ERROR \<and> w' = w
       | Some p \<Rightarrow> (r = RTF_OK \<or> r = RTF_ERROR) \<and> heap w' = (heap w)(p \<mapsto> (the (heap w p))\<lparr>tid := pid\<rparr>)))
    \<and> (\<exists>r w'. rtf_scheduler_task_detach os rtf_id (s, w) = Some (r, s, w') \<and> sched_inv os (s, w') \<and>
      (case find (\<lambda>p. t_id (the (heap w p)) = rtf_id) (ts_tasks (taskset s)) of
         None \<Rightarrow> r = RTF_ERROR \<and> w' = w
       | Some p \<Rightarrow> (r = RTF_OK \<or> r = RTF_ERROR) \<and> heap w' = heap w))"
proof -
  let ?f = "find (\<lambda>p. t_id (the (heap w p)) = rtf_id) (ts_tasks (taskset s))"
  note F = attach_full [OF assms, of rtf_id pid]
  show ?thesis
  proof (cases ?f)
    case None
    then show ?thesis using F by simp
  next
    case (Some p)
    from F [THEN conjunct1] obtain r w' k t where A: "rtf_scheduler_task_attach os rtf_id pid (s, w) = Some (r, s, w')"
        "sched_inv os (s, w')" "heap w p = Some t" "(r, k) = asks_attach os (dl_ptr (plugin s ! nat (pluginid t))) (t\<lparr>tid := pid\<rparr>) (kern w)"
        "w' = w\<lparr>heap := (heap w)(p \<mapsto> t\<lparr>tid := pid\<rparr>), kern := k\<rparr>"
      unfolding Some option.case by (elim exE conjE) (rule that)
    from F [THEN conjunct2] obtain r1 w1 k1 t1 where D: "rtf_scheduler_task_detach os rtf_id (s, w) = Some (r1, s, w1)"
        "sched_inv os (s, w1)" "(r1, k1) = asks_detach os t1 (kern w)" "w1 = w\<lparr>kern := k1\<rparr>"
      unfolding Some option.case by (elim exE conjE) (rule that)
    have "heap w' = (heap w)(p \<mapsto> (the (heap w p))\<lparr>tid := pid\<rparr>)" "heap w1 = heap w" using A(3,5) D(4) by simp_all
    with asks_answer(1) [OF A(4)] asks_answer(2) [OF D(3)] A(1,2) D(1,2) show ?thesis
      unfolding Some option.case by (intro conjI exI) assumption+
  qed
qed

subsection \<open>The operations\<close>

text \<open>C11: Creating a task, when memory is granted, the name of the plugin is terminated, the counter of ids is below its largest value and the plugin that is chosen can take the task
  (\<open>plg_admissible\<close>: for fixed priorities a priority of at most 99, for round robin one of 1 to 99, for rate monotonic fewer
  than 2^20 tasks on a CPU, for deadlines no desired runtime, or one that fits, or free utilisations in 0 to 1 and times up to 2^63): the call
  returns the first OK answer of the plugins in order, else the first PARTIAL
  one, else NO.  On OK and PARTIAL the task is in the task set with its parameters and belongs to that
  plugin; on NO the task set and the plugins are unchanged.  The invariant of the scheduler holds afterwards in each of these cases.\<close>

theorem rtf_scheduler_task_create_correct:
  assumes "sched_inv os (s, w)" and "sys_calloc os (heap w) = Some p" and "heap w p = None"
    and "last_task_id s < 2 ^ 31 - 1" and "NUL \<in> set (sched_plugin tp)"
    and "\<forall>r i. decision (plugin s) (new_task s tp ppid) = Some (r, i) \<longrightarrow> plg_admissible (plugin s ! i) (new_task s tp ppid)"
  shows "\<exists>r s' w'. rtf_scheduler_task_create os tp ppid (s, w) = Some (r, s', w') \<and> sched_inv os (s', w') \<and>
    last_task_id s' = last_task_id s + 1 \<and>
    (case decision (plugin s) (new_task s tp ppid) of
       None \<Rightarrow> r = RTF_NO \<and> taskset s' = taskset s \<and> plugin s' = plugin s
     | Some (a, i) \<Rightarrow> r = a \<and> ts_tasks (taskset s') = p # ts_tasks (taskset s) \<and>
         (\<exists>t. heap w' p = Some t \<and> pluginid t = int i \<and> ptid t = ppid \<and> params t = tp \<and>
            t_id t = u32_of_int (last_task_id s + 1)))"
  using create_ok [OF assms] by blast

text \<open>C13: Destroying a task: for an id that is in use the task is released by its plugin, leaves the
  task set, its memory is freed and the answer is OK; no other task changes its id, process, plugin
  or parameters.  For any other id the answer is ERROR and nothing changes.  The invariant of the
  scheduler is kept.\<close>

theorem rtf_scheduler_task_destroy_correct:
  assumes "sched_inv os (s, w)"
  shows "\<exists>r s' w'. rtf_scheduler_task_destroy os rtf_id (s, w) = Some (r, s', w') \<and> sched_inv os (s', w') \<and>
    (case find (\<lambda>p. t_id (the (heap w p)) = rtf_id) (ts_tasks (taskset s)) of
       None \<Rightarrow> r = RTF_ERROR \<and> s' = s \<and> w' = w
     | Some p \<Rightarrow> r = RTF_OK \<and> heap w' p = None \<and> ts_tasks (taskset s') = filter (\<lambda>q. q \<noteq> p) (ts_tasks (taskset s)) \<and>
         (\<forall>q \<in> set (ts_tasks (taskset s')). \<exists>t t'. heap w q = Some t \<and> heap w' q = Some t' \<and>
            t_id t' = t_id t \<and> ptid t' = ptid t \<and> pluginid t' = pluginid t \<and> params t' = params t))"
  using destroy_ok [OF assms] by blast

text \<open>C12: Deleting the tasks of a process returns and removes exactly the tasks of that process from
  the task set, in place; every one of them is freed and the other tasks keep their id, process,
  plugin and parameters.  The invariant of the scheduler is kept.\<close>

theorem rtf_scheduler_delete_correct:
  assumes "sched_inv os (s, w)"
  shows "\<exists>s' w'. rtf_scheduler_delete os ppid (s, w) = Some (s', w') \<and> sched_inv os (s', w') \<and>
    ts_tasks (taskset s') = filter (\<lambda>p. ptid (the (heap w p)) \<noteq> ppid) (ts_tasks (taskset s)) \<and>
    (\<forall>p \<in> set (ts_tasks (taskset s)). ptid (the (heap w p)) = ppid \<longrightarrow> heap w' p = None) \<and>
    (\<forall>p \<in> set (ts_tasks (taskset s')). \<exists>t t'. heap w p = Some t \<and> heap w' p = Some t' \<and>
       t_id t' = t_id t \<and> ptid t' = ptid t \<and> pluginid t' = pluginid t \<and> params t' = params t) \<and>
    (\<forall>q. q \<notin> set (ts_tasks (taskset s)) \<longrightarrow> heap w' q = heap w q)"
  using delete_ok [OF assms] by blast

text \<open>C22: Attaching a thread to a task in use records the thread in the task and asks the kernel to fix it to the CPU of the task and then to
  run it under the policy of the task's plugin: with the priority of the task, or for the deadline plugin with its
  runtime, deadline and period in nanoseconds.  Detaching asks to let the thread of the task run on every CPU and then under the default policy.  The second
  call is made only when the first one succeeds, and the answer is OK exactly when both do, else ERROR.  For an id that is not in use the
  answer is ERROR and nothing changes.  Nothing else of the scheduler and its world changes, and the invariant is kept.\<close>

theorem rtf_scheduler_task_attach_correct:
  assumes "sched_inv os (s, w)"
  shows "(\<exists>r w'. rtf_scheduler_task_attach os rtf_id pid (s, w) = Some (r, s, w') \<and> sched_inv os (s, w') \<and>
      (case find (\<lambda>p. t_id (the (heap w p)) = rtf_id) (ts_tasks (taskset s)) of
         None \<Rightarrow> r = RTF_ERROR \<and> w' = w
       | Some p \<Rightarrow> \<exists>k t. heap w p = Some t \<and> (r, k) = asks_attach os (dl_ptr (plugin s ! nat (pluginid t))) (t\<lparr>tid := pid\<rparr>) (kern w) \<and>
           w' = w\<lparr>heap := (heap w)(p \<mapsto> t\<lparr>tid := pid\<rparr>), kern := k\<rparr>))
    \<and> (\<exists>r w'. rtf_scheduler_task_detach os rtf_id (s, w) = Some (r, s, w') \<and> sched_inv os (s, w') \<and>
      (case find (\<lambda>p. t_id (the (heap w p)) = rtf_id) (ts_tasks (taskset s)) of
         None \<Rightarrow> r = RTF_ERROR \<and> w' = w
       | Some p \<Rightarrow> \<exists>k t. heap w p = Some t \<and> (r, k) = asks_detach os t (kern w) \<and> w' = w\<lparr>kern := k\<rparr>))"
  using attach_full [OF assms] .

subsection \<open>Changing a task\<close>

definition change_answer :: "rtf_plugin list \<Rightarrow> rtf_task \<Rightarrow> nat \<Rightarrow> int" where
  "change_answer ps t i = (case rtf_plg_task_change (ps ! i) t of None \<Rightarrow> RTF_NO | Some (r, _) \<Rightarrow> r)"

text \<open>The first plugin whose change test answers OK, else the first that answers PARTIAL.\<close>

definition change_choice :: "rtf_plugin list \<Rightarrow> rtf_task \<Rightarrow> (int \<times> nat) option" where
  "change_choice ps t = (case find (\<lambda>i. change_answer ps t i = RTF_OK) [0..<length ps] of
       Some i \<Rightarrow> Some (RTF_OK, i)
     | None \<Rightarrow> map_option (Pair RTF_PARTIAL) (find (\<lambda>i. change_answer ps t i = RTF_PARTIAL) [0..<length ps]))"

lemma change_choice_Some: "change_choice ps t = Some (r, i) \<Longrightarrow> i < length ps"
  by (auto simp: change_choice_def dest!: find_in_set split: option.splits)

definition rounded :: "rtf_plugin list \<Rightarrow> rtf_plugin list \<Rightarrow> bool" where
  "rounded ps qs \<longleftrightarrow> length qs = length ps \<and> (\<forall>j < length ps. \<exists>us. qs ! j = (ps ! j)\<lparr>util_free_percpu := us\<rparr>)"

lemma plugins_ok_update:
  assumes ok: "plugins_ok os s w own" and i: "i < length (plugin s)" and sp: "same_plugin (plugin s ! i) this'"
    and inv: "plg_inv os this' w (own i)"
  shows "plugins_ok os (s\<lparr>plugin := (plugin s)[i := this']\<rparr>) w own"
proof -
  have "dl_ptr ((plugin s)[i := this'] ! j) = dl_ptr (plugin s ! j)" if "j < length (plugin s)" for j
    using sp i that by (cases "j = i") (simp_all add: same_plugin_def)
  then have "libs_ok ((plugin s)[i := this'])" using ok by (auto simp: libs_ok_def plugins_ok_def)
  then show ?thesis using ok i sp inv by (auto simp: plugins_ok_def nth_list_update same_plugin_def)
qed

lemma rounded_update:
  assumes "rounded ps qs" and "i < length ps" and "qs ! i = ps ! i" and "\<exists>us. this' = (ps ! i)\<lparr>util_free_percpu := us\<rparr>"
  shows "rounded ps (qs[i := this'])"
  using assms unfolding rounded_def by (metis length_list_update nth_list_update)

lemma change_loop_spec:
  assumes "plugins_ok os (s\<lparr>plugin := qs\<rparr>) w own" and t: "heap w p = Some t"
    and own: "\<forall>i < length (plugin s). pluginid t = int i \<longrightarrow> p \<in> own i" and nul: "NUL \<in> set (sched_plugin (params t))"
    and "distinct is" and "\<forall>i \<in> set is. i < length (plugin s) \<and> i < length results \<and> qs ! i = plugin s ! i"
    and "rounded (plugin s) qs"
  shows "\<exists>res qs'. change_loop t is results (s\<lparr>plugin := qs\<rparr>) =
      Some (find (\<lambda>i. change_answer (plugin s) t i = RTF_OK) is, res, s\<lparr>plugin := qs'\<rparr>) \<and>
    plugins_ok os (s\<lparr>plugin := qs'\<rparr>) w own \<and> rounded (plugin s) qs' \<and>
    (find (\<lambda>i. change_answer (plugin s) t i = RTF_OK) is = None \<longrightarrow> length res = length results \<and>
       (\<forall>j < length results. res ! j = (if j \<in> set is then change_answer (plugin s) t j else results ! j)))"
  using assms(1,5,6,7)
proof (induction "is" arbitrary: results qs)
  case Nil
  then show ?case by auto
next
  case (Cons i "is")
  have i: "i < length (plugin s)" "i < length results" "qs ! i = plugin s ! i" "length qs = length (plugin s)"
    using Cons.prems by (auto simp: rounded_def)
  have plg: "plg_id (qs ! i) = int i" "plg_inv os (qs ! i) w (own i)"
    using Cons.prems(1) i(1,4) by (simp_all add: plugins_ok_def)
  have "pluginid t = plg_id (qs ! i) \<longrightarrow> p \<in> own i" using own i(1) plg(1) by simp
  from plg.change_law [OF plg(2) t this nul] obtain r this' where ch: "rtf_plg_task_change (qs ! i) t = Some (r, this')"
      and inv: "plg_inv os this' w (own i)" and sp: "same_plugin (qs ! i) this'" by blast
  have ans: "change_answer (plugin s) t i = r" using ch i(3) by (simp add: change_answer_def)
  have ok': "plugins_ok os (s\<lparr>plugin := qs[i := this']\<rparr>) w own"
    using plugins_ok_update [OF Cons.prems(1), of i this'] i sp inv by simp
  have rd: "rounded (plugin s) (qs[i := this'])"
    using change_plugin [OF ch] i(3) by (intro rounded_update [OF Cons.prems(4) i(1,3)]) simp
  show ?case
  proof (cases "r = RTF_OK")
    case True
    with ch i ans ok' rd show ?thesis by (auto simp: c_simps)
  next
    case False
    have "\<forall>j \<in> set is. j < length (plugin s) \<and> j < length (results[i := r]) \<and> qs[i := this'] ! j = plugin s ! j"
      using Cons.prems(2,3) by (metis distinct.simps(2) length_list_update list.set_intros(2) nth_list_update_neq)
    from Cons.IH [OF ok' _ this rd] Cons.prems(2) obtain res qs' where
      "change_loop t is (results[i := r]) (s\<lparr>plugin := qs[i := this']\<rparr>) =
        Some (find (\<lambda>i. change_answer (plugin s) t i = RTF_OK) is, res, s\<lparr>plugin := qs'\<rparr>)"
      "plugins_ok os (s\<lparr>plugin := qs'\<rparr>) w own" "rounded (plugin s) qs'"
      "find (\<lambda>i. change_answer (plugin s) t i = RTF_OK) is = None \<longrightarrow> length res = length results \<and>
        (\<forall>j < length results. res ! j = (if j \<in> set is then change_answer (plugin s) t j else results[i := r] ! j))"
      by auto
    with ch i ans False show ?thesis by (auto simp: c_simps nth_list_update)
  qed
qed

lemma test_and_modify_eq:
  assumes inv: "sched_inv os (s, w)" and p: "p \<in> set (ts_tasks (taskset s))" and t: "heap w p = Some t"
    and nul: "NUL \<in> set (sched_plugin (params t))"
  shows "\<exists>qs. rounded (plugin s) qs \<and> plugins_ok os (s\<lparr>plugin := qs\<rparr>) w (owns s (heap w)) \<and>
    rtf_scheduler_test_and_modify os p (s, w) =
    (case change_choice (plugin s) t of
       None \<Rightarrow> Some (RTF_NO, s\<lparr>plugin := qs\<rparr>, w)
     | Some (r, i) \<Rightarrow> do {
         sw \<leftarrow> release_on os (int i) p (s\<lparr>plugin := qs\<rparr>, w);
         sw \<leftarrow> schedule_on os i p sw;
         Some (r, sw)
       })"
proof -
  note I = sched_invD [OF inv]
  let ?ps = "plugin s" and ?is = "[0..<length (plugin s)]" and ?ans = "change_answer (plugin s) t"
  have self: "s\<lparr>plugin := ?ps\<rparr> = s" by simp
  have "\<exists>us. x = x\<lparr>util_free_percpu := us\<rparr>" for x :: rtf_plugin by (rule exI [of _ "util_free_percpu x"]) simp
  then have r0: "rounded ?ps ?ps" by (simp add: rounded_def)
  have own: "\<forall>i < length ?ps. pluginid t = int i \<longrightarrow> p \<in> owns s (heap w) i" using p t by (simp add: owns_def)
  have ok: "plugins_ok os (s\<lparr>plugin := ?ps\<rparr>) w (owns s (heap w))" using I(3) self by simp
  let ?res0 = "replicate (length ?ps) (0 :: int)"
  have pre: "\<forall>i \<in> set ?is. i < length ?ps \<and> i < length ?res0 \<and> ?ps ! i = ?ps ! i" by simp
  obtain res qs where L: "change_loop t ?is ?res0 s = Some (find (\<lambda>i. ?ans i = RTF_OK) ?is, res, s\<lparr>plugin := qs\<rparr>)"
      "plugins_ok os (s\<lparr>plugin := qs\<rparr>) w (owns s (heap w))" "rounded ?ps qs"
      "find (\<lambda>i. ?ans i = RTF_OK) ?is = None \<Longrightarrow> length res = length ?ps \<and> (\<forall>j < length ?ps. res ! j = ?ans j)"
    using change_loop_spec [OF ok t own nul distinct_upt pre r0] unfolding self by auto
  have nn: "nat (num_of_plugins s) = length ?ps" using I(2) by simp
  show ?thesis
  proof (cases "find (\<lambda>i. ?ans i = RTF_OK) ?is")
    case (Some i)
    with L t show ?thesis
      by (intro exI [of _ qs]) (simp add: rtf_scheduler_test_and_modify_def nn change_choice_def)
  next
    case None
    have pl: "partial_loop ?is res = Some (find (\<lambda>i. res ! i = RTF_PARTIAL) ?is)"
      using L(4) [OF None] by (intro partial_loop_spec) simp
    have "find (\<lambda>i. res ! i = RTF_PARTIAL) ?is = find (\<lambda>i. ?ans i = RTF_PARTIAL) ?is"
      using L(4) [OF None] by (intro find_cong_set) simp
    with pl None L t show ?thesis
      by (intro exI [of _ qs]) (simp add: rtf_scheduler_test_and_modify_def nn change_choice_def split: option.split)
  qed
qed

lemma find_task:
  assumes "sched_inv os (s, w)" and "find (\<lambda>p. t_id (the (heap w p)) = rtf_id) (ts_tasks (taskset s)) = Some p"
  shows "p \<in> set (ts_tasks (taskset s))" and "\<exists>t. heap w p = Some t"
    and "rtf_scheduler_task_change os tp rtf_id (s, w) = rtf_scheduler_test_and_modify os p (s, w)"
proof -
  note I = sched_invD [OF assms(1)]
  show p: "p \<in> set (ts_tasks (taskset s))" using assms(2) by (auto dest: find_in_set)
  show "\<exists>t. heap w p = Some t" using I(8) [OF p] by (auto elim: allocatedE)
  show "rtf_scheduler_task_change os tp rtf_id (s, w) = rtf_scheduler_test_and_modify os p (s, w)"
    using ts_search [OF I(1), of rtf_id] assms(2) by (simp add: rtf_scheduler_task_change_def)
qed

text \<open>A request to change a task never reads the new parameters.  For an id that is not in use the
  answer is ERROR and nothing changes.  When no plugin accepts the task the answer is NO, tasks and
  task set are as before, and the plugins are as before up to the rounding of their free utilisations.
  The invariant of the scheduler is kept.\<close>

theorem rtf_scheduler_task_change_refused:
  assumes "sched_inv os (s, w)"
  shows "(find (\<lambda>p. t_id (the (heap w p)) = rtf_id) (ts_tasks (taskset s)) = None \<longrightarrow>
      rtf_scheduler_task_change os tp rtf_id (s, w) = Some (RTF_ERROR, s, w))
    \<and> (\<forall>p t. find (\<lambda>p. t_id (the (heap w p)) = rtf_id) (ts_tasks (taskset s)) = Some p \<longrightarrow> heap w p = Some t \<longrightarrow>
        NUL \<in> set (sched_plugin (params t)) \<longrightarrow> change_choice (plugin s) t = None \<longrightarrow>
        (\<exists>qs. rounded (plugin s) qs \<and> sched_inv os (s\<lparr>plugin := qs\<rparr>, w) \<and>
           rtf_scheduler_task_change os tp rtf_id (s, w) = Some (RTF_NO, s\<lparr>plugin := qs\<rparr>, w)))"
proof (intro conjI impI allI)
  note I = sched_invD [OF assms]
  assume "find (\<lambda>p. t_id (the (heap w p)) = rtf_id) (ts_tasks (taskset s)) = None"
  then show "rtf_scheduler_task_change os tp rtf_id (s, w) = Some (RTF_ERROR, s, w)"
    using ts_search [OF I(1), of rtf_id] by (simp add: rtf_scheduler_task_change_def)
next
  note I = sched_invD [OF assms]
  fix p t
  assume f: "find (\<lambda>p. t_id (the (heap w p)) = rtf_id) (ts_tasks (taskset s)) = Some p" and t: "heap w p = Some t"
    and nul: "NUL \<in> set (sched_plugin (params t))" and none: "change_choice (plugin s) t = None"
  note F = find_task [OF assms f]
  obtain qs where qs: "rounded (plugin s) qs" "plugins_ok os (s\<lparr>plugin := qs\<rparr>) w (owns s (heap w))"
      "rtf_scheduler_test_and_modify os p (s, w) = Some (RTF_NO, s\<lparr>plugin := qs\<rparr>, w)"
    using test_and_modify_eq [OF assms F(1) t nul] none by auto
  have len: "length qs = length (plugin s)" using qs(1) by (simp add: rounded_def)
  have own: "owns (s\<lparr>plugin := qs\<rparr>) (heap w) = owns s (heap w)" by (simp add: owns_def fun_eq_iff)
  have "sched_inv os (s\<lparr>plugin := qs\<rparr>, w)"
    using assms qs(2) unfolding sched_inv_def split own by (simp add: len)
  with qs F(3) show "\<exists>qs. rounded (plugin s) qs \<and> sched_inv os (s\<lparr>plugin := qs\<rparr>, w) \<and>
      rtf_scheduler_task_change os tp rtf_id (s, w) = Some (RTF_NO, s\<lparr>plugin := qs\<rparr>, w)" by auto
qed

text \<open>The counter of the plugin a task is taken away from still counts it.\<close>

lemma count_of_owner:
  assumes inv: "sched_inv os (s, w)" and inv': "sched_inv os (s', w')"
    and p: "p \<in> set (ts_tasks (taskset s))" and t: "heap w p = Some t" "pluginid t = int j" "j < length (plugin s)"
    and ts: "taskset s' = taskset s" and len: "length (plugin s') = length (plugin s)"
    and cnt: "task_count_percpu (plugin s' ! j) = task_count_percpu (plugin s ! j)"
    and ag: "agree_but p (heap w) (heap w')" and pid: "pluginid (the (heap w' p)) \<noteq> int j"
  shows False
proof -
  note I = sched_invD [OF inv] and I' = sched_invD [OF inv']
  let ?c = "unat (cpu t)"
  let ?S = "on_cpu (heap w) (owns s (heap w) j) ?c" and ?S' = "on_cpu (heap w') (owns s' (heap w') j) ?c"
  have b: "base_inv (plugin s ! j) (heap w) (owns s (heap w) j)"
    using I(3) t(3) plg.inv_base unfolding plugins_ok_def by metis
  have b': "base_inv (plugin s' ! j) (heap w') (owns s' (heap w') j)"
    using I'(3) t(3) len plg.inv_base unfolding plugins_ok_def by metis
  have po: "p \<in> owns s (heap w) j" using p t by (simp add: owns_def)
  have c: "?c < length (task_count_percpu (plugin s ! j))" using owned_cpu(1) [OF b po t(1)] .
  have "pluginid (the (heap w' q)) = pluginid (the (heap w q)) \<and> cpu (the (heap w' q)) = cpu (the (heap w q))"
    if q: "q \<in> set (ts_tasks (taskset s))" "q \<noteq> p" for q
  proof -
    obtain tq where tq: "heap w q = Some tq" using I(8) [OF q(1)] by (auto elim: allocatedE)
    then obtain t' where "heap w' q = Some t'" "same_booking tq t'" using ag q(2) unfolding agree_but_def by blast
    with tq show ?thesis by (simp add: same_booking_def)
  qed
  then have "q \<in> ?S' \<longleftrightarrow> q \<in> ?S - {p}" for q
    using pid ts by (cases "q = p") (auto simp: on_cpu_def owns_def)
  then have "?S' = ?S - {p}" by blast
  moreover have "p \<in> ?S" using po t(1) by (simp add: on_cpu_def)
  moreover have "finite ?S" by (simp add: on_cpu_def owns_def)
  ultimately have "card ?S = Suc (card ?S')" using card.remove by metis
  moreover have "int (card ?S) = int (card ?S')"
    using b b' c cnt unfolding base_inv_def count_ok_def by metis
  ultimately show False by simp
qed

text \<open>A change that is accepted by another plugin than the one the task belongs to breaks the
  books: the task is booked for the new plugin, but the old plugin is never asked to release it and
  still counts it, so the invariant of the scheduler is lost.\<close>

theorem rtf_scheduler_task_change_moved:
  assumes "sched_inv os (s, w)" and "find (\<lambda>p. t_id (the (heap w p)) = rtf_id) (ts_tasks (taskset s)) = Some p"
    and "heap w p = Some t" and "NUL \<in> set (sched_plugin (params t))" and "pluginid t = int j"
    and "change_choice (plugin s) t = Some (a, i)" and "i \<noteq> j"
    and "rtf_scheduler_task_change os tp rtf_id (s, w) = Some (r, s', w')"
  shows "pluginid (the (heap w' p)) = int i \<and> task_count_percpu (plugin s' ! j) = task_count_percpu (plugin s ! j) \<and>
    \<not> sched_inv os (s', w')"
proof -
  note I = sched_invD [OF assms(1)] and F = find_task [OF assms(1,2)]
  have ij: "i < length (plugin s)" "j < length (plugin s)"
    using change_choice_Some [OF assms(6)] I(4) [OF F(1)] assms(3,5) by auto
  obtain qs where qs: "rounded (plugin s) qs" "plugins_ok os (s\<lparr>plugin := qs\<rparr>) w (owns s (heap w))"
      and run: "rtf_scheduler_test_and_modify os p (s, w) = do {
         sw \<leftarrow> release_on os (int i) p (s\<lparr>plugin := qs\<rparr>, w);
         sw \<leftarrow> schedule_on os i p sw;
         Some (a, sw) }"
    using test_and_modify_eq [OF assms(1) F(1) assms(3,4)] assms(6) by auto
  have q: "length qs = length (plugin s)" "task_count_percpu (qs ! j) = task_count_percpu (plugin s ! j)"
    using qs(1) ij(2) unfolding rounded_def by (auto dest!: spec [of _ j])
  from run assms(8) F(3) obtain s1 w1 where rel: "release_on os (int i) p (s\<lparr>plugin := qs\<rparr>, w) = Some (s1, w1)"
      and sch: "schedule_on os i p (s1, w1) = Some (s', w')"
    by (auto simp: bind_eq_Some)
  from rel obtain x plg1 where R: "rtf_plg_task_release os (qs ! i) p w = Some (x, plg1, w1)"
      "s1 = s\<lparr>plugin := qs[i := plg1]\<rparr>"
    by (auto simp: release_on_def bind_eq_Some access_eq_Some)
  from sch obtain plg2 where S: "rtf_plg_task_schedule os plg1 p w1 = Some (plg2, w')" "s' = s\<lparr>plugin := qs[i := plg2]\<rparr>"
    using R(2) ij(1) q(1) by (auto simp: schedule_on_def bind_eq_Some access_eq_Some)
  have "plg_id (qs ! i) = int i" using qs(2) ij(1) q(1) by (simp add: plugins_ok_def)
  then have id1: "plg_id plg1 = int i" using release_plg_id [OF R(1)] by simp
  have bk: "books p (int i) (heap w1) (heap w')" using schedule_books [OF S(1)] id1 by simp
  then have pid: "pluginid (the (heap w' p)) = int i" by (auto simp: books_def)
  have "agree_but p (heap w) (heap w1)" using release_heap [OF R(1)] by (auto simp: agree_but_def)
  then have ag: "agree_but p (heap w) (heap w')" using bk agree_but_trans unfolding books_def by blast
  have cnt: "task_count_percpu (plugin s' ! j) = task_count_percpu (plugin s ! j)"
    using S(2) q assms(7) by simp
  have "\<not> sched_inv os (s', w')"
    using count_of_owner [OF assms(1) _ F(1) assms(3,5) ij(2) _ _ cnt ag] pid assms(7) S(2) q(1) by auto
  with pid cnt show ?thesis by blast
qed

subsection \<open>A small configuration\<close>

text \<open>Two fixed priority plugins on one CPU; the second one has a task.  The kernel says yes.\<close>

definition ex_os :: "unit kernel" where
  "ex_os = \<lparr>sys_calloc = (\<lambda>h. Some (Suc (Max (insert 0 (dom h))))), sys_setaffinity = (\<lambda>k _ _. (0, k)),
     sys_setscheduler = (\<lambda>k _ _ _. (0, k)), sys_setattr = (\<lambda>k _ _. (0, k)), sys_getscheduler = (\<lambda>_ _. SCHED_OTHER),
     sys_priority_max = (\<lambda>_. 99), sys_priority_min = (\<lambda>_. 1), sys_nprocs = 1\<rparr>"

definition ex_plugin :: "int \<Rightarrow> string \<Rightarrow> int \<Rightarrow> rtf_plugin" where
  "ex_plugin i nm n = \<lparr>plg_id = i, plg_name = nm, plg_path = [], dl_ptr = SCHED_FP_so, prio_min = 1, prio_max = 99,
     cpulist = [0], cputot = 1, util_free_percpu = [1], task_count_percpu = [n], plg_tasks = [rtf_taskset_init]\<rparr>"

text \<open>A task without a priority that asks to be admitted all the same.\<close>

definition ex_params :: rtf_params where
  "ex_params = zero_params\<lparr>ignore_admission := 1\<rparr>"

definition ex_task :: rtf_task where
  "ex_task = zero_task\<lparr>t_id := 1, ptid := 7, pluginid := 1, schedprio := 1, params := ex_params\<rparr>"

definition ex_sched :: rtf_scheduler where
  "ex_sched = \<lparr>num_of_cpu = 1, num_of_plugins = 2, last_task_id = 1, taskset = ts_of [5],
     plugin = [ex_plugin 0 ''A'' 0, ex_plugin 1 ''B'' 1]\<rparr>"

definition ex_world :: "unit world" where
  "ex_world = \<lparr>heap = [5 \<mapsto> ex_task], kern = (), rm_dist_prio = [], rr_dist_prio = [], rr_n_per_prio = []\<rparr>"

lemmas ex_defs = ex_os_def ex_plugin_def ex_task_def ex_sched_def ex_world_def zero_task_def zero_params_def

lemma ex_owns: "owns ex_sched (heap ex_world) 0 = {}" "owns ex_sched (heap ex_world) (Suc 0) = {5}"
  by (auto simp: owns_def ex_defs)

lemma ex_plg_inv:
  assumes "n = int (card S)" and "finite S" and "\<forall>p \<in> S. \<exists>t. heap w p = Some t \<and> pluginid t = i \<and> cpu t = 0 \<and> schedprio t = 1"
  shows "plg_inv ex_os (ex_plugin i nm n) w S"
proof -
  have "on_cpu (heap w) S 0 = S" using assms(3) by (force simp: on_cpu_def)
  then have "base_inv (ex_plugin i nm n) (heap w) S"
    using assms by (force simp: base_inv_def plugin_ok_def owned_ok_def count_ok_def ex_plugin_def MAX_CPU_def)
  moreover have "in_window (ex_plugin i nm n) (heap w) S" using assms(3) by (fastforce simp: in_window_def ex_plugin_def)
  ultimately show ?thesis by (simp add: plg_inv_def fp_inv_def window_ok_def linux_prio_def ex_plugin_def ex_os_def)
qed

lemma ex_inv: "sched_inv ex_os (ex_sched, ex_world)"
proof -
  have "plg_inv ex_os (ex_plugin 0 ''A'' 0) ex_world (owns ex_sched (heap ex_world) 0)"
    "plg_inv ex_os (ex_plugin 1 ''B'' 1) ex_world (owns ex_sched (heap ex_world) (Suc 0))"
    unfolding ex_owns by (rule ex_plg_inv; simp add: ex_world_def ex_task_def zero_task_def)+
  moreover have "libs_ok (plugin ex_sched)"
    by (simp add: libs_ok_def ex_sched_def ex_plugin_def less_Suc_eq numeral_2_eq_2)
  ultimately have "plugins_ok ex_os ex_sched ex_world (owns ex_sched (heap ex_world))"
    by (simp add: plugins_ok_def ex_sched_def less_Suc_eq numeral_2_eq_2 ex_plugin_def)
  then show ?thesis
    by (simp add: sched_inv_def) (simp add: ex_sched_def ex_world_def ex_task_def zero_task_def allocated_def ex_plugin_def
      numeral_2_eq_2 exI [of _ "Suc 0"])
qed

lemma ex_params: "NUL \<in> set (sched_plugin ex_params)" "cstr (sched_plugin ex_params) = Some []"
  by (simp_all add: ex_params_def zero_params_def cstr_def PLUGIN_MAX_NAME_def takeWhile_replicate)

lemma ex_accept: "params t = ex_params \<Longrightarrow> fp_task_accept (ex_plugin i nm n) t = Some RTF_OK"
  by (simp add: fp_task_accept_def fp_has_another_preference_def prefers_another_def
      rtf_task_get_preferred_plugin_def rtf_task_get_ignore_admission_def ex_params(2))
    (simp add: ex_params_def)

lemma ex_simps [simp]:
  "length (plugin ex_sched) = 2" "plugin ex_sched ! 0 = ex_plugin 0 ''A'' 0" "plugin ex_sched ! Suc 0 = ex_plugin 1 ''B'' 1"
  "dl_ptr (ex_plugin i nm n) = SCHED_FP_so" "[0..<2] = [0, Suc 0]" "ts_tasks (taskset ex_sched) = [5]"
  "heap ex_world 5 = Some ex_task" "heap ex_world 6 = None" "params ex_task = ex_params" "t_id ex_task = 1" "ptid ex_task = 7"
  "pluginid ex_task = 1" "last_task_id ex_sched = 1" "sys_calloc ex_os (heap ex_world) = Some 6"
  by (simp_all add: ex_sched_def ex_plugin_def ex_world_def ex_task_def ex_os_def upt_rec numeral_2_eq_2)

lemma ex_decision: "params t = ex_params \<Longrightarrow> decision (plugin ex_sched) t = Some (RTF_OK, 0)"
  by (simp add: decision_def first_answer_def rtf_plg_task_accept_def ex_accept)

lemma rtf_scheduler_task_create_correct_witness:
  "\<exists>s' w'. rtf_scheduler_task_create ex_os ex_params 3 (ex_sched, ex_world) = Some (RTF_OK, s', w') \<and>
     sched_inv ex_os (s', w') \<and> ts_tasks (taskset s') = [6, 5]"
proof -
  have d: "decision (plugin ex_sched) (new_task ex_sched ex_params 3) = Some (RTF_OK, 0)"
    by (rule ex_decision) (simp add: new_task_def)
  have a: "plg_admissible (ex_plugin 0 ''A'' 0) (new_task ex_sched ex_params 3)"
    by (simp add: plg_admissible_def fp_admissible_def new_task_def ex_params_def zero_params_def)
  from d a have "\<forall>r i. decision (plugin ex_sched) (new_task ex_sched ex_params 3) = Some (r, i) \<longrightarrow>
      plg_admissible (plugin ex_sched ! i) (new_task ex_sched ex_params 3)"
    by simp
  from rtf_scheduler_task_create_correct [OF ex_inv _ _ _ ex_params(1) this, of 6] d show ?thesis by auto
qed

lemma rtf_scheduler_task_destroy_correct_witness:
  "\<exists>s' w'. rtf_scheduler_task_destroy ex_os 1 (ex_sched, ex_world) = Some (RTF_OK, s', w') \<and>
     sched_inv ex_os (s', w') \<and> ts_tasks (taskset s') = [] \<and> heap w' 5 = None"
  using rtf_scheduler_task_destroy_correct [OF ex_inv, of 1] by auto

lemma rtf_scheduler_delete_correct_witness:
  "\<exists>s' w'. rtf_scheduler_delete ex_os 7 (ex_sched, ex_world) = Some (s', w') \<and>
     sched_inv ex_os (s', w') \<and> ts_tasks (taskset s') = [] \<and> heap w' 5 = None"
  using rtf_scheduler_delete_correct [OF ex_inv, of 7] by auto

lemma rtf_scheduler_task_attach_correct_witness:
  "\<exists>r w'. rtf_scheduler_task_attach ex_os 1 77 (ex_sched, ex_world) = Some (r, ex_sched, w') \<and>
     heap w' 5 = Some (ex_task\<lparr>tid := 77\<rparr>)"
  using rtf_scheduler_task_attach_correct [OF ex_inv, of 1 77] by auto

lemma rtf_scheduler_task_change_refused_witness:
  "rtf_scheduler_task_change ex_os ex_params 2 (ex_sched, ex_world) = Some (RTF_ERROR, ex_sched, ex_world)"
  using rtf_scheduler_task_change_refused [OF ex_inv, of 2 ex_params] by simp

lemma ex_change: "\<exists>r s' w'. rtf_scheduler_task_change ex_os ex_params 1 (ex_sched, ex_world) = Some (r, s', w')"
proof -
  let ?w = "\<lambda>t. ex_world\<lparr>heap := [5 \<mapsto> t]\<rparr>"
  have cnt: "add_task_count (ex_plugin 0 ''A'' n) 0 m = Some (ex_plugin 0 ''A'' (n + m))" for n m
    by (simp add: add_task_count_def ex_plugin_def aget_def aset_def)
  have cpu: "fp_least_loaded_cpu (ex_plugin 0 ''A'' n) = Some 0" for n
    by (simp add: fp_least_loaded_cpu_def least_loaded_by_count_def pick_cpu_def ex_plugin_def aget_def iget_def
        u32_of_int_def)
  have upd: "upd_world_task (?w t) 5 f = Some (?w (f t))" for t f
    by (simp add: upd_world_task_def upd_task_def)
  have w: "ex_world = ?w ex_task" by (simp add: ex_world_def)
  have "fp_task_release ex_os (ex_plugin 0 ''A'' 0) 5 (?w ex_task) =
      Some (RTF_OK, ex_plugin 0 ''A'' (- 1), ?w (ex_task\<lparr>pluginid := - 1\<rparr>))"
    by (simp add: fp_task_release_def upd detach_if_policy_def)
      (simp add: ex_task_def zero_task_def ex_os_def SCHED_OTHER_def SCHED_FIFO_def cnt)
  moreover have "\<exists>r. fp_task_schedule ex_os (ex_plugin 0 ''A'' (- 1)) 5 (?w (ex_task\<lparr>pluginid := - 1\<rparr>)) = Some r"
    by (simp add: fp_task_schedule_def upd cpu rtf_task_get_priority_def ex_params_def zero_params_def
        rtf_task_set_real_priority_def rtf_task_set_cpu_def cnt)
  moreover have "num_of_plugins ex_sched = 2" by (simp add: ex_sched_def)
  ultimately show ?thesis
    using ts_search [OF sched_invD(1) [OF ex_inv], of 1]
    by (auto simp: rtf_scheduler_task_change_def rtf_scheduler_test_and_modify_def c_simps rtf_plg_task_change_def
        fp_task_change_def ex_accept release_on_def schedule_on_def rtf_plg_task_release_def rtf_plg_task_schedule_def
        numeral_2_eq_2 simp flip: w)
qed

lemma rtf_scheduler_task_change_moved_witness:
  "\<exists>r s' w'. rtf_scheduler_task_change ex_os ex_params 1 (ex_sched, ex_world) = Some (r, s', w') \<and>
     pluginid (the (heap w' 5)) = 0 \<and> \<not> sched_inv ex_os (s', w')"
proof -
  obtain r s' w' where run: "rtf_scheduler_task_change ex_os ex_params 1 (ex_sched, ex_world) = Some (r, s', w')"
    using ex_change by blast
  have c: "change_choice (plugin ex_sched) ex_task = Some (RTF_OK, 0)"
    by (simp add: change_choice_def change_answer_def rtf_plg_task_change_def fp_task_change_def ex_accept)
  have "pluginid (the (heap w' 5)) = int 0 \<and> task_count_percpu (plugin s' ! 1) = task_count_percpu (plugin ex_sched ! 1) \<and>
      \<not> sched_inv ex_os (s', w')"
    by (rule rtf_scheduler_task_change_moved [OF ex_inv _ _ _ _ c _ run]) (simp_all add: ex_params)
  with run show ?thesis by auto
qed

end
