(* ===== verification/Daemon.thy ===== *)
theory Daemon
  imports Scheduler_Correct Channel
begin

text \<open>
  Serving requests, \<open>daemon/retif_daemon.c\<close>.

  \<open>data->tasks\<close> and \<open>data->sched.taskset\<close> are the same task set, so the daemon record keeps it in
  the scheduler.  \<open>dworld\<close> is the world the scheduler and the plugins run in and \<open>dnet\<close> the state of
  the socket layer.  A handler returns the reply and the daemon; the payload of a reply that no
  handler wrote is \<open>Unset\<close>.
\<close>

record ('k, 'n) rtf_daemon =
  chann :: rtf_carrier
  sched :: rtf_scheduler
  dworld :: "'k world"
  dnet :: 'n

subsection \<open>Request handlers\<close>

definition req_connection ::
  "('k, 'n) rtf_daemon \<Rightarrow> int \<Rightarrow> (rtf_reply \<times> ('k, 'n) rtf_daemon) option" where
  "req_connection d cli_id = do {
     req \<leftarrow> rtf_carrier_get_req (chann d) cli_id;
     c \<leftarrow> rtf_carrier_set_pid (chann d) cli_id (ids_pid req);
     Some (\<lparr>rep_type = RTF_CONNECTION_OK, payload = Unset\<rparr>, d\<lparr>chann := c\<rparr>)
   }"

definition req_connections_info :: "('k, 'n) rtf_daemon \<Rightarrow> int \<Rightarrow> rtf_reply option" where
  "req_connections_info d cli_id = do {
     _ \<leftarrow> rtf_carrier_get_req (chann d) cli_id;
     nclients \<leftarrow> for_each (\<lambda>n i. do { c \<leftarrow> aget (client (chann d)) i;
                                    Some (if cl_pid c \<noteq> 0 then n + 1 else n) })
                   0 [0..<CHANNEL_MAX_SIZE];
     Some \<lparr>rep_type = RTF_CONNECTIONS_INFO_OK, payload = Nconnected nclients\<rparr>
   }"

definition req_plugins_info :: "('k, 'n) rtf_daemon \<Rightarrow> int \<Rightarrow> rtf_reply option" where
  "req_plugins_info d cli_id = do {
     _ \<leftarrow> rtf_carrier_get_req (chann d) cli_id;
     Some \<lparr>rep_type = RTF_PLUGINS_INFO_OK, payload = Nplugin (num_of_plugins (sched d))\<rparr>
   }"

definition req_tasks_info :: "('k, 'n) rtf_daemon \<Rightarrow> int \<Rightarrow> rtf_reply option" where
  "req_tasks_info d cli_id = do {
     _ \<leftarrow> rtf_carrier_get_req (chann d) cli_id;
     Some \<lparr>rep_type = RTF_PLUGINS_INFO_OK, payload = Ntask (list_n (taskset (sched d)))\<rparr>
   }"

definition req_connection_info :: "('k, 'n) rtf_daemon \<Rightarrow> int \<Rightarrow> rtf_reply option" where
  "req_connection_info d cli_id = do {
     req \<leftarrow> rtf_carrier_get_req (chann d) cli_id;
     let cdesc = q_desc req;
     if cdesc > int CHANNEL_MAX_SIZE
     then Some \<lparr>rep_type = RTF_CONNECTION_INFO_ERR, payload = Unset\<rparr>
     else do {
       c \<leftarrow> iget (client (chann d)) cdesc;
       if cl_pid c = 0 then Some \<lparr>rep_type = RTF_CONNECTION_INFO_ERR, payload = Unset\<rparr>
       else Some \<lparr>rep_type = RTF_CONNECTION_INFO_OK,
                  payload = ClientInfo \<lparr>ci_pid = cl_pid c, ci_state = cl_state c\<rparr>\<rparr>
     }
   }"

definition req_plugin_info :: "('k, 'n) rtf_daemon \<Rightarrow> int \<Rightarrow> rtf_reply option" where
  "req_plugin_info d cli_id = do {
     req \<leftarrow> rtf_carrier_get_req (chann d) cli_id;
     let pdesc = q_desc req;
     if pdesc \<ge> num_of_plugins (sched d)
     then Some \<lparr>rep_type = RTF_PLUGIN_INFO_ERR, payload = Unset\<rparr>
     else do {
       plg \<leftarrow> iget (plugin (sched d)) pdesc;
       Some \<lparr>rep_type = RTF_PLUGIN_INFO_OK,
             payload = PluginInfo \<lparr>pi_name = strncpy (plg_name plg) PLUGIN_MAX_NAME,
                                   pi_cputot = cputot plg\<rparr>\<rparr>
     }
   }"

definition req_plugin_cpu_info :: "('k, 'n) rtf_daemon \<Rightarrow> int \<Rightarrow> rtf_reply option" where
  "req_plugin_cpu_info d cli_id = do {
     req \<leftarrow> rtf_carrier_get_req (chann d) cli_id;
     let pdesc = q_desc req;
     let cpuid = q_id req;
     if pdesc \<ge> num_of_plugins (sched d)
     then Some \<lparr>rep_type = RTF_PLUGIN_CPU_INFO_ERR, payload = Unset\<rparr>
     else do {
       plg \<leftarrow> iget (plugin (sched d)) pdesc;
       if cpuid \<ge> cputot plg then Some \<lparr>rep_type = RTF_PLUGIN_CPU_INFO_ERR, payload = Unset\<rparr>
       else do {
         c \<leftarrow> iget (cpulist plg) cpuid;
         n \<leftarrow> iget (task_count_percpu plg) cpuid;
         u \<leftarrow> iget (util_free_percpu plg) cpuid;
         Some \<lparr>rep_type = RTF_PLUGIN_CPU_INFO_OK,
               payload = CpuInfo \<lparr>cpunum = c, freeu = u, ntask = n\<rparr>\<rparr>
       }
     }
   }"

text \<open>The period is narrowed to \<open>int\<close>; the utilisation is not set.\<close>

definition req_task_info :: "('k, 'n) rtf_daemon \<Rightarrow> int \<Rightarrow> rtf_reply option" where
  "req_task_info d cli_id = do {
     req \<leftarrow> rtf_carrier_get_req (chann d) cli_id;
     p \<leftarrow> rtf_taskset_search (heap (dworld d)) (taskset (sched d)) (u32_of_int (q_desc req));
     case p of
       None \<Rightarrow> Some \<lparr>rep_type = RTF_TASK_INFO_ERR, payload = Unset\<rparr>
     | Some p \<Rightarrow> do {
         t \<leftarrow> heap (dworld d) p;
         Some \<lparr>rep_type = RTF_TASK_INFO_OK,
               payload = TaskInfo \<lparr>ti_tid = tid t, ti_ppid = ptid t,
                 ti_priority = s32_of_u32 (schedprio t), ti_period = s32_of_u64 (period (params t)),
                 ti_util = None, ti_pluginid = pluginid t\<rparr>\<rparr>
       }
   }"

text \<open>The id is a \<open>long\<close>, narrowed to \<open>int\<close> and then converted to the \<open>float\<close> of the reply.\<close>

definition req_task_create ::
  "'k kernel \<Rightarrow> ('k, 'n) rtf_daemon \<Rightarrow> int \<Rightarrow> (rtf_reply \<times> ('k, 'n) rtf_daemon) option" where
  "req_task_create os d cli_id = do {
     req \<leftarrow> rtf_carrier_get_req (chann d) cli_id;
     pid \<leftarrow> rtf_carrier_get_pid (chann d) cli_id;
     (res, s, w) \<leftarrow> rtf_scheduler_task_create os (param req) pid (sched d, dworld d);
     let d = d\<lparr>sched := s, dworld := w\<rparr>;
     let rtf_id = s32_of_u32 (u32_of_int (last_task_id s));
     Some (if res = RTF_NO then \<lparr>rep_type = RTF_TASK_CREATE_ERR, payload = Response (- 1)\<rparr>
           else if res = RTF_PARTIAL
           then \<lparr>rep_type = RTF_TASK_CREATE_PART, payload = Response (f32_of_int rtf_id)\<rparr>
           else \<lparr>rep_type = RTF_TASK_CREATE_OK, payload = Response (f32_of_int rtf_id)\<rparr>, d)
   }"

definition req_task_modify ::
  "'k kernel \<Rightarrow> ('k, 'n) rtf_daemon \<Rightarrow> int \<Rightarrow> (rtf_reply \<times> ('k, 'n) rtf_daemon) option" where
  "req_task_modify os d cli_id = do {
     req \<leftarrow> rtf_carrier_get_req (chann d) cli_id;
     (res, s, w) \<leftarrow> rtf_scheduler_task_change os (param req) (ids_rsvid req) (sched d, dworld d);
     let d = d\<lparr>sched := s, dworld := w\<rparr>;
     Some (if res = RTF_NO then \<lparr>rep_type = RTF_TASK_MODIFY_ERR, payload = Unset\<rparr>
           else if res = RTF_PARTIAL then \<lparr>rep_type = RTF_TASK_MODIFY_PART, payload = Unset\<rparr>
           else \<lparr>rep_type = RTF_TASK_MODIFY_OK, payload = Unset\<rparr>, d)
   }"

definition req_task_attach ::
  "'k kernel \<Rightarrow> ('k, 'n) rtf_daemon \<Rightarrow> int \<Rightarrow> (rtf_reply \<times> ('k, 'n) rtf_daemon) option" where
  "req_task_attach os d cli_id = do {
     req \<leftarrow> rtf_carrier_get_req (chann d) cli_id;
     (res, s, w) \<leftarrow> rtf_scheduler_task_attach os (ids_rsvid req) (ids_pid req) (sched d, dworld d);
     Some (\<lparr>rep_type = (if res < 0 then RTF_TASK_ATTACH_ERR else RTF_TASK_ATTACH_OK), payload = Unset\<rparr>,
           d\<lparr>sched := s, dworld := w\<rparr>)
   }"

definition req_task_detach ::
  "'k kernel \<Rightarrow> ('k, 'n) rtf_daemon \<Rightarrow> int \<Rightarrow> (rtf_reply \<times> ('k, 'n) rtf_daemon) option" where
  "req_task_detach os d cli_id = do {
     req \<leftarrow> rtf_carrier_get_req (chann d) cli_id;
     (res, s, w) \<leftarrow> rtf_scheduler_task_detach os (ids_rsvid req) (sched d, dworld d);
     Some (\<lparr>rep_type = (if res < 0 then RTF_TASK_DETACH_ERR else RTF_TASK_DETACH_OK), payload = Unset\<rparr>,
           d\<lparr>sched := s, dworld := w\<rparr>)
   }"

definition req_task_destroy ::
  "'k kernel \<Rightarrow> ('k, 'n) rtf_daemon \<Rightarrow> int \<Rightarrow> (rtf_reply \<times> ('k, 'n) rtf_daemon) option" where
  "req_task_destroy os d cli_id = do {
     req \<leftarrow> rtf_carrier_get_req (chann d) cli_id;
     (res, s, w) \<leftarrow> rtf_scheduler_task_destroy os (ids_rsvid req) (sched d, dworld d);
     Some (\<lparr>rep_type = (if res < 0 then RTF_TASK_DESTROY_ERR else RTF_TASK_DESTROY_OK), payload = Unset\<rparr>,
           d\<lparr>sched := s, dworld := w\<rparr>)
   }"

subsection \<open>The daemon loop\<close>

definition rtf_daemon_check_for_fail ::
  "'k kernel \<Rightarrow> 'n rtf_sockets \<Rightarrow> ('k, 'n) rtf_daemon \<Rightarrow> int \<Rightarrow> (int \<times> ('k, 'n) rtf_daemon) option" where
  "rtf_daemon_check_for_fail os net d cli_id = do {
     st \<leftarrow> rtf_carrier_get_state (chann d) cli_id;
     if st \<noteq> ERROR \<and> st \<noteq> DISCONNECTED then Some (0, d)
     else do {
       c \<leftarrow> rtf_carrier_set_state (chann d) cli_id EMPTY;
       pid \<leftarrow> rtf_carrier_get_pid c cli_id;
       (s, w) \<leftarrow> rtf_scheduler_delete os pid (sched d, dworld d);
       c \<leftarrow> rtf_carrier_set_pid c cli_id 0;
       (c, k) \<leftarrow> rtf_carrier_close net (dnet d) c cli_id;
       Some (1, d\<lparr>chann := c, sched := s, dworld := w, dnet := k\<rparr>)
     }
   }"

definition rtf_daemon_check_for_update :: "('k, 'n) rtf_daemon \<Rightarrow> int \<Rightarrow> int option" where
  "rtf_daemon_check_for_update d cli_id = do {
     is_updated \<leftarrow> rtf_carrier_is_updated (chann d) cli_id;
     st \<leftarrow> rtf_carrier_get_state (chann d) cli_id;
     Some (if st = CONNECTED \<and> is_updated then 1 else 0)
   }"

definition dispatch_req ::
  "'k kernel \<Rightarrow> ('k, 'n) rtf_daemon \<Rightarrow> int \<Rightarrow> REQ_TYPE option \<Rightarrow> (rtf_reply \<times> ('k, 'n) rtf_daemon) option" where
  "dispatch_req os d cli_id ty =
     (case ty of
        Some RTF_CONNECTION \<Rightarrow> req_connection d cli_id
      | Some RTF_CONNECTIONS_INFO \<Rightarrow> map_option (\<lambda>r. (r, d)) (req_connections_info d cli_id)
      | Some RTF_CONNECTION_INFO \<Rightarrow> map_option (\<lambda>r. (r, d)) (req_connection_info d cli_id)
      | Some RTF_PLUGINS_INFO \<Rightarrow> map_option (\<lambda>r. (r, d)) (req_plugins_info d cli_id)
      | Some RTF_PLUGIN_INFO \<Rightarrow> map_option (\<lambda>r. (r, d)) (req_plugin_info d cli_id)
      | Some RTF_PLUGIN_CPU_INFO \<Rightarrow> map_option (\<lambda>r. (r, d)) (req_plugin_cpu_info d cli_id)
      | Some RTF_TASKS_INFO \<Rightarrow> map_option (\<lambda>r. (r, d)) (req_tasks_info d cli_id)
      | Some RTF_TASK_INFO \<Rightarrow> map_option (\<lambda>r. (r, d)) (req_task_info d cli_id)
      | Some RTF_TASK_CREATE \<Rightarrow> req_task_create os d cli_id
      | Some RTF_TASK_MODIFY \<Rightarrow> req_task_modify os d cli_id
      | Some RTF_TASK_ATTACH \<Rightarrow> req_task_attach os d cli_id
      | Some RTF_TASK_DETACH \<Rightarrow> req_task_detach os d cli_id
      | Some RTF_TASK_DESTROY \<Rightarrow> req_task_destroy os d cli_id
      | _ \<Rightarrow> Some (\<lparr>rep_type = RTF_REQUEST_ERR, payload = Unset\<rparr>, d))"

definition rtf_daemon_process_req ::
  "'k kernel \<Rightarrow> 'n rtf_sockets \<Rightarrow> ('k, 'n) rtf_daemon \<Rightarrow> int \<Rightarrow> (int \<times> ('k, 'n) rtf_daemon) option" where
  "rtf_daemon_process_req os net d cli_id = do {
     req \<leftarrow> rtf_carrier_get_req (chann d) cli_id;
     (rep, d) \<leftarrow> dispatch_req os d cli_id (req_type req);
     let (sent, k) = rtf_carrier_send net (dnet d) rep cli_id;
     Some (sent, d\<lparr>dnet := k\<rparr>)
   }"

definition rtf_daemon_handle_req ::
  "'k kernel \<Rightarrow> 'n rtf_sockets \<Rightarrow> ('k, 'n) rtf_daemon \<Rightarrow> int \<Rightarrow> (int \<times> ('k, 'n) rtf_daemon) option" where
  "rtf_daemon_handle_req os net d cli_id = do {
     (res, d) \<leftarrow> rtf_daemon_check_for_fail os net d cli_id;
     if res \<noteq> 0 then Some (res, d)
     else do {
       res \<leftarrow> rtf_daemon_check_for_update d cli_id;
       if res = 0 then Some (0, d)
       else do {
         (sent, d) \<leftarrow> rtf_daemon_process_req os net d cli_id;
         c \<leftarrow> rtf_carrier_req_clear (chann d) cli_id;
         c \<leftarrow> (if sent \<le> 0 then rtf_carrier_set_state c cli_id ERROR else Some c);
         Some (0, d\<lparr>chann := c\<rparr>)
       }
     }
   }"

text \<open>One round of \<open>rtf_daemon_loop\<close>: receive, then handle every descriptor up to the largest.
  Handling a request never changes the largest descriptor.\<close>

definition rtf_daemon_round ::
  "'k kernel \<Rightarrow> 'n rtf_sockets \<Rightarrow> ('k, 'n) rtf_daemon \<Rightarrow> ('k, 'n) rtf_daemon option" where
  "rtf_daemon_round os net d = do {
     (c, k) \<leftarrow> rtf_carrier_update net (dnet d) (chann d);
     let d = d\<lparr>chann := c, dnet := k\<rparr>;
     for_each (\<lambda>d i. map_option snd (rtf_daemon_handle_req os net d (int i))) d
       [0..<nat (rtf_carrier_get_conn c + 1)]
   }"

text \<open>A round that a signal interrupts after the visits of the first \<open>m\<close> descriptors.\<close>

definition interrupted_round ::
  "'k kernel \<Rightarrow> 'n rtf_sockets \<Rightarrow> nat \<Rightarrow> ('k, 'n) rtf_daemon \<Rightarrow> ('k, 'n) rtf_daemon option" where
  "interrupted_round os net m d = do {
     (c, k) \<leftarrow> rtf_carrier_update net (dnet d) (chann d);
     let d = d\<lparr>chann := c, dnet := k\<rparr>;
     for_each (\<lambda>d i. map_option snd (rtf_daemon_handle_req os net d (int i))) d
       (take m [0..<nat (rtf_carrier_get_conn c + 1)])
   }"

text \<open>\<open>rtf_daemon_loop\<close> never returns; these are the states at the start of its rounds.\<close>

inductive daemon_runs ::
  "'k kernel \<Rightarrow> 'n rtf_sockets \<Rightarrow> ('k, 'n) rtf_daemon \<Rightarrow> ('k, 'n) rtf_daemon \<Rightarrow> bool"
  for os net d0 where
  start: "daemon_runs os net d0 d0"
| round: "daemon_runs os net d0 d \<Longrightarrow> rtf_daemon_round os net d = Some d' \<Longrightarrow> daemon_runs os net d0 d'"

text \<open>\<open>rtf_daemon_destroy\<close>: the tasks are freed without being released by their plugin.\<close>

function free_all_tasks :: "rtf_taskset \<Rightarrow> heap \<Rightarrow> (rtf_taskset \<times> heap) option" where
  "free_all_tasks ts h = do {
     (t, ts') \<leftarrow> rtf_taskset_remove_top ts;
     case t of
       None \<Rightarrow> Some (ts', h)
     | Some p \<Rightarrow> free_all_tasks ts' (rtf_task_release h p)
   }"
  by pat_completeness auto
termination
  by (relation "measure (\<lambda>(ts, h). length (list_root ts))")
     (auto simp: rtf_taskset_remove_top_def list_remove_top_def bind_eq_Some node_elem_def node_next_def
       split: if_splits list.splits)

declare free_all_tasks.simps [simp del]

end
