(* ===== verification/ClientLib.thy ===== *)
theory ClientLib
  imports Channel TimeUtils
begin

text \<open>
  The client library, \<open>lib/retif_lib.c\<close>: the parameter setters, the calls to the daemon and the
  local periodic activation.

  Every task of a process uses the static \<open>main_channel\<close>, which the operations take and return
  together with the state of the sockets.  The mutex makes a send and its receive one step.  The
  record of a task of the library is \<open>cli_task\<close>; in C it is a \<open>struct rtf_task\<close>, like the daemon's.

  The time constants of the library are \<open>double\<close>s, so its arithmetic is floating-point.
\<close>

record cli_task =
  task_id :: u32
  dmiss :: u32
  acc_runtime :: u64
  cli_p :: rtf_params
  act_time :: timespec
  abs_dl :: timespec

subsection \<open>Parameters\<close>

definition rtf_params_init :: rtf_params where
  "rtf_params_init = zero_params"

definition rtf_params_set_runtime :: "rtf_params \<Rightarrow> u64 \<Rightarrow> rtf_params" where
  "rtf_params_set_runtime p v = p\<lparr>runtime := v\<rparr>"

definition rtf_params_get_runtime :: "rtf_params \<Rightarrow> u64" where
  "rtf_params_get_runtime p = runtime p"

text \<open>The desired runtime is stored in, and read from, \<open>runtime\<close>.\<close>

definition rtf_params_set_des_runtime :: "rtf_params \<Rightarrow> u64 \<Rightarrow> rtf_params" where
  "rtf_params_set_des_runtime p v = p\<lparr>runtime := v\<rparr>"

definition rtf_params_get_des_runtime :: "rtf_params \<Rightarrow> u64" where
  "rtf_params_get_des_runtime p = runtime p"

definition rtf_params_set_period :: "rtf_params \<Rightarrow> u64 \<Rightarrow> rtf_params" where
  "rtf_params_set_period p v = p\<lparr>period := v\<rparr>"

definition rtf_params_get_period :: "rtf_params \<Rightarrow> u64" where
  "rtf_params_get_period p = period p"

definition rtf_params_set_deadline :: "rtf_params \<Rightarrow> u64 \<Rightarrow> rtf_params" where
  "rtf_params_set_deadline p v = p\<lparr>deadline := v\<rparr>"

definition rtf_params_get_deadline :: "rtf_params \<Rightarrow> u64" where
  "rtf_params_get_deadline p = deadline p"

definition rtf_params_set_priority :: "rtf_params \<Rightarrow> u32 \<Rightarrow> rtf_params" where
  "rtf_params_set_priority p v = p\<lparr>priority := v\<rparr>"

definition rtf_params_get_priority :: "rtf_params \<Rightarrow> u32" where
  "rtf_params_get_priority p = priority p"

definition rtf_params_set_scheduler :: "rtf_params \<Rightarrow> string \<Rightarrow> rtf_params" where
  "rtf_params_set_scheduler p s = p\<lparr>sched_plugin := strncpy s PLUGIN_MAX_NAME\<rparr>"

definition rtf_params_get_scheduler :: "rtf_params \<Rightarrow> char list" where
  "rtf_params_get_scheduler p =
     strncpy (takeWhile (\<lambda>c. c \<noteq> NUL) (sched_plugin p)) PLUGIN_MAX_NAME"

definition rtf_params_ignore_admission :: "rtf_params \<Rightarrow> u8 \<Rightarrow> rtf_params" where
  "rtf_params_ignore_admission p v = p\<lparr>ignore_admission := v\<rparr>"

subsection \<open>Talking to the daemon\<close>

type_synonym 'n lib_state = "rtf_access \<times> 'n"

text \<open>Only \<open>-1\<close> is an error: a receive that returns 0, a closed connection, is not.\<close>

definition rtf_task_communicate :: "'n rtf_sockets \<Rightarrow> 'n lib_state \<Rightarrow> int \<times> 'n lib_state" where
  "rtf_task_communicate net = (\<lambda>(c, k).
     let (r, k) = rtf_access_send net k c;
         (ret, c, k) = (if r \<noteq> RTF_ERROR then rtf_access_recv net k c else (RTF_ERROR, c, k))
     in (if ret = RTF_ERROR then RTF_ERROR else RTF_OK, c, k))"

text \<open>Writing the request of the channel.\<close>

definition with_req :: "(rtf_request \<Rightarrow> rtf_request) \<Rightarrow> rtf_access \<Rightarrow> rtf_access" where
  "with_req f c = c\<lparr>acc_req := f (acc_req c)\<rparr>"

definition rtf_connect :: "'n rtf_sockets \<Rightarrow> int \<Rightarrow> 'n lib_state \<Rightarrow> (int \<times> 'n lib_state) option" where
  "rtf_connect net pid = (\<lambda>(c, k). do {
     let (r, c, k) = rtf_access_init net k c;
     if r < 0 then Some (RTF_ERROR, c, k)
     else do {
       (r, k) \<leftarrow> rtf_access_connect net k c;
       if r < 0 then Some (RTF_ERROR, c, k)
       else do {
         let c = with_req (\<lambda>q. set_low (u32_of_int pid) (q\<lparr>req_type := Some RTF_CONNECTION\<rparr>)) c;
         let (r, k) = rtf_access_send net k c;
         if r < 0 then Some (RTF_ERROR, c, k)
         else do {
           let (r, c, k) = rtf_access_recv net k c;
           if r < 0 then Some (RTF_ERROR, c, k)
           else Some (if rep_type (acc_rep c) = RTF_CONNECTION_ERR then RTF_FAIL else RTF_OK, c, k)
         }
       }
     }
   })"

text \<open>Reading a member of the reply's payload: undefined when the daemon wrote another one.  The
  three counters are the same word.\<close>

definition payload_count :: "rtf_reply \<Rightarrow> int option" where
  "payload_count r =
     (case payload r of Nconnected n \<Rightarrow> Some n | Nplugin n \<Rightarrow> Some n | Ntask n \<Rightarrow> Some n | _ \<Rightarrow> None)"

text \<open>A request without arguments whose reply is a counter.\<close>

definition query_count :: "REQ_TYPE \<Rightarrow> 'n rtf_sockets \<Rightarrow> 'n lib_state \<Rightarrow> (int \<times> 'n lib_state) option" where
  "query_count ty net = (\<lambda>(c, k). do {
     let c = with_req (\<lambda>q. q\<lparr>req_type := Some ty\<rparr>) c;
     let (r, c, k) = rtf_task_communicate net (c, k);
     if r < 0 then Some (RTF_ERROR, c, k)
     else do { n \<leftarrow> payload_count (acc_rep c); Some (n, c, k) }
   })"

definition rtf_connections_info :: "'n rtf_sockets \<Rightarrow> 'n lib_state \<Rightarrow> (int \<times> 'n lib_state) option" where
  "rtf_connections_info = query_count RTF_CONNECTIONS_INFO"

definition rtf_plugins_info :: "'n rtf_sockets \<Rightarrow> 'n lib_state \<Rightarrow> (int \<times> 'n lib_state) option" where
  "rtf_plugins_info = query_count RTF_PLUGINS_INFO"

definition rtf_tasks_info :: "'n rtf_sockets \<Rightarrow> 'n lib_state \<Rightarrow> (int \<times> 'n lib_state) option" where
  "rtf_tasks_info = query_count RTF_TASKS_INFO"

text \<open>A request for the information on one item: the status, the reply's payload on success.\<close>

definition query_item ::
  "(rtf_request \<Rightarrow> rtf_request) \<Rightarrow> REQ_TYPE \<Rightarrow> REP_TYPE \<Rightarrow> 'n rtf_sockets \<Rightarrow> 'n lib_state
     \<Rightarrow> int \<times> reply_payload \<times> 'n lib_state" where
  "query_item args ty err net = (\<lambda>(c, k).
     let c = with_req (\<lambda>q. args (q\<lparr>req_type := Some ty\<rparr>)) c;
         (r, c, k) = rtf_task_communicate net (c, k)
     in if r < 0 then (RTF_ERROR, Unset, c, k)
        else if rep_type (acc_rep c) = err then (RTF_ERROR, Unset, c, k)
        else (RTF_OK, payload (acc_rep c), c, k))"

definition rtf_connection_info ::
  "u32 \<Rightarrow> 'n rtf_sockets \<Rightarrow> 'n lib_state \<Rightarrow> int \<times> reply_payload \<times> 'n lib_state" where
  "rtf_connection_info desc = query_item (set_high desc) RTF_CONNECTION_INFO RTF_CONNECTION_INFO_ERR"

definition lib_task_info ::
  "u32 \<Rightarrow> 'n rtf_sockets \<Rightarrow> 'n lib_state \<Rightarrow> int \<times> reply_payload \<times> 'n lib_state" where
  "lib_task_info desc = query_item (set_high desc) RTF_TASK_INFO RTF_TASK_INFO_ERR"

definition lib_plugin_info ::
  "u32 \<Rightarrow> 'n rtf_sockets \<Rightarrow> 'n lib_state \<Rightarrow> int \<times> reply_payload \<times> 'n lib_state" where
  "lib_plugin_info desc = query_item (set_high desc) RTF_PLUGIN_INFO RTF_PLUGIN_INFO_ERR"

definition rtf_plugin_cpu_info ::
  "u32 \<Rightarrow> u32 \<Rightarrow> 'n rtf_sockets \<Rightarrow> 'n lib_state \<Rightarrow> int \<times> reply_payload \<times> 'n lib_state" where
  "rtf_plugin_cpu_info desc cpuid =
     query_item (set_low cpuid \<circ> set_high desc) RTF_PLUGIN_CPU_INFO RTF_PLUGIN_CPU_INFO_ERR"

definition cli_task_init :: "cli_task \<Rightarrow> cli_task" where
  "cli_task_init t = t\<lparr>task_id := 0\<rparr>"

text \<open>\<open>(uint32_t) rep.payload.response\<close>.\<close>

definition payload_id :: "rtf_reply \<Rightarrow> u32 option" where
  "payload_id r = (case payload r of Response f \<Rightarrow> u32_of_f32 f | _ \<Rightarrow> None)"

definition cli_task_create ::
  "'n rtf_sockets \<Rightarrow> rtf_params \<Rightarrow> cli_task \<times> 'n lib_state \<Rightarrow> (int \<times> cli_task \<times> 'n lib_state) option" where
  "cli_task_create net p = (\<lambda>(t, c, k). do {
     let c = with_req (\<lambda>q. q\<lparr>req_type := Some RTF_TASK_CREATE, param := p\<rparr>) c;
     let t = t\<lparr>cli_p := p\<rparr>;
     let (r, c, k) = rtf_task_communicate net (c, k);
     if r < 0 then Some (RTF_ERROR, t, c, k)
     else if rep_type (acc_rep c) = RTF_TASK_CREATE_ERR then Some (RTF_FAIL, t, c, k)
     else do { i \<leftarrow> payload_id (acc_rep c); Some (RTF_OK, t\<lparr>task_id := i\<rparr>, c, k) }
   })"

text \<open>The request carries the parameters only: \<open>ids.rsvid\<close> is not written.\<close>

definition cli_task_change ::
  "'n rtf_sockets \<Rightarrow> rtf_params \<Rightarrow> cli_task \<times> 'n lib_state \<Rightarrow> int \<times> cli_task \<times> 'n lib_state" where
  "cli_task_change net p = (\<lambda>(t, c, k).
     let c = with_req (\<lambda>q. q\<lparr>req_type := Some RTF_TASK_MODIFY, param := p\<rparr>) c;
         t = t\<lparr>cli_p := p\<rparr>;
         (r, c, k) = rtf_task_communicate net (c, k)
     in if r < 0 then (RTF_ERROR, t, c, k)
        else if rep_type (acc_rep c) = RTF_TASK_MODIFY_ERR then (RTF_FAIL, t, c, k)
        else (RTF_OK, t, c, k))"

text \<open>A request about the task itself.\<close>

definition request_on_task ::
  "(rtf_request \<Rightarrow> rtf_request) \<Rightarrow> REQ_TYPE \<Rightarrow> REP_TYPE \<Rightarrow> 'n rtf_sockets \<Rightarrow> 'n lib_state \<Rightarrow> int \<times> 'n lib_state" where
  "request_on_task args ty err net = (\<lambda>(c, k).
     let c = with_req (\<lambda>q. args (q\<lparr>req_type := Some ty\<rparr>)) c;
         (r, c, k) = rtf_task_communicate net (c, k)
     in if r < 0 then (RTF_ERROR, c, k)
        else if rep_type (acc_rep c) = err then (RTF_FAIL, c, k)
        else (RTF_OK, c, k))"

definition cli_task_attach ::
  "'n rtf_sockets \<Rightarrow> cli_task \<Rightarrow> int \<Rightarrow> 'n lib_state \<Rightarrow> int \<times> 'n lib_state" where
  "cli_task_attach net t pid =
     request_on_task (set_low (u32_of_int pid) \<circ> set_high (task_id t)) RTF_TASK_ATTACH RTF_TASK_ATTACH_ERR net"

definition cli_task_detach :: "'n rtf_sockets \<Rightarrow> cli_task \<Rightarrow> 'n lib_state \<Rightarrow> int \<times> 'n lib_state" where
  "cli_task_detach net t =
     request_on_task (set_high (task_id t)) RTF_TASK_DETACH RTF_TASK_DETACH_ERR net"

definition cli_task_release :: "'n rtf_sockets \<Rightarrow> cli_task \<Rightarrow> 'n lib_state \<Rightarrow> int \<times> 'n lib_state" where
  "cli_task_release net t =
     request_on_task (set_high (task_id t)) RTF_TASK_DESTROY RTF_TASK_DESTROY_ERR net"

subsection \<open>Local activation\<close>

text \<open>The sums are computed in \<open>double\<close> and truncated when they are stored.\<close>

definition trunc_s64 :: "f64 \<Rightarrow> int" where
  "trunc_s64 x = (if 0 \<le> x then \<lfloor>x\<rfloor> else - \<lfloor>- x\<rfloor>)"

definition f64_of_int :: "int \<Rightarrow> f64" where
  "f64_of_int i = f64_round (of_int i)"

definition lib_time_add_ms :: "timespec \<Rightarrow> u32 \<Rightarrow> timespec" where
  "lib_time_add_ms t ms =
     (let sec = trunc_s64 (f64_round (f64_of_int (tv_sec t) + f64_round (of_int (uint ms) / 1000)));
          nsec = trunc_s64 (f64_round (f64_of_int (tv_nsec t) + f64_round (of_int (uint ms mod 1000) * 1000000)))
      in if f64_of_int nsec > 1000000000
         then \<lparr>tv_sec = sec + 1, tv_nsec = trunc_s64 (f64_round (f64_of_int nsec - 1000000000))\<rparr>
         else \<lparr>tv_sec = sec, tv_nsec = nsec\<rparr>)"

definition lib_time_cmp :: "timespec \<Rightarrow> timespec \<Rightarrow> int" where
  "lib_time_cmp t1 t2 =
     (if tv_sec t1 > tv_sec t2 then 1
      else if tv_sec t1 < tv_sec t2 then - 1
      else if tv_nsec t1 > tv_nsec t2 then 1
      else if tv_nsec t1 < tv_nsec t2 then - 1
      else 0)"

definition lib_time_copy :: "timespec \<Rightarrow> timespec" where
  "lib_time_copy ts = \<lparr>tv_sec = tv_sec ts, tv_nsec = tv_nsec ts\<rparr>"

definition u32_of_f64 :: "f64 \<Rightarrow> u32 option" where
  "u32_of_f64 x = (if - 1 < x \<and> x < 2 ^ 32 then Some (word_of_int (trunc_s64 x)) else None)"

definition lib_timespec_to_ms :: "timespec \<Rightarrow> u32 option" where
  "lib_timespec_to_ms t = do {
     ms \<leftarrow> u32_of_f64 (f64_round (f64_of_int (tv_sec t) * 1000));
     u32_of_f64 (f64_round (of_int (uint ms) + f64_round (f64_of_int (tv_nsec t) / 1000000)))
   }"

definition lib_get_thread_time :: "(int \<Rightarrow> timespec) \<Rightarrow> timespec" where
  "lib_get_thread_time clock = clock CLOCK_THREAD_CPUTIME_ID"

definition lib_get_thread_time_ms :: "(int \<Rightarrow> timespec) \<Rightarrow> u32 option" where
  "lib_get_thread_time_ms clock = lib_timespec_to_ms (clock CLOCK_THREAD_CPUTIME_ID)"

text \<open>As in the daemon, \<open>rdg n\<close> is the \<open>n\<close>-th reading of the clock of the thread.\<close>

partial_function (option) lib_busy_until :: "(nat \<Rightarrow> timespec) \<Rightarrow> timespec \<Rightarrow> nat \<Rightarrow> nat option" where
  "lib_busy_until rdg t_end n =
     (if lib_time_cmp (rdg n) t_end > 0 then Some (n + 1) else lib_busy_until rdg t_end (n + 1))"

definition lib_compute_for :: "(nat \<Rightarrow> timespec) \<Rightarrow> u32 \<Rightarrow> u32 \<Rightarrow> nat \<Rightarrow> nat option" where
  "lib_compute_for rdg rnd exec_milli_max n =
     (if exec_milli_max = 0 then None
      else lib_busy_until rdg (lib_time_add_ms (rdg n) (rnd mod exec_milli_max)) (n + 1))"

text \<open>The period and the deadline are 64-bit microseconds; they are passed as 32-bit milliseconds.\<close>

definition rtf_task_start :: "timespec \<Rightarrow> cli_task \<Rightarrow> cli_task" where
  "rtf_task_start now t =
     t\<lparr>act_time := lib_time_add_ms (lib_time_copy now) (u32_of_u64 (period (cli_p t))),
       abs_dl := lib_time_add_ms (lib_time_copy now) (u32_of_u64 (deadline (cli_p t)))\<rparr>"

text \<open>The thread sleeps until the new \<open>act_time\<close>.\<close>

definition rtf_task_wait_period :: "cli_task \<Rightarrow> cli_task" where
  "rtf_task_wait_period t =
     t\<lparr>act_time := lib_time_add_ms (act_time t) (u32_of_u64 (period (cli_p t))),
       abs_dl := lib_time_add_ms (abs_dl t) (u32_of_u64 (deadline (cli_p t)))\<rparr>"

definition rtf_task_get_accepted_budget :: "cli_task \<Rightarrow> u64" where
  "rtf_task_get_accepted_budget t = acc_runtime t"

end
