(* ===== verification/Startup.thy ===== *)
theory Startup
  imports Config Daemon
begin

text \<open>
  Loading the plugins, \<open>daemon/retif_plugin.c\<close>, and bringing the daemon up and down: the
  initialisation of \<open>daemon/retif_scheduler.c\<close> and of \<open>daemon/retif_daemon.c\<close>.

  The dynamic loader is a parameter: \<open>file_exists\<close> is \<open>access\<close> and \<open>dl_open\<close> is \<open>dlopen\<close>, which
  names the library it found.  The directory of the installed plugins is fixed when the daemon is
  built and is a parameter as well.
\<close>

record loader =
  file_exists :: "string \<Rightarrow> bool"
  dl_open :: "string \<Rightarrow> plugin_lib option"
  install_path :: string

subsection \<open>Plugins\<close>

definition fullpath :: "string \<Rightarrow> string \<Rightarrow> string" where
  "fullpath path relpath = path @ relpath"

text \<open>The result code and the library whose symbols were resolved.\<close>

definition open_plugin_dll :: "loader \<Rightarrow> string \<Rightarrow> string \<Rightarrow> int \<times> plugin_lib option" where
  "open_plugin_dll ld path relpath =
     (let fpath = fullpath path relpath
      in if \<not> file_exists ld fpath then (- 2, None)
         else case dl_open ld fpath of None \<Rightarrow> (- 1, None) | Some lib \<Rightarrow> (0, Some lib))"

text \<open>What \<open>dirname\<close> leaves in its buffer: without a slash in front of the last component the
  buffer is unchanged (the result \<open>.\<close> is another string).\<close>

definition strip_slashes :: "string \<Rightarrow> string" where
  "strip_slashes p = rev (dropWhile (\<lambda>c. c = CHR ''/'') (rev p))"

definition dirname_buffer :: "string \<Rightarrow> string" where
  "dirname_buffer p =
     (let base = (if strip_slashes p = [] then p else strip_slashes p);
          dir = rev (dropWhile (\<lambda>c. c \<noteq> CHR ''/'') (rev base))
      in if dir = [] then p
         else if strip_slashes dir = [] then (if length dir = 2 then dir else ''/'')
         else strip_slashes dir)"

text \<open>The buffer has room for the path: appending \<open>/\<close> to an unchanged buffer overflows it.\<close>

definition find_and_open_plugin :: "loader \<Rightarrow> string \<Rightarrow> string \<Rightarrow> (int \<times> plugin_lib option) option" where
  "find_and_open_plugin ld conf_file_path path =
     (if length path < 1 then Some (- 1, None)
      else if hd path = CHR ''/'' then
        (let (res, lib) = open_plugin_dll ld [] path
         in Some (if res = - 2 \<or> res = - 1 then (- 1, None) else (0, lib)))
      else let curpath = dirname_buffer conf_file_path
           in if \<not> length curpath < length conf_file_path then None
              else let (res, lib) = open_plugin_dll ld (curpath @ ''/'') path
                   in Some (if res = 0 then (0, lib)
                            else if res = - 1 then (- 1, None)
                            else let (res, lib) = open_plugin_dll ld (install_path ld) path
                                 in if res = 0 then (0, lib) else (- 1, None)))"

definition init_plugin :: "loader \<Rightarrow> string \<Rightarrow> nat \<Rightarrow> conf_plugin \<Rightarrow> rtf_plugin option option" where
  "init_plugin ld conf_file_path i conf = do {
     cores \<leftarrow> cp_cores conf;
     pmin \<leftarrow> cp_prio_min conf;
     pmax \<leftarrow> cp_prio_max conf;
     name \<leftarrow> cp_name conf;
     path \<leftarrow> cp_path conf;
     let n = length cores;
     (res, lib) \<leftarrow> find_and_open_plugin ld conf_file_path path;
     case lib of
       None \<Rightarrow> Some None
     | Some lib \<Rightarrow> Some (Some \<lparr>plg_id = int i, plg_name = name, plg_path = path, dl_ptr = lib,
         prio_min = pmin, prio_max = pmax, cpulist = cores, cputot = int n,
         util_free_percpu = replicate n 1, task_count_percpu = replicate n 0,
         plg_tasks = replicate n rtf_taskset_init\<rparr>)
   }"

text \<open>The loop over the configured plugins: the result code and the plugins initialised.\<close>

fun init_plugins ::
  "loader \<Rightarrow> string \<Rightarrow> nat \<Rightarrow> conf_plugin list \<Rightarrow> rtf_plugin list \<Rightarrow> (int \<times> rtf_plugin list) option" where
  "init_plugins ld conf_file_path i [] plgs = Some (0, plgs)"
| "init_plugins ld conf_file_path i (c # cs) plgs = do {
     p \<leftarrow> init_plugin ld conf_file_path i c;
     case p of
       None \<Rightarrow> Some (- 1, plgs)
     | Some p \<Rightarrow> init_plugins ld conf_file_path (Suc i) cs (plgs @ [p])
   }"

definition rtf_plugins_init :: "loader \<Rightarrow> string \<Rightarrow> conf_plugin list \<Rightarrow> (int \<times> rtf_plugin list) option" where
  "rtf_plugins_init ld conf_file_path confs = init_plugins ld conf_file_path 0 confs []"

text \<open>The arrays that are freed have no entry any more; the names, paths and task sets are not freed.\<close>

definition rtf_plugins_destroy :: "rtf_plugin list \<Rightarrow> int \<Rightarrow> rtf_plugin list option" where
  "rtf_plugins_destroy plgs plugin_num =
     for_each (\<lambda>plgs i. do {
       p \<leftarrow> aget plgs i;
       aset plgs i (p\<lparr>util_free_percpu := [], cpulist := [], task_count_percpu := []\<rparr>)
     }) plgs [0..<nat plugin_num]"

subsection \<open>Scheduler\<close>

text \<open>\<open>rt_runtime / rt_period\<close> in \<open>double\<close>; a division by zero is an infinity or a NaN.\<close>

definition procfs_util_below :: "int \<Rightarrow> int \<Rightarrow> c_double \<Rightarrow> bool" where
  "procfs_util_below rt_runtime rt_period max_util =
     (case max_util of
        NaN \<Rightarrow> False
      | Infinite neg \<Rightarrow> \<not> neg \<and> (rt_period \<noteq> 0 \<or> rt_runtime < 0)
      | Finite u \<Rightarrow>
          if rt_period = 0 then rt_runtime < 0
          else f64_round (f64_round (of_int rt_runtime) / f64_round (of_int rt_period)) < u)"

definition rtf_scheduler_init ::
  "'f files \<Rightarrow> 'f \<Rightarrow> loader \<Rightarrow> string \<Rightarrow> int \<Rightarrow> configuration \<Rightarrow> rtf_scheduler \<Rightarrow> (int \<times> rtf_scheduler) option" where
  "rtf_scheduler_init io fs ld conf_file_path nprocs conf s =
     (case (file_read_long io fs PROC_RT_RUNTIME_FILE, file_read_long io fs PROC_RT_PERIOD_FILE) of
        ((r1, Some rt_runtime), (r2, Some rt_period)) \<Rightarrow>
          if rt_runtime \<noteq> - 1 \<and> procfs_util_below rt_runtime rt_period (sched_max_util (csystem conf))
          then Some (- 1, s)
          else do {
            let s = s\<lparr>taskset := rtf_taskset_init, last_task_id := 0, num_of_cpu := nprocs\<rparr>;
            (res, plgs) \<leftarrow> rtf_plugins_init ld conf_file_path (cplugins conf);
            Some (res, s\<lparr>plugin := plgs, num_of_plugins := int (length (cplugins conf))\<rparr>)
          }
      | ((r1, _), (r2, _)) \<Rightarrow> Some (or r1 r2, s))"

definition rtf_scheduler_destroy :: "rtf_scheduler \<Rightarrow> rtf_scheduler option" where
  "rtf_scheduler_destroy s = do {
     plgs \<leftarrow> rtf_plugins_destroy (plugin s) (num_of_plugins s);
     Some (s\<lparr>plugin := plgs\<rparr>)
   }"

subsection \<open>Daemon\<close>

text \<open>The environment of the daemon and its state before and after initialisation.\<close>

record ('k, 'n, 'f) environment =
  env_os :: "'k kernel"
  env_net :: "'n rtf_sockets"
  env_files :: "'f files"
  env_yaml :: "string \<Rightarrow> yaml_file"
  env_errno :: bool
  env_loader :: loader
  env_conf_path :: string

record ('k, 'n, 'f) daemon_state =
  daemon :: "('k, 'n) rtf_daemon"
  proc_bk :: proc_backup
  config :: configuration
  dfiles :: 'f

definition rtf_daemon_init ::
  "('k, 'n, 'f) environment \<Rightarrow> ('k, 'n, 'f) daemon_state \<Rightarrow> (int \<times> ('k, 'n, 'f) daemon_state) option" where
  "rtf_daemon_init env st = do {
     (r, conf) \<leftarrow> parse_configuration (env_yaml env) (sys_nprocs (env_os env)) (env_errno env)
                    (config st) (env_conf_path env);
     let st = st\<lparr>config := conf\<rparr>;
     if r \<noteq> 0 then Some (- 1, st)
     else do {
       let (r, b) = save_rt_kernel_params (env_files env) (dfiles st) (proc_bk st);
       let st = st\<lparr>proc_bk := b\<rparr>;
       if r \<noteq> 0 then Some (- 1, st)
       else do {
         let (_, fs) = set_rt_kernel_params (env_files env) (dfiles st) (csystem conf);
         let st = st\<lparr>dfiles := fs\<rparr>;
         (r, c, k) \<leftarrow> rtf_carrier_init (env_net env) (dnet (daemon st)) (chann (daemon st));
         let st = st\<lparr>daemon := (daemon st)\<lparr>chann := c, dnet := k\<rparr>\<rparr>;
         if r < 0 then Some (- 1, st)
         else do {
           (r, s) \<leftarrow> rtf_scheduler_init (env_files env) (dfiles st) (env_loader env) (env_conf_path env)
                       (sys_nprocs (env_os env)) conf
                       ((sched (daemon st))\<lparr>taskset := rtf_taskset_init\<rparr>);
           let st = st\<lparr>daemon := (daemon st)\<lparr>sched := s\<rparr>\<rparr>;
           Some (if r < 0 then - 1 else 0, st)
         }
       }
     }
   }"

definition rtf_daemon_destroy ::
  "('k, 'n, 'f) environment \<Rightarrow> ('k, 'n, 'f) daemon_state \<Rightarrow> ('k, 'n, 'f) daemon_state option" where
  "rtf_daemon_destroy env st = do {
     let d = daemon st;
     (ts, h) \<leftarrow> free_all_tasks (taskset (sched d)) (heap (dworld d));
     s \<leftarrow> rtf_scheduler_destroy ((sched d)\<lparr>taskset := ts\<rparr>);
     let (_, fs) = restore_rt_kernel_params (env_files env) (dfiles st) (proc_bk st);
     Some (st\<lparr>daemon := d\<lparr>sched := s, dworld := (dworld d)\<lparr>heap := h\<rparr>\<rparr>, dfiles := fs\<rparr>)
   }"

end
