(* ===== verification/Channel_Correct.thy ===== *)
theory Channel_Correct
  imports Channel
begin

text \<open>
  The correctness of the channel: receiving never leaves the arrays of the carrier, whatever the
  sockets deliver, and the state of every client follows the automaton of \<open>client_step\<close>.

  \<open>sockets_ok net P\<close> is what is relied on of the sockets: descriptors are below \<open>FD_SETSIZE\<close>, and a
  receive turns a buffer that satisfies \<open>P\<close> into one that satisfies \<open>P\<close>.  With \<open>P\<close> true of every
  request, only the bound on the descriptors remains.
\<close>

definition sockets_ok :: "'n rtf_sockets \<Rightarrow> (rtf_request \<Rightarrow> bool) \<Rightarrow> bool" where
  "sockets_ok net P \<longleftrightarrow> (\<forall>k fd. fst (sys_accept net k fd) < int SET_MAX_SIZE) \<and>
     (\<forall>k fd buf. P buf \<longrightarrow> P (fst (snd (sys_recv_req net k fd buf))))"

definition usocket_ok :: "usocket \<Rightarrow> bool" where
  "usocket_ok us \<longleftrightarrow> 0 \<le> sock_fd us \<and> sock_fd us < int SET_MAX_SIZE \<and> conn_set_max us < int SET_MAX_SIZE \<and>
     length (ucredp us) = SET_MAX_SIZE"

definition carrier_ok :: "(rtf_request \<Rightarrow> bool) \<Rightarrow> rtf_carrier \<Rightarrow> bool" where
  "carrier_ok P c \<longleftrightarrow> usocket_ok (sock c) \<and> length (last_n c) = SET_MAX_SIZE \<and>
     length (last_req c) = SET_MAX_SIZE \<and> (\<forall>r \<in> set (last_req c). P r) \<and> length (client c) = SET_MAX_SIZE"

lemma carrier_okD:
  assumes "carrier_ok P c"
  shows "usocket_ok (sock c)" "length (last_n c) = SET_MAX_SIZE" "length (last_req c) = SET_MAX_SIZE"
    "\<forall>r \<in> set (last_req c). P r" "length (client c) = SET_MAX_SIZE"
  using assms by (simp_all add: carrier_ok_def)

subsection \<open>Receiving\<close>

lemma add_connections_ok:
  assumes "sockets_ok net P" and "usocket_ok us"
  shows "\<exists>n us' k'. usocket_add_connections net k us = Some (n, us', k') \<and> usocket_ok us' \<and> sock_fd us' = sock_fd us"
proof -
  obtain fd k' where a: "sys_accept net k (sock_fd us) = (fd, k')" by (cases "sys_accept net k (sock_fd us)")
  then have "fd < int SET_MAX_SIZE" using assms(1) unfolding sockets_ok_def by (metis fst_conv)
  then show ?thesis
    using assms(2) a
    by (auto simp: usocket_add_connections_def usocket_accept_def usocket_get_credentials_def usocket_ok_def
        FD_SET_def c_simps split: option.split)
qed

text \<open>The buffers of a receive, and its result.\<close>

definition bufs_ok :: "(rtf_request \<Rightarrow> bool) \<Rightarrow> int \<Rightarrow> usocket \<times> rtf_request list \<times> int list \<times> 'n \<Rightarrow> bool" where
  "bufs_ok P fd = (\<lambda>(us, data, nrecv, k). usocket_ok us \<and> sock_fd us = fd \<and> length data = SET_MAX_SIZE \<and>
     (\<forall>r \<in> set data. P r) \<and> length nrecv = SET_MAX_SIZE)"

lemma recvall_loop_ok:
  assumes "sockets_ok net P" and "bufs_ok P fd (us, data, nrecv, k)"
  shows "\<exists>r. recvall_loop net ready i us data nrecv k = Some r \<and> bufs_ok P fd r"
  using assms(2)
proof (induction "SET_MAX_SIZE - i" arbitrary: i us data nrecv k rule: less_induct)
  case less
  have B: "usocket_ok us" "sock_fd us = fd" "length data = SET_MAX_SIZE" "\<forall>r \<in> set data. P r" "length nrecv = SET_MAX_SIZE"
    using less.prems by (simp_all add: bufs_ok_def)
  show ?case
  proof (cases "int i > conn_set_max us")
    case True
    then show ?thesis using less.prems by (subst recvall_loop.simps) simp
  next
    case False
    then have i: "i < SET_MAX_SIZE" using B(1) by (simp add: usocket_ok_def)
    then have set: "FD_ISSET (int i) ready = Some (i \<in> ready)" by (simp add: FD_ISSET_def)
    have IH: "\<exists>r. recvall_loop net ready (Suc i) us' data' nrecv' k' = Some r \<and> bufs_ok P fd r"
      if "bufs_ok P fd (us', data', nrecv', k')" for us' data' nrecv' k'
      using that i by (intro less.hyps) simp_all
    consider "i \<notin> ready" | "i \<in> ready" "int i = fd" | "i \<in> ready" "int i \<noteq> fd" by blast
    then show ?thesis
    proof cases
      case 1
      then show ?thesis using IH [OF less.prems] False set by (subst recvall_loop.simps) simp
    next
      case 2
      from add_connections_ok [OF assms(1) B(1)] obtain n us' k' where
        a: "usocket_add_connections net k us = Some (n, us', k')" "usocket_ok us'" "sock_fd us' = sock_fd us" by blast
      then have "bufs_ok P fd (us', data, nrecv[i := n], k')" using B by (simp add: bufs_ok_def)
      from IH [OF this] show ?thesis
        using 2 False set a(1) B(2,5) i by (subst recvall_loop.simps) (simp add: c_simps)
    next
      case 3
      obtain n buf k' where r: "sys_recv_req net k (int i) (data ! i) = (n, buf, k')"
        by (cases "sys_recv_req net k (int i) (data ! i)") auto
      have "P (data ! i)" using B(3,4) i by simp
      then have "P buf" using assms(1) r unfolding sockets_ok_def by (metis fst_conv snd_conv)
      then have P: "\<forall>r \<in> set (data[i := buf]). P r" using B(4) set_update_subset_insert by fastforce
      define us' where "us' = (if n = 0 then us\<lparr>conn_set := conn_set us - {i}\<rparr> else us)"
      have "bufs_ok P fd (us', data[i := buf], nrecv[i := (if n = 0 then - 1 else n)], k')"
        using B P by (simp add: bufs_ok_def us'_def usocket_ok_def)
      from IH [OF this] show ?thesis
        using 3 False set r B(2,3,5) i
        by (subst recvall_loop.simps) (simp add: c_simps FD_CLR_def us'_def split: if_splits)
    qed
  qed
qed

subsection \<open>The carrier\<close>

text \<open>The clients after an update with descriptors below \<open>n\<close>.\<close>

definition stepped :: "int \<Rightarrow> int list \<Rightarrow> nat \<Rightarrow> rtf_client list \<Rightarrow> rtf_client list" where
  "stepped main nrecv n cs = map (\<lambda>i. if i < n \<and> int i \<noteq> main
     then (cs ! i)\<lparr>cl_state := client_step (cl_state (cs ! i)) (nrecv ! i)\<rparr> else cs ! i) [0..<length cs]"

lemma length_stepped [simp]: "length (stepped main nrecv n cs) = length cs"
  by (simp add: stepped_def)

lemma stepped_nth: "i < length cs \<Longrightarrow> stepped main nrecv n cs ! i = (if i < n \<and> int i \<noteq> main
     then (cs ! i)\<lparr>cl_state := client_step (cl_state (cs ! i)) (nrecv ! i)\<rparr> else cs ! i)"
  by (simp add: stepped_def)

lemma stepped_pid [simp]: "map cl_pid (stepped main nrecv n cs) = map cl_pid cs"
  by (rule nth_equalityI) (simp_all add: stepped_nth)

lemma cleared_prefix:
  "n \<le> length xs \<Longrightarrow> \<exists>l. for_each (\<lambda>l i. aset l i 0) xs [0..<n] = Some l \<and> length l = length xs \<and> (\<forall>j < n. l ! j = 0) \<and>
    (\<forall>j. n \<le> j \<longrightarrow> l ! j = xs ! j)"
proof (induction n)
  case (Suc n)
  then obtain l where "for_each (\<lambda>l i. aset l i 0) xs [0..<n] = Some l" "length l = length xs" "\<forall>j < n. l ! j = 0"
      "\<forall>j. n \<le> j \<longrightarrow> l ! j = xs ! j" by auto
  with Suc.prems show ?case
    by (intro exI [of _ "l[n := 0]"]) (auto simp: for_each_append c_simps nth_list_update less_Suc_eq)
qed simp

lemma update_clients:
  assumes "length nrecv = length cs" and "n \<le> length cs"
  shows "for_each (update_client main nrecv) cs [0..<n] = Some (stepped main nrecv n cs)"
  using assms(2)
proof (induction n)
  case 0
  then show ?case by (simp add: stepped_def map_nth)
next
  case (Suc n)
  have n: "stepped main nrecv n cs ! n = cs ! n" using Suc.prems by (simp add: stepped_nth)
  have "update_client main nrecv (stepped main nrecv n cs) n = Some (stepped main nrecv (Suc n) cs)"
  proof (cases "int n = main")
    case True
    then have "stepped main nrecv (Suc n) cs = stepped main nrecv n cs"
      by (intro nth_equalityI) (auto simp: stepped_nth less_Suc_eq)
    with True show ?thesis by (simp add: update_client_def)
  next
    case False
    have "(stepped main nrecv n cs)[n := (cs ! n)\<lparr>cl_state := client_step (cl_state (cs ! n)) (nrecv ! n)\<rparr>] =
        stepped main nrecv (Suc n) cs"
      using False by (intro nth_equalityI) (auto simp: stepped_nth nth_list_update less_Suc_eq)
    then show ?thesis using False Suc.prems assms(1) n by (simp add: update_client_def c_simps)
  qed
  with Suc show ?case by (simp add: for_each_append)
qed

text \<open>A descriptor that is not ready keeps its result.\<close>

lemma recvall_loop_quiet:
  "recvall_loop net ready i us data nrecv k = Some (us', data', nrecv', k') \<Longrightarrow> j \<notin> ready \<Longrightarrow> nrecv' ! j = nrecv ! j"
proof (induction "SET_MAX_SIZE - i" arbitrary: i us data nrecv k rule: less_induct)
  case less
  note run = less.prems(1)
  show ?case
  proof (cases "int i > conn_set_max us")
    case True
    then show ?thesis using run by (subst (asm) recvall_loop.simps) simp
  next
    case False
    have i: "i < SET_MAX_SIZE" using run False by (subst (asm) recvall_loop.simps) (auto simp: FD_ISSET_def split: if_splits)
    then have set: "FD_ISSET (int i) ready = Some (i \<in> ready)" by (simp add: FD_ISSET_def)
    have IH: "nrecv' ! j = m ! j" if "recvall_loop net ready (Suc i) u d m l = Some (us', data', nrecv', k')" for u d m l
      by (rule less.hyps [OF _ that less.prems(2)]) (use i in simp)
    show ?thesis
    proof (cases "i \<in> ready")
      case True
      then have ij: "i \<noteq> j" using less.prems(2) by blast
      obtain n b l where r: "sys_recv_req net k (int i) (data ! i) = (n, b, l)"
        by (cases "sys_recv_req net k (int i) (data ! i)") auto
      show ?thesis using run False set True r
        by (subst (asm) recvall_loop.simps)
          (auto simp: bind_eq_Some access_eq_Some ij dest!: IH split: if_splits)
    next
      case out: False
      then show ?thesis using run False set by (subst (asm) recvall_loop.simps) (auto dest!: IH)
    qed
  qed
qed

text \<open>What an update does to the client in slot \<open>i\<close> of the result \<open>n\<close>: unless the polling failed, the slots up to the largest
  descriptor, but not that of the listening socket, make a step of the automaton.\<close>

definition client_after :: "int \<Rightarrow> usocket \<Rightarrow> nat \<Rightarrow> int \<Rightarrow> rtf_client \<Rightarrow> rtf_client" where
  "client_after sel us i n x = (if sel < 0 \<or> usocket_get_maxfd us < int i \<or> int i = sock_fd us then x
     else x\<lparr>cl_state := client_step (cl_state x) n\<rparr>)"

text \<open>What \<open>select\<close> answers in an update.\<close>

abbreviation polled :: "'n rtf_sockets \<Rightarrow> 'n \<Rightarrow> rtf_carrier \<Rightarrow> int \<times> fd_set \<times> 'n" where
  "polled net k c \<equiv> sys_select net k (conn_set_max (sock c) + 1) (conn_set (sock c))"

lemma rtf_carrier_update_ok:
  assumes "sockets_ok net P" and "carrier_ok P c"
  shows "\<exists>c' k'. rtf_carrier_update net k c = Some (c', k') \<and> carrier_ok P c' \<and>
    sock_fd (sock c') = sock_fd (sock c) \<and>
    (\<forall>i < SET_MAX_SIZE. client c' ! i = client_after (fst (polled net k c)) (sock c) i (last_n c' ! i) (client c ! i) \<and>
       (int i \<le> usocket_get_maxfd (sock c) \<and> (fst (polled net k c) < 0 \<or> i \<notin> fst (snd (polled net k c))) \<longrightarrow> last_n c' ! i = 0))"
proof -
  note C = carrier_okD [OF assms(2)]
  let ?n = "usocket_get_maxfd (sock c)"
  have n: "nat (?n + 1) \<le> SET_MAX_SIZE" using C(1) by (auto simp: usocket_get_maxfd_def usocket_ok_def)
  obtain l where l: "for_each (\<lambda>l i. aset l i 0) (last_n c) [0..<nat (?n + 1)] = Some l" "length l = SET_MAX_SIZE"
      "\<forall>j < nat (?n + 1). l ! j = 0"
    using cleared_prefix [of "nat (?n + 1)" "last_n c"] C(2) n by auto
  have zero: "l ! j = 0" if "int j \<le> ?n" for j using l(3) that by auto
  obtain r ready k1 where sel: "sys_select net k (conn_set_max (sock c) + 1) (conn_set (sock c)) = (r, ready, k1)"
    by (cases "sys_select net k (conn_set_max (sock c) + 1) (conn_set (sock c))") auto
  show ?thesis
  proof (cases "r < 0")
    case True
    then show ?thesis using l sel C zero
      by (simp add: rtf_carrier_update_def usocket_recvall_def carrier_ok_def Let_def client_after_def)
  next
    case False
    have "bufs_ok P (sock_fd (sock c)) (sock c, last_req c, l, k1)" using C l(2) by (simp add: bufs_ok_def)
    from recvall_loop_ok [OF assms(1) this, where ready = ready and i = 0] obtain us data nrecv k2 where
      rec: "recvall_loop net ready 0 (sock c) (last_req c) l k1 = Some (us, data, nrecv, k2)"
      and B: "bufs_ok P (sock_fd (sock c)) (us, data, nrecv, k2)" by auto
    have "for_each (update_client (sock_fd us) nrecv) (client c) [0..<nat (?n + 1)] =
        Some (stepped (sock_fd us) nrecv (nat (?n + 1)) (client c))"
      by (rule update_clients) (use B C(5) n in \<open>simp_all add: bufs_ok_def\<close>)
    moreover have "nrecv ! i = 0" if "int i \<le> ?n" "i \<notin> ready" for i using recvall_loop_quiet [OF rec that(2)] zero [OF that(1)] by simp
    moreover have "client_after r (sock c) i m x = (if i < nat (?n + 1) \<and> int i \<noteq> sock_fd us
        then x\<lparr>cl_state := client_step (cl_state x) m\<rparr> else x)" for i m x
      using False B by (auto simp: client_after_def bufs_ok_def)
    ultimately show ?thesis
      using False l(1) sel rec B C
      by (auto simp: rtf_carrier_update_def usocket_recvall_def carrier_ok_def bufs_ok_def Let_def stepped_nth)
  qed
qed

subsection \<open>Properties\<close>

text \<open>C23: Whatever the clients send, receiving stays inside the arrays of the carrier as long as the descriptors are
  below \<open>FD_SETSIZE\<close>, never changes the process noted for a client, and, unless the polling fails, moves the state of every client but the listening socket up to the largest
  descriptor by exactly one step of its automaton: by a positive result an empty slot becomes connected, by a negative result
  every slot becomes disconnected, otherwise empty and connected slots stay as they are and the others become
  an error.  A descriptor that was not ready has the result 0.  When the polling fails no state changes.  (The comment of the code announces the state ERROR for a failed receive; the
  automaton makes it DISCONNECTED.)\<close>

theorem rtf_carrier_update_correct:
  assumes "\<forall>k fd. fst (sys_accept net k fd) < int SET_MAX_SIZE" and "carrier_ok (\<lambda>_. True) c"
    and "sys_select net k (conn_set_max (sock c) + 1) (conn_set (sock c)) = (sel, ready, k1)"
  shows "\<exists>c' k'. rtf_carrier_update net k c = Some (c', k') \<and> carrier_ok (\<lambda>_. True) c' \<and>
    (\<forall>i < SET_MAX_SIZE. let x = client c ! i; x' = client c' ! i; n = last_n c' ! i
       in cl_pid x' = cl_pid x \<and>
          cl_state x' =
            (if sel < 0 \<or> int i = sock_fd (sock c) \<or> usocket_get_maxfd (sock c) < int i then cl_state x
             else case cl_state x of
               EMPTY \<Rightarrow> if n > 0 then CONNECTED else if n < 0 then DISCONNECTED else EMPTY
             | CONNECTED \<Rightarrow> if n < 0 then DISCONNECTED else CONNECTED
             | _ \<Rightarrow> if n < 0 then DISCONNECTED else ERROR) \<and>
          (int i \<le> usocket_get_maxfd (sock c) \<and> (sel < 0 \<or> i \<notin> ready) \<longrightarrow> n = 0))"
proof -
  have "sockets_ok net (\<lambda>_. True)" using assms(1) by (simp add: sockets_ok_def)
  from rtf_carrier_update_ok [OF this assms(2), of k] obtain c' k' where
    U: "rtf_carrier_update net k c = Some (c', k')" "carrier_ok (\<lambda>_. True) c'"
    "\<forall>i < SET_MAX_SIZE. client c' ! i = client_after sel (sock c) i (last_n c' ! i) (client c ! i) \<and>
       (int i \<le> usocket_get_maxfd (sock c) \<and> (sel < 0 \<or> i \<notin> ready) \<longrightarrow> last_n c' ! i = 0)"
    using assms(3) by auto
  have step: "client_step st n = (case st of
       EMPTY \<Rightarrow> if n > 0 then CONNECTED else if n < 0 then DISCONNECTED else EMPTY
     | CONNECTED \<Rightarrow> if n < 0 then DISCONNECTED else CONNECTED
     | _ \<Rightarrow> if n < 0 then DISCONNECTED else ERROR)" for st n
    by (cases st) (simp_all add: client_step_def)
  show ?thesis
    using U by (intro exI [of _ c'] exI [of _ k'] conjI allI impI) (simp_all add: Let_def client_after_def step)
qed

text \<open>A carrier with one connected client that hangs up.\<close>

definition hangup_net :: "unit rtf_sockets" where
  "hangup_net = \<lparr>sys_socket = (\<lambda>k _. (3, k)), sys_connect = (\<lambda>k _ _. (0, k)), sys_bind = (\<lambda>k _ _. (0, k)),
     sys_unlink = (\<lambda>k _. k), sys_chmod = (\<lambda>k _. (0, k)), sys_listen = (\<lambda>k _ _. (0, k)), sys_accept = (\<lambda>k _. (- 1, k)),
     sys_select = (\<lambda>k _ _. (1, {4}, k)), sys_recv_req = (\<lambda>k _ b. (0, b, k)), sys_recv_rep = (\<lambda>k _ b. (0, b, k)),
     sys_send_req = (\<lambda>k _ _. (1, k)), sys_send_rep = (\<lambda>k _ _. (1, k)), sys_setsockopt_timeout = (\<lambda>k _ _ _. (0, k)),
     sys_set_flags = (\<lambda>k _ _. (0, k)), sys_calloc_ucred = (\<lambda>_. True), sys_peercred = (\<lambda>_ _. None),
     sys_close = (\<lambda>k _. k)\<rparr>"

definition hangup_carrier :: rtf_carrier where
  "hangup_carrier = \<lparr>sock = zero_usocket\<lparr>sock_fd := 3, conn_set_max := 4, conn_set := {3, 4}\<rparr>,
     last_n = replicate SET_MAX_SIZE 0, last_req = replicate SET_MAX_SIZE \<lparr>req_type = Some RTF_CONNECTION, param = zero_params\<rparr>,
     client = (replicate SET_MAX_SIZE \<lparr>cl_state = EMPTY, cl_pid = 0\<rparr>)[4 := \<lparr>cl_state = CONNECTED, cl_pid = 7\<rparr>]\<rparr>"

lemma rtf_carrier_update_correct_witness:
  "carrier_ok (\<lambda>_. True) hangup_carrier \<and>
   (\<exists>c k. rtf_carrier_update hangup_net () hangup_carrier = Some (c, k) \<and> cl_pid (client c ! 4) = 7 \<and> cl_state (client c ! 2) = EMPTY)"
proof -
  have "carrier_ok (\<lambda>_. True) hangup_carrier"
    by (simp add: carrier_ok_def hangup_carrier_def usocket_ok_def zero_usocket_def SET_MAX_SIZE_def)
  moreover have "\<forall>k fd. fst (sys_accept hangup_net k fd) < int SET_MAX_SIZE" by (simp add: hangup_net_def)
  moreover have "client hangup_carrier ! 4 = \<lparr>cl_state = CONNECTED, cl_pid = 7\<rparr>" "client hangup_carrier ! 2 = \<lparr>cl_state = EMPTY, cl_pid = 0\<rparr>"
    "4 < SET_MAX_SIZE" "2 < SET_MAX_SIZE" by (simp_all add: hangup_carrier_def SET_MAX_SIZE_def)
  moreover have "sock_fd (sock hangup_carrier) = 3" "usocket_get_maxfd (sock hangup_carrier) = 4"
    by (simp_all add: hangup_carrier_def zero_usocket_def usocket_get_maxfd_def)
  moreover have "sys_select hangup_net k a b = (1, {4}, k)" for k a b by (simp add: hangup_net_def)
  ultimately show ?thesis
    using rtf_carrier_update_correct [of hangup_net hangup_carrier "()" 1 "{4}" "()"] by (fastforce simp: Let_def)
qed

end
