(* ===== verification/Daemon_Correct.thy ===== *)
theory Daemon_Correct
  imports Daemon Channel_Correct
begin

text \<open>
  The correctness of the daemon: whatever requests arrive, as long as each is \<open>good_request\<close>, every
  round of the loop is defined and keeps the invariant of the scheduler and of the channel.

  \<open>good_request\<close> excludes what the handlers do not check: a negative index, the index just past the
  clients, a priority outside 0 to 99 (or 0 when a round robin plugin is loaded), a desired runtime,
  an unterminated plugin name, and a change whose runtime needs more than 32 bits (its high half is
  taken for the id of the task).
\<close>

subsection \<open>The scheduler as the daemon uses it\<close>

definition kernel_ok :: "'k kernel \<Rightarrow> bool" where
  "kernel_ok os \<longleftrightarrow> (\<forall>h. finite (dom h) \<longrightarrow> (\<exists>p. sys_calloc os h = Some p \<and> h p = None))"

definition good_params :: "plugin_lib list \<Rightarrow> rtf_params \<Rightarrow> bool" where
  "good_params libs tp \<longleftrightarrow> NUL \<in> set (sched_plugin tp) \<and> uint (priority tp) \<le> 99 \<and>
     (priority tp = 0 \<longrightarrow> SCHED_RR_so \<notin> set libs) \<and> des_runtime tp = 0"

text \<open>Ids below a million, so that the rate monotonic plugin can remap its priorities.\<close>

definition ID_BOUND :: int where "ID_BOUND = 2 ^ 20 - 1"

definition sched_ok :: "'k kernel \<Rightarrow> plugin_lib list \<Rightarrow> 'k sched_state \<Rightarrow> bool" where
  "sched_ok os libs = (\<lambda>(s, w). sched_inv os (s, w) \<and> map dl_ptr (plugin s) = libs \<and> finite (dom (heap w)) \<and>
     (\<forall>p \<in> set (ts_tasks (taskset s)). t_id (the (heap w p)) \<noteq> 0))"

lemma sched_okD:
  assumes "sched_ok os libs (s, w)"
  shows "sched_inv os (s, w)" "map dl_ptr (plugin s) = libs" "finite (dom (heap w))"
    "\<And>p. p \<in> set (ts_tasks (taskset s)) \<Longrightarrow> t_id (the (heap w p)) \<noteq> 0"
  using assms by (auto simp: sched_ok_def)

lemma few_tasks:
  assumes "sched_inv os (s, w)"
  shows "int (card (set (ts_tasks (taskset s)))) \<le> last_task_id s + 1"
proof -
  note I = sched_invD [OF assms]
  let ?f = "\<lambda>p. uint (t_id (the (heap w p)))" and ?S = "set (ts_tasks (taskset s))"
  have "inj_on ?f ?S" using I(5) by (simp add: inj_on_def word_uint_eq_iff)
  moreover have "?f ` ?S \<subseteq> {0..last_task_id s}" using I(7) by auto
  ultimately have "card ?S \<le> card {0..last_task_id s}" by (intro card_inj_on_le) auto
  then show ?thesis using I(6) by simp
qed

lemma good_admissible:
  assumes inv: "sched_inv os (s, w)" and i: "i < length (plugin s)" and few: "last_task_id s < ID_BOUND"
    and good: "good_params (map dl_ptr (plugin s)) (params t)"
  shows "plg_admissible (plugin s ! i) t"
proof -
  let ?plg = "plugin s ! i"
  have pi: "plg_inv os ?plg w (owns s (heap w) i)" using sched_invD(3) [OF inv] i by (simp add: plugins_ok_def)
  show ?thesis
  proof (cases "dl_ptr ?plg")
    case SCHED_FP_so
    then show ?thesis using good by (simp add: plg_admissible_def fp_admissible_def good_params_def)
  next
    case SCHED_EDF_so
    have "rtf_task_get_des_util t = - 1" using good by (simp add: rtf_task_get_des_util_def good_params_def)
    then show ?thesis using SCHED_EDF_so by (simp add: plg_admissible_def edf_admissible_def)
  next
    case SCHED_RR_so
    then have "SCHED_RR_so \<in> set (map dl_ptr (plugin s))" using nth_mem [OF i] by (metis image_eqI list.set_map)
    then have "priority (params t) \<noteq> 0" using good by (auto simp: good_params_def)
    then have "unat (priority (params t)) \<noteq> 0" using unat_eq_zero by blast
    then have "1 \<le> unat (priority (params t))" by linarith
    moreover have "int (unat (priority (params t))) \<le> 99" using good by (simp add: good_params_def)
    then have "unat (priority (params t)) \<le> 99" by linarith
    ultimately show ?thesis using SCHED_RR_so by (simp add: plg_admissible_def rr_admissible_def)
  next
    case SCHED_RM_so
    then have L: "lists_ok rm_key ?plg (heap w) (owns s (heap w) i)" using pi by (simp add: plg_inv_def rm_inv_def)
    have "length (list_root ts) < 2 ^ 20" if ts: "ts \<in> set (plg_tasks ?plg)" for ts
    proof -
      obtain c where c: "c < length (plg_tasks ?plg)" "ts = plg_tasks ?plg ! c" using ts by (auto simp: in_set_conv_nth)
      then have D: "distinct (list_root ts)" "set (list_root ts) \<subseteq> set (ts_tasks (taskset s))"
        using L by (auto simp: lists_ok_def ts_ok_def on_cpu_def owns_def)
      then have "length (list_root ts) \<le> card (set (ts_tasks (taskset s)))"
        using card_mono [OF _ D(2)] distinct_card [OF D(1)] by simp
      then show ?thesis using few_tasks [OF inv] few by (simp add: ID_BOUND_def)
    qed
    then show ?thesis using SCHED_RM_so by (simp add: plg_admissible_def rm_admissible_def)
  qed
qed

lemma create_keeps:
  assumes ok: "sched_ok os libs (s, w)" and "kernel_ok os" and few: "last_task_id s < ID_BOUND" and good: "good_params libs tp"
  shows "\<exists>r s' w'. rtf_scheduler_task_create os tp ppid (s, w) = Some (r, s', w') \<and> sched_ok os libs (s', w') \<and>
    last_task_id s' = last_task_id s + 1"
proof -
  note O = sched_okD [OF ok]
  obtain p where p: "sys_calloc os (heap w) = Some p" "heap w p = None" using assms(2) O(3) unfolding kernel_ok_def by blast
  let ?t = "new_task s tp ppid" and ?n = "last_task_id s + 1"
  have adm: "\<forall>r i. decision (plugin s) ?t = Some (r, i) \<longrightarrow> plg_admissible (plugin s ! i) ?t"
    using good_admissible [OF O(1) _ few, of _ ?t] decision_Some O(2) good by (metis new_task_def rtf_task.select_convs(12)
      rtf_task.surjective rtf_task.update_convs(12))
  have "last_task_id s < 2 ^ 31 - 1" "NUL \<in> set (sched_plugin tp)"
    using few good by (simp_all add: ID_BOUND_def good_params_def)
  from create_ok [OF O(1) p this adm] obtain r s' w' where R:
      "rtf_scheduler_task_create os tp ppid (s, w) = Some (r, s', w')" "sched_inv os (s', w')"
      "map dl_ptr (plugin s') = map dl_ptr (plugin s)" "dom (heap w') = insert p (dom (heap w))"
      "\<forall>q \<in> set (ts_tasks (taskset s)). t_id (the (heap w' q)) = t_id (the (heap w q))"
      "last_task_id s' = ?n"
      "case decision (plugin s) ?t of None \<Rightarrow> r = RTF_NO \<and> taskset s' = taskset s \<and> plugin s' = plugin s
       | Some (a, i) \<Rightarrow> r = a \<and> ts_tasks (taskset s') = p # ts_tasks (taskset s) \<and>
           (\<exists>t. heap w' p = Some t \<and> pluginid t = int i \<and> ptid t = ppid \<and> params t = tp \<and> t_id t = u32_of_int ?n)"
    by blast
  have n: "u32_of_int ?n \<noteq> 0"
    using uint_u32_of_int [of ?n] sched_invD(6) [OF O(1)] few by (auto simp: ID_BOUND_def)
  have "t_id (the (heap w' q)) \<noteq> 0" if "q \<in> set (ts_tasks (taskset s'))" for q
    using that R(5,7) O(4) n by (auto split: option.splits)
  then have "sched_ok os libs (s', w')" using R(2-4) O(2,3) by (simp add: sched_ok_def)
  with R(1,6) show ?thesis by blast
qed

lemma destroy_keeps:
  assumes ok: "sched_ok os libs (s, w)"
  shows "\<exists>r s' w'. rtf_scheduler_task_destroy os rtf_id (s, w) = Some (r, s', w') \<and> sched_ok os libs (s', w') \<and>
    last_task_id s' = last_task_id s"
proof -
  note O = sched_okD [OF ok]
  from destroy_ok [OF O(1), of rtf_id] obtain r s' w' where R:
      "rtf_scheduler_task_destroy os rtf_id (s, w) = Some (r, s', w')" "sched_inv os (s', w')"
      "map dl_ptr (plugin s') = map dl_ptr (plugin s)" "dom (heap w') \<subseteq> dom (heap w)" "last_task_id s' = last_task_id s"
      "case find (\<lambda>p. t_id (the (heap w p)) = rtf_id) (ts_tasks (taskset s)) of
       None \<Rightarrow> r = RTF_ERROR \<and> s' = s \<and> w' = w
     | Some p \<Rightarrow> r = RTF_OK \<and> heap w' p = None \<and> ts_tasks (taskset s') = filter (\<lambda>q. q \<noteq> p) (ts_tasks (taskset s)) \<and>
         (\<forall>q \<in> set (ts_tasks (taskset s')). \<exists>t t'. heap w q = Some t \<and> heap w' q = Some t' \<and>
            t_id t' = t_id t \<and> ptid t' = ptid t \<and> pluginid t' = pluginid t \<and> params t' = params t)"
    by blast
  have "t_id (the (heap w' q)) \<noteq> 0" if q: "q \<in> set (ts_tasks (taskset s'))" for q
    using q R(6) O(4) [of q] by (fastforce split: option.splits)
  moreover have "finite (dom (heap w'))" using R(4) O(3) by (rule finite_subset)
  ultimately have "sched_ok os libs (s', w')" using R(2,3) O(2) by (simp add: sched_ok_def)
  with R(1,5) show ?thesis by blast
qed

lemma delete_keeps:
  assumes ok: "sched_ok os libs (s, w)"
  shows "\<exists>s' w'. rtf_scheduler_delete os ppid (s, w) = Some (s', w') \<and> sched_ok os libs (s', w') \<and>
    last_task_id s' = last_task_id s \<and>
    ts_tasks (taskset s') = filter (\<lambda>p. ptid (the (heap w p)) \<noteq> ppid) (ts_tasks (taskset s)) \<and>
    (\<forall>p \<in> set (ts_tasks (taskset s)). ptid (the (heap w p)) = ppid \<longrightarrow> heap w' p = None) \<and>
    (\<forall>p \<in> set (ts_tasks (taskset s')). t_id (the (heap w' p)) = t_id (the (heap w p)) \<and>
       params (the (heap w' p)) = params (the (heap w p)))"
proof -
  note O = sched_okD [OF ok]
  from delete_ok [OF O(1), of ppid] obtain s' w' where R:
      "rtf_scheduler_delete os ppid (s, w) = Some (s', w')" "sched_inv os (s', w')"
      "map dl_ptr (plugin s') = map dl_ptr (plugin s)" "dom (heap w') \<subseteq> dom (heap w)" "last_task_id s' = last_task_id s"
      "ts_tasks (taskset s') = filter (\<lambda>p. ptid (the (heap w p)) \<noteq> ppid) (ts_tasks (taskset s))"
      "\<forall>p \<in> set (ts_tasks (taskset s)). ptid (the (heap w p)) = ppid \<longrightarrow> heap w' p = None"
      "\<forall>p \<in> set (ts_tasks (taskset s')). \<exists>t t'. heap w p = Some t \<and> heap w' p = Some t' \<and>
         t_id t' = t_id t \<and> ptid t' = ptid t \<and> pluginid t' = pluginid t \<and> params t' = params t"
    by blast
  have same: "t_id (the (heap w' q)) = t_id (the (heap w q)) \<and> params (the (heap w' q)) = params (the (heap w q))"
    if "q \<in> set (ts_tasks (taskset s'))" for q
    using that R(8) by fastforce
  have "t_id (the (heap w' q)) \<noteq> 0" if "q \<in> set (ts_tasks (taskset s'))" for q
    using same [OF that] that R(6) O(4) [of q] by simp
  moreover have "finite (dom (heap w'))" using R(4) O(3) by (rule finite_subset)
  ultimately have "sched_ok os libs (s', w')" using R(2,3) O(2) by (simp add: sched_ok_def)
  with R(1,5-7) same show ?thesis by blast
qed

lemma attach_keeps:
  assumes ok: "sched_ok os libs (s, w)"
  shows "\<exists>r w'. rtf_scheduler_task_attach os rtf_id pid (s, w) = Some (r, s, w') \<and> sched_ok os libs (s, w')"
    "\<exists>r w'. rtf_scheduler_task_detach os rtf_id (s, w) = Some (r, s, w') \<and> sched_ok os libs (s, w')"
proof -
  note O = sched_okD [OF ok]
  let ?f = "find (\<lambda>p. t_id (the (heap w p)) = rtf_id) (ts_tasks (taskset s))"
  have keep: "sched_ok os libs (s, w')"
    if inv: "sched_inv os (s, w')" and h: "\<And>p. ?f = Some p \<Longrightarrow> heap w' = (heap w)(p \<mapsto> (the (heap w p))\<lparr>tid := x\<rparr>) \<or> heap w' = heap w"
      and n: "?f = None \<Longrightarrow> w' = w" for w' x
  proof (cases ?f)
    case None
    then show ?thesis using n ok by simp
  next
    case (Some p)
    then have "heap w p \<noteq> None" using sched_invD(8) [OF O(1), of p] by (auto simp: allocated_def dest: find_in_set)
    then have "finite (dom (heap w')) \<and> (\<forall>q. t_id (the (heap w' q)) = t_id (the (heap w q)))"
      using h [OF Some] O(3) by auto
    then show ?thesis using inv O(2,4) by (simp add: sched_ok_def)
  qed
  note A = attach_ok [OF O(1), of rtf_id pid]
  obtain r w' where a: "rtf_scheduler_task_attach os rtf_id pid (s, w) = Some (r, s, w')" "sched_inv os (s, w')"
      "case ?f of None \<Rightarrow> r = RTF_ERROR \<and> w' = w
       | Some p \<Rightarrow> (r = RTF_OK \<or> r = RTF_ERROR) \<and> heap w' = (heap w)(p \<mapsto> (the (heap w p))\<lparr>tid := pid\<rparr>)"
    using A by blast
  have "sched_ok os libs (s, w')" by (rule keep [OF a(2)]) (use a(3) in auto)
  with a(1) show "\<exists>r w'. rtf_scheduler_task_attach os rtf_id pid (s, w) = Some (r, s, w') \<and> sched_ok os libs (s, w')" by blast
  obtain r w' where a: "rtf_scheduler_task_detach os rtf_id (s, w) = Some (r, s, w')" "sched_inv os (s, w')"
      "case ?f of None \<Rightarrow> r = RTF_ERROR \<and> w' = w | Some p \<Rightarrow> (r = RTF_OK \<or> r = RTF_ERROR) \<and> heap w' = heap w"
    using A by blast
  have "sched_ok os libs (s, w')" by (rule keep [OF a(2)]) (use a(3) in auto)
  with a(1) show "\<exists>r w'. rtf_scheduler_task_detach os rtf_id (s, w) = Some (r, s, w') \<and> sched_ok os libs (s, w')" by blast
qed

text \<open>No task has the id 0, so a change of that id finds none.\<close>

lemma change_of_0:
  assumes ok: "sched_ok os libs (s, w)"
  shows "rtf_scheduler_task_change os tp 0 (s, w) = Some (RTF_ERROR, s, w)"
proof -
  note O = sched_okD [OF ok]
  have "find (\<lambda>p. t_id (the (heap w p)) = 0) (ts_tasks (taskset s)) = None" using O(4) by (simp add: find_None_iff)
  then show ?thesis
    using ts_search [OF sched_invD(1) [OF O(1)], of 0] by (simp add: rtf_scheduler_task_change_def)
qed

lemma ids_rsvid_small:
  assumes "uint (runtime (param r)) < 2 ^ 32"
  shows "ids_rsvid r = 0"
proof -
  have "uint (drop_bit 32 (runtime (param r))) = uint (runtime (param r)) div 2 ^ 32"
    by (simp add: drop_bit_eq_div uint_div)
  also have "\<dots> = 0" using assms by simp
  finally have "drop_bit 32 (runtime (param r)) = 0" by (simp add: word_uint_eq_iff)
  then show ?thesis by (simp add: ids_rsvid_def high_half_def)
qed

subsection \<open>Requests\<close>

definition good_request :: "plugin_lib list \<Rightarrow> rtf_request \<Rightarrow> bool" where
  "good_request libs r \<longleftrightarrow>
     (case req_type r of
        Some RTF_TASK_CREATE \<Rightarrow> good_params libs (param r)
      | Some RTF_TASK_MODIFY \<Rightarrow> uint (runtime (param r)) < 2 ^ 32
      | Some RTF_CONNECTION_INFO \<Rightarrow> 0 \<le> q_desc r \<and> q_desc r \<noteq> int CHANNEL_MAX_SIZE
      | Some RTF_PLUGIN_INFO \<Rightarrow> 0 \<le> q_desc r
      | Some RTF_PLUGIN_CPU_INFO \<Rightarrow> 0 \<le> q_desc r \<and> 0 \<le> q_id r
      | _ \<Rightarrow> True)"

definition daemon_inv :: "'k kernel \<Rightarrow> plugin_lib list \<Rightarrow> ('k, 'n) rtf_daemon \<Rightarrow> bool" where
  "daemon_inv os libs d \<longleftrightarrow> sched_ok os libs (sched d, dworld d) \<and> carrier_ok (good_request libs) (chann d)"

lemma carrier_access:
  assumes "carrier_ok P c" and "i < SET_MAX_SIZE"
  shows "rtf_carrier_get_req c (int i) = Some (last_req c ! i)"
    "rtf_carrier_get_pid c (int i) = Some (cl_pid (client c ! i))"
    "rtf_carrier_get_state c (int i) = Some (cl_state (client c ! i))"
    "rtf_carrier_is_updated c (int i) = Some (last_n c ! i > 0)"
    "rtf_carrier_set_pid c (int i) x = Some (c\<lparr>client := (client c)[i := (client c ! i)\<lparr>cl_pid := x\<rparr>]\<rparr>)"
    "rtf_carrier_set_state c (int i) st = Some (c\<lparr>client := (client c)[i := (client c ! i)\<lparr>cl_state := st\<rparr>]\<rparr>)"
    "rtf_carrier_req_clear c (int i) = Some (c\<lparr>last_n := (last_n c)[i := 0]\<rparr>)"
  using assms carrier_okD [OF assms(1)]
  by (simp_all add: rtf_carrier_get_req_def rtf_carrier_get_pid_def rtf_carrier_get_state_def rtf_carrier_is_updated_def
      rtf_carrier_set_pid_def rtf_carrier_set_state_def rtf_carrier_req_clear_def c_simps)

lemma carrier_ok_upd:
  assumes "carrier_ok P c"
  shows "carrier_ok P (c\<lparr>client := (client c)[i := x]\<rparr>)" "carrier_ok P (c\<lparr>last_n := (last_n c)[i := n]\<rparr>)"
    "carrier_ok P (c\<lparr>client := (client c)[i := x, i := y]\<rparr>)"
    "carrier_ok P (c\<lparr>sock := (sock c)\<lparr>conn_set := z\<rparr>\<rparr>)"
  using assms by (simp_all add: carrier_ok_def usocket_ok_def)

text \<open>What serving a request of client \<open>i\<close> keeps.\<close>

definition serves :: "'k kernel \<Rightarrow> plugin_lib list \<Rightarrow> ('k, 'n) rtf_daemon \<Rightarrow> (rtf_reply \<times> ('k, 'n) rtf_daemon) option \<Rightarrow> bool" where
  "serves os libs d res \<longleftrightarrow> (\<exists>rep d'. res = Some (rep, d') \<and> daemon_inv os libs d' \<and>
     last_task_id (sched d') \<le> last_task_id (sched d) + 1)"

lemma serves_reply: "daemon_inv os libs d \<Longrightarrow> res = Some rep \<Longrightarrow> serves os libs d (map_option (\<lambda>r. (r, d)) res)"
  by (simp add: serves_def)

lemma daemon_invD:
  assumes "daemon_inv os libs d"
  shows "sched_ok os libs (sched d, dworld d)" "carrier_ok (good_request libs) (chann d)" "sched_inv os (sched d, dworld d)"
  using assms by (simp_all add: daemon_inv_def sched_ok_def)

lemma good_reqD: "daemon_inv os libs d \<Longrightarrow> i < SET_MAX_SIZE \<Longrightarrow> good_request libs (last_req (chann d) ! i)"
  by (simp add: daemon_inv_def carrier_ok_def)

lemma counts_defined:
  assumes "daemon_inv os libs d" and "i < SET_MAX_SIZE"
  shows "\<exists>rep. req_connections_info d (int i) = Some rep" "\<exists>rep. req_plugins_info d (int i) = Some rep"
    "\<exists>rep. req_tasks_info d (int i) = Some rep"
proof -
  note C = daemon_invD(2) [OF assms(1)]
  have "\<exists>n. for_each (\<lambda>n j. do { c \<leftarrow> aget (client (chann d)) j; Some (if cl_pid c \<noteq> 0 then n + 1 else n) })
      (0 :: int) [0..<CHANNEL_MAX_SIZE] = Some n \<and> True"
    by (rule for_each_inv) (use carrier_okD(5) [OF C] in \<open>simp_all add: c_simps CHANNEL_MAX_SIZE_def\<close>)
  then show "\<exists>rep. req_connections_info d (int i) = Some rep"
    using carrier_access(1) [OF C assms(2)] by (auto simp: req_connections_info_def)
  show "\<exists>rep. req_plugins_info d (int i) = Some rep" "\<exists>rep. req_tasks_info d (int i) = Some rep"
    using carrier_access(1) [OF C assms(2)] by (simp_all add: req_plugins_info_def req_tasks_info_def)
qed

lemma connection_info_defined:
  assumes "daemon_inv os libs d" and "i < SET_MAX_SIZE" and "req_type (last_req (chann d) ! i) = Some RTF_CONNECTION_INFO"
  shows "\<exists>rep. req_connection_info d (int i) = Some rep"
proof -
  note C = daemon_invD(2) [OF assms(1)]
  let ?q = "q_desc (last_req (chann d) ! i)"
  have q: "0 \<le> ?q" "?q \<noteq> int CHANNEL_MAX_SIZE" using good_reqD [OF assms(1,2)] assms(3) by (simp_all add: good_request_def)
  show ?thesis
  proof (cases "?q > int CHANNEL_MAX_SIZE")
    case True
    then show ?thesis using carrier_access(1) [OF C assms(2)] by (simp add: req_connection_info_def)
  next
    case False
    then have "nat ?q < length (client (chann d))" using q carrier_okD(5) [OF C] by (simp add: CHANNEL_MAX_SIZE_def)
    then show ?thesis using carrier_access(1) [OF C assms(2)] False q by (simp add: req_connection_info_def c_simps Let_def)
  qed
qed

lemma plugin_info_defined:
  assumes "daemon_inv os libs d" and "i < SET_MAX_SIZE" and "req_type (last_req (chann d) ! i) = Some RTF_PLUGIN_INFO"
  shows "\<exists>rep. req_plugin_info d (int i) = Some rep"
proof -
  note C = daemon_invD(2) [OF assms(1)]
  have "0 \<le> q_desc (last_req (chann d) ! i)" using good_reqD [OF assms(1,2)] assms(3) by (simp add: good_request_def)
  then show ?thesis
    using carrier_access(1) [OF C assms(2)] sched_invD(2) [OF daemon_invD(3) [OF assms(1)]]
    by (auto simp: req_plugin_info_def c_simps Let_def)
qed

lemma plugin_cpu_info_defined:
  assumes "daemon_inv os libs d" and "i < SET_MAX_SIZE" and "req_type (last_req (chann d) ! i) = Some RTF_PLUGIN_CPU_INFO"
  shows "\<exists>rep. req_plugin_cpu_info d (int i) = Some rep"
proof -
  note C = daemon_invD(2) [OF assms(1)] and I = sched_invD [OF daemon_invD(3) [OF assms(1)]]
  let ?r = "last_req (chann d) ! i" and ?s = "sched d"
  have q: "0 \<le> q_desc ?r" "0 \<le> q_id ?r"
    using good_reqD [OF assms(1,2)] assms(3) by (simp_all add: good_request_def)
  show ?thesis
  proof (cases "q_desc ?r \<ge> num_of_plugins ?s")
    case True
    then show ?thesis using carrier_access(1) [OF C assms(2)] by (simp add: req_plugin_cpu_info_def Let_def)
  next
    case False
    then have j: "nat (q_desc ?r) < length (plugin ?s)" using I(2) q by simp
    then have "base_inv (plugin ?s ! nat (q_desc ?r)) (heap (dworld d)) (owns ?s (heap (dworld d)) (nat (q_desc ?r)))"
      using I(3) plg.inv_base unfolding plugins_ok_def by metis
    then have "plugin_ok (plugin ?s ! nat (q_desc ?r))" by (simp add: base_inv_def)
    then show ?thesis using carrier_access(1) [OF C assms(2)] q j
      by (auto simp: req_plugin_cpu_info_def c_simps Let_def plugin_ok_def)
  qed
qed

lemma task_info_defined:
  assumes "daemon_inv os libs d" and "i < SET_MAX_SIZE"
  shows "\<exists>rep. req_task_info d (int i) = Some rep"
proof -
  note C = daemon_invD(2) [OF assms(1)] and I = sched_invD [OF daemon_invD(3) [OF assms(1)]]
  let ?id = "u32_of_int (q_desc (last_req (chann d) ! i))" and ?xs = "ts_tasks (taskset (sched d))"
  have "heap (dworld d) p \<noteq> None" if "find (\<lambda>p. t_id (the (heap (dworld d) p)) = ?id) ?xs = Some p" for p
    using I(8) [of p] find_in_set [OF that] by (auto simp: allocated_def)
  then show ?thesis
    using carrier_access(1) [OF C assms(2)] ts_search [OF I(1), of ?id]
    by (auto simp: req_task_info_def split: option.split)
qed

lemma serves_sched:
  assumes "daemon_inv os libs d" and "sched_ok os libs (s, w)" and "last_task_id s \<le> last_task_id (sched d) + 1"
  shows "serves os libs d (Some (rep, d\<lparr>sched := s, dworld := w\<rparr>))"
  using assms by (simp add: serves_def daemon_inv_def)

lemma serves_world:
  "daemon_inv os libs d \<Longrightarrow> sched_ok os libs (sched d, w) \<Longrightarrow> serves os libs d (Some (rep, d\<lparr>dworld := w\<rparr>))"
  by (simp add: serves_def daemon_inv_def)

lemma dispatch_serves:
  assumes inv: "daemon_inv os libs d" and i: "i < SET_MAX_SIZE" and k: "kernel_ok os"
    and few: "last_task_id (sched d) < ID_BOUND"
  shows "serves os libs d (dispatch_req os d (int i) (req_type (last_req (chann d) ! i)))"
proof -
  note C = daemon_invD(2) [OF inv] and ok = daemon_invD(1) [OF inv]
  let ?r = "last_req (chann d) ! i"
  note get = carrier_access(1,2,5) [OF C i]
  note good = good_reqD [OF inv i]
  show ?thesis
  proof (cases "req_type ?r")
    case None
    then show ?thesis using inv by (simp add: dispatch_req_def serves_def)
  next
    case (Some ty)
    show ?thesis
    proof (cases ty)
      case RTF_CONNECTION
      then show ?thesis using Some inv get carrier_ok_upd(1) [OF C]
        by (simp add: dispatch_req_def req_connection_def serves_def daemon_inv_def)
    next
      case RTF_TASK_CREATE
      then have "good_params libs (param ?r)" using good Some by (simp add: good_request_def)
      from create_keeps [OF ok k few this] obtain r s' w' where
        "rtf_scheduler_task_create os (param ?r) (cl_pid (client (chann d) ! i)) (sched d, dworld d) = Some (r, s', w')"
        "sched_ok os libs (s', w')" "last_task_id s' = last_task_id (sched d) + 1" by blast
      then show ?thesis using Some RTF_TASK_CREATE get serves_sched [OF inv]
        by (simp add: dispatch_req_def req_task_create_def Let_def)
    next
      case RTF_TASK_MODIFY
      then have "ids_rsvid ?r = 0" using good Some ids_rsvid_small by (simp add: good_request_def)
      then have "rtf_scheduler_task_change os (param ?r) (ids_rsvid ?r) (sched d, dworld d) = Some (RTF_ERROR, sched d, dworld d)"
        using change_of_0 [OF ok] by simp
      then show ?thesis using Some RTF_TASK_MODIFY get inv serves_sched [OF inv ok]
        by (simp add: dispatch_req_def req_task_modify_def Let_def)
    next
      case RTF_TASK_ATTACH
      from attach_keeps(1) [OF ok, of "ids_rsvid ?r" "ids_pid ?r"] show ?thesis
        using Some RTF_TASK_ATTACH get serves_world [OF inv]
        by (auto simp: dispatch_req_def req_task_attach_def)
    next
      case RTF_TASK_DETACH
      from attach_keeps(2) [OF ok, of "ids_rsvid ?r"] show ?thesis
        using Some RTF_TASK_DETACH get serves_world [OF inv]
        by (auto simp: dispatch_req_def req_task_detach_def)
    next
      case RTF_TASK_DESTROY
      from destroy_keeps [OF ok, of "ids_rsvid ?r"] show ?thesis
        using Some RTF_TASK_DESTROY get serves_sched [OF inv]
        by (auto simp: dispatch_req_def req_task_destroy_def)
    next
      case RTF_CONNECTIONS_INFO
      then show ?thesis using Some counts_defined(1) [OF inv i] serves_reply [OF inv] by (auto simp: dispatch_req_def)
    next
      case RTF_PLUGINS_INFO
      then show ?thesis using Some counts_defined(2) [OF inv i] serves_reply [OF inv] by (auto simp: dispatch_req_def)
    next
      case RTF_TASKS_INFO
      then show ?thesis using Some counts_defined(3) [OF inv i] serves_reply [OF inv] by (auto simp: dispatch_req_def)
    next
      case RTF_CONNECTION_INFO
      then show ?thesis using Some connection_info_defined [OF inv i] serves_reply [OF inv] by (auto simp: dispatch_req_def)
    next
      case RTF_PLUGIN_INFO
      then show ?thesis using Some plugin_info_defined [OF inv i] serves_reply [OF inv] by (auto simp: dispatch_req_def)
    next
      case RTF_PLUGIN_CPU_INFO
      then show ?thesis using Some plugin_cpu_info_defined [OF inv i] serves_reply [OF inv] by (auto simp: dispatch_req_def)
    next
      case RTF_TASK_INFO
      then show ?thesis using Some task_info_defined [OF inv i] serves_reply [OF inv] by (auto simp: dispatch_req_def)
    qed (use Some inv in \<open>simp_all add: dispatch_req_def serves_def\<close>)
  qed
qed

subsection \<open>The loop\<close>

lemma check_for_fail_keeps:
  assumes inv: "daemon_inv os libs d" and i: "i < SET_MAX_SIZE"
  shows "\<exists>r d'. rtf_daemon_check_for_fail os net d (int i) = Some (r, d') \<and> daemon_inv os libs d' \<and>
    last_task_id (sched d') = last_task_id (sched d) \<and>
    (if cl_state (client (chann d) ! i) = ERROR \<or> cl_state (client (chann d) ! i) = DISCONNECTED
     then r = 1 \<and> dnet d' = sys_close net (dnet d) (int i) \<and> client (chann d') ! i = \<lparr>cl_state = EMPTY, cl_pid = 0\<rparr> \<and> i \<notin> conn_set (sock (chann d')) \<and>
       (let pid = cl_pid (client (chann d) ! i); h = heap (dworld d); h' = heap (dworld d'); xs = ts_tasks (taskset (sched d))
        in ts_tasks (taskset (sched d')) = filter (\<lambda>p. ptid (the (h p)) \<noteq> pid) xs \<and>
           (\<forall>p \<in> set xs. ptid (the (h p)) = pid \<longrightarrow> h' p = None) \<and>
           (\<forall>p \<in> set xs. ptid (the (h p)) \<noteq> pid \<longrightarrow> t_id (the (h' p)) = t_id (the (h p)) \<and> params (the (h' p)) = params (the (h p))))
     else r = 0 \<and> d' = d)"
proof -
  note C = daemon_invD(2) [OF inv] and ok = daemon_invD(1) [OF inv]
  note get = carrier_access [OF C i]
  show ?thesis
  proof (cases "cl_state (client (chann d) ! i) = ERROR \<or> cl_state (client (chann d) ! i) = DISCONNECTED")
    case False
    then show ?thesis using get(3) inv by (auto simp: rtf_daemon_check_for_fail_def)
  next
    case True
    let ?x = "client (chann d) ! i" and ?c = "chann d"
    have il: "i < length (client ?c)" using i carrier_okD(5) [OF C] by simp
    define c1 where "c1 = ?c\<lparr>client := (client ?c)[i := ?x\<lparr>cl_state := EMPTY\<rparr>]\<rparr>"
    have C1: "carrier_ok (good_request libs) c1" using carrier_ok_upd(1) [OF C] by (simp add: c1_def)
    define c2 where "c2 = c1\<lparr>client := (client c1)[i := (client c1 ! i)\<lparr>cl_pid := 0\<rparr>]\<rparr>"
    have C2: "carrier_ok (good_request libs) c2" using carrier_ok_upd(1) [OF C1] by (simp add: c2_def)
    define c3 where "c3 = c2\<lparr>sock := (sock c2)\<lparr>conn_set := conn_set (sock c2) - {i}\<rparr>\<rparr>"
    have C3: "carrier_ok (good_request libs) c3" using carrier_ok_upd(4) [OF C2] by (simp add: c3_def)
    have x3: "client c3 ! i = \<lparr>cl_state = EMPTY, cl_pid = 0\<rparr>" using il by (simp add: c3_def c2_def c1_def)
    have pid: "cl_pid (client c1 ! i) = cl_pid ?x" using il by (simp add: c1_def)
    from delete_keeps [OF ok, of "cl_pid ?x"] obtain s' w' where D:
        "rtf_scheduler_delete os (cl_pid ?x) (sched d, dworld d) = Some (s', w')" "sched_ok os libs (s', w')"
        "last_task_id s' = last_task_id (sched d)"
        "ts_tasks (taskset s') = filter (\<lambda>p. ptid (the (heap (dworld d) p)) \<noteq> cl_pid ?x) (ts_tasks (taskset (sched d)))"
        "\<forall>p \<in> set (ts_tasks (taskset (sched d))). ptid (the (heap (dworld d) p)) = cl_pid ?x \<longrightarrow> heap w' p = None"
        "\<forall>p \<in> set (ts_tasks (taskset s')). t_id (the (heap w' p)) = t_id (the (heap (dworld d) p)) \<and>
          params (the (heap w' p)) = params (the (heap (dworld d) p))"
      by blast
    let ?d = "d\<lparr>chann := c3, sched := s', dworld := w', dnet := sys_close net (dnet d) (int i)\<rparr>"
    have "rtf_daemon_check_for_fail os net d (int i) = Some (1, ?d)"
      using True get(3) get(6) [of EMPTY] carrier_access(2,5) [OF C1 i] D(1) i pid
      by (auto simp: rtf_daemon_check_for_fail_def rtf_carrier_close_def usocket_remove_connection_def FD_CLR_def
          c3_def c2_def simp flip: c1_def)
    moreover have "daemon_inv os libs ?d" using D(2) C3 by (simp add: daemon_inv_def)
    moreover have "i \<notin> conn_set (sock c3)" by (simp add: c3_def)
    ultimately show ?thesis using True x3 D(3-6) by (intro exI [of _ 1] exI [of _ ?d]) (simp add: Let_def)
  qed
qed

lemma handle_req_keeps:
  assumes inv: "daemon_inv os libs d" and i: "i < SET_MAX_SIZE" and k: "kernel_ok os"
    and few: "last_task_id (sched d) < ID_BOUND"
  shows "\<exists>r d'. rtf_daemon_handle_req os net d (int i) = Some (r, d') \<and> daemon_inv os libs d' \<and>
    last_task_id (sched d') \<le> last_task_id (sched d) + 1"
proof -
  note C = daemon_invD(2) [OF inv]
  from check_for_fail_keeps [OF inv i, of net] obtain r d1 where F: "rtf_daemon_check_for_fail os net d (int i) = Some (r, d1)"
      "daemon_inv os libs d1" "last_task_id (sched d1) = last_task_id (sched d)" "r \<noteq> 0 \<or> d1 = d"
    by (auto split: if_splits)
  show ?thesis
  proof (cases "r = 0")
    case False
    then show ?thesis using F by (simp add: rtf_daemon_handle_req_def)
  next
    case True
    then have d1: "d1 = d" using F(4) by simp
    obtain u where u: "rtf_daemon_check_for_update d (int i) = Some u"
      using carrier_access(3,4) [OF C i] by (simp add: rtf_daemon_check_for_update_def)
    show ?thesis
    proof (cases "u = 0")
      case True
      then show ?thesis using F \<open>r = 0\<close> d1 u inv by (simp add: rtf_daemon_handle_req_def)
    next
      case False
      from dispatch_serves [OF inv i k few] obtain rep d2 where
        D: "dispatch_req os d (int i) (req_type (last_req (chann d) ! i)) = Some (rep, d2)" "daemon_inv os libs d2"
          "last_task_id (sched d2) \<le> last_task_id (sched d) + 1"
        unfolding serves_def by blast
      obtain sent k2 where sent: "rtf_carrier_send net (dnet d2) rep (int i) = (sent, k2)"
        by (cases "rtf_carrier_send net (dnet d2) rep (int i)")
      have P: "rtf_daemon_process_req os net d (int i) = Some (sent, d2\<lparr>dnet := k2\<rparr>)"
        using carrier_access(1) [OF C i] D(1) sent by (simp add: rtf_daemon_process_req_def)
      note C2 = daemon_invD(2) [OF D(2)]
      define c3 where "c3 = (chann d2)\<lparr>last_n := (last_n (chann d2))[i := 0]\<rparr>"
      have C3: "carrier_ok (good_request libs) c3" using carrier_ok_upd(2) [OF C2] by (simp add: c3_def)
      obtain c4 where c4: "(if sent \<le> 0 then rtf_carrier_set_state c3 (int i) ERROR else Some c3) = Some c4"
          "carrier_ok (good_request libs) c4"
        using carrier_access(6) [OF C3 i, of ERROR] carrier_ok_upd(1) [OF C3] C3 by (cases "sent \<le> 0") auto
      have "rtf_daemon_handle_req os net d (int i) = Some (0, d2\<lparr>dnet := k2, chann := c4\<rparr>)"
        using F(1) \<open>r = 0\<close> d1 u False P carrier_access(7) [OF C2 i] c4(1)
        by (simp add: rtf_daemon_handle_req_def flip: c3_def)
      moreover have "daemon_inv os libs (d2\<lparr>dnet := k2, chann := c4\<rparr>)"
        using daemon_invD(1) [OF D(2)] c4(2) by (simp add: daemon_inv_def)
      ultimately show ?thesis using D(3) by auto
    qed
  qed
qed

text \<open>A round that is interrupted after any visit, and so a whole one, keeps the invariant.\<close>

lemma interrupted_round_keeps:
  assumes inv: "daemon_inv os libs d" and k: "kernel_ok os" and net: "sockets_ok net (good_request libs)"
    and few: "last_task_id (sched d) + int SET_MAX_SIZE \<le> ID_BOUND"
  shows "\<exists>d'. interrupted_round os net m d = Some d' \<and> daemon_inv os libs d' \<and>
    last_task_id (sched d') \<le> last_task_id (sched d) + int SET_MAX_SIZE"
    and "rtf_daemon_round os net d = interrupted_round os net SET_MAX_SIZE d"
proof -
  note C = daemon_invD(2) [OF inv]
  from rtf_carrier_update_ok [OF net C] obtain c n1 where U: "rtf_carrier_update net (dnet d) (chann d) = Some (c, n1)"
      "carrier_ok (good_request libs) c" by blast
  define d1 where "d1 = d\<lparr>chann := c, dnet := n1\<rparr>"
  let ?all = "[0..<nat (rtf_carrier_get_conn c + 1)]" and ?xs = "take m [0..<nat (rtf_carrier_get_conn c + 1)]"
  have inv1: "daemon_inv os libs d1" using daemon_invD(1) [OF inv] U(2) by (simp add: d1_def daemon_inv_def)
  have all: "length ?all \<le> SET_MAX_SIZE"
    using carrier_okD(1) [OF U(2)] by (auto simp: rtf_carrier_get_conn_def usocket_get_maxfd_def usocket_ok_def)
  then have len: "length ?xs \<le> SET_MAX_SIZE" by simp
  have same: "last_task_id (sched d1) = last_task_id (sched d)" by (simp add: d1_def)
  have "\<exists>d'. for_each (\<lambda>d i. map_option snd (rtf_daemon_handle_req os net d (int i))) d1 ?xs = Some d' \<and>
      daemon_inv os libs d' \<and> last_task_id (sched d') \<le> last_task_id (sched d1) + 1 * int (length ?xs)"
  proof (rule for_each_bounded [where I = "daemon_inv os libs" and B = ID_BOUND])
    show "daemon_inv os libs d1" by (rule inv1)
    show "last_task_id (sched d1) + 1 * int (length ?xs) \<le> ID_BOUND" using few len same by linarith
    show "\<exists>d'. map_option snd (rtf_daemon_handle_req os net d (int i)) = Some d' \<and> daemon_inv os libs d' \<and>
        last_task_id (sched d') \<le> last_task_id (sched d) + 1"
      if "daemon_inv os libs d" "i \<in> set ?xs" "last_task_id (sched d) + 1 \<le> ID_BOUND" for d :: "('a, 'b) rtf_daemon" and i
    proof -
      have "i \<in> set ?all" using that(2) by (rule in_set_takeD)
      then have "i < SET_MAX_SIZE" using all by simp
      from handle_req_keeps [OF that(1) this k, of net] that(3) show ?thesis by auto
    qed
  qed simp
  then obtain d' where "for_each (\<lambda>d i. map_option snd (rtf_daemon_handle_req os net d (int i))) d1 ?xs = Some d'"
      "daemon_inv os libs d'" "last_task_id (sched d') \<le> last_task_id (sched d1) + int (length ?xs)" by auto
  moreover from this(3) have "last_task_id (sched d') \<le> last_task_id (sched d) + int SET_MAX_SIZE"
    using same len by linarith
  ultimately show "\<exists>d'. interrupted_round os net m d = Some d' \<and> daemon_inv os libs d' \<and>
    last_task_id (sched d') \<le> last_task_id (sched d) + int SET_MAX_SIZE"
    using U(1) by (auto simp: interrupted_round_def d1_def)
  show "rtf_daemon_round os net d = interrupted_round os net SET_MAX_SIZE d"
    using U(1) all by (simp add: rtf_daemon_round_def interrupted_round_def)
qed

lemma round_keeps:
  assumes "daemon_inv os libs d" and "kernel_ok os" and "sockets_ok net (good_request libs)"
    and "last_task_id (sched d) + int SET_MAX_SIZE \<le> ID_BOUND"
  shows "\<exists>d'. rtf_daemon_round os net d = Some d' \<and> daemon_inv os libs d' \<and>
    last_task_id (sched d') \<le> last_task_id (sched d) + int SET_MAX_SIZE"
  using interrupted_round_keeps [OF assms] by simp

subsection \<open>Properties\<close>

lemma rounds_run:
  "for_each (\<lambda>d _. rtf_daemon_round os net d) d ns = Some d' \<Longrightarrow> daemon_runs os net d0 d \<Longrightarrow> daemon_runs os net d0 d'"
  by (induction ns arbitrary: d) (auto simp: bind_eq_Some intro: daemon_runs.round)

lemma rounds_keep:
  assumes "daemon_inv os libs d" and "kernel_ok os" and "sockets_ok net (good_request libs)"
    and "last_task_id (sched d) + int SET_MAX_SIZE * int n \<le> ID_BOUND"
  shows "\<exists>d'. for_each (\<lambda>d _. rtf_daemon_round os net d) d [0..<n] = Some d' \<and> daemon_inv os libs d' \<and>
    last_task_id (sched d') \<le> last_task_id (sched d) + int SET_MAX_SIZE * int (length [0..<n])"
  by (rule for_each_bounded [where I = "daemon_inv os libs" and B = ID_BOUND])
    (use assms round_keeps [OF _ assms(2,3)] in auto)

text \<open>C4: The daemon is never stuck and keeps its invariant.  From a state that satisfies it, with
  sockets that deliver good requests and memory that is granted, any number of rounds of the loop is
  defined (no undefined behaviour in the channel, the handlers, the scheduler or the plugins), as long
  as the ids stay below a million; the state reached satisfies the invariant again.\<close>

theorem daemon_never_stuck:
  assumes "daemon_inv os libs d" and "kernel_ok os" and "sockets_ok net (good_request libs)"
    and "last_task_id (sched d) + int SET_MAX_SIZE * int n \<le> ID_BOUND"
  shows "\<exists>d'. for_each (\<lambda>d _. rtf_daemon_round os net d) d [0..<n] = Some d' \<and> daemon_runs os net d d' \<and>
    daemon_inv os libs d'"
  using rounds_keep [OF assms] rounds_run [OF _ daemon_runs.start] by blast

text \<open>C10: When a client has disconnected or failed, the next visit of the daemon frees exactly the tasks of
  the process of that client, empties the slot, forgets the process, takes the descriptor out of the set that is polled and closes it (the socket layer makes one step, the \<open>close\<close>); the
  other tasks keep their id and parameters.  A client in another state is left alone.\<close>

theorem rtf_daemon_check_for_fail_correct:
  assumes "daemon_inv os libs d" and "i < SET_MAX_SIZE"
  shows "\<exists>r d'. rtf_daemon_check_for_fail os net d (int i) = Some (r, d') \<and> daemon_inv os libs d' \<and>
    (if cl_state (client (chann d) ! i) = ERROR \<or> cl_state (client (chann d) ! i) = DISCONNECTED
     then r = 1 \<and> dnet d' = sys_close net (dnet d) (int i) \<and> client (chann d') ! i = \<lparr>cl_state = EMPTY, cl_pid = 0\<rparr> \<and> i \<notin> conn_set (sock (chann d')) \<and>
       (let pid = cl_pid (client (chann d) ! i); h = heap (dworld d); h' = heap (dworld d'); xs = ts_tasks (taskset (sched d))
        in ts_tasks (taskset (sched d')) = filter (\<lambda>p. ptid (the (h p)) \<noteq> pid) xs \<and>
           (\<forall>p \<in> set xs. ptid (the (h p)) = pid \<longrightarrow> h' p = None) \<and>
           (\<forall>p \<in> set xs. ptid (the (h p)) \<noteq> pid \<longrightarrow> t_id (the (h' p)) = t_id (the (h p)) \<and> params (the (h' p)) = params (the (h p))))
     else r = 0 \<and> d' = d)"
  using check_for_fail_keeps [OF assms, of net] by blast

subsection \<open>A small daemon\<close>

text \<open>One client, process 7, that has just disconnected, and sockets on which nothing happens.\<close>

definition ex_net :: "unit rtf_sockets" where
  "ex_net = \<lparr>sys_socket = (\<lambda>k _. (3, k)), sys_connect = (\<lambda>k _ _. (0, k)), sys_bind = (\<lambda>k _ _. (0, k)),
     sys_unlink = (\<lambda>k _. k), sys_chmod = (\<lambda>k _. (0, k)), sys_listen = (\<lambda>k _ _. (0, k)), sys_accept = (\<lambda>k _. (- 1, k)),
     sys_select = (\<lambda>k _ _. (0, {}, k)), sys_recv_req = (\<lambda>k _ b. (0, b, k)), sys_recv_rep = (\<lambda>k _ b. (0, b, k)),
     sys_send_req = (\<lambda>k _ _. (1, k)), sys_send_rep = (\<lambda>k _ _. (1, k)), sys_setsockopt_timeout = (\<lambda>k _ _ _. (0, k)),
     sys_set_flags = (\<lambda>k _ _. (0, k)), sys_calloc_ucred = (\<lambda>_. True), sys_peercred = (\<lambda>_ _. None),
     sys_close = (\<lambda>k _. k)\<rparr>"

definition ex_daemon :: "(unit, unit) rtf_daemon" where
  "ex_daemon = \<lparr>chann = \<lparr>sock = zero_usocket\<lparr>sock_fd := 3, conn_set_max := 4, conn_set := {3, 4}\<rparr>,
       last_n = replicate SET_MAX_SIZE 0, last_req = replicate SET_MAX_SIZE \<lparr>req_type = Some RTF_CONNECTION, param = zero_params\<rparr>,
       client = (replicate SET_MAX_SIZE \<lparr>cl_state = EMPTY, cl_pid = 0\<rparr>)[4 := \<lparr>cl_state = DISCONNECTED, cl_pid = 7\<rparr>]\<rparr>,
     sched = ex_sched, dworld = ex_world, dnet = ()\<rparr>"

lemma ex_kernel: "kernel_ok ex_os"
proof -
  have "h (Suc (Max (insert 0 (dom h)))) = None" if "finite (dom h)" for h :: heap
  proof -
    have "\<not> Suc (Max (insert 0 (dom h))) \<in> insert 0 (dom h)"
      using that by (meson Max_ge Suc_n_not_le_n finite.insertI)
    then show ?thesis by (simp add: domIff)
  qed
  then show ?thesis by (simp add: kernel_ok_def ex_os_def)
qed

lemma ex_sockets: "sockets_ok ex_net P"
  by (simp add: sockets_ok_def ex_net_def SET_MAX_SIZE_def)

lemma ex_daemon_inv: "daemon_inv ex_os [SCHED_FP_so, SCHED_FP_so] ex_daemon"
proof -
  have "sched_ok ex_os [SCHED_FP_so, SCHED_FP_so] (ex_sched, ex_world)"
    using ex_inv by (simp add: sched_ok_def) (simp add: ex_sched_def ex_world_def ex_plugin_def)
  moreover have "carrier_ok (good_request [SCHED_FP_so, SCHED_FP_so]) (chann ex_daemon)"
    by (simp add: carrier_ok_def ex_daemon_def usocket_ok_def zero_usocket_def good_request_def SET_MAX_SIZE_def)
  ultimately show ?thesis by (simp add: daemon_inv_def ex_daemon_def)
qed

lemma daemon_never_stuck_witness:
  "\<exists>d'. for_each (\<lambda>d _. rtf_daemon_round ex_os ex_net d) ex_daemon [0..<1000] = Some d' \<and>
     daemon_inv ex_os [SCHED_FP_so, SCHED_FP_so] d'"
proof -
  have "last_task_id (sched ex_daemon) + int SET_MAX_SIZE * int 1000 \<le> ID_BOUND"
    by (simp add: ex_daemon_def SET_MAX_SIZE_def ID_BOUND_def)
  from daemon_never_stuck [OF ex_daemon_inv ex_kernel ex_sockets this] show ?thesis by blast
qed

lemma rtf_daemon_check_for_fail_correct_witness:
  "\<exists>d'. rtf_daemon_check_for_fail ex_os ex_net ex_daemon 4 = Some (1, d') \<and> ts_tasks (taskset (sched d')) = [] \<and>
     heap (dworld d') 5 = None"
proof -
  have "4 < SET_MAX_SIZE" by (simp add: SET_MAX_SIZE_def)
  moreover have "client (chann ex_daemon) ! 4 = \<lparr>cl_state = DISCONNECTED, cl_pid = 7\<rparr>"
    by (simp add: ex_daemon_def SET_MAX_SIZE_def)
  ultimately show ?thesis
    using rtf_daemon_check_for_fail_correct [OF ex_daemon_inv, of 4 ex_net] by (auto simp: Let_def ex_daemon_def)
qed

end
