(* ===== verification/Scheduler_Refine.thy ===== *)
theory Scheduler_Refine
  imports Daemon_Correct
begin

text \<open>
  What the scheduler promises, without its lists, addresses and counters: a map from the ids of the
  tasks to the process that asked, the plugin in charge and the parameters.  The operations of the
  scheduler refine the obvious operations on that map.
\<close>

type_synonym reservations = "u32 \<rightharpoonup> int \<times> int \<times> rtf_params"

definition reservation :: "heap \<Rightarrow> task_ptr \<Rightarrow> int \<times> int \<times> rtf_params" where
  "reservation h p = (let t = the (h p) in (ptid t, pluginid t, params t))"

definition sched_abs :: "'k sched_state \<Rightarrow> reservations" where
  "sched_abs = (\<lambda>(s, w) i. map_option (reservation (heap w))
     (find (\<lambda>p. t_id (the (heap w p)) = i) (ts_tasks (taskset s))))"

definition spec_create :: "rtf_plugin list \<Rightarrow> rtf_task \<Rightarrow> reservations \<Rightarrow> reservations" where
  "spec_create ps t m = (case decision ps t of None \<Rightarrow> m | Some (_, i) \<Rightarrow> m(t_id t \<mapsto> (ptid t, int i, params t)))"

definition spec_delete :: "int \<Rightarrow> reservations \<Rightarrow> reservations" where
  "spec_delete pid m = m |` {i. \<forall>r. m i = Some r \<longrightarrow> fst r \<noteq> pid}"

lemma find_unique:
  assumes "inj_on f (set xs)"
  shows "find (\<lambda>x. f x = k) xs = Some y \<longleftrightarrow> y \<in> set xs \<and> f y = k"
  using assms by (induction xs) (auto simp: inj_on_def)

lemma abs_Some:
  assumes "sched_inv os (s, w)"
  shows "sched_abs (s, w) i = Some r \<longleftrightarrow>
    (\<exists>p \<in> set (ts_tasks (taskset s)). t_id (the (heap w p)) = i \<and> reservation (heap w) p = r)"
  using find_unique [OF sched_invD(5) [OF assms]] by (auto simp: sched_abs_def)

lemma abs_task:
  assumes "sched_inv os (s, w)" and "p \<in> set (ts_tasks (taskset s))"
  shows "sched_abs (s, w) (t_id (the (heap w p))) = Some (reservation (heap w) p)"
  using assms(2) by (auto simp: abs_Some [OF assms(1)])

lemma map_eqI: "(\<And>k v. m k = Some v \<longleftrightarrow> m' k = Some v) \<Longrightarrow> m = m'"
  by (rule ext) (metis not_None_eq)

text \<open>The tasks that an operation leaves in place keep what the map shows of them.\<close>

lemma kept_task:
  assumes "\<forall>q \<in> A. \<exists>t t'. h q = Some t \<and> h' q = Some t' \<and>
    t_id t' = t_id t \<and> ptid t' = ptid t \<and> pluginid t' = pluginid t \<and> params t' = params t" and "q \<in> A"
  shows "t_id (the (h' q)) = t_id (the (h q))" "reservation h' q = reservation h q"
  using assms by (fastforce simp: reservation_def)+

lemma create_refines:
  assumes inv: "sched_inv os (s, w)" and inv': "sched_inv os (s', w')" and i: "i = u32_of_int (last_task_id s + 1)"
    and bound: "last_task_id s < 2 ^ 31 - 1"
    and kept: "\<forall>q \<in> set (ts_tasks (taskset s)). \<exists>t t'. heap w q = Some t \<and> heap w' q = Some t' \<and>
       t_id t' = t_id t \<and> ptid t' = ptid t \<and> pluginid t' = pluginid t \<and> params t' = params t"
    and new: "ts_tasks (taskset s') = p # ts_tasks (taskset s)" "t_id (the (heap w' p)) = i"
  shows "sched_abs (s', w') = (sched_abs (s, w))(i \<mapsto> reservation (heap w') p)"
proof (rule map_eqI)
  fix k v
  have "t_id (the (heap w q)) \<noteq> i" if "q \<in> set (ts_tasks (taskset s))" for q
  proof -
    have "uint i = last_task_id s + 1" using i bound sched_invD(6) [OF inv] by (simp add: uint_u32_of_int)
    then show ?thesis using sched_invD(7) [OF inv that] by auto
  qed
  then show "sched_abs (s', w') k = Some v \<longleftrightarrow> ((sched_abs (s, w))(i \<mapsto> reservation (heap w') p)) k = Some v"
    using kept_task [OF kept] new by (auto simp: abs_Some [OF inv] abs_Some [OF inv'])
qed

lemma same_refines:
  assumes inv: "sched_inv os (s, w)" and inv': "sched_inv os (s', w')" and sub: "ts_tasks (taskset s') = filter Q (ts_tasks (taskset s))"
    and kept: "\<forall>q \<in> set (ts_tasks (taskset s')). \<exists>t t'. heap w q = Some t \<and> heap w' q = Some t' \<and>
       t_id t' = t_id t \<and> ptid t' = ptid t \<and> pluginid t' = pluginid t \<and> params t' = params t"
    and q: "\<forall>p \<in> set (ts_tasks (taskset s)). Q p \<longleftrightarrow> t_id (the (heap w p)) \<in> A"
  shows "sched_abs (s', w') = sched_abs (s, w) |` A"
proof (rule map_eqI)
  fix k v
  show "sched_abs (s', w') k = Some v \<longleftrightarrow> (sched_abs (s, w) |` A) k = Some v"
    using kept_task [OF kept] q sub
    by (cases "k \<in> A") (auto simp: restrict_map_def abs_Some [OF inv] abs_Some [OF inv'])
qed

subsection \<open>The operations on the map\<close>

lemma create_abs:
  assumes ok: "sched_ok os libs (s, w)" and k: "kernel_ok os" and few: "last_task_id s < ID_BOUND" and good: "good_params libs tp"
  shows "\<exists>r s' w' p. rtf_scheduler_task_create os tp ppid (s, w) = Some (r, s', w') \<and> sched_inv os (s', w') \<and>
    last_task_id s' = last_task_id s + 1 \<and> dom (heap w') = insert p (dom (heap w)) \<and> heap w p = None \<and>
    sched_abs (s', w') = spec_create (plugin s) (new_task s tp ppid) (sched_abs (s, w)) \<and>
    (case decision (plugin s) (new_task s tp ppid) of
       None \<Rightarrow> r = RTF_NO \<and> ts_tasks (taskset s') = ts_tasks (taskset s)
     | Some (a, i) \<Rightarrow> r = a \<and> ts_tasks (taskset s') = p # ts_tasks (taskset s) \<and> t_id (the (heap w' p)) = u32_of_int (last_task_id s + 1))"
proof -
  note O = sched_okD [OF ok]
  obtain p where p: "sys_calloc os (heap w) = Some p" "heap w p = None" using k O(3) unfolding kernel_ok_def by blast
  let ?t = "new_task s tp ppid" and ?n = "last_task_id s + 1"
  have adm: "\<forall>r i. decision (plugin s) ?t = Some (r, i) \<longrightarrow> plg_admissible (plugin s ! i) ?t"
    using good_admissible [OF O(1) _ few, of _ ?t] decision_Some O(2) good by (simp add: new_task_def)
  have n: "last_task_id s < 2 ^ 31 - 1" and "NUL \<in> set (sched_plugin tp)"
    using few good by (simp_all add: ID_BOUND_def good_params_def)
  from create_full [OF O(1) p this adm] obtain r s' w' where R:
      "rtf_scheduler_task_create os tp ppid (s, w) = Some (r, s', w')" "sched_inv os (s', w')"
      "dom (heap w') = insert p (dom (heap w))" "last_task_id s' = ?n"
    and kept: "\<forall>q \<in> set (ts_tasks (taskset s)). \<exists>t t'. heap w q = Some t \<and> heap w' q = Some t' \<and>
       t_id t' = t_id t \<and> ptid t' = ptid t \<and> pluginid t' = pluginid t \<and> params t' = params t"
    and C: "case decision (plugin s) ?t of None \<Rightarrow> r = RTF_NO \<and> taskset s' = taskset s \<and> plugin s' = plugin s
       | Some (a, i) \<Rightarrow> r = a \<and> ts_tasks (taskset s') = p # ts_tasks (taskset s) \<and>
           (\<exists>t. heap w' p = Some t \<and> pluginid t = int i \<and> ptid t = ppid \<and> params t = tp \<and> t_id t = u32_of_int ?n)"
    by blast
  have "sched_abs (s', w') = spec_create (plugin s) ?t (sched_abs (s, w))"
  proof (cases "decision (plugin s) ?t")
    case None
    then have "sched_abs (s', w') = sched_abs (s, w) |` UNIV"
      using C kept by (intro same_refines [OF O(1) R(2), where Q = "\<lambda>_. True"]) auto
    then show ?thesis using None by (simp add: spec_create_def restrict_map_def fun_eq_iff)
  next
    case (Some d)
    then obtain a i where d: "decision (plugin s) ?t = Some (a, i)" by (cases d) auto
    with C obtain t where t: "ts_tasks (taskset s') = p # ts_tasks (taskset s)" "heap w' p = Some t" "pluginid t = int i"
        "ptid t = ppid" "params t = tp" "t_id t = u32_of_int ?n" by auto
    then have "reservation (heap w') p = (ppid, int i, tp)" "t_id (the (heap w' p)) = u32_of_int ?n"
      by (simp_all add: reservation_def)
    with create_refines [OF O(1) R(2) refl n kept t(1)] d show ?thesis by (simp add: spec_create_def new_task_def)
  qed
  then show ?thesis using R C p(2) by (intro exI [of _ r] exI [of _ s'] exI [of _ w'] exI [of _ p]) (auto split: option.splits)
qed

lemma destroy_abs:
  assumes "sched_inv os (s, w)"
  shows "\<exists>r s' w'. rtf_scheduler_task_destroy os i (s, w) = Some (r, s', w') \<and> sched_inv os (s', w') \<and>
    r = (if i \<in> dom (sched_abs (s, w)) then RTF_OK else RTF_ERROR) \<and> last_task_id s' = last_task_id s \<and>
    sched_abs (s', w') = (sched_abs (s, w))(i := None) \<and>
    ts_tasks (taskset s') = filter (\<lambda>q. t_id (the (heap w q)) \<noteq> i) (ts_tasks (taskset s))"
proof -
  let ?xs = "ts_tasks (taskset s)" and ?f = "\<lambda>p. t_id (the (heap w p))"
  from destroy_ok [OF assms, of i] obtain r s' w' where R:
      "rtf_scheduler_task_destroy os i (s, w) = Some (r, s', w')" "sched_inv os (s', w')" "last_task_id s' = last_task_id s"
      "case find (\<lambda>p. ?f p = i) ?xs of None \<Rightarrow> r = RTF_ERROR \<and> s' = s \<and> w' = w
       | Some p \<Rightarrow> r = RTF_OK \<and> heap w' p = None \<and> ts_tasks (taskset s') = filter (\<lambda>q. q \<noteq> p) ?xs \<and>
         (\<forall>q \<in> set (ts_tasks (taskset s')). \<exists>t t'. heap w q = Some t \<and> heap w' q = Some t' \<and>
            t_id t' = t_id t \<and> ptid t' = ptid t \<and> pluginid t' = pluginid t \<and> params t' = params t)"
    by blast
  note U = find_unique [OF sched_invD(5) [OF assms], of i]
  show ?thesis
  proof (cases "find (\<lambda>p. ?f p = i) ?xs")
    case None
    then have "sched_abs (s, w) i = None" "filter (\<lambda>q. ?f q \<noteq> i) ?xs = ?xs"
      by (auto simp: sched_abs_def find_None_iff filter_id_conv)
    then show ?thesis using R None by (auto simp: domIff fun_upd_idem)
  next
    case (Some p)
    then have p: "p \<in> set ?xs" "?f p = i" using U by auto
    have sep: "\<forall>q \<in> set ?xs. q \<noteq> p \<longleftrightarrow> ?f q \<noteq> i" using p sched_invD(5) [OF assms] by (auto dest: inj_onD)
    have "sched_abs (s', w') = sched_abs (s, w) |` {k. k \<noteq> i}"
      using R(4) Some sep by (intro same_refines [OF assms R(2), where Q = "\<lambda>q. q \<noteq> p"]) auto
    then have "sched_abs (s', w') = (sched_abs (s, w))(i := None)" by (auto simp: restrict_map_def fun_eq_iff)
    moreover have "filter (\<lambda>q. q \<noteq> p) ?xs = filter (\<lambda>q. ?f q \<noteq> i) ?xs" using sep by (intro filter_cong) auto
    moreover have "i \<in> dom (sched_abs (s, w))" using Some by (simp add: sched_abs_def domIff)
    ultimately show ?thesis using R Some by simp
  qed
qed

lemma delete_abs:
  assumes "sched_inv os (s, w)"
  shows "\<exists>s' w'. rtf_scheduler_delete os ppid (s, w) = Some (s', w') \<and> sched_inv os (s', w') \<and>
    sched_abs (s', w') = spec_delete ppid (sched_abs (s, w))"
proof -
  from delete_ok [OF assms, of ppid] obtain s' w' where R:
      "rtf_scheduler_delete os ppid (s, w) = Some (s', w')" "sched_inv os (s', w')"
      "ts_tasks (taskset s') = filter (\<lambda>p. ptid (the (heap w p)) \<noteq> ppid) (ts_tasks (taskset s))"
      "\<forall>p \<in> set (ts_tasks (taskset s')). \<exists>t t'. heap w p = Some t \<and> heap w' p = Some t' \<and>
         t_id t' = t_id t \<and> ptid t' = ptid t \<and> pluginid t' = pluginid t \<and> params t' = params t"
    by blast
  have "sched_abs (s', w') = sched_abs (s, w) |` {i. \<forall>r. sched_abs (s, w) i = Some r \<longrightarrow> fst r \<noteq> ppid}"
  proof (rule same_refines [OF assms R(2-4)])
    show "\<forall>p \<in> set (ts_tasks (taskset s)). ptid (the (heap w p)) \<noteq> ppid \<longleftrightarrow>
        t_id (the (heap w p)) \<in> {i. \<forall>r. sched_abs (s, w) i = Some r \<longrightarrow> fst r \<noteq> ppid}"
      using abs_task [OF assms] by (simp add: reservation_def Let_def)
  qed
  with R(1,2) show ?thesis by (auto simp: spec_delete_def)
qed

lemma attach_abs:
  assumes inv: "sched_inv os (s, w)"
  shows "\<exists>r w'. rtf_scheduler_task_attach os i pid (s, w) = Some (r, s, w') \<and> sched_abs (s, w') = sched_abs (s, w)"
    "\<exists>r w'. rtf_scheduler_task_detach os i (s, w) = Some (r, s, w') \<and> sched_abs (s, w') = sched_abs (s, w)"
proof -
  have same: "sched_abs (s, w') = sched_abs (s, w)" if "heap w' = (heap w)(p \<mapsto> (the (heap w p))\<lparr>tid := x\<rparr>) \<or> heap w' = heap w" for w' p x
  proof -
    have "t_id (the (heap w' q)) = t_id (the (heap w q))" "reservation (heap w') q = reservation (heap w) q" for q
      using that by (auto simp: reservation_def Let_def)
    then have "reservation (heap w') = reservation (heap w)" "t_id (the (heap w' q)) = t_id (the (heap w q))" for q by auto
    then show ?thesis by (simp only: sched_abs_def prod.case)
  qed
  let ?f = "find (\<lambda>p. t_id (the (heap w p)) = i) (ts_tasks (taskset s))"
  obtain r w' where a: "rtf_scheduler_task_attach os i pid (s, w) = Some (r, s, w')"
      "case ?f of None \<Rightarrow> r = RTF_ERROR \<and> w' = w
       | Some p \<Rightarrow> (r = RTF_OK \<or> r = RTF_ERROR) \<and> heap w' = (heap w)(p \<mapsto> (the (heap w p))\<lparr>tid := pid\<rparr>)"
    using attach_ok [OF inv, of i pid] by blast
  have "sched_abs (s, w') = sched_abs (s, w)"
    by (rule same [of _ "the ?f" pid]) (use a(2) in \<open>cases ?f; simp\<close>)
  with a(1) show "\<exists>r w'. rtf_scheduler_task_attach os i pid (s, w) = Some (r, s, w') \<and> sched_abs (s, w') = sched_abs (s, w)"
    by blast
  obtain r w' where d: "rtf_scheduler_task_detach os i (s, w) = Some (r, s, w')"
      "case ?f of None \<Rightarrow> r = RTF_ERROR \<and> w' = w | Some p \<Rightarrow> (r = RTF_OK \<or> r = RTF_ERROR) \<and> heap w' = heap w"
    using attach_ok [OF inv, of i pid] by blast
  have "sched_abs (s, w') = sched_abs (s, w)"
    by (rule same) (use d(2) in \<open>cases ?f; simp\<close>)
  with d(1) show "\<exists>r w'. rtf_scheduler_task_detach os i (s, w) = Some (r, s, w') \<and> sched_abs (s, w') = sched_abs (s, w)"
    by blast
qed

text \<open>A task that no plugin takes is never freed: it stays in the store although it is in no task set.\<close>

lemma refused_task_leaks:
  assumes "sched_ok os libs (s, w)" and "kernel_ok os" and "last_task_id s < ID_BOUND" and "good_params libs tp"
    and "rtf_scheduler_task_create os tp ppid (s, w) = Some (RTF_NO, s', w')"
  shows "ts_tasks (taskset s') = ts_tasks (taskset s) \<and> (\<exists>p. heap w p = None \<and> heap w' p \<noteq> None)"
proof -
  from create_abs [OF assms(1-4), of ppid] assms(5) obtain p where
    "dom (heap w') = insert p (dom (heap w))" "heap w p = None"
    "case decision (plugin s) (new_task s tp ppid) of
       None \<Rightarrow> ts_tasks (taskset s') = ts_tasks (taskset s) | Some (a, i) \<Rightarrow> RTF_NO = a"
    by (auto split: option.splits)
  then show ?thesis using decision_Some by (fastforce simp: RTF_NO_def RTF_OK_def RTF_PARTIAL_def split: option.splits)
qed

subsection \<open>Properties\<close>

text \<open>C5: The scheduler refines the map of reservations.  From a state that satisfies the invariant, with memory and an id below a million, creating a task with
  good parameters (a terminated plugin name, a priority of at most 99, not 0 when a round robin plugin is loaded, no desired runtime) adds an entry under the next id, for the
  first plugin that accepts it, else for the first that accepts it partially, and changes nothing when
  none does.  Whatever its arguments, destroying removes the entry of the id, and answers whether there was one; deleting a process removes
  its entries; attaching and detaching threads changes no entry.\<close>

theorem scheduler_refines:
  assumes "sched_ok os libs (s, w)" and "kernel_ok os" and "last_task_id s < ID_BOUND" and "good_params libs tp"
  shows "(\<exists>r s' w'. rtf_scheduler_task_create os tp ppid (s, w) = Some (r, s', w') \<and>
      sched_abs (s', w') = spec_create (plugin s) (new_task s tp ppid) (sched_abs (s, w)) \<and>
      r = (case decision (plugin s) (new_task s tp ppid) of None \<Rightarrow> RTF_NO | Some (a, _) \<Rightarrow> a)) \<and>
    (\<exists>r s' w'. rtf_scheduler_task_destroy os i (s, w) = Some (r, s', w') \<and>
      sched_abs (s', w') = (sched_abs (s, w))(i := None) \<and>
      r = (if i \<in> dom (sched_abs (s, w)) then RTF_OK else RTF_ERROR)) \<and>
    (\<exists>s' w'. rtf_scheduler_delete os ppid (s, w) = Some (s', w') \<and>
      sched_abs (s', w') = spec_delete ppid (sched_abs (s, w))) \<and>
    (\<exists>r s' w'. rtf_scheduler_task_attach os i pid (s, w) = Some (r, s', w') \<and> sched_abs (s', w') = sched_abs (s, w)) \<and>
    (\<exists>r s' w'. rtf_scheduler_task_detach os i (s, w) = Some (r, s', w') \<and> sched_abs (s', w') = sched_abs (s, w))"
proof -
  note inv = sched_okD(1) [OF assms(1)]
  have "\<exists>r s' w'. rtf_scheduler_task_create os tp ppid (s, w) = Some (r, s', w') \<and>
      sched_abs (s', w') = spec_create (plugin s) (new_task s tp ppid) (sched_abs (s, w)) \<and>
      r = (case decision (plugin s) (new_task s tp ppid) of None \<Rightarrow> RTF_NO | Some (a, _) \<Rightarrow> a)"
    using create_abs [OF assms, of ppid] by (fastforce split: option.splits)
  with destroy_abs [OF inv, of i] delete_abs [OF inv, of ppid] attach_abs(1) [OF inv, of i pid] attach_abs(2) [OF inv, of i] show ?thesis by blast
qed

lemma ex_hyps:
  "sched_ok ex_os [SCHED_FP_so, SCHED_FP_so] (ex_sched, ex_world)" "last_task_id ex_sched < ID_BOUND"
  "good_params [SCHED_FP_so, SCHED_FP_so] ex_params"
proof -
  show "sched_ok ex_os [SCHED_FP_so, SCHED_FP_so] (ex_sched, ex_world)"
    using daemon_invD(1) [OF ex_daemon_inv] by (simp add: ex_daemon_def)
qed (simp_all add: ex_sched_def ID_BOUND_def good_params_def ex_params_def zero_params_def PLUGIN_MAX_NAME_def)

lemma scheduler_refines_witness:
  "sched_abs (ex_sched, ex_world) 1 = Some (7, 1, ex_params) \<and>
   (\<exists>r s' w'. rtf_scheduler_task_destroy ex_os 1 (ex_sched, ex_world) = Some (r, s', w') \<and> r = RTF_OK \<and> sched_abs (s', w') 1 = None)"
proof -
  have a: "sched_abs (ex_sched, ex_world) 1 = Some (7, 1, ex_params)"
    by (simp add: sched_abs_def reservation_def ex_sched_def ex_world_def ex_task_def zero_task_def ts_of_def)
  have "\<exists>r s' w'. rtf_scheduler_task_destroy ex_os 1 (ex_sched, ex_world) = Some (r, s', w') \<and>
      sched_abs (s', w') = (sched_abs (ex_sched, ex_world))(1 := None) \<and>
      r = (if 1 \<in> dom (sched_abs (ex_sched, ex_world)) then RTF_OK else RTF_ERROR)"
    using scheduler_refines [OF ex_hyps(1) ex_kernel ex_hyps(2,3), where i = 1] by blast
  with a show ?thesis by (auto simp: domIff)
qed

text \<open>Creating a task and destroying it under the id that was given to it leaves the scheduler with the tasks
  and reservations it had; only the counter of ids has advanced.\<close>

theorem create_destroy_roundtrip:
  assumes "sched_ok os libs (s, w)" and "kernel_ok os" and "last_task_id s < ID_BOUND" and "good_params libs tp"
    and "rtf_scheduler_task_create os tp ppid (s, w) = Some (r, s1, w1)" and "r \<noteq> RTF_NO"
  shows "\<exists>s2 w2. rtf_scheduler_task_destroy os (u32_of_int (last_task_id s1)) (s1, w1) = Some (RTF_OK, s2, w2) \<and>
    sched_abs (s2, w2) = sched_abs (s, w) \<and> ts_tasks (taskset s2) = ts_tasks (taskset s) \<and>
    last_task_id s2 = last_task_id s + 1"
proof -
  note inv = sched_okD(1) [OF assms(1)]
  let ?t = "new_task s tp ppid" and ?i = "u32_of_int (last_task_id s + 1)"
  from create_abs [OF assms(1-4), of ppid] assms(5,6) obtain p a k where C: "sched_inv os (s1, w1)"
      "last_task_id s1 = last_task_id s + 1" "sched_abs (s1, w1) = (sched_abs (s, w))(?i \<mapsto> (ptid ?t, int k, params ?t))"
      "ts_tasks (taskset s1) = p # ts_tasks (taskset s)" "t_id (the (heap w1 p)) = ?i"
    by (fastforce simp: spec_create_def new_task_def split: option.splits)
  have old: "t_id (the (heap w1 q)) \<noteq> ?i" if "q \<in> set (ts_tasks (taskset s))" for q
    using sched_invD(1,5) [OF C(1)] C(4,5) that by (force simp: ts_ok_def)
  have none: "sched_abs (s, w) ?i = None"
  proof (rule ccontr)
    assume "sched_abs (s, w) ?i \<noteq> None"
    then obtain q where q: "q \<in> set (ts_tasks (taskset s))" "t_id (the (heap w q)) = ?i"
      using abs_Some [OF inv] by blast
    have "uint ?i = last_task_id s + 1"
      using sched_invD(6) [OF inv] assms(3) by (simp add: uint_u32_of_int ID_BOUND_def)
    then show False using sched_invD(7) [OF inv q(1)] q(2) by simp
  qed
  from destroy_abs [OF C(1), of ?i] C(2-5) none show ?thesis by (auto simp: old filter_id_conv fun_upd_idem)
qed

lemma create_destroy_roundtrip_witness:
  "\<exists>s1 w1 s2 w2. rtf_scheduler_task_create ex_os ex_params 3 (ex_sched, ex_world) = Some (RTF_OK, s1, w1) \<and>
     rtf_scheduler_task_destroy ex_os (u32_of_int (last_task_id s1)) (s1, w1) = Some (RTF_OK, s2, w2) \<and>
     ts_tasks (taskset s2) = [5]"
proof -
  have "decision (plugin ex_sched) (new_task ex_sched ex_params 3) = Some (RTF_OK, 0)"
    by (rule ex_decision) (simp add: new_task_def)
  with create_abs [OF ex_hyps(1) ex_kernel ex_hyps(2,3), of 3] obtain s1 w1 where
    c: "rtf_scheduler_task_create ex_os ex_params 3 (ex_sched, ex_world) = Some (RTF_OK, s1, w1)" by fastforce
  have "ts_tasks (taskset ex_sched) = [5]" by (simp add: ex_sched_def ts_of_def)
  with create_destroy_roundtrip [OF ex_hyps(1) ex_kernel ex_hyps(2,3) c] c show ?thesis
    by (auto simp: RTF_OK_def RTF_NO_def)
qed

end
