(* ===== verification/Client_Daemon.thy ===== *)
theory Client_Daemon
  imports ClientLib Scheduler_Refine
begin

text \<open>
  The client library and the daemon together: a request the library writes is what a handler reads,
  and the reply the handler writes is what the library reads.

  \<open>exchanged net d i (c, k) rep\<close>: the request of the channel \<open>c\<close> is sent, is the last request in the
  daemon's slot \<open>i\<close>, and the reply \<open>rep\<close> is received for it.
\<close>

subsection \<open>One exchange\<close>

definition exchanged ::
  "'m rtf_sockets \<Rightarrow> ('k, 'n) rtf_daemon \<Rightarrow> nat \<Rightarrow> 'm lib_state \<Rightarrow> rtf_reply \<Rightarrow> 'm \<Rightarrow> bool" where
  "exchanged net d i = (\<lambda>(c, k) rep k'. i < SET_MAX_SIZE \<and> last_req (chann d) ! i = acc_req c \<and>
     (\<exists>n m k1. sys_send_req net k (sock_fd (acc_sock c)) (acc_req c) = (n, k1) \<and> n \<noteq> - 1 \<and>
        sys_recv_rep net k1 (sock_fd (acc_sock c)) (acc_rep c) = (m, rep, k') \<and> m \<noteq> - 1))"

lemma exchangedD:
  assumes "exchanged net d i (c, k) rep k'"
  shows "i < SET_MAX_SIZE" "last_req (chann d) ! i = acc_req c"
    "rtf_task_communicate net (c, k) = (RTF_OK, c\<lparr>acc_rep := rep\<rparr>, k')"
  using assms
  by (auto simp: exchanged_def rtf_task_communicate_def rtf_access_send_def rtf_access_recv_def usocket_send_def
      usocket_recv_def RTF_ERROR_def Let_def)

lemma RTF_OK_pos [simp]: "\<not> RTF_OK < 0"
  by (simp add: RTF_OK_def)

subsection \<open>The halves of a word\<close>

lemma halves:
  "low_half (join_halves lo hi) = lo" "high_half (join_halves lo hi) = hi"
  "join_halves (low_half w) (high_half w) = w"
proof -
  show "low_half (join_halves lo hi) = lo"
    unfolding low_half_def join_halves_def by (rule bit_word_eqI) (auto simp: bit_simps)
  show "high_half (join_halves lo hi) = hi"
    unfolding high_half_def join_halves_def by (rule bit_word_eqI) (auto simp: bit_simps dest: bit_imp_le_length)
  show "join_halves (low_half w) (high_half w) = w"
    unfolding high_half_def low_half_def join_halves_def by (rule bit_word_eqI) (auto simp: bit_simps)
qed

lemma req_type_set [simp]: "req_type (set_low v r) = req_type r" "req_type (set_high v r) = req_type r"
  by (simp_all add: set_low_def set_high_def)

lemma ids_of_set:
  "ids_rsvid (set_low v (set_high u r)) = u" "ids_rsvid (set_high u r) = u"
  "low_half (runtime (param (set_low v r))) = v"
  by (simp_all add: ids_rsvid_def set_low_def set_high_def halves)

lemma ids_pid_of_set:
  assumes "- (2 ^ 31) \<le> pid" and "pid < 2 ^ 31"
  shows "ids_pid (set_low (u32_of_int pid) r) = pid"
proof -
  have "signed_take_bit 31 pid = pid" using assms by (intro signed_take_bit_int_eq_self) auto
  then show ?thesis by (simp add: ids_pid_def ids_of_set s32_of_u32_def u32_of_int_def sint_sbintrunc')
qed

subsection \<open>Requests of the library at the daemon\<close>

lemma req_task_create_eq:
  assumes "daemon_inv os libs d" and "i < SET_MAX_SIZE"
    and "rtf_scheduler_task_create os (param (last_req (chann d) ! i)) (cl_pid (client (chann d) ! i)) (sched d, dworld d) =
      Some (res, s, w)"
  shows "req_task_create os d (int i) = Some
    (let n = f32_of_int (s32_of_u32 (u32_of_int (last_task_id s)))
     in if res = RTF_NO then \<lparr>rep_type = RTF_TASK_CREATE_ERR, payload = Response (- 1)\<rparr>
        else if res = RTF_PARTIAL then \<lparr>rep_type = RTF_TASK_CREATE_PART, payload = Response n\<rparr>
        else \<lparr>rep_type = RTF_TASK_CREATE_OK, payload = Response n\<rparr>, d\<lparr>sched := s, dworld := w\<rparr>)"
  using assms carrier_access(1,2) [OF daemon_invD(2) [OF assms(1)] assms(2)]
  by (simp add: req_task_create_def Let_def)

lemma created_id:
  assumes "daemon_inv os libs d" and "0 \<le> last_task_id (sched d)" and "last_task_id (sched d) + 1 < 2 ^ 24"
    and "exchanged net d i (with_req (\<lambda>q. q\<lparr>req_type := Some RTF_TASK_CREATE, param := p\<rparr>) c, k) rep k'"
    and "rtf_scheduler_task_create os p (cl_pid (client (chann d) ! i)) (sched d, dworld d) = Some (res, s, w)"
    and "last_task_id s = last_task_id (sched d) + 1" and "res \<noteq> RTF_NO"
    and "dispatch_req os d (int i) (Some RTF_TASK_CREATE) = Some (rep, d')"
  shows "sched d' = s \<and> dworld d' = w \<and>
    (\<exists>c'. cli_task_create net p (t, c, k) = Some (RTF_OK, t\<lparr>cli_p := p, task_id := u32_of_int (last_task_id s)\<rparr>, c', k'))"
proof -
  note E = exchangedD [OF assms(4)]
  have q: "param (last_req (chann d) ! i) = p" using E(2) by (simp add: with_req_def)
  let ?n = "last_task_id s"
  have n: "0 \<le> ?n" "?n < 2 ^ 24" using assms(2,3,6) by simp_all
  then have "s32_of_u32 (u32_of_int ?n) = ?n" by (intro s32_of_small) simp_all
  then have id: "payload_id (\<lparr>rep_type = ty, payload = Response (f32_of_int (s32_of_u32 (u32_of_int ?n)))\<rparr>) = Some (u32_of_int ?n)"
    for ty using u32_of_f32_of_int [OF n] by (simp add: payload_id_def u32_of_int_def)
  have "req_task_create os d (int i) = Some (rep, d')" using assms(8) by (simp add: dispatch_req_def)
  with req_task_create_eq [OF assms(1) E(1), unfolded q, OF assms(5)] assms(7)
  have R: "rep = \<lparr>rep_type = (if res = RTF_PARTIAL then RTF_TASK_CREATE_PART else RTF_TASK_CREATE_OK),
      payload = Response (f32_of_int (s32_of_u32 (u32_of_int ?n)))\<rparr>" "d' = d\<lparr>sched := s, dworld := w\<rparr>"
    by (auto simp: Let_def)
  then have "payload_id rep = Some (u32_of_int ?n)" "rep_type rep \<noteq> RTF_TASK_CREATE_ERR" using id by simp_all
  then show ?thesis using R(2) E(3) by (simp add: cli_task_create_def Let_def)
qed

text \<open>What the map of reservations gains when the daemon grants a creation.\<close>

lemma created_reservation:
  assumes "daemon_inv os libs d" and "kernel_ok os" and "last_task_id (sched d) < ID_BOUND"
    and "exchanged net d i (with_req (\<lambda>q. q\<lparr>req_type := Some RTF_TASK_CREATE, param := p\<rparr>) c, k) rep k'"
    and "dispatch_req os d (int i) (Some RTF_TASK_CREATE) = Some (rep, d')" and "rep_type rep \<noteq> RTF_TASK_CREATE_ERR"
  shows "\<exists>t' c' j. cli_task_create net p (t, c, k) = Some (RTF_OK, t', c', k') \<and> cli_p t' = p \<and>
    task_id t' = u32_of_int (last_task_id (sched d) + 1) \<and> sched_abs (sched d, dworld d) (task_id t') = None \<and>
    sched_abs (sched d', dworld d') = (sched_abs (sched d, dworld d))(task_id t' \<mapsto> (cl_pid (client (chann d) ! i), j, p)) \<and>
    last_task_id (sched d') = last_task_id (sched d) + 1"
proof -
  note E = exchangedD [OF assms(4)] and S = daemon_invD(3) [OF assms(1)]
  let ?pid = "cl_pid (client (chann d) ! i)" and ?id = "u32_of_int (last_task_id (sched d) + 1)"
  have "req_type (last_req (chann d) ! i) = Some RTF_TASK_CREATE" and q: "param (last_req (chann d) ! i) = p"
    using E(2) by (simp_all add: with_req_def)
  then have good: "good_params libs p" using good_reqD [OF assms(1) E(1)] by (simp add: good_request_def)
  from create_abs [OF daemon_invD(1) [OF assms(1)] assms(2,3) good, of ?pid] obtain res s w where
    C: "rtf_scheduler_task_create os p ?pid (sched d, dworld d) = Some (res, s, w)" "last_task_id s = last_task_id (sched d) + 1"
      "sched_abs (s, w) = spec_create (plugin (sched d)) (new_task (sched d) p ?pid) (sched_abs (sched d, dworld d))"
      "case decision (plugin (sched d)) (new_task (sched d) p ?pid) of None \<Rightarrow> res = RTF_NO | Some (a, _) \<Rightarrow> res = a"
    by (auto split: option.splits)
  have res: "res \<noteq> RTF_NO"
    using req_task_create_eq [OF assms(1) E(1), unfolded q, OF C(1)] assms(5,6) by (auto simp: dispatch_req_def Let_def)
  have n: "0 \<le> last_task_id (sched d)" "last_task_id (sched d) + 1 < 2 ^ 24" using sched_invD(6) [OF S] assms(3) by (simp_all add: ID_BOUND_def)
  note new = created_id [OF assms(1) n assms(4) C(1,2) res assms(5), of t, unfolded C(2)]
  obtain a j where a: "decision (plugin (sched d)) (new_task (sched d) p ?pid) = Some (a, j)"
    using C(4) res by (cases "decision (plugin (sched d)) (new_task (sched d) p ?pid)") auto
  have abs: "sched_abs (s, w) = (sched_abs (sched d, dworld d))(?id \<mapsto> (?pid, int j, p))"
    using C(3) a by (simp add: spec_create_def new_task_def)
  have "sched_abs (sched d, dworld d) ?id = None"
  proof (rule ccontr)
    assume "sched_abs (sched d, dworld d) ?id \<noteq> None"
    then obtain x where "x \<in> set (ts_tasks (taskset (sched d)))" "t_id (the (heap (dworld d) x)) = ?id" using abs_Some [OF S] by blast
    moreover have "uint ?id = last_task_id (sched d) + 1" using n by (simp add: uint_u32_of_int)
    ultimately show False using sched_invD(7) [OF S] by fastforce
  qed
  with new abs C(2) show ?thesis by force
qed

text \<open>C20: A task that a client creates through the library gets the id under which the daemon keeps it.  When the daemon, whose invariant holds
  and whose ids stay below a million, does not answer with an error, the library returns OK and notes an id that was
  free before; the daemon now has a reservation under this id, for the process of the client and with the parameters
  that the client asked for, and all its other reservations are as before.  (The reply carries the id in a float, which is exact up to 2^24.)\<close>

theorem create_returns_id:
  assumes "daemon_inv os libs d" and "kernel_ok os" and "last_task_id (sched d) < ID_BOUND"
    and "exchanged net d i (with_req (\<lambda>q. q\<lparr>req_type := Some RTF_TASK_CREATE, param := p\<rparr>) c, k) rep k'"
    and "dispatch_req os d (int i) (Some RTF_TASK_CREATE) = Some (rep, d')" and "rep_type rep \<noteq> RTF_TASK_CREATE_ERR"
  shows "\<exists>t' c'. cli_task_create net p (t, c, k) = Some (RTF_OK, t', c', k') \<and>
    sched_abs (sched d, dworld d) (task_id t') = None \<and>
    (\<exists>j. sched_abs (sched d', dworld d') =
       (sched_abs (sched d, dworld d))(task_id t' \<mapsto> (cl_pid (client (chann d) ! i), j, p)))"
  using created_reservation [OF assms, of t] by blast

text \<open>Beyond 2^24 the id of a task is lost: for the task number 2^24 + 1 the daemon's reply carries the
  id of the task number 2^24.\<close>

theorem reply_id_rounded:
  assumes "daemon_inv os libs d" and "i < SET_MAX_SIZE"
    and "rtf_scheduler_task_create os (param (last_req (chann d) ! i)) (cl_pid (client (chann d) ! i)) (sched d, dworld d) =
      Some (RTF_OK, s, w)"
    and "last_task_id s = 2 ^ 24 + 1"
  shows "\<exists>rep d'. req_task_create os d (int i) = Some (rep, d') \<and> payload_id rep = Some (u32_of_int (2 ^ 24))"
proof -
  have "s32_of_u32 (u32_of_int (2 ^ 24 + 1)) = 2 ^ 24 + 1" by (rule s32_of_small) simp_all
  moreover have "u32_of_f32 (f32_of_int (2 ^ 24 + 1)) = Some (u32_of_int (2 ^ 24))" by code_simp
  ultimately show ?thesis
    using req_task_create_eq [OF assms(1-3)] assms(4)
    by (simp add: Let_def RTF_OK_def RTF_NO_def RTF_PARTIAL_def payload_id_def)
qed

text \<open>C38: Changing the parameters of a task never works: whatever task the client asks to change, as long as
  the new runtime is below 2^32 microseconds, the daemon replies with an error, changes nothing, and
  the library reports a failure.  The request does not carry the id of the task; the daemon takes the
  high half of the runtime for it.\<close>

theorem change_always_fails:
  assumes "daemon_inv os libs d" and "uint (runtime p) < 2 ^ 32"
    and "exchanged net d i (with_req (\<lambda>q. q\<lparr>req_type := Some RTF_TASK_MODIFY, param := p\<rparr>) c, k) rep k'"
    and "dispatch_req os d (int i) (Some RTF_TASK_MODIFY) = Some (rep, d')"
  shows "d' = d \<and> rep_type rep = RTF_TASK_MODIFY_ERR \<and> fst (cli_task_change net p (t, c, k)) = RTF_FAIL"
proof -
  note E = exchangedD [OF assms(3)]
  let ?r = "last_req (chann d) ! i"
  have "ids_rsvid ?r = 0" using E(2) assms(2) by (intro ids_rsvid_small) (simp add: with_req_def)
  then have "rtf_scheduler_task_change os (param ?r) (ids_rsvid ?r) (sched d, dworld d) = Some (RTF_ERROR, sched d, dworld d)"
    using change_of_0 [OF daemon_invD(1) [OF assms(1)]] by simp
  then have "rep = \<lparr>rep_type = RTF_TASK_MODIFY_ERR, payload = Unset\<rparr> \<and> d' = d"
    using assms(4) carrier_access(1) [OF daemon_invD(2) [OF assms(1)] E(1)]
    by (auto simp: dispatch_req_def req_task_modify_def Let_def RTF_NO_def RTF_ERROR_def)
  then show ?thesis using E(3) by (simp add: cli_task_change_def Let_def)
qed

text \<open>C21: Attaching through the library: the daemon attaches the thread the client named to the task the
  client named, and the library reports what the daemon's scheduler answered.\<close>

theorem attach_reaches_task:
  assumes "daemon_inv os libs d" and "- (2 ^ 31) \<le> pid" and "pid < 2 ^ 31"
    and "exchanged net d i (with_req (\<lambda>q. set_low (u32_of_int pid) (set_high (task_id t) (q\<lparr>req_type := Some RTF_TASK_ATTACH\<rparr>))) c, k)
      rep k'"
    and "dispatch_req os d (int i) (Some RTF_TASK_ATTACH) = Some (rep, d')"
  shows "\<exists>r. rtf_scheduler_task_attach os (task_id t) pid (sched d, dworld d) = Some (r, sched d', dworld d') \<and>
    fst (cli_task_attach net t pid (c, k)) = (if r < 0 then RTF_FAIL else RTF_OK)"
proof -
  note E = exchangedD [OF assms(4)]
  let ?r = "last_req (chann d) ! i"
  have ids: "ids_rsvid ?r = task_id t" "ids_pid ?r = pid"
    using E(2) ids_pid_of_set [OF assms(2,3)] by (simp_all add: with_req_def ids_of_set)
  from attach_keeps(1) [OF daemon_invD(1) [OF assms(1)], of "task_id t" pid] obtain r w' where
    a: "rtf_scheduler_task_attach os (task_id t) pid (sched d, dworld d) = Some (r, sched d, w')" by blast
  then have "rep = \<lparr>rep_type = (if r < 0 then RTF_TASK_ATTACH_ERR else RTF_TASK_ATTACH_OK), payload = Unset\<rparr> \<and>
      d' = d\<lparr>dworld := w'\<rparr>"
    using assms(5) carrier_access(1) [OF daemon_invD(2) [OF assms(1)] E(1)] ids
    by (auto simp: dispatch_req_def req_task_attach_def)
  then show ?thesis using a E(3) by (simp add: cli_task_attach_def request_on_task_def Let_def)
qed

subsection \<open>A small session\<close>

text \<open>The small daemon after \<open>n\<close> tasks, with the request \<open>q\<close> in every slot, and a client whose buffer
  already holds the reply.\<close>

abbreviation "ex_libs \<equiv> [SCHED_FP_so, SCHED_FP_so]"

definition ex_served :: "int \<Rightarrow> rtf_request \<Rightarrow> (unit, unit) rtf_daemon" where
  "ex_served n q = ex_daemon\<lparr>chann := (chann ex_daemon)\<lparr>last_req := replicate SET_MAX_SIZE q\<rparr>,
     sched := ex_sched\<lparr>last_task_id := n\<rparr>\<rparr>"

definition ex_access :: "rtf_request \<Rightarrow> rtf_reply \<Rightarrow> rtf_access" where
  "ex_access q rep = \<lparr>acc_sock = zero_usocket, acc_req = q, acc_rep = rep\<rparr>"

definition ex_client :: cli_task where
  "ex_client = \<lparr>task_id = 1, dmiss = 0, acc_runtime = 0, cli_p = ex_params, act_time = \<lparr>tv_sec = 0, tv_nsec = 0\<rparr>,
     abs_dl = \<lparr>tv_sec = 0, tv_nsec = 0\<rparr>\<rparr>"

lemma ex_served_inv:
  assumes "1 \<le> n" and "good_request ex_libs q"
  shows "daemon_inv ex_os ex_libs (ex_served n q)"
proof -
  note D = daemon_invD [OF ex_daemon_inv]
  have "sched_inv ex_os (ex_sched\<lparr>last_task_id := n\<rparr>, ex_world)"
    by (rule sched_inv_same_tasks(1) [OF ex_inv]) (use assms(1) in simp_all)
  moreover have "sched_ok ex_os ex_libs (ex_sched, ex_world)" using D(1) by (simp add: ex_daemon_def)
  ultimately have "sched_ok ex_os ex_libs (ex_sched\<lparr>last_task_id := n\<rparr>, ex_world)" by (simp add: sched_ok_def)
  then show ?thesis
    using D(2) assms(2) by (simp add: daemon_inv_def carrier_ok_def ex_served_def ex_daemon_def SET_MAX_SIZE_def)
qed

lemma ex_exchanged: "exchanged ex_net (ex_served n q) 5 (ex_access q rep, ()) rep ()"
  by (simp add: exchanged_def ex_access_def ex_net_def ex_served_def SET_MAX_SIZE_def)

lemma ex_with_req: "with_req f (ex_access q rep) = ex_access (f q) rep"
  by (simp add: with_req_def ex_access_def)

lemma ex_fields [simp]:
  "sched (ex_served n q) = ex_sched\<lparr>last_task_id := n\<rparr>" "dworld (ex_served n q) = ex_world"
  "last_req (chann (ex_served n q)) ! 5 = q"
  by (simp_all add: ex_served_def ex_daemon_def SET_MAX_SIZE_def)

lemma ex_create:
  assumes "1 \<le> n" and "n < 2 ^ 31 - 1"
  shows "\<exists>s w. rtf_scheduler_task_create ex_os ex_params ppid (ex_sched\<lparr>last_task_id := n\<rparr>, ex_world) = Some (RTF_OK, s, w) \<and>
    last_task_id s = n + 1"
proof -
  let ?s = "ex_sched\<lparr>last_task_id := n\<rparr>" and ?t = "new_task (ex_sched\<lparr>last_task_id := n\<rparr>) ex_params ppid"
  have inv: "sched_inv ex_os (?s, ex_world)"
    by (rule sched_inv_same_tasks(1) [OF ex_inv]) (use assms(1) in simp_all)
  have d: "decision (plugin ?s) ?t = Some (RTF_OK, 0)" using ex_decision [of ?t] by (simp add: new_task_def)
  have "plg_admissible (ex_plugin 0 ''A'' 0) ?t"
    by (simp add: plg_admissible_def fp_admissible_def new_task_def ex_params_def zero_params_def)
  then have "\<forall>r i. decision (plugin ?s) ?t = Some (r, i) \<longrightarrow> plg_admissible (plugin ?s ! i) ?t" using d by simp
  from create_ok [OF inv _ _ _ ex_params(1) this, of 6] assms(2) d show ?thesis by auto
qed

abbreviation "ex_request ty \<equiv> \<lparr>req_type = Some ty, param = ex_params\<rparr>"

lemma ex_good: "good_request ex_libs (ex_request RTF_TASK_CREATE)" "good_request ex_libs (ex_request RTF_TASK_MODIFY)"
  using ex_params(1) by (simp_all add: good_request_def good_params_def) (simp_all add: ex_params_def zero_params_def)

lemma create_returns_id_witness:
  "\<exists>c t' c' (d' :: (unit, unit) rtf_daemon) j. cli_task_create ex_net ex_params (ex_client, c, ()) = Some (RTF_OK, t', c', ()) \<and>
     sched_abs (ex_sched\<lparr>last_task_id := 1\<rparr>, ex_world) (task_id t') = None \<and>
     sched_abs (sched d', dworld d') (task_id t') = Some (0, j, ex_params)"
proof -
  let ?q = "ex_request RTF_TASK_CREATE"
  let ?d = "ex_served 1 ?q"
  have inv: "daemon_inv ex_os ex_libs ?d" by (rule ex_served_inv) (simp_all add: ex_good)
  obtain s w where S: "rtf_scheduler_task_create ex_os ex_params (cl_pid (client (chann ?d) ! 5)) (sched ?d, dworld ?d) = Some (RTF_OK, s, w)"
      "last_task_id s = 2"
    using ex_create [of 1 "cl_pid (client (chann ?d) ! 5)"] by auto
  obtain rep d' where D: "dispatch_req ex_os ?d (int 5) (Some RTF_TASK_CREATE) = Some (rep, d')" "rep_type rep \<noteq> RTF_TASK_CREATE_ERR"
    using req_task_create_eq [OF inv, of 5 RTF_OK s w] S
    by (auto simp: dispatch_req_def SET_MAX_SIZE_def RTF_OK_def RTF_NO_def RTF_PARTIAL_def Let_def)
  have "(\<lambda>q. q\<lparr>req_type := Some RTF_TASK_CREATE, param := ex_params\<rparr>) ?q = ?q" by simp
  then have x: "exchanged ex_net ?d 5 (with_req (\<lambda>q. q\<lparr>req_type := Some RTF_TASK_CREATE, param := ex_params\<rparr>) (ex_access ?q rep), ()) rep ()"
    using ex_exchanged by (simp add: ex_with_req)
  have "last_task_id (sched ?d) < ID_BOUND" by (simp add: ID_BOUND_def)
  from create_returns_id [OF inv ex_kernel this x D, of ex_client] obtain t' c' j where
    "cli_task_create ex_net ex_params (ex_client, ex_access ?q rep, ()) = Some (RTF_OK, t', c', ())"
    "sched_abs (sched ?d, dworld ?d) (task_id t') = None"
    "sched_abs (sched d', dworld d') = (sched_abs (sched ?d, dworld ?d))(task_id t' \<mapsto> (cl_pid (client (chann ?d) ! 5), j, ex_params))"
    by blast
  moreover have "cl_pid (client (chann ?d) ! 5) = 0" by (simp add: ex_served_def ex_daemon_def SET_MAX_SIZE_def)
  ultimately show ?thesis by (intro exI [of _ "ex_access ?q rep"] exI [of _ t'] exI [of _ c'] exI [of _ d'] exI [of _ j]) simp
qed

lemma reply_id_rounded_witness:
  "\<exists>rep d'. req_task_create ex_os (ex_served (2 ^ 24) (ex_request RTF_TASK_CREATE)) 5 = Some (rep, d') \<and>
     payload_id rep = Some (u32_of_int (2 ^ 24))"
proof -
  let ?d = "ex_served (2 ^ 24) (ex_request RTF_TASK_CREATE)"
  have inv: "daemon_inv ex_os ex_libs ?d" by (rule ex_served_inv) (simp_all add: ex_good)
  obtain s w where S: "rtf_scheduler_task_create ex_os (param (last_req (chann ?d) ! 5)) (cl_pid (client (chann ?d) ! 5)) (sched ?d, dworld ?d)
      = Some (RTF_OK, s, w)" "last_task_id s = 2 ^ 24 + 1"
    using ex_create [of "2 ^ 24" "cl_pid (client (chann ?d) ! 5)"] by auto
  have "5 < SET_MAX_SIZE" by (simp add: SET_MAX_SIZE_def)
  from reply_id_rounded [OF inv this S] show ?thesis by simp
qed

lemma change_always_fails_witness:
  "\<exists>c. fst (cli_task_change ex_net ex_params (ex_client, c, ())) = RTF_FAIL"
proof -
  let ?q = "ex_request RTF_TASK_MODIFY"
  let ?d = "ex_served 1 ?q"
  have inv: "daemon_inv ex_os ex_libs ?d" by (rule ex_served_inv) (simp_all add: ex_good)
  have "5 < SET_MAX_SIZE" by (simp add: SET_MAX_SIZE_def)
  from dispatch_serves [OF inv this ex_kernel] obtain rep d' where
    D: "dispatch_req ex_os ?d (int 5) (Some RTF_TASK_MODIFY) = Some (rep, d')"
    by (auto simp: serves_def ID_BOUND_def)
  have x: "exchanged ex_net ?d 5 (with_req (\<lambda>q. q\<lparr>req_type := Some RTF_TASK_MODIFY, param := ex_params\<rparr>) (ex_access ?q rep), ()) rep ()"
    using ex_exchanged by (simp add: ex_with_req)
  have "uint (runtime ex_params) < 2 ^ 32" by (simp add: ex_params_def zero_params_def)
  from change_always_fails [OF inv this x D, of ex_client] show ?thesis by blast
qed

lemma attach_reaches_task_witness:
  "\<exists>c. fst (cli_task_attach ex_net ex_client 77 (c, ())) \<in> {RTF_FAIL, RTF_OK}"
proof -
  let ?f = "\<lambda>q :: rtf_request. set_low (u32_of_int 77) (set_high (task_id ex_client) (q\<lparr>req_type := Some RTF_TASK_ATTACH\<rparr>))"
  let ?q = "?f (ex_request RTF_TASK_ATTACH)"
  let ?d = "ex_served 1 ?q"
  have inv: "daemon_inv ex_os ex_libs ?d" by (rule ex_served_inv) (simp_all add: good_request_def)
  have "5 < SET_MAX_SIZE" by (simp add: SET_MAX_SIZE_def)
  from dispatch_serves [OF inv this ex_kernel] obtain rep d' where
    D: "dispatch_req ex_os ?d (int 5) (Some RTF_TASK_ATTACH) = Some (rep, d')"
    by (auto simp: serves_def ID_BOUND_def)
  have x: "exchanged ex_net ?d 5 (with_req ?f (ex_access (ex_request RTF_TASK_ATTACH) rep), ()) rep ()"
    using ex_exchanged by (simp add: ex_with_req)
  from attach_reaches_task [OF inv _ _ x D] show ?thesis
    by (intro exI [of _ "ex_access (ex_request RTF_TASK_ATTACH) rep"]) (auto split: if_splits)
qed

end
