(* ===== verification/Plugin_Correct.thy ===== *)
theory Plugin_Correct
  imports Plugins
begin

text \<open>
  What the plugins compute: admission by utilisation, the choice of a CPU, the real priorities, and
  the books a release leaves behind.  The positive results hold under the invariants of the plugins;
  the others show, on the code's own functions, where they end.
\<close>

subsection \<open>The choice of a CPU\<close>

text \<open>On a plugin with at most two CPUs the chosen CPU is one of the plugin's and a least loaded one: for
  the fixed priority and round robin plugins none has fewer tasks, for the utilisation based plugins
  none has more free utilisation.\<close>

theorem least_loaded_two_cpus:
  assumes "plugin_ok this" and "length (cpulist this) \<le> 2"
  shows "\<exists>c \<in> set (cpulist this). \<exists>d \<in> set (cpulist this).
    fp_least_loaded_cpu this = Some (u32_of_int c) \<and> rr_least_loaded_cpu this = Some (u32_of_int c) \<and>
    rm_least_loaded_cpu this = Some (u32_of_int d) \<and> edf_least_loaded_cpu this = Some (u32_of_int d) \<and>
    (\<forall>x \<in> set (cpulist this). task_count_percpu this ! nat c \<le> task_count_percpu this ! nat x) \<and>
    (\<forall>x \<in> set (cpulist this). util_free_percpu this ! nat x \<le> util_free_percpu this ! nat d)"
proof -
  let ?c = "choice_of (\<lambda>n bound. n < bound) (task_count_percpu this) (cpulist this)"
  let ?d = "choice_of (\<lambda>f bound. f > bound) (util_free_percpu this) (cpulist this)"
  have ne: "cpulist this \<noteq> []" using assms(1) by (simp add: plugin_ok_def)
  then have "?c \<in> set (cpulist this)" "?d \<in> set (cpulist this)" by (simp_all add: choice_in_cpulist)
  moreover have "task_count_percpu this ! nat ?c \<le> task_count_percpu this ! nat x" if "x \<in> set (cpulist this)" for x
    using count_order.choice_optimal [OF ne assms(2) that, of "task_count_percpu this"] by simp
  moreover have "util_free_percpu this ! nat x \<le> util_free_percpu this ! nat ?d" if "x \<in> set (cpulist this)" for x
    using util_order.choice_optimal [OF ne assms(2) that, of "util_free_percpu this"] by simp
  ultimately show ?thesis
    using assms(1) by (intro bexI [of _ ?c] bexI [of _ ?d]) (simp_all add: fp_least_loaded_cpu_def
      rr_least_loaded_cpu_def rm_least_loaded_cpu_def edf_least_loaded_cpu_def least_loaded_by_count_eq least_loaded_by_util_eq)
qed

definition two_cpus :: rtf_plugin where
  "two_cpus = \<lparr>plg_id = 0, plg_name = ''P'', plg_path = [], dl_ptr = SCHED_FP_so, prio_min = 1, prio_max = 99,
     cpulist = [0, 1], cputot = 2, util_free_percpu = [1, 1 / 2], task_count_percpu = [2, 1],
     plg_tasks = [rtf_taskset_init, rtf_taskset_init]\<rparr>"

lemma least_loaded_two_cpus_witness: "\<exists>c. fp_least_loaded_cpu two_cpus = Some (u32_of_int c) \<and> task_count_percpu two_cpus ! nat c \<le> 1"
proof -
  have "plugin_ok two_cpus" "length (cpulist two_cpus) \<le> 2"
    by (simp_all add: plugin_ok_def two_cpus_def MAX_CPU_def)
  from least_loaded_two_cpus [OF this] show ?thesis by (force simp: two_cpus_def)
qed

text \<open>On three CPUs the choice may be wrong: the bound it compares with is never updated, so the last CPU
  that beats the first one is taken although another has fewer tasks or more free utilisation.\<close>

theorem least_loaded_three_cpus:
  assumes "cpulist this = [0, 1, 2]" and "cputot this = 3"
    and "task_count_percpu this = [a, b, c]" and "c < a" and "b < c"
    and "util_free_percpu this = [x, y, z]" and "x < z" and "z < y"
  shows "fp_least_loaded_cpu this = Some 2 \<and> rr_least_loaded_cpu this = Some 2 \<and> rm_least_loaded_cpu this = Some 2 \<and>
    edf_least_loaded_cpu this = Some 2 \<and> task_count_percpu this ! 1 < task_count_percpu this ! 2 \<and>
    util_free_percpu this ! 2 < util_free_percpu this ! 1"
  using assms
  by (simp add: fp_least_loaded_cpu_def rr_least_loaded_cpu_def rm_least_loaded_cpu_def edf_least_loaded_cpu_def
      least_loaded_by_count_def least_loaded_by_util_def pick_cpu_def aget_def iget_def u32_of_int_def upt_rec numeral_eq_Suc)

definition three_cpus :: rtf_plugin where
  "three_cpus = \<lparr>plg_id = 0, plg_name = ''P'', plg_path = [], dl_ptr = SCHED_EDF_so, prio_min = 1, prio_max = 99,
     cpulist = [0, 1, 2], cputot = 3, util_free_percpu = [1 / 4, 3 / 4, 1 / 2], task_count_percpu = [2, 0, 1],
     plg_tasks = [rtf_taskset_init, rtf_taskset_init, rtf_taskset_init]\<rparr>"

lemma least_loaded_three_cpus_witness: "fp_least_loaded_cpu three_cpus = Some 2 \<and> edf_least_loaded_cpu three_cpus = Some 2"
proof -
  have "fp_least_loaded_cpu three_cpus = Some 2 \<and> rr_least_loaded_cpu three_cpus = Some 2 \<and> rm_least_loaded_cpu three_cpus = Some 2 \<and>
    edf_least_loaded_cpu three_cpus = Some 2 \<and> task_count_percpu three_cpus ! 1 < task_count_percpu three_cpus ! 2 \<and>
    util_free_percpu three_cpus ! 2 < util_free_percpu three_cpus ! 1"
    by (rule least_loaded_three_cpus [of _ 2 0 1 "1 / 4" "3 / 4" "1 / 2"]) (simp_all add: three_cpus_def)
  then show ?thesis by blast
qed

subsection \<open>Admission by utilisation\<close>

text \<open>The utilisation -1 of a task whose declared times are small enough says that it declares no runtime.\<close>

lemma util_missing:
  assumes "period (params t) \<noteq> 0" and "unat (rtf_task_get_min_declared t) < 2 ^ 31"
  shows "rtf_task_get_util t = - 1 \<longleftrightarrow> runtime (params t) = 0"
proof -
  have "s32_of_u64 (rtf_task_get_min_declared t) = int (unat (rtf_task_get_min_declared t))"
    using assms(2) by (simp add: s32_of_u64_small)
  moreover have "rtf_task_get_min_declared t \<noteq> 0" using assms(1) min_declared_0 by blast
  then have "0 < unat (rtf_task_get_min_declared t)" by (simp add: unat_gt_0)
  ultimately have "s32_of_u64 (rtf_task_get_min_declared t) > 0" by linarith
  then show ?thesis
    using f32_div_nonneg [OF f32_of_u64_nonneg [of "runtime (params t)"] f32_of_int_nonneg, of "s32_of_u64 (rtf_task_get_min_declared t)"]
    by (auto simp: rtf_task_get_util_def Let_def)
qed

text \<open>C24: The rate monotonic plugin admits a task if and only if it has a period and either asks to ignore the
  admission test or its utilisation fits the free utilisation of some CPU of the plugin; the answer is
  PARTIAL instead of OK when the task names another plugin.\<close>

theorem rm_admission:
  assumes "rm_inv os this w own" and "cstr (sched_plugin (params t)) = Some nm"
  shows "rm_task_accept this t = Some
    (if period (params t) \<noteq> 0 \<and>
        (ignore_admission (params t) \<noteq> 0 \<or> (\<exists>c \<in> set (cpulist this). rtf_task_get_util t \<le> util_free_percpu this ! nat c))
     then (if nm \<noteq> [] \<and> nm \<noteq> plg_name this then RTF_PARTIAL else RTF_OK)
     else RTF_NO)"
proof -
  have "plugin_ok this" "util_ok this" using assms(1) by (simp_all add: rm_inv_def base_inv_def)
  moreover have "prefers_another this t = Some (nm \<noteq> [] \<and> nm \<noteq> plg_name this)"
    using assms(2) by (auto simp: prefers_another_def rtf_task_get_preferred_plugin_def)
  ultimately show ?thesis by (subst rm_accept_spec) (auto simp: fits_def)
qed

text \<open>C25: The deadline plugin refuses a task that ignores the admission test, has no period, or has the utilisation -1.
  Any other task it admits if and only if its desired utilisation (its utilisation, when it has no
  desired one) fits some CPU; a task whose desired utilisation does not fit but whose utilisation
  does is admitted partially, and so is one that names another plugin.  For a task with a period whose minimum of period and deadline is below 2^31 microseconds the utilisation
  is -1 exactly when it has no runtime; beyond, the minimum is narrowed to \<open>int\<close>, and a task with period 2^32 and runtime 1 is refused on an idle
  CPU.\<close>

theorem edf_admission:
  assumes "edf_inv os this w own" and "cstr (sched_plugin (params t)) = Some nm"
  shows "edf_task_accept this t = Some
    (let room = (\<lambda>u. \<exists>c \<in> set (cpulist this). u \<le> util_free_percpu this ! nat c);
         u = rtf_task_get_util t; d = rtf_task_get_des_util t
     in if ignore_admission (params t) \<noteq> 0 \<or> period (params t) = 0 \<or> u = - 1 then RTF_NO
        else if room (if d = - 1 then u else d) then (if nm \<noteq> [] \<and> nm \<noteq> plg_name this then RTF_PARTIAL else RTF_OK)
        else if room u then RTF_PARTIAL else RTF_NO) \<and>
    (period (params t) \<noteq> 0 \<and> unat (rtf_task_get_min_declared t) < 2 ^ 31 \<longrightarrow>
       (rtf_task_get_util t = - 1 \<longleftrightarrow> runtime (params t) = 0)) \<and>
    (period (params t) = 2 ^ 32 \<and> deadline (params t) = 0 \<longrightarrow> edf_task_accept this t = Some RTF_NO)"
proof -
  have "plugin_ok this" "util_ok this" using assms(1) by (simp_all add: edf_inv_def base_inv_def)
  moreover have "prefers_another this t = Some (nm \<noteq> [] \<and> nm \<noteq> plg_name this)"
    using assms(2) by (auto simp: prefers_another_def rtf_task_get_preferred_plugin_def)
  ultimately have "edf_task_accept this t = Some
    (let room = (\<lambda>u. \<exists>c \<in> set (cpulist this). u \<le> util_free_percpu this ! nat c);
         u = rtf_task_get_util t; d = rtf_task_get_des_util t
     in if ignore_admission (params t) \<noteq> 0 \<or> period (params t) = 0 \<or> u = - 1 then RTF_NO
        else if room (if d = - 1 then u else d) then (if nm \<noteq> [] \<and> nm \<noteq> plg_name this then RTF_PARTIAL else RTF_OK)
        else if room u then RTF_PARTIAL else RTF_NO)"
    by (subst edf_accept_spec) (auto simp: fits_def Let_def)
  moreover have "rtf_task_get_util t = - 1" if "period (params t) = 2 ^ 32" "deadline (params t) = 0"
    using that by (simp add: rtf_task_get_util_def rtf_task_get_min_declared_def s32_of_u64_def)
  ultimately show ?thesis using util_missing [of t] by (simp add: Let_def)
qed

lemma edf_schedule_plain:
  assumes "edf_inv os this w own" and t: "heap w p = Some t" and des: "rtf_task_get_des_util t = - 1"
    and d: "d = choice_of (\<lambda>f bound. f > bound) (util_free_percpu this) (cpulist this)"
  shows "edf_task_schedule this p w = Some
    (this\<lparr>util_free_percpu := (util_free_percpu this)[nat d := f32_sub (util_free_percpu this ! nat d) (rtf_task_get_util t)],
          task_count_percpu := (task_count_percpu this)[nat d := task_count_percpu this ! nat d + 1]\<rparr>,
     w\<lparr>heap := (heap w)(p \<mapsto> t\<lparr>cpu := u64_of_u32 (u32_of_int d), pluginid := plg_id this,
                               acceptedt := runtime (params t), acceptedu := rtf_task_get_util t\<rparr>)\<rparr>)"
proof -
  have ok: "plugin_ok this" using assms(1) by (simp add: edf_inv_def base_inv_def)
  then have "d \<in> set (cpulist this)" unfolding d by (intro choice_in_cpulist) (simp add: plugin_ok_def)
  note b = plugin_okD [OF ok this] u32_cpu [OF ok this]
  let ?t = "t\<lparr>cpu := u64_of_u32 (u32_of_int d), pluginid := plg_id this\<rparr>"
  have "params ?t = params t" by simp
  note same = getters_params(1,2,3) [OF this]
  have "edf_accepted this ?t = Some (runtime (params t), rtf_task_get_util t)"
    using des by (simp add: edf_accepted_def same rtf_task_get_runtime_def)
  then show ?thesis
    using t b ok d by (simp add: edf_task_schedule_def edf_least_loaded_cpu_def least_loaded_by_util_eq c_simps)
qed

text \<open>C26: On at most two CPUs the deadline plugin never gives away more than there is: scheduling a task it has
  admitted, without a desired runtime, books the task's utilisation on a CPU of the plugin whose free
  utilisation stays non-negative, and leaves the other CPUs alone.\<close>

theorem edf_never_overcommits:
  assumes "edf_inv os this w own" and "length (cpulist this) \<le> 2" and "heap w p = Some t"
    and "rtf_task_get_des_util t = - 1" and "edf_task_accept this t = Some r" and "r \<noteq> RTF_NO"
  shows "\<exists>plg' w' c. edf_task_schedule this p w = Some (plg', w') \<and> c \<in> set (cpulist this) \<and>
    unat (cpu (the (heap w' p))) = nat c \<and> acceptedu (the (heap w' p)) = rtf_task_get_util t \<and>
    util_free_percpu plg' ! nat c = f32_sub (util_free_percpu this ! nat c) (rtf_task_get_util t) \<and>
    0 \<le> util_free_percpu plg' ! nat c \<and> (\<forall>x. x \<noteq> nat c \<longrightarrow> util_free_percpu plg' ! x = util_free_percpu this ! x)"
proof -
  let ?d = "choice_of (\<lambda>f bound. f > bound) (util_free_percpu this) (cpulist this)" and ?u = "rtf_task_get_util t"
  have ok: "plugin_ok this" "util_ok this" using assms(1) by (simp_all add: edf_inv_def base_inv_def)
  then have ne: "cpulist this \<noteq> []" by (simp add: plugin_ok_def)
  have d: "?d \<in> set (cpulist this)" using choice_in_cpulist [OF ne] .
  note b = plugin_okD [OF ok(1) d] u32_cpu [OF ok(1) d]
  obtain other where "prefers_another this t = Some other"
    using assms(5,6) by (auto simp: edf_task_accept_def edf_has_another_preference_def bind_eq_Some Let_def split: if_splits)
  from edf_accept_spec [OF ok this] assms(4-6) have "fits this ?u" by (auto split: if_splits)
  then obtain x where x: "x \<in> set (cpulist this)" "?u \<le> util_free_percpu this ! nat x" by (auto simp: fits_def)
  have "util_free_percpu this ! nat x \<le> util_free_percpu this ! nat ?d"
    using util_order.choice_optimal [OF ne assms(2) x(1), of "util_free_percpu this"] by simp
  with x(2) have "0 \<le> f32_sub (util_free_percpu this ! nat ?d) ?u" by (intro f32_sub_nonneg) simp
  then show ?thesis using edf_schedule_plain [OF assms(1,3,4) refl] d b by auto
qed

text \<open>On three CPUs it does: a task that fits the second CPU only is admitted and then booked on the third,
  which has less free utilisation than the task needs.\<close>

theorem edf_overcommits:
  assumes "edf_inv os this w own" and "cpulist this = [0, 1, 2]" and "util_free_percpu this = [x, y, z]" and "x < z"
    and "z < rtf_task_get_util t" and "rtf_task_get_util t \<le> y" and "heap w p = Some t"
    and "rtf_task_get_des_util t = - 1" and "rtf_task_get_util t \<noteq> - 1" and "period (params t) \<noteq> 0"
    and "ignore_admission (params t) = 0" and "cstr (sched_plugin (params t)) = Some []"
  shows "edf_task_accept this t = Some RTF_OK \<and>
    (\<exists>plg' w'. edf_task_schedule this p w = Some (plg', w') \<and> cpu (the (heap w' p)) = 2 \<and>
       util_free_percpu this ! 2 < acceptedu (the (heap w' p)) \<and> util_free_percpu plg' ! 2 \<le> 0)"
proof -
  have ok: "plugin_ok this" "util_ok this" using assms(1) by (simp_all add: edf_inv_def base_inv_def)
  have c: "choice_of (\<lambda>f bound. f > bound) (util_free_percpu this) (cpulist this) = 2"
    using assms(2-6) by (simp add: choice_of_def)
  have "prefers_another this t = Some False"
    using assms(12) by (simp add: prefers_another_def rtf_task_get_preferred_plugin_def)
  moreover have "fits this (rtf_task_get_util t)" using assms(2,3,6) by (simp add: fits_def)
  ultimately have "edf_task_accept this t = Some RTF_OK" using edf_accept_spec [OF ok] assms(8-11) by simp
  moreover have "f32_sub z (rtf_task_get_util t) \<le> 0"
    using assms(5) by (simp add: f32_sub_def f32_round_def fround_nonpos)
  ultimately show ?thesis
    using edf_schedule_plain [OF assms(1,7,8) c [symmetric]] assms(3,5) by (simp add: u64_of_u32_def u32_of_int_def)
qed

subsection \<open>A small plugin\<close>

text \<open>A plugin with the free utilisations \<open>us\<close> and no tasks, and a task with a runtime and a period.\<close>

definition util_plugin :: "plugin_lib \<Rightarrow> f32 list \<Rightarrow> rtf_plugin" where
  "util_plugin lib us = \<lparr>plg_id = 0, plg_name = ''P'', plg_path = [], dl_ptr = lib, prio_min = 1, prio_max = 99,
     cpulist = map int [0..<length us], cputot = int (length us), util_free_percpu = us,
     task_count_percpu = replicate (length us) 0, plg_tasks = replicate (length us) rtf_taskset_init\<rparr>"

definition util_task :: "u64 \<Rightarrow> u64 \<Rightarrow> rtf_task" where
  "util_task r p = zero_task\<lparr>t_id := 1, pluginid := - 1, params := zero_params\<lparr>runtime := r, period := p\<rparr>\<rparr>"

definition util_world :: "rtf_task \<Rightarrow> unit world" where
  "util_world t = \<lparr>heap = [1 \<mapsto> t], kern = (), rm_dist_prio = replicate MAX_CPU 0, rr_dist_prio = replicate MAX_CPU 0,
     rr_n_per_prio = replicate MAX_CPU (replicate MAX_PRIO 0)\<rparr>"

lemma util_plugin_base:
  assumes "us \<noteq> []" and "length us \<le> MAX_CPU"
  shows "base_inv (util_plugin lib us) h {}"
  using assms by (auto simp: base_inv_def plugin_ok_def owned_ok_def count_ok_def on_cpu_def util_plugin_def)

lemma util_plugin_lists: "lists_ok f (util_plugin lib us) h {}"
  by (simp add: lists_ok_def util_plugin_def rtf_taskset_init_def ts_ok_def list_ok_def list_init_def on_cpu_def)

lemma util_plugin_inv:
  assumes "us \<noteq> []" and "length us \<le> MAX_CPU" and "\<forall>u \<in> set us. on_grid u"
  shows "edf_inv os (util_plugin SCHED_EDF_so us) w {}" "rm_inv os (util_plugin SCHED_RM_so us) (util_world t) {}"
  using util_plugin_base [OF assms(1,2)] util_plugin_lists assms(3)
  by (simp_all add: edf_inv_def rm_inv_def util_ok_def) (simp_all add: util_plugin_def window_ok_def util_world_def)

lemma quarters: "on_grid (1 / 4)" "on_grid (1 / 2)" "on_grid (3 / 4)"
proof -
  have "f32_round (of_int i / 2 ^ 2) = of_int i / 2 ^ 2" if "\<bar>i\<bar> < 2 ^ 24" for i
    using that by (rule f32_round_half) simp
  then have g: "on_grid (of_int i / 2 ^ 2)" if "\<bar>i\<bar> < 2 ^ 24" for i
    using that on_grid_f32_round [of "of_int i / 2 ^ 2"] by metis
  show "on_grid (1 / 4)" "on_grid (1 / 2)" "on_grid (3 / 4)" using g [of 1] g [of 2] g [of 3] by simp_all
qed

lemma util_task_util: "rtf_task_get_util (util_task 5 8) = 5 / 8" "rtf_task_get_des_util (util_task r p) = - 1"
  "cstr (sched_plugin (params (util_task r p))) = Some []"
proof -
  show "rtf_task_get_util (util_task 5 8) = 5 / 8" by code_simp
  show "rtf_task_get_des_util (util_task r p) = - 1"
    by (simp add: rtf_task_get_des_util_def util_task_def zero_params_def)
  show "cstr (sched_plugin (params (util_task r p))) = Some []"
    by (simp add: util_task_def zero_params_def cstr_def PLUGIN_MAX_NAME_def takeWhile_replicate)
qed

lemma rm_admission_witness:
  "rm_task_accept (util_plugin SCHED_RM_so [1 / 4, 3 / 4]) (util_task 5 8) = Some RTF_OK \<and>
   rm_task_accept (util_plugin SCHED_RM_so [1 / 4, 1 / 2]) (util_task 5 8) = Some RTF_NO"
proof -
  have "rm_inv (os :: unit kernel) (util_plugin SCHED_RM_so [1 / 4, 3 / 4]) (util_world t) {}"
    "rm_inv (os :: unit kernel) (util_plugin SCHED_RM_so [1 / 4, 1 / 2]) (util_world t) {}" for os t
    by (rule util_plugin_inv(2); simp add: quarters MAX_CPU_def)+
  note inv = this
  show ?thesis
    using rm_admission [OF inv(1) util_task_util(3), of 5 8] rm_admission [OF inv(2) util_task_util(3), of 5 8]
    by (simp add: util_task_util util_plugin_def) (simp add: util_task_def zero_params_def)
qed

lemma edf_admission_witness:
  "edf_task_accept (util_plugin SCHED_EDF_so [1 / 4, 3 / 4]) (util_task 5 8) = Some RTF_OK \<and>
   edf_task_accept (util_plugin SCHED_EDF_so [1 / 4, 1 / 2]) (util_task 5 8) = Some RTF_NO"
proof -
  have "edf_inv (os :: unit kernel) (util_plugin SCHED_EDF_so [1 / 4, 3 / 4]) w {}"
    "edf_inv (os :: unit kernel) (util_plugin SCHED_EDF_so [1 / 4, 1 / 2]) w {}" for os w
    by (rule util_plugin_inv(1); simp add: quarters MAX_CPU_def)+
  note inv = this
  show ?thesis
    using edf_admission [OF inv(1) util_task_util(3), of 5 8] edf_admission [OF inv(2) util_task_util(3), of 5 8]
    by (simp add: util_task_util util_plugin_def) (simp add: util_task_def zero_params_def)
qed

lemma edf_never_overcommits_witness:
  "\<exists>plg' w'. edf_task_schedule (util_plugin SCHED_EDF_so [1 / 4, 3 / 4]) 1 (util_world (util_task 5 8)) = Some (plg', w') \<and>
     acceptedu (the (heap w' 1)) = 5 / 8"
proof -
  let ?plg = "util_plugin SCHED_EDF_so [1 / 4, 3 / 4]"
  have inv: "edf_inv (os :: unit kernel) ?plg (util_world (util_task 5 8)) {}" for os
    by (rule util_plugin_inv(1)) (simp_all add: quarters MAX_CPU_def)
  then have "plugin_ok ?plg" "util_ok ?plg" by (simp_all add: edf_inv_def base_inv_def)
  moreover have "prefers_another ?plg (util_task 5 8) = Some False"
    using util_task_util(3) by (simp add: prefers_another_def rtf_task_get_preferred_plugin_def)
  moreover have "fits ?plg (rtf_task_get_util (util_task 5 8))" by (simp add: fits_def util_plugin_def util_task_util)
  ultimately have "edf_task_accept ?plg (util_task 5 8) = Some RTF_OK"
    using edf_accept_spec [of ?plg "util_task 5 8" False] by (simp add: util_task_util) (simp add: util_task_def zero_params_def)
  moreover have "length (cpulist ?plg) \<le> 2" "heap (util_world (util_task 5 8)) 1 = Some (util_task 5 8)"
    by (simp_all add: util_plugin_def util_world_def)
  moreover have "RTF_OK \<noteq> RTF_NO" by (simp add: rtf_codes)
  ultimately have "\<exists>plg' w'. edf_task_schedule ?plg 1 (util_world (util_task 5 8)) = Some (plg', w') \<and>
      acceptedu (the (heap w' 1)) = rtf_task_get_util (util_task 5 8)"
    using edf_never_overcommits [OF inv _ _ util_task_util(2)] by blast
  then show ?thesis by (simp only: util_task_util(1))
qed

lemma edf_overcommits_witness:
  "edf_task_accept (util_plugin SCHED_EDF_so [1 / 4, 3 / 4, 1 / 2]) (util_task 5 8) = Some RTF_OK"
proof -
  let ?plg = "util_plugin SCHED_EDF_so [1 / 4, 3 / 4, 1 / 2]" and ?t = "util_task 5 8"
  have inv: "edf_inv (os :: unit kernel) ?plg (util_world ?t) {}" for os
    by (rule util_plugin_inv(1)) (simp_all add: quarters MAX_CPU_def)
  have "edf_task_accept ?plg ?t = Some RTF_OK \<and>
    (\<exists>plg' w'. edf_task_schedule ?plg 1 (util_world ?t) = Some (plg', w') \<and> cpu (the (heap w' 1)) = 2 \<and>
       util_free_percpu ?plg ! 2 < acceptedu (the (heap w' 1)) \<and> util_free_percpu plg' ! 2 \<le> 0)"
    by (rule edf_overcommits [OF inv _ _ _ _ _ _ util_task_util(2) _ _ _ util_task_util(3), where x = "1 / 4" and y = "3 / 4" and z = "1 / 2"])
      (simp_all add: util_task_util, simp_all add: util_plugin_def util_world_def util_task_def zero_params_def upt_rec)
  then show ?thesis by blast
qed

end
