(* ===== verification/Recording.thy ===== *)
theory Recording
  imports Daemon
begin

text \<open>
  Sockets that write down what passes through them.  \<open>recording net\<close> behaves like the sockets \<open>net\<close> and
  keeps a log, in the order of the calls: what a poll returned, which connection was accepted, which
  bytes were received from a descriptor and which were sent to it, and which descriptor was closed.  A daemon on such
  sockets does what it does on \<open>net\<close>, so the log is the observable trace of its run.
\<close>

text \<open>\<open>Polled r n\<close>: \<open>select\<close> of the descriptors below \<open>n\<close> returned \<open>r\<close>; \<open>Accepted r\<close>: what \<open>accept\<close> returned; \<open>Took i n q\<close>:
  a receive on \<open>i\<close> returned \<open>n\<close> and left the request \<open>q\<close> in the buffer; \<open>Gave i rep r\<close>: sending \<open>rep\<close> on \<open>i\<close> returned
  \<open>r\<close>; \<open>Shut i\<close>: \<open>i\<close> was closed.\<close>

datatype io = Polled int int | Accepted int | Took int int rtf_request | Gave int rtf_reply int | Shut int

type_synonym 'n logged = "'n \<times> io list"

definition unseen :: "('n \<Rightarrow> 'r \<times> 'n) \<Rightarrow> 'n logged \<Rightarrow> 'r \<times> 'n logged" where
  "unseen f = (\<lambda>(k, l). let (r, k') = f k in (r, k', l))"

definition seen :: "('r \<Rightarrow> io) \<Rightarrow> ('n \<Rightarrow> 'r \<times> 'n) \<Rightarrow> 'n logged \<Rightarrow> 'r \<times> 'n logged" where
  "seen e f = (\<lambda>(k, l). let (r, k') = f k in (r, k', l @ [e r]))"

definition recording :: "'n rtf_sockets \<Rightarrow> 'n logged rtf_sockets" where
  "recording net = \<lparr>
     sys_socket = (\<lambda>k t. unseen (\<lambda>k. sys_socket net k t) k),
     sys_connect = (\<lambda>k fd path. unseen (\<lambda>k. sys_connect net k fd path) k),
     sys_bind = (\<lambda>k fd path. unseen (\<lambda>k. sys_bind net k fd path) k),
     sys_unlink = (\<lambda>k path. (sys_unlink net (fst k) path, snd k)),
     sys_chmod = (\<lambda>k path. unseen (\<lambda>k. sys_chmod net k path) k),
     sys_listen = (\<lambda>k fd n. unseen (\<lambda>k. sys_listen net k fd n) k),
     sys_accept = (\<lambda>k fd. seen Accepted (\<lambda>k. sys_accept net k fd) k),
     sys_select = (\<lambda>k n s. let (r, ready, k') = sys_select net (fst k) n s in (r, ready, k', snd k @ [Polled r n])),
     sys_recv_req = (\<lambda>k fd q. let (n, q', k') = sys_recv_req net (fst k) fd q in (n, q', k', snd k @ [Took fd n q'])),
     sys_recv_rep = (\<lambda>k fd p. let (n, p', k') = sys_recv_rep net (fst k) fd p in (n, p', k', snd k)),
     sys_send_req = (\<lambda>k fd q. unseen (\<lambda>k. sys_send_req net k fd q) k),
     sys_send_rep = (\<lambda>k fd p. seen (Gave fd p) (\<lambda>k. sys_send_rep net k fd p) k),
     sys_setsockopt_timeout = (\<lambda>k fd b t. unseen (\<lambda>k. sys_setsockopt_timeout net k fd b t) k),
     sys_set_flags = (\<lambda>k fd b. unseen (\<lambda>k. sys_set_flags net k fd b) k),
     sys_calloc_ucred = (\<lambda>k. sys_calloc_ucred net (fst k)),
     sys_peercred = (\<lambda>k fd. sys_peercred net (fst k) fd),
     sys_close = (\<lambda>k fd. (sys_close net (fst k) fd, snd k @ [Shut fd]))\<rparr>"

text \<open>The daemon on recording sockets.\<close>

definition watched :: "('k, 'n) rtf_daemon \<Rightarrow> io list \<Rightarrow> ('k, 'n logged) rtf_daemon" where
  "watched d l = \<lparr>chann = chann d, sched = sched d, dworld = dworld d, dnet = (dnet d, l)\<rparr>"

lemma watched_sel [simp]:
  "chann (watched d l) = chann d" "sched (watched d l) = sched d" "dworld (watched d l) = dworld d" "dnet (watched d l) = (dnet d, l)"
  by (simp_all add: watched_def)

lemma watched_upd [simp]:
  "(watched d l)\<lparr>chann := c\<rparr> = watched (d\<lparr>chann := c\<rparr>) l"
  "(watched d l)\<lparr>sched := s\<rparr> = watched (d\<lparr>sched := s\<rparr>) l"
  "(watched d l)\<lparr>dworld := w\<rparr> = watched (d\<lparr>dworld := w\<rparr>) l"
  "(watched d l)\<lparr>dnet := (k, l')\<rparr> = watched (d\<lparr>dnet := k\<rparr>) l'"
  by (simp_all add: watched_def)

subsection \<open>A daemon does not notice that it is recorded\<close>

lemma recorded_accept:
  "usocket_add_connections (recording net) (k, l) us =
    map_option (\<lambda>(n, us', k'). (n, us', k', l @ [Accepted (fst (sys_accept net k (sock_fd us)))])) (usocket_add_connections net k us)"
  by (cases "sys_accept net k (sock_fd us)")
    (auto simp: usocket_add_connections_def usocket_accept_def usocket_get_credentials_def recording_def seen_def
      split: option.splits bind_splits)

lemma accepted_fd:
  "usocket_add_connections net k us = Some (n, us', k') \<Longrightarrow> sock_fd us' = sock_fd us \<and> (0 < n \<longrightarrow> 0 < fst (sys_accept net k (sock_fd us)))"
  by (cases "sys_accept net k (sock_fd us)")
    (auto simp: usocket_add_connections_def usocket_accept_def usocket_get_credentials_def bind_eq_Some Let_def split: option.splits if_splits)

lemma accepted_max: "usocket_add_connections net k us = Some (n, us', k') \<Longrightarrow> conn_set_max us \<le> conn_set_max us'"
  by (cases "sys_accept net k (sock_fd us)")
    (auto simp: usocket_add_connections_def usocket_accept_def usocket_get_credentials_def bind_eq_Some Let_def split: option.splits if_splits)

lemma recorded_recv: "sys_recv_req net k fd q = (n, q', k') \<Longrightarrow> sys_recv_req (recording net) (k, l) fd q = (n, q', k', l @ [Took fd n q'])"
  by (simp add: recording_def)

lemma recorded_select: "sys_select net k n s = (r, ready, k') \<Longrightarrow> sys_select (recording net) (k, l) n s = (r, ready, k', l @ [Polled r n])"
  by (simp add: recording_def)

lemma recorded_send:
  "rtf_carrier_send net k rep i = (r, k') \<Longrightarrow> rtf_carrier_send (recording net) (k, l) rep i = (r, k', l @ [Gave i rep r])"
  by (simp add: rtf_carrier_send_def usocket_sendto_def recording_def seen_def)

lemma recorded_close:
  "rtf_carrier_close (recording net) (k, l) c i = map_option (\<lambda>(c, k). (c, k, l @ [Shut i])) (rtf_carrier_close net k c i)"
  by (cases "FD_CLR i (conn_set (sock c))") (auto simp: rtf_carrier_close_def usocket_remove_connection_def recording_def)

lemma recorded_dispatch:
  "dispatch_req os (watched d l) i ty = map_option (\<lambda>(rep, d'). (rep, watched d' l)) (dispatch_req os d i ty)"
proof -
  have infos: "req_connections_info (watched d l) i = req_connections_info d i" "req_connection_info (watched d l) i = req_connection_info d i"
    "req_plugins_info (watched d l) i = req_plugins_info d i" "req_plugin_info (watched d l) i = req_plugin_info d i"
    "req_plugin_cpu_info (watched d l) i = req_plugin_cpu_info d i" "req_tasks_info (watched d l) i = req_tasks_info d i"
    "req_task_info (watched d l) i = req_task_info d i"
    by (simp_all add: req_connections_info_def req_connection_info_def req_plugins_info_def req_plugin_info_def req_plugin_cpu_info_def
        req_tasks_info_def req_task_info_def Let_def cong: if_cong option.case_cong)
  have rest: "req_connection (watched d l) i = map_option (\<lambda>(rep, d'). (rep, watched d' l)) (req_connection d i)"
    "req_task_create os (watched d l) i = map_option (\<lambda>(rep, d'). (rep, watched d' l)) (req_task_create os d i)"
    "req_task_modify os (watched d l) i = map_option (\<lambda>(rep, d'). (rep, watched d' l)) (req_task_modify os d i)"
    "req_task_attach os (watched d l) i = map_option (\<lambda>(rep, d'). (rep, watched d' l)) (req_task_attach os d i)"
    "req_task_detach os (watched d l) i = map_option (\<lambda>(rep, d'). (rep, watched d' l)) (req_task_detach os d i)"
    "req_task_destroy os (watched d l) i = map_option (\<lambda>(rep, d'). (rep, watched d' l)) (req_task_destroy os d i)"
    by (auto simp: req_connection_def req_task_create_def req_task_modify_def req_task_attach_def req_task_detach_def req_task_destroy_def
        Let_def split: bind_splits)
  show ?thesis
    by (cases ty) (auto simp: dispatch_req_def infos rest option.map_comp comp_def split: REQ_TYPE.split)
qed

end
