(* ===== verification/Server.thy ===== *)
theory Server
  imports Recording Scheduler_Refine
begin

text \<open>
  What the daemon promises its clients, without channel, task sets, plugins and addresses: a server
  with a slot for each descriptor (the state of its client, the process that the client named, the last request and whether
  it still waits for its answer), the reservations of Scheduler_Refine and the number of the last id.

  The events of the server are the events of the socket log of \<open>recording\<close>: \<open>server_step\<close> says what each of them means for the
  server and when it may happen, \<open>server_run\<close> strings them together.  Which plugin takes a reservation, and whether one does,
  is left open here; \<open>scheduler_refines\<close> settles it.
\<close>

record server =
  srv_state :: "nat \<Rightarrow> CLIENT_STATE"
  srv_pid :: "nat \<Rightarrow> int"
  srv_req :: "nat \<Rightarrow> rtf_request"
  srv_new :: "nat \<Rightarrow> bool"
  srv_res :: reservations
  srv_issued :: int
  srv_listen :: int
  srv_polled :: int

subsection \<open>Answers\<close>

text \<open>The answers that leave the server as it is.\<close>

definition may_answer :: "server \<Rightarrow> rtf_request \<Rightarrow> rtf_reply \<Rightarrow> bool" where
  "may_answer s q rep = (let ty = rep_type rep; m = payload rep in case req_type q of
     Some RTF_CONNECTION \<Rightarrow> False
   | Some RTF_CONNECTIONS_INFO \<Rightarrow> ty = RTF_CONNECTIONS_INFO_OK \<and> m = Nconnected (int (card {j. srv_pid s j \<noteq> 0}))
   | Some RTF_CONNECTION_INFO \<Rightarrow> (let j = nat (q_desc q) in if srv_pid s j = 0 then ty = RTF_CONNECTION_INFO_ERR
       else ty = RTF_CONNECTION_INFO_OK \<and> m = ClientInfo \<lparr>ci_pid = srv_pid s j, ci_state = srv_state s j\<rparr>)
   | Some RTF_PLUGINS_INFO \<Rightarrow> ty = RTF_PLUGINS_INFO_OK
   | Some RTF_PLUGIN_INFO \<Rightarrow> ty \<in> {RTF_PLUGIN_INFO_OK, RTF_PLUGIN_INFO_ERR}
   | Some RTF_PLUGIN_CPU_INFO \<Rightarrow> ty \<in> {RTF_PLUGIN_CPU_INFO_OK, RTF_PLUGIN_CPU_INFO_ERR}
   | Some RTF_TASKS_INFO \<Rightarrow> ty = RTF_PLUGINS_INFO_OK \<and> m = Ntask (int (card (dom (srv_res s))))
   | Some RTF_TASK_INFO \<Rightarrow> (case srv_res s (u32_of_int (q_desc q)) of
         None \<Rightarrow> ty = RTF_TASK_INFO_ERR
       | Some (pid, k, tp) \<Rightarrow> ty = RTF_TASK_INFO_OK \<and>
           (\<exists>x. m = TaskInfo x \<and> ti_ppid x = pid \<and> ti_pluginid x = k \<and> ti_period x = s32_of_u64 (period tp)))
   | Some RTF_TASK_CREATE \<Rightarrow> False
   | Some RTF_TASK_MODIFY \<Rightarrow> ty = RTF_TASK_MODIFY_ERR
   | Some RTF_TASK_ATTACH \<Rightarrow> ty = RTF_TASK_ATTACH_ERR \<or> ty = RTF_TASK_ATTACH_OK \<and> srv_res s (ids_rsvid q) \<noteq> None
   | Some RTF_TASK_DETACH \<Rightarrow> ty = RTF_TASK_DETACH_ERR \<or> ty = RTF_TASK_DETACH_OK \<and> srv_res s (ids_rsvid q) \<noteq> None
   | Some RTF_TASK_DESTROY \<Rightarrow> ty = RTF_TASK_DESTROY_ERR \<and> srv_res s (ids_rsvid q) = None
   | _ \<Rightarrow> ty = RTF_REQUEST_ERR)"

abbreviation granted :: "REP_TYPE \<Rightarrow> bool" where
  "granted ty \<equiv> ty \<in> {RTF_TASK_CREATE_OK, RTF_TASK_CREATE_PART}"

text \<open>\<open>served i s rep t\<close>: \<open>rep\<close> is an answer to the request in slot \<open>i\<close>, and \<open>t\<close> the server after it.\<close>

inductive served :: "nat \<Rightarrow> server \<Rightarrow> rtf_reply \<Rightarrow> server \<Rightarrow> bool" for i s where
  greeted: "req_type (srv_req s i) = Some RTF_CONNECTION \<Longrightarrow> rep_type rep = RTF_CONNECTION_OK \<Longrightarrow>
    served i s rep (s\<lparr>srv_pid := (srv_pid s)(i := ids_pid (srv_req s i))\<rparr>)"
| reserved: "req_type (srv_req s i) = Some RTF_TASK_CREATE \<Longrightarrow> granted (rep_type rep) \<Longrightarrow>
    payload rep = Response (f32_of_int (srv_issued s + 1)) \<Longrightarrow>
    served i s rep (s\<lparr>srv_res := (srv_res s)(u32_of_int (srv_issued s + 1) \<mapsto> (srv_pid s i, k, param (srv_req s i))),
      srv_issued := srv_issued s + 1\<rparr>)"
| refused: "req_type (srv_req s i) = Some RTF_TASK_CREATE \<Longrightarrow> rep_type rep = RTF_TASK_CREATE_ERR \<Longrightarrow>
    served i s rep (s\<lparr>srv_issued := srv_issued s + 1\<rparr>)"
| destroyed: "req_type (srv_req s i) = Some RTF_TASK_DESTROY \<Longrightarrow> rep_type rep = RTF_TASK_DESTROY_OK \<Longrightarrow>
    srv_res s (ids_rsvid (srv_req s i)) \<noteq> None \<Longrightarrow>
    served i s rep (s\<lparr>srv_res := (srv_res s)(ids_rsvid (srv_req s i) := None)\<rparr>)"
| answered: "may_answer s (srv_req s i) rep \<Longrightarrow> served i s rep s"

subsection \<open>Steps\<close>

text \<open>After a poll no request waits in the polled slots, and, unless the poll failed, their clients make a step of their automaton
  with the result 0; what is then received makes the step with its own result instead, since a step with 0 before it
  does not count (\<open>client_step_0\<close>).  A slot that has received is new until it is answered.\<close>

inductive server_step :: "server \<Rightarrow> io \<Rightarrow> server \<Rightarrow> bool" for s where
  polled: "hi = max (n - 1) (srv_listen s) \<Longrightarrow> server_step s (Polled r n)
    (s\<lparr>srv_polled := hi, srv_new := (\<lambda>i. srv_new s i \<and> hi < int i),
       srv_state := (\<lambda>i. if 0 \<le> r \<and> int i \<le> hi \<and> int i \<noteq> srv_listen s then client_step (srv_state s i) 0 else srv_state s i)\<rparr>)"
| accepted: "(b \<longrightarrow> 0 < r) \<Longrightarrow> server_step s (Accepted r) (s\<lparr>srv_new := (srv_new s)(nat (srv_listen s) := b)\<rparr>)"
| took: "int i \<noteq> srv_listen s \<Longrightarrow> server_step s (Took (int i) n q)
    (s\<lparr>srv_req := (srv_req s)(i := q), srv_new := (srv_new s)(i := 0 < n),
       srv_state := (if int i \<le> srv_polled s then (srv_state s)(i := client_step (srv_state s i) (if n = 0 then - 1 else n))
         else srv_state s)\<rparr>)"
| gave: "srv_state s i = CONNECTED \<Longrightarrow> srv_new s i \<Longrightarrow> served i s rep t \<Longrightarrow> server_step s (Gave (int i) rep r)
    (t\<lparr>srv_new := (srv_new t)(i := False), srv_state := (if r \<le> 0 then (srv_state t)(i := ERROR) else srv_state t)\<rparr>)"
| shut: "srv_state s i = ERROR \<or> srv_state s i = DISCONNECTED \<Longrightarrow> server_step s (Shut (int i))
    (s\<lparr>srv_state := (srv_state s)(i := EMPTY), srv_pid := (srv_pid s)(i := 0),
       srv_res := spec_delete (srv_pid s i) (srv_res s)\<rparr>)"

inductive server_run :: "server \<Rightarrow> io list \<Rightarrow> server \<Rightarrow> bool" for s where
  nil: "server_run s [] s"
| snoc: "server_run s es t \<Longrightarrow> server_step t e u \<Longrightarrow> server_run s (es @ [e]) u"

lemma run_append: "server_run t es' u \<Longrightarrow> server_run s es t \<Longrightarrow> server_run s (es @ es') u"
  by (induction rule: server_run.induct) (auto intro: server_run.snoc simp flip: append_assoc)

lemma run_step: "server_step s e t \<Longrightarrow> server_run s [e] t"
  using server_run.snoc [OF server_run.nil] by force

lemma run_Cons: "server_step s e t \<Longrightarrow> server_run t es u \<Longrightarrow> server_run s (e # es) u"
  using run_append [OF _ run_step] by force

lemma client_step_0: "client_step (client_step st 0) n = client_step st n"
  by (cases st) (simp_all add: client_step_def)

lemma served_issued: "served i s rep t \<Longrightarrow> srv_issued s \<le> srv_issued t"
  by (induction rule: served.induct) simp_all

lemma served_keeps: "served i s rep t \<Longrightarrow> srv_state t = srv_state s \<and> srv_req t = srv_req s \<and> srv_new t = srv_new s"
  by (induction rule: served.induct) simp_all

lemma step_issued: "server_step s e t \<Longrightarrow> srv_issued s \<le> srv_issued t"
  by (induction rule: server_step.induct) (auto dest: served_issued)

lemma run_issued: "server_run s es t \<Longrightarrow> srv_issued s \<le> srv_issued t"
  by (induction rule: server_run.induct) (auto dest: step_issued)

subsection \<open>Requests and processes along a log\<close>

text \<open>The last request of each slot and the process of each slot, as anyone can read them off the log.\<close>

type_synonym slots = "(nat \<Rightarrow> rtf_request) \<times> (nat \<Rightarrow> int)"

fun note_io :: "slots \<Rightarrow> io \<Rightarrow> slots" where
  "note_io (R, P) (Took i n q) = (R(nat i := q), P)"
| "note_io (R, P) (Gave i rep r) = (R, if rep_type rep = RTF_CONNECTION_OK then P(nat i := ids_pid (R (nat i))) else P)"
| "note_io (R, P) (Shut i) = (R, P(nat i := 0))"
| "note_io (R, P) _ = (R, P)"

definition noted :: "slots \<Rightarrow> io list \<Rightarrow> slots" where
  "noted = foldl note_io"

lemma may_answer_not_greeted: "may_answer s q rep \<Longrightarrow> rep_type rep \<noteq> RTF_CONNECTION_OK"
  by (auto simp: may_answer_def Let_def split: option.splits REQ_TYPE.splits if_splits prod.splits)

lemma served_pid:
  "served i s rep t \<Longrightarrow> srv_pid t = (if rep_type rep = RTF_CONNECTION_OK then (srv_pid s)(i := ids_pid (srv_req s i)) else srv_pid s)"
  by (induction rule: served.induct) (auto dest: may_answer_not_greeted)

lemma step_noted: "server_step s e t \<Longrightarrow> note_io (srv_req s, srv_pid s) e = (srv_req t, srv_pid t)"
  by (induction rule: server_step.induct) (auto dest: served_keeps served_pid)

lemma run_noted: "server_run s es t \<Longrightarrow> noted (srv_req s, srv_pid s) es = (srv_req t, srv_pid t)"
  by (induction rule: server_run.induct) (auto simp: noted_def dest: step_noted)

subsection \<open>Reservations along a log\<close>

text \<open>Why the reservation \<open>n\<close> of process \<open>pid\<close> ends: the request last received from some slot asked to destroy it and was
  answered so, or the descriptor of a slot of the process was closed.\<close>

definition ends :: "slots \<Rightarrow> io \<Rightarrow> u32 \<Rightarrow> int \<Rightarrow> bool" where
  "ends RP e n pid \<longleftrightarrow> (case e of
     Gave i rep r \<Rightarrow> (let q = fst RP (nat i) in rep_type rep = RTF_TASK_DESTROY_OK \<and> req_type q = Some RTF_TASK_DESTROY \<and> ids_rsvid q = n)
   | Shut i \<Rightarrow> snd RP (nat i) = pid
   | _ \<Rightarrow> False)"

text \<open>Why there is a new reservation \<open>n\<close> of process \<open>pid\<close> with parameters \<open>tp\<close>: the request last received from a slot of the process
  asked for it and was granted under that id.\<close>

definition begins :: "slots \<Rightarrow> io \<Rightarrow> u32 \<Rightarrow> int \<Rightarrow> rtf_params \<Rightarrow> bool" where
  "begins RP e n pid tp \<longleftrightarrow> (case e of
     Gave i rep r \<Rightarrow> (let q = fst RP (nat i) in granted (rep_type rep) \<and> payload rep = Response (f32_of_int (uint n)) \<and>
       req_type q = Some RTF_TASK_CREATE \<and> param q = tp \<and> snd RP (nat i) = pid)
   | _ \<Rightarrow> False)"

definition along :: "(slots \<Rightarrow> io \<Rightarrow> bool) \<Rightarrow> slots \<Rightarrow> io list \<Rightarrow> bool" where
  "along f RP es \<longleftrightarrow> (\<exists>us e vs. es = us @ e # vs \<and> f (noted RP us) e)"

lemma along_snoc: "along f RP es \<or> f (noted RP es) e \<Longrightarrow> along f RP (es @ [e])"
  unfolding along_def by fastforce

lemma step_reservation:
  assumes "server_step s e t" and "0 \<le> srv_issued s" and "srv_issued t < 2 ^ 32"
  shows "srv_res t n = srv_res s n \<or>
    (\<exists>r. srv_res s n = Some r \<and> srv_res t n = None \<and> ends (srv_req s, srv_pid s) e n (fst r)) \<or>
    (\<exists>r. srv_res t n = Some r \<and> srv_issued s < uint n \<and> uint n \<le> srv_issued t \<and>
       begins (srv_req s, srv_pid s) e n (fst r) (snd (snd r)))"
  using assms
proof (induction rule: server_step.induct)
  case (gave i rep t r)
  from gave(3) gave.prems show ?case
  proof (induction rule: served.induct)
    case (reserved rep k)
    then have "uint (u32_of_int (srv_issued s + 1)) = srv_issued s + 1" by (simp add: uint_u32_of_int)
    with reserved show ?case by (auto simp: begins_def)
  next
    case (destroyed rep)
    then show ?case by (auto simp: ends_def)
  qed simp_all
next
  case (shut i)
  then show ?case by (cases "srv_res s n") (auto simp: spec_delete_def restrict_map_def ends_def)
qed simp_all

lemma run_reservation:
  assumes "server_run s es t" and "0 \<le> srv_issued s" and "srv_issued t < 2 ^ 32"
  defines "RP \<equiv> (srv_req s, srv_pid s)"
  shows "(\<forall>r. srv_res s n = Some r \<and> uint n \<le> srv_issued s \<longrightarrow>
      srv_res t n = Some r \<or> srv_res t n = None \<and> along (\<lambda>N e. ends N e n (fst r)) RP es) \<and>
    (\<forall>r. srv_res t n = Some r \<and> srv_res s n \<noteq> Some r \<longrightarrow>
      srv_issued s < uint n \<and> uint n \<le> srv_issued t \<and> along (\<lambda>N e. begins N e n (fst r) (snd (snd r))) RP es)"
  using assms(1-3)
proof (induction rule: server_run.induct)
  case (snoc es t e u)
  have m: "srv_issued s \<le> srv_issued t" "srv_issued t \<le> srv_issued u"
    using run_issued [OF snoc(1)] step_issued [OF snoc(2)] by simp_all
  have "srv_issued t < 2 ^ 32" using m snoc(5) by simp
  note IH = snoc(3) [OF snoc(4) this]
  have "0 \<le> srv_issued t" using m snoc(4) by simp
  from step_reservation [OF snoc(2) this snoc(5), of n] IH m run_noted [OF snoc(1)] show ?case
    unfolding RP_def by (elim disjE) (auto intro: along_snoc)
qed simp

end
