(* ===== verification/Priority_Correct.thy ===== *)
theory Priority_Correct
  imports Plugin_Correct
begin

text \<open>
  The real priorities the plugins give to their tasks, and what a release does to the books.
\<close>

subsection \<open>Fixed priorities\<close>

text \<open>Scheduling a task by the fixed priority plugin and releasing it again restores the plugin exactly and
  leaves every other task as it was; in between the task carries a priority of the plugin's window.\<close>

theorem fp_schedule_release:
  assumes "fp_inv os this w own" and "p \<notin> own" and "heap w p = Some t" and "uint (priority (params t)) \<le> 99"
  shows "\<exists>plg1 w1 r w2. fp_task_schedule os this p w = Some (plg1, w1) \<and>
    prio_min this \<le> uint (schedprio (the (heap w1 p))) \<and> uint (schedprio (the (heap w1 p))) \<le> prio_max this \<and>
    fp_task_release os plg1 p w1 = Some (r, this, w2) \<and> (\<forall>q. q \<noteq> p \<longrightarrow> heap w2 q = heap w q)"
proof -
  have adm: "fp_admissible this t" using assms(4) by (simp add: fp_admissible_def)
  obtain c real where c: "c \<in> set (cpulist this)" and real: "prio_min this \<le> uint real" "uint real \<le> prio_max this"
    and sch: "fp_task_schedule os this p w = Some
      (this\<lparr>task_count_percpu := (task_count_percpu this)[nat c := task_count_percpu this ! nat c + 1]\<rparr>,
       w\<lparr>heap := (heap w)(p \<mapsto> t\<lparr>cpu := u64_of_u32 (u32_of_int c), pluginid := plg_id this, schedprio := real\<rparr>)\<rparr>)"
    using fp_schedule_spec [OF assms(1,3) adm] by blast
  have ok: "plugin_ok this" using assms(1) by (simp add: fp_inv_def base_inv_def)
  note b = plugin_okD [OF ok c] u32_cpu [OF ok c]
  let ?plg = "this\<lparr>task_count_percpu := (task_count_percpu this)[nat c := task_count_percpu this ! nat c + 1]\<rparr>"
  let ?t = "t\<lparr>cpu := u64_of_u32 (u32_of_int c), pluginid := plg_id this, schedprio := real\<rparr>"
  let ?w = "w\<lparr>heap := (heap w)(p \<mapsto> ?t)\<rparr>"
  let ?w' = "?w\<lparr>heap := (heap ?w)(p \<mapsto> ?t\<lparr>pluginid := - 1\<rparr>)\<rparr>"
  obtain r k where det: "detach_if_policy os SCHED_FIFO p ?w' = Some (r, ?w'\<lparr>kern := k\<rparr>)"
    using detach_if_policy_spec [of ?w' p] by fastforce
  have same: "this\<lparr>task_count_percpu := (task_count_percpu this)[nat c := task_count_percpu this ! nat c]\<rparr> = this" by simp
  have "fp_task_release os ?plg p ?w = Some (r, this, ?w'\<lparr>kern := k\<rparr>)"
    using det b same by (simp add: fp_task_release_def c_simps)
  then show ?thesis using sch real by (intro exI) (auto intro: conjI)
qed

subsection \<open>Round robin\<close>

text \<open>C28: After the round robin plugin has scheduled a task that declares a priority from 1 to 99, the real priorities of all its tasks lie in the
  window of the plugin, and on every CPU they follow the declared ones: a task with a higher declared
  priority never has a lower real one, and equal declarations have equal real priorities.  (The plugin also takes tasks of priority 0,
  which the remapping puts outside of the window: \<open>rr_zero_escapes\<close>.)\<close>

theorem rr_schedule_orders:
  assumes "rr_inv os this w own" and "p \<notin> own" and "heap w p = Some t"
    and "1 \<le> uint (priority (params t))" and "uint (priority (params t)) \<le> 99"
  shows "\<exists>plg' w'. rr_task_schedule os this p w = Some (plg', w') \<and>
    (\<forall>q \<in> insert p own. prio_min this \<le> uint (schedprio (the (heap w' q))) \<and>
       uint (schedprio (the (heap w' q))) \<le> prio_max this) \<and>
    (\<forall>q \<in> insert p own. \<forall>r \<in> insert p own. unat (cpu (the (heap w' q))) = unat (cpu (the (heap w' r))) \<longrightarrow>
       priority (params (the (heap w' q))) \<le> priority (params (the (heap w' r))) \<longrightarrow>
       schedprio (the (heap w' q)) \<le> schedprio (the (heap w' r)))"
proof -
  have "int (unat (priority (params t))) = uint (priority (params t))" by simp
  then have "1 \<le> unat (priority (params t))" "unat (priority (params t)) \<le> 99" using assms(4,5) by linarith+
  then have adm: "rr_admissible this t" by (simp add: rr_admissible_def)
  from rr_schedule_spec [OF assms(1-3) adm] obtain c h' dp np where
    P: "rr_prios_ok this h' (insert p own)"
    and S: "rr_task_schedule os this p w = Some
      (this\<lparr>plg_tasks := (plg_tasks this)[nat c := ts_of (insert_by
               (\<lambda>q. rr_key (the (((heap w)(p \<mapsto> t)) q))) p (list_root (plg_tasks this ! nat c)))],
            task_count_percpu := (task_count_percpu this)[nat c := task_count_percpu this ! nat c + 1]\<rparr>,
       w\<lparr>rr_n_per_prio := np, rr_dist_prio := dp, heap := h'\<rparr>)"
    by blast
  have "schedprio (the (h' q)) \<le> schedprio (the (h' r))"
    if "q \<in> insert p own" "r \<in> insert p own" "unat (cpu (the (h' q))) = unat (cpu (the (h' r)))"
      "priority (params (the (h' q))) \<le> priority (params (the (h' r)))" for q r
  proof -
    have "prio_of h' q \<le> prio_of h' r" using that(4) by (simp add: prio_of_def word_le_nat_alt)
    with P that(1-3) show ?thesis unfolding rr_prios_ok_def word_le_def by blast
  qed
  moreover have "\<forall>q \<in> insert p own. prio_min this \<le> uint (schedprio (the (h' q))) \<and> uint (schedprio (the (h' q))) \<le> prio_max this"
    using P unfolding rr_prios_ok_def by blast
  ultimately show ?thesis unfolding S by auto
qed

text \<open>A declared priority of 0 leaves the window when priorities are remapped: 0 - 1 wraps around.\<close>

lemma rr_zero_escapes:
  assumes "sys_priority_min os SCHED_RR = 1" and "sys_priority_max os SCHED_RR = 99"
  shows "rr_prio_remap os 10 10 0 = Some 43383520"
proof -
  have "f32_of_int (99 - 1 + 1) \<noteq> 0" by code_simp
  moreover have "u32_of_f32 (f32_add (f32_of_u32 10)
      (f32_mul (f32_div (f32_of_u32 (10 - 10 + 1)) (f32_of_int (99 - 1 + 1))) (f32_of_u32 (0 - u32_of_int 1)))) = Some 43383520"
    by code_simp
  ultimately show ?thesis unfolding rr_prio_remap_def Let_def assms by presburger
qed

subsection \<open>Rate monotonic\<close>

lemma uint_minus_1: "uint (- 1 :: u32) = 2 ^ 32 - 1"
  by (simp add: unsigned_minus_1_eq_mask mask_eq_exp_minus_1)

text \<open>The rank of an element among the different keys of a list.\<close>

definition rank :: "('a \<Rightarrow> int) \<Rightarrow> 'a list \<Rightarrow> 'a \<Rightarrow> nat" where
  "rank f xs x = card {k \<in> f ` set xs. k \<le> f x}"

lemma rank_bounds:
  assumes "x \<in> set xs"
  shows "1 \<le> rank f xs x" "rank f xs x \<le> card (f ` set xs)"
proof -
  have "f x \<in> {k \<in> f ` set xs. k \<le> f x}" using assms by simp
  then have "{k \<in> f ` set xs. k \<le> f x} \<noteq> {}" by blast
  then show "1 \<le> rank f xs x" unfolding rank_def by (simp add: Suc_le_eq card_gt_0_iff)
  show "rank f xs x \<le> card (f ` set xs)" unfolding rank_def by (intro card_mono) auto
qed

lemma rank_less:
  assumes "x \<in> set xs" and "f y < f x"
  shows "rank f xs y < rank f xs x"
proof -
  have "{k \<in> f ` set xs. k \<le> f y} \<subseteq> {k \<in> f ` set xs. k \<le> f x}" "f x \<notin> {k \<in> f ` set xs. k \<le> f y}"
    "f x \<in> {k \<in> f ` set xs. k \<le> f x}" using assms by auto
  then have "{k \<in> f ` set xs. k \<le> f y} \<subset> {k \<in> f ` set xs. k \<le> f x}" by blast
  then show ?thesis unfolding rank_def by (intro psubset_card_mono) auto
qed

lemma dense_rank:
  assumes "map g xs = dense cur k0 (map f xs)" and "sorted (map f xs)" and "k0 \<notin> f ` set xs"
    and "x \<in> set xs"
  shows "g x = cur + of_nat (rank f xs x)"
proof -
  obtain i where i: "i < length xs" "xs ! i = x" using assms(4) by (auto simp: in_set_conv_nth)
  have "g x = dense cur k0 (map f xs) ! i" using assms(1) i by (metis nth_map)
  also have "\<dots> = cur + of_nat (card {k \<in> set (map f xs). k \<le> map f xs ! i \<and> k \<noteq> k0})"
    by (rule dense_nth) (use assms(2,3) i in auto)
  also have "{k \<in> set (map f xs). k \<le> map f xs ! i \<and> k \<noteq> k0} = {k \<in> f ` set xs. k \<le> f x}"
    using assms(3) i by auto
  finally show ?thesis by (simp add: rank_def)
qed

text \<open>C27: As long as the periods of the tasks of a CPU are below 2^32 - 1, there are at most as many different ones as the plugin has priorities, and the count
  of them that the plugin keeps is not larger either, the rate monotonic plugin assigns priorities rate monotonically: they lie in the window of the plugin,
  a shorter period has a strictly higher priority and equal periods have equal priorities.  The condition on the count is one
  of its own: releases make the count differ from the number of periods (\<open>rm_release_miscounts\<close>), and once it is too large the plugin
  remaps the priorities although it has enough of them.\<close>

theorem rm_assign_rate_monotonic:
  assumes "window_ok this" and "c < length (plg_tasks this)" and "list_root (plg_tasks this ! c) = ps"
    and "ts_ok (heap w) (plg_tasks this ! c)" and "sorted (map (\<lambda>q. rm_key (the (heap w q))) ps)"
    and "\<forall>q \<in> set ps. uint (period (params (the (heap w q)))) < 2 ^ 32 - 1"
    and "c < length (rm_dist_prio w)" and "uint (rm_dist_prio w ! c) \<le> prio_max this - prio_min this + 1"
    and "int (card ((\<lambda>q. period (params (the (heap w q)))) ` set ps)) \<le> prio_max this - prio_min this + 1"
  shows "\<exists>h'. rm_assign_priorities this c w = Some (w\<lparr>heap := h'\<rparr>) \<and>
    (\<forall>q \<in> set ps. prio_min this \<le> uint (schedprio (the (h' q))) \<and> uint (schedprio (the (h' q))) \<le> prio_max this) \<and>
    (\<forall>q \<in> set ps. \<forall>r \<in> set ps. period (params (the (heap w q))) < period (params (the (heap w r))) \<longrightarrow>
       schedprio (the (h' r)) < schedprio (the (h' q))) \<and>
    (\<forall>q \<in> set ps. \<forall>r \<in> set ps. period (params (the (heap w q))) = period (params (the (heap w r))) \<longrightarrow>
       schedprio (the (h' r)) = schedprio (the (h' q)))"
proof -
  let ?P = "\<lambda>q. period (params (the (heap w q)))" and ?key = "\<lambda>q. rm_key (the (heap w q))"
  let ?ks = "map ?key ps" and ?cur = "u32_of_int (prio_min this - 1)" and ?d = "rm_dist_prio w ! c"
  let ?N = "prio_max this - prio_min this + 1"
  have ps: "\<forall>q \<in> set ps. allocated (heap w) q" "distinct ps" using assms(3,4) by (simp_all add: ts_ok_def)
  have win: "0 \<le> prio_min this" "prio_min this \<le> prio_max this" "prio_max this \<le> 99"
    using assms(1) by (simp_all add: window_ok_def)
  have "uint ?d \<le> uint (u32_of_int ?N)" using assms(8) win by (simp add: uint_u32_of_int)
  then have "\<not> ?d > u32_of_int ?N" by (simp add: word_less_def)
  then have run: "rm_assign_priorities this c w = rm_assign_dense ?cur (- 1) ps w"
    using assms(2,3,7) by (simp add: rm_assign_priorities_def c_simps)
  have small: "\<forall>q \<in> set ps. uint (?P q) < 2 ^ 32" using assms(6) by fastforce
  obtain h' where h: "rm_assign_dense ?cur (- 1) ps w = Some (w\<lparr>heap := h'\<rparr>)"
      "map (\<lambda>q. schedprio (the (h' q))) ps = dense ?cur (- uint (- 1 :: u32)) ?ks"
    using rm_assign_dense_spec [OF ps, of ?cur "- 1"] small by blast
  have none: "- uint (- 1 :: u32) \<notin> set ?ks" using assms(6) uint_minus_1 by (force simp: rm_key_eq)
  let ?rank = "rank ?key ps"
  have keys: "card (?key ` set ps) = card (?P ` set ps)"
  proof -
    have "?key ` set ps = (\<lambda>x. - uint x) ` ?P ` set ps" by (simp add: rm_key_eq image_image)
    then show ?thesis by (simp add: card_image inj_on_def word_uint_eq_iff)
  qed
  have val: "uint (schedprio (the (h' q))) = prio_min this - 1 + int (?rank q)" if q: "q \<in> set ps" for q
  proof -
    have "schedprio (the (h' q)) = ?cur + of_nat (?rank q)"
      by (rule dense_rank [OF h(2) assms(5) _ q]) (use none in auto)
    then have "schedprio (the (h' q)) = u32_of_int (prio_min this - 1 + int (?rank q))" by (simp add: u32_of_int_def)
    moreover have "int (?rank q) \<le> ?N" using rank_bounds(2) [OF q, of ?key] keys assms(9) by simp
    ultimately show ?thesis using rank_bounds(1) [OF q, of ?key] win by (simp add: uint_u32_of_int)
  qed
  have lt: "?rank r < ?rank q" if "q \<in> set ps" "?P q < ?P r" for q r
    using that by (intro rank_less) (simp_all add: rm_key_eq word_less_def)
  have eq: "?rank r = ?rank q" if "?P q = ?P r" for q r using that by (simp add: rank_def rm_key_eq)
  have "prio_min this \<le> uint (schedprio (the (h' q))) \<and> uint (schedprio (the (h' q))) \<le> prio_max this" if "q \<in> set ps" for q
    using val [OF that] rank_bounds [OF that, of ?key] keys assms(9) by linarith
  moreover have "schedprio (the (h' r)) < schedprio (the (h' q))" if "q \<in> set ps" "r \<in> set ps" "?P q < ?P r" for q r
    using lt [OF that(1,3)] val [OF that(1)] val [OF that(2)] by (simp add: word_less_def)
  moreover have "schedprio (the (h' r)) = schedprio (the (h' q))" if "q \<in> set ps" "r \<in> set ps" "?P q = ?P r" for q r
    using eq [OF that(3)] val [OF that(1)] val [OF that(2)] by (simp add: word_uint_eq_iff)
  ultimately show ?thesis unfolding run h(1) by blast
qed

lemma rm_remap_unit:
  assumes "c < length (rm_dist_prio w)" and "rm_dist_prio w ! c = u32_of_int (mx - mn + 2)"
    and "0 \<le> mn" and "mn \<le> mx" and "mx \<le> 99" and "0 \<le> i" and "i \<le> 1000"
  shows "rm_prio_remap (u32_of_int mx) (u32_of_int mn) (u32_of_int i) c w = Some (u32_of_int (mn + i))"
proof -
  let ?n = "mx - mn + 1"
  have n: "1 \<le> ?n" "?n \<le> 100" using assms by simp_all
  have "u32_of_int (mx - mn + 2) - 1 = u32_of_int ?n" "u32_of_int mx - u32_of_int mn + 1 = u32_of_int ?n"
    by (simp_all add: u32_of_int_def)
  moreover have ex: "f32_of_u32 (u32_of_int k) = of_int k" if "0 \<le> k" "k < 2 ^ 20" for k
    using that by (simp add: f32_of_u32_def uint_u32_of_int f32_of_int_exact)
  moreover have "f32_round (of_int k) = of_int k" if "0 \<le> k" "k < 2 ^ 20" for k
    using that f32_of_int_exact [of k] by (simp add: f32_of_int_def)
  note exr = this this [of 1, simplified]
  have "f32_of_u32 (u32_of_int ?n) = of_int ?n" "f32_of_u32 (u32_of_int i) = of_int i" "f32_of_u32 (u32_of_int mn) = of_int mn"
    by (rule ex; use assms n in simp)+
  moreover have "f32_div (of_int ?n) (of_int ?n) = 1" "f32_mul 1 (of_int i) = of_int i" "f32_add (of_int mn) (of_int i) = of_int (mn + i)"
    using exr(1) [of i] exr(1) [of "mn + i"] exr(2) assms n by (simp_all add: f32_div_def f32_mul_def f32_add_def)
  moreover have "u32_of_f32 (of_int (mn + i)) = Some (u32_of_int (mn + i))"
    using u32_of_f32_of_int [of "mn + i"] f32_of_int_exact [of "mn + i"] assms by (simp add: u32_of_int_def)
  moreover have "(of_int ?n :: rat) \<noteq> 0" using n by (simp only: of_int_eq_0_iff)
  ultimately show ?thesis using assms(1,2) by (simp add: rm_prio_remap_def c_simps Let_def)
qed

lemma rm_assign_remapped_unit:
  assumes "\<forall>q \<in> set ps. allocated (heap w) q" and "distinct ps" and "distinct (map (\<lambda>q. period (params (the (heap w q)))) ps)"
    and "\<forall>q \<in> set ps. uint (period (params (the (heap w q)))) < 2 ^ 32 - 1"
    and "\<forall>q \<in> set ps. u64_of_u32 prec \<noteq> period (params (the (heap w q)))"
    and "c < length (rm_dist_prio w)" and "rm_dist_prio w ! c = u32_of_int (prio_max this - prio_min this + 2)" and "window_ok this"
    and "0 \<le> i" and "i + int (length ps) \<le> 1000"
  shows "\<exists>h'. rm_assign_remapped this c cur prec (u32_of_int i) ps w = Some (w\<lparr>heap := h'\<rparr>) \<and>
    (\<forall>q. q \<notin> set ps \<longrightarrow> h' q = heap w q) \<and>
    (\<forall>j < length ps. schedprio (the (h' (ps ! j))) = u32_of_int (prio_min this + i + int j))"
  using assms
proof (induction ps arbitrary: cur prec i w)
  case Nil
  then show ?case by (intro exI [of _ "heap w"]) simp
next
  case (Cons p ps)
  obtain t where t: "heap w p = Some t" using Cons.prems(1) by (auto elim: allocatedE)
  have neq: "u64_of_u32 prec \<noteq> rtf_task_get_period t" using Cons.prems(5) t by (simp add: rtf_task_get_period_def)
  let ?x = "u32_of_int (prio_min this + i)" and ?prec = "u32_of_u64 (period (params t))"
  have r: "rm_prio_remap (u32_of_int (prio_max this)) (u32_of_int (prio_min this)) (u32_of_int i) c w = Some ?x"
    by (rule rm_remap_unit) (use Cons.prems in \<open>simp_all add: window_ok_def\<close>)
  define w1 where "w1 = w\<lparr>heap := (heap w)(p \<mapsto> t\<lparr>schedprio := ?x\<rparr>)\<rparr>"
  have "u32_of_int i + 1 = u32_of_int (i + 1)" by (simp add: u32_of_int_def)
  then have step: "rm_assign_remapped this c cur prec (u32_of_int i) (p # ps) w =
      rm_assign_remapped this c ?x ?prec (u32_of_int (i + 1)) ps w1"
    using t r neq by (simp add: w1_def c_simps rtf_task_set_real_priority_def rtf_task_get_period_def)
  have same: "heap w1 q = heap w q" if "q \<in> set ps" for q using that Cons.prems(2) by (auto simp: w1_def)
  have "u64_of_u32 ?prec = period (params t)"
    using Cons.prems(4) t by (simp add: word_uint_eq_iff uint_u32_of_u64)
  then have np: "\<forall>q \<in> set ps. u64_of_u32 ?prec \<noteq> period (params (the (heap w1 q)))"
    using Cons.prems(3) t same by force
  have ms: "map (\<lambda>q. period (params (the (heap w1 q)))) ps = map (\<lambda>q. period (params (the (heap w q)))) ps"
    using same by (intro map_cong) auto
  have ds: "distinct (map (\<lambda>q. period (params (the (heap w1 q)))) ps)" unfolding ms using Cons.prems(3) by simp
  have al: "\<forall>q \<in> set ps. allocated (heap w1) q" "\<forall>q \<in> set ps. uint (period (params (the (heap w1 q)))) < 2 ^ 32 - 1"
    using Cons.prems(1,4) same by (simp_all add: w1_def)
  have "\<exists>h'. rm_assign_remapped this c ?x ?prec (u32_of_int (i + 1)) ps w1 = Some (w1\<lparr>heap := h'\<rparr>) \<and>
      (\<forall>q. q \<notin> set ps \<longrightarrow> h' q = heap w1 q) \<and>
      (\<forall>j < length ps. schedprio (the (h' (ps ! j))) = u32_of_int (prio_min this + (i + 1) + int j))"
    by (rule Cons.IH [OF al(1) _ ds al(2) np]) (use Cons.prems in \<open>simp_all add: w1_def\<close>)
  then obtain h' where h: "rm_assign_remapped this c ?x ?prec (u32_of_int (i + 1)) ps w1 = Some (w1\<lparr>heap := h'\<rparr>)"
      "\<forall>q. q \<notin> set ps \<longrightarrow> h' q = heap w1 q"
      "\<forall>j < length ps. schedprio (the (h' (ps ! j))) = u32_of_int (prio_min this + (i + 1) + int j)" by blast
  have "schedprio (the (h' ((p # ps) ! j))) = u32_of_int (prio_min this + i + int j)" if "j < length (p # ps)" for j
  proof (cases j)
    case 0
    then show ?thesis using h(2) Cons.prems(2) by (simp add: w1_def)
  next
    case (Suc k)
    then show ?thesis using h(3) that by (simp add: algebra_simps)
  qed
  moreover have "\<forall>q. q \<notin> set (p # ps) \<longrightarrow> h' q = heap w q" using h(2) by (simp add: w1_def)
  ultimately show ?case using step h(1) by (intro exI [of _ h']) (simp add: w1_def)
qed

text \<open>With one period more than the plugin has priorities, the rate monotonic plugin leaves its window: the
  task with the shortest period gets the priority after the highest one of the plugin, which belongs to
  another plugin or to no priority at all.\<close>

theorem rm_remap_leaves_window:
  assumes "window_ok this" and "c < length (plg_tasks this)" and "list_root (plg_tasks this ! c) = ps"
    and "ts_ok (heap w) (plg_tasks this ! c)" and "distinct (map (\<lambda>q. period (params (the (heap w q)))) ps)"
    and "\<forall>q \<in> set ps. uint (period (params (the (heap w q)))) < 2 ^ 32 - 1"
    and "int (length ps) = prio_max this - prio_min this + 2"
    and "c < length (rm_dist_prio w)" and "rm_dist_prio w ! c = u32_of_int (int (length ps))"
  shows "\<exists>h'. rm_assign_priorities this c w = Some (w\<lparr>heap := h'\<rparr>) \<and>
    (\<forall>j < length ps. uint (schedprio (the (h' (ps ! j)))) = prio_min this + int j) \<and>
    uint (schedprio (the (h' (last ps)))) = prio_max this + 1"
proof -
  have ps: "\<forall>q \<in> set ps. allocated (heap w) q" "distinct ps" using assms(3,4) by (simp_all add: ts_ok_def)
  have win: "0 \<le> prio_min this" "prio_min this \<le> prio_max this" "prio_max this \<le> 99"
    using assms(1) by (simp_all add: window_ok_def)
  let ?N = "prio_max this - prio_min this + 1"
  have "u32_of_int ?N < u32_of_int (int (length ps))"
    using assms(7) win by (simp add: word_less_def uint_u32_of_int)
  then have run: "rm_assign_priorities this c w = rm_assign_remapped this c (u32_of_int (prio_min this - 1)) (- 1) (u32_of_int 0) ps w"
    using assms(2,3,8,9) by (simp add: rm_assign_priorities_def c_simps u32_of_int_def)
  have np: "\<forall>q \<in> set ps. u64_of_u32 (- 1) \<noteq> period (params (the (heap w q)))"
    using assms(6) uint_minus_1 by (metis less_irrefl uint_u64_of_u32)
  have "\<exists>h'. rm_assign_remapped this c (u32_of_int (prio_min this - 1)) (- 1) (u32_of_int 0) ps w = Some (w\<lparr>heap := h'\<rparr>) \<and>
      (\<forall>q. q \<notin> set ps \<longrightarrow> h' q = heap w q) \<and>
      (\<forall>j < length ps. schedprio (the (h' (ps ! j))) = u32_of_int (prio_min this + 0 + int j))"
    by (rule rm_assign_remapped_unit [OF ps assms(5,6) np assms(8)]) (use assms win in simp_all)
  then obtain h' where h: "rm_assign_priorities this c w = Some (w\<lparr>heap := h'\<rparr>)"
      "\<forall>j < length ps. schedprio (the (h' (ps ! j))) = u32_of_int (prio_min this + int j)"
    unfolding run by auto
  then have v: "\<forall>j < length ps. uint (schedprio (the (h' (ps ! j)))) = prio_min this + int j"
    using assms(7) win by (auto simp: uint_u32_of_int)
  have "ps \<noteq> []" using assms(7) win by auto
  then have "last ps = ps ! (length ps - 1)" "length ps - 1 < length ps" by (simp_all add: last_conv_nth)
  then have "uint (schedprio (the (h' (last ps)))) = prio_min this + int (length ps - 1)" using v by simp
  also have "\<dots> = prio_max this + 1" using assms(7) \<open>ps \<noteq> []\<close> by (simp add: of_nat_diff Suc_le_eq)
  finally show ?thesis using h(1) v by blast
qed

subsection \<open>Releases\<close>

lemma rm_shares_period_eq:
  "\<forall>q \<in> set qs. allocated h q \<Longrightarrow> rm_shares_period h t qs =
     Some (\<exists>q \<in> set qs. period (params (the (h q))) = period (params t) \<and> t_id (the (h q)) \<noteq> t_id t)"
  by (induction qs) (auto elim!: allocatedE)

lemma card_image_remove:
  assumes "p \<in> set ps"
  shows "if \<exists>q \<in> set ps. q \<noteq> p \<and> f q = f p then card (f ` (set ps - {p})) = card (f ` set ps)
    else card (f ` set ps) = card (f ` (set ps - {p})) + 1"
proof -
  have "f ` set ps = insert (f p) (f ` (set ps - {p}))" using assms by blast
  moreover have "(\<exists>q \<in> set ps. q \<noteq> p \<and> f q = f p) \<longleftrightarrow> f p \<in> f ` (set ps - {p})"
    by (auto simp: image_iff) (metis DiffI singletonD)
  ultimately show ?thesis by (simp add: insert_absorb)
qed

text \<open>The count of the different periods of a CPU goes the wrong way when a task is released: it is
  decremented when another task of the CPU still has the period, and kept when the period disappears.\<close>

theorem rm_release_miscounts:
  assumes "rm_inv os this w own" and "p \<in> own" and "heap w p = Some t" and "inj_on (\<lambda>q. t_id (the (heap w q))) own"
    and "rm_task_release os this p w = Some (r, this', w')"
    and "ps = list_root (plg_tasks this ! unat (cpu t))" and "N = (\<lambda>S. card ((\<lambda>q. period (params (the (heap w q)))) ` S))"
  shows "if \<exists>q \<in> set ps. q \<noteq> p \<and> period (params (the (heap w q))) = period (params t)
    then N (set ps - {p}) = N (set ps) \<and> rm_dist_prio w' ! unat (cpu t) = rm_dist_prio w ! unat (cpu t) - 1
    else N (set ps) = N (set ps - {p}) + 1 \<and> rm_dist_prio w' ! unat (cpu t) = rm_dist_prio w ! unat (cpu t)"
proof -
  let ?c = "unat (cpu t)" and ?P = "\<lambda>q. period (params (the (heap w q)))"
  have base: "base_inv this (heap w) own" and l: "lists_ok rm_key this (heap w) own" and d: "length (rm_dist_prio w) = MAX_CPU"
    using assms(1) by (simp_all add: rm_inv_def)
  note c = owned_cpu [OF base assms(2,3)]
  have ts: "ts_ok (heap w) (plg_tasks this ! ?c)" "set ps = on_cpu (heap w) own ?c" using l c(3) assms(6) by (simp_all add: lists_ok_def)
  have p: "p \<in> set ps" "set ps \<subseteq> own" using ts(2) assms(2,3) by (auto simp: on_cpu_def)
  have "\<forall>q \<in> set ps. allocated (heap w) q" using ts(1) assms(6) by (simp add: ts_ok_def)
  from rm_shares_period_eq [OF this] have sh: "rm_shares_period (heap w) t ps =
      Some (\<exists>q \<in> set ps. ?P q = period (params t) \<and> t_id (the (heap w q)) \<noteq> t_id t)" .
  have ids: "t_id (the (heap w q)) \<noteq> t_id t \<longleftrightarrow> q \<noteq> p" if "q \<in> set ps" for q
    using that p assms(2,3,4) unfolding inj_on_def by (metis option.sel subsetD)
  let ?b = "\<exists>q \<in> set ps. q \<noteq> p \<and> ?P q = period (params t)"
  have sh': "rm_shares_period (heap w) t ps = Some ?b" using sh ids by auto
  have heap: "rm_dist_prio w2 = rm_dist_prio w1" if "detach_if_policy os SCHED_FIFO p w1 = Some (x, w2)" for x w1 w2
    using that by (auto simp: detach_if_policy_def posix_detach_def bind_eq_Some Let_def split: prod.splits if_splits)
  from assms(5) have "rm_dist_prio w' ! ?c = (if ?b then rm_dist_prio w ! ?c - 1 else rm_dist_prio w ! ?c)"
    unfolding rm_task_release_def bind_eq_Some Let_def case_prod_beta
    using assms(3,6) c(3,4) d sh'
    by (auto simp: aget_eq_Some add_rm_dist_prio_def bind_eq_Some aset_eq_Some upd_world_task_eq_Some dest!: heap
        split: if_splits)
  moreover have "if ?b then N (set ps - {p}) = N (set ps) else N (set ps) = N (set ps - {p}) + 1"
    using card_image_remove [OF p(1), of ?P] assms(3,7) by (auto split: if_splits)
  ultimately show ?thesis by auto
qed

subsection \<open>Arithmetic\<close>

text \<open>Utilisations are computed with the period narrowed to an \<open>int\<close>: for a period from 2^31 to 2^32 - 1
  microseconds the utilisation is not positive, so the rate monotonic plugin admits the task however
  large its runtime is, as long as some CPU is not overbooked.\<close>

theorem rm_admits_overflow:
  assumes "rm_inv os this w own" and "deadline (params t) = 0" and "2 ^ 31 \<le> uint (period (params t))"
    and "uint (period (params t)) < 2 ^ 32" and "runtime (params t) \<noteq> 0"
    and "c \<in> set (cpulist this)" and "0 \<le> util_free_percpu this ! nat c" and "cstr (sched_plugin (params t)) = Some []"
  shows "rtf_task_get_util t \<le> 0 \<and> rm_task_accept this t = Some RTF_OK"
proof -
  let ?p = "period (params t)"
  have "?p \<noteq> 0" using assms(3) by auto
  have mn: "rtf_task_get_min_declared t = ?p" using assms(2) \<open>?p \<noteq> 0\<close> by (simp add: rtf_task_get_min_declared_def)
  have "s32_of_u64 ?p = sint (word_of_int (uint ?p) :: u32)" by (simp add: s32_of_u64_def)
  also have "\<dots> = (uint ?p + 2 ^ 31) mod 2 ^ 32 - 2 ^ 31" unfolding int_word_sint by simp
  also have "(uint ?p + 2 ^ 31) mod 2 ^ 32 = uint ?p + 2 ^ 31 - 2 ^ 32"
  proof -
    have "uint ?p + 2 ^ 31 = (uint ?p - 2 ^ 31) + 2 ^ 32" by simp
    then have "(uint ?p + 2 ^ 31) mod 2 ^ 32 = (uint ?p - 2 ^ 31) mod 2 ^ 32" by (simp only: mod_add_self2)
    also have "\<dots> = uint ?p - 2 ^ 31" using assms(3,4) by (intro mod_pos_pos_trivial) simp_all
    finally show ?thesis by simp
  qed
  finally have s: "s32_of_u64 ?p < 0" using assms(4) by simp
  then have "(of_int (s32_of_u64 ?p) :: rat) \<le> 0" by (simp only: of_int_le_0_iff less_imp_le)
  then have "f32_of_int (s32_of_u64 ?p) \<le> 0" by (simp add: f32_of_int_def f32_round_def fround_nonpos)
  then have "f32_div (f32_of_u64 (runtime (params t))) (f32_of_int (s32_of_u64 ?p)) \<le> 0"
    unfolding f32_div_def f32_round_def using f32_of_u64_nonneg by (intro fround_nonpos divide_nonneg_nonpos)
  then have u: "rtf_task_get_util t \<le> 0" using mn s by (simp add: rtf_task_get_util_def Let_def)
  then have "\<exists>c \<in> set (cpulist this). rtf_task_get_util t \<le> util_free_percpu this ! nat c" using assms(6,7) by force
  then have "fits this (rtf_task_get_util t)" by (simp add: fits_def)
  moreover have "prefers_another this t = Some False"
    using assms(8) by (simp add: prefers_another_def rtf_task_get_preferred_plugin_def)
  moreover have "plugin_ok this" "util_ok this" using assms(1) by (simp_all add: rm_inv_def base_inv_def)
  ultimately show ?thesis using u \<open>?p \<noteq> 0\<close> by (simp add: rm_accept_spec)
qed

definition idle_os :: "unit kernel" where
  "idle_os = \<lparr>sys_calloc = (\<lambda>h. None), sys_setaffinity = (\<lambda>k _ _. (0, k)), sys_setscheduler = (\<lambda>k _ _ _. (0, k)),
     sys_setattr = (\<lambda>k _ _. (0, k)), sys_getscheduler = (\<lambda>_ _. SCHED_OTHER), sys_priority_max = (\<lambda>_. 99),
     sys_priority_min = (\<lambda>_. 1), sys_nprocs = 1\<rparr>"

text \<open>Floating-point books drift: scheduling a task of utilisation 1/3 and one of 1/5 on an empty CPU and
  releasing both leaves the CPU with less than all of its time, although it has no task; a task that
  needs the whole CPU, admitted before, is refused from then on.\<close>

theorem edf_books_drift:
  "(do { (plg, w) \<leftarrow> edf_task_schedule (util_plugin SCHED_EDF_so [1]) 1
           (util_world (util_task 1 3)\<lparr>heap := [1 \<mapsto> util_task 1 3, 2 \<mapsto> util_task 1 5]\<rparr>);
         (plg, w) \<leftarrow> edf_task_schedule plg 2 w;
         (_, plg, w) \<leftarrow> edf_task_release idle_os plg 1 w;
         (_, plg, w) \<leftarrow> edf_task_release idle_os plg 2 w;
         Some (task_count_percpu plg, util_free_percpu plg, edf_task_accept plg (util_task 7 7)) })
     = Some ([0], [1 - 1 / 2 ^ 24], Some RTF_NO) \<and>
   edf_task_accept (util_plugin SCHED_EDF_so [1]) (util_task 7 7) = Some RTF_OK"
  by code_simp

subsection \<open>Small configurations\<close>

lemma idle_linux: "linux_prio idle_os"
  by (simp add: linux_prio_def idle_os_def)

lemma fp_schedule_release_witness:
  "\<exists>plg1 w1 r w2. fp_task_schedule idle_os (util_plugin SCHED_FP_so [1]) 1 (util_world (util_task 1 3)) = Some (plg1, w1) \<and>
     fp_task_release idle_os plg1 1 w1 = Some (r, util_plugin SCHED_FP_so [1], w2)"
proof -
  have "fp_inv idle_os (util_plugin SCHED_FP_so [1]) (util_world (util_task 1 3)) {}"
    using util_plugin_base [of "[1]"] idle_linux
    by (simp add: fp_inv_def in_window_def MAX_CPU_def) (simp add: util_plugin_def window_ok_def)
  moreover have "heap (util_world (util_task 1 3)) 1 = Some (util_task 1 3)" "uint (priority (params (util_task 1 3))) \<le> 99"
    by (simp_all add: util_world_def util_task_def zero_params_def)
  ultimately show ?thesis using fp_schedule_release [of idle_os _ _ "{}" 1] by fastforce
qed

lemma rr_schedule_orders_witness:
  "\<exists>plg' w'. rr_task_schedule idle_os (util_plugin SCHED_RR_so [1]) 1
      (util_world (zero_task\<lparr>params := zero_params\<lparr>priority := 10\<rparr>\<rparr>)) = Some (plg', w') \<and>
    1 \<le> uint (schedprio (the (heap w' 1)))"
proof -
  let ?t = "zero_task\<lparr>params := zero_params\<lparr>priority := 10\<rparr>\<rparr>" and ?plg = "util_plugin SCHED_RR_so [1]"
  have "rr_counts (length (plg_tasks ?plg)) (util_world ?t) (heap (util_world ?t)) {}"
    by (simp add: rr_counts_def util_plugin_def util_world_def on_cpu_def with_prio_def MAX_CPU_def MAX_PRIO_def)
  then have inv: "rr_inv idle_os ?plg (util_world ?t) {}"
    using util_plugin_base [of "[1]"] util_plugin_lists idle_linux
    by (simp add: rr_inv_def MAX_CPU_def prios_declared_def rr_prios_ok_def) (simp add: util_plugin_def window_ok_def)
  have "heap (util_world ?t) 1 = Some ?t" by (simp add: util_world_def)
  from rr_schedule_orders [OF inv _ this] show ?thesis by (force simp: util_plugin_def)
qed

text \<open>Two tasks of the periods 5 and 3 on the only CPU of a plugin with the priorities \<open>mn\<close> to \<open>mx\<close>.\<close>

definition two_periods :: "int \<Rightarrow> int \<Rightarrow> rtf_plugin" where
  "two_periods mn mx = (util_plugin SCHED_RM_so [1])\<lparr>prio_min := mn, prio_max := mx, plg_tasks := [ts_of [1, 2]]\<rparr>"

definition two_periods_world :: "unit world" where
  "two_periods_world = (util_world (util_task 1 5))\<lparr>heap := [1 \<mapsto> util_task 1 5, 2 \<mapsto> util_task 1 3], rm_dist_prio := [2]\<rparr>"

lemma two_periods_simps [simp]:
  "plg_tasks (two_periods mn mx) = [ts_of [1, 2]]" "prio_min (two_periods mn mx) = mn" "prio_max (two_periods mn mx) = mx"
  "heap two_periods_world 1 = Some (util_task 1 5)" "heap two_periods_world (Suc 0) = Some (util_task 1 5)"
  "heap two_periods_world 2 = Some (util_task 1 3)" "rm_dist_prio two_periods_world = [2]"
  "period (params (util_task r p)) = p"
  by (simp_all add: two_periods_def two_periods_world_def util_task_def)

lemma rm_assign_rate_monotonic_witness:
  "\<exists>h'. rm_assign_priorities (two_periods 10 20) 0 two_periods_world = Some (two_periods_world\<lparr>heap := h'\<rparr>) \<and>
     schedprio (the (h' 1)) < schedprio (the (h' 2))"
proof -
  have "\<exists>h'. rm_assign_priorities (two_periods 10 20) 0 two_periods_world = Some (two_periods_world\<lparr>heap := h'\<rparr>) \<and>
    (\<forall>q \<in> set [1, 2]. prio_min (two_periods 10 20) \<le> uint (schedprio (the (h' q))) \<and>
       uint (schedprio (the (h' q))) \<le> prio_max (two_periods 10 20)) \<and>
    (\<forall>q \<in> set [1, 2]. \<forall>r \<in> set [1, 2]. period (params (the (heap two_periods_world q))) < period (params (the (heap two_periods_world r))) \<longrightarrow>
       schedprio (the (h' r)) < schedprio (the (h' q))) \<and>
    (\<forall>q \<in> set [1, 2]. \<forall>r \<in> set [1, 2]. period (params (the (heap two_periods_world q))) = period (params (the (heap two_periods_world r))) \<longrightarrow>
       schedprio (the (h' r)) = schedprio (the (h' q)))"
    by (rule rm_assign_rate_monotonic) (simp_all add: window_ok_def rm_key_eq allocated_def domIff)
  then show ?thesis by auto
qed

lemma rm_remap_leaves_window_witness:
  "\<exists>h'. rm_assign_priorities (two_periods 10 10) 0 two_periods_world = Some (two_periods_world\<lparr>heap := h'\<rparr>) \<and>
     uint (schedprio (the (h' 2))) = 11"
proof -
  have "\<exists>h'. rm_assign_priorities (two_periods 10 10) 0 two_periods_world = Some (two_periods_world\<lparr>heap := h'\<rparr>) \<and>
    (\<forall>j < length [1, 2 :: nat]. uint (schedprio (the (h' ([1, 2] ! j)))) = prio_min (two_periods 10 10) + int j) \<and>
    uint (schedprio (the (h' (last [1, 2])))) = prio_max (two_periods 10 10) + 1"
    by (rule rm_remap_leaves_window) (simp_all add: window_ok_def u32_of_int_def allocated_def domIff)
  then show ?thesis by auto
qed

definition booked_task :: rtf_task where
  "booked_task = (util_task 1 5)\<lparr>pluginid := 0\<rparr>"

definition booked_plugin :: rtf_plugin where
  "booked_plugin = (util_plugin SCHED_RM_so [1])\<lparr>task_count_percpu := [1], plg_tasks := [ts_of [1]]\<rparr>"

definition booked_world :: "unit world" where
  "booked_world = (util_world booked_task)\<lparr>rm_dist_prio := (replicate MAX_CPU 0)[0 := 1]\<rparr>"

lemma rm_release_miscounts_witness:
  "\<exists>r this' w'. rm_task_release idle_os booked_plugin 1 booked_world = Some (r, this', w') \<and> rm_dist_prio w' ! 0 = 1"
proof -
  let ?own = "{1 :: task_ptr}"
  have t: "heap booked_world 1 = Some booked_task" "cpu booked_task = 0" "pluginid booked_task = 0"
    by (simp_all add: booked_world_def util_world_def booked_task_def util_task_def zero_task_def)
  have on: "on_cpu (heap booked_world) ?own 0 = ?own" using t by (auto simp: on_cpu_def)
  have inv: "rm_inv idle_os booked_plugin booked_world ?own"
    using t on by (simp add: rm_inv_def base_inv_def plugin_ok_def owned_ok_def count_ok_def lists_ok_def util_ok_def allocated_def)
      (simp add: booked_plugin_def util_plugin_def window_ok_def booked_world_def MAX_CPU_def allocated_def domIff)
  obtain r plg w where R: "rm_task_release idle_os booked_plugin 1 booked_world = Some (r, plg, w)"
    using rm_release_spec [OF inv _ t(1)] by blast
  have ps: "list_root (plg_tasks booked_plugin ! unat (cpu booked_task)) = [1]" using t by (simp add: booked_plugin_def)
  have "if \<exists>q \<in> set [1]. q \<noteq> 1 \<and> period (params (the (heap booked_world q))) = period (params booked_task)
    then card ((\<lambda>q. period (params (the (heap booked_world q)))) ` (set [1] - {1})) = card ((\<lambda>q. period (params (the (heap booked_world q)))) ` set [1])
      \<and> rm_dist_prio w ! unat (cpu booked_task) = rm_dist_prio booked_world ! unat (cpu booked_task) - 1
    else card ((\<lambda>q. period (params (the (heap booked_world q)))) ` set [1]) = card ((\<lambda>q. period (params (the (heap booked_world q)))) ` (set [1] - {1})) + 1
      \<and> rm_dist_prio w ! unat (cpu booked_task) = rm_dist_prio booked_world ! unat (cpu booked_task)"
    by (rule rm_release_miscounts [OF inv _ t(1) _ R ps [symmetric]]) simp_all
  then show ?thesis using R t(2) by (auto simp: booked_world_def MAX_CPU_def)
qed

lemma rm_admits_overflow_witness:
  "rm_task_accept (util_plugin SCHED_RM_so [0]) (util_task (2 ^ 40) (2 ^ 31)) = Some RTF_OK"
proof -
  have inv: "rm_inv idle_os (util_plugin SCHED_RM_so [0]) (util_world (util_task 1 3)) {}"
    by (rule util_plugin_inv(2)) (simp_all add: MAX_CPU_def)
  have "rtf_task_get_util (util_task (2 ^ 40) (2 ^ 31)) \<le> 0 \<and>
      rm_task_accept (util_plugin SCHED_RM_so [0]) (util_task (2 ^ 40) (2 ^ 31)) = Some RTF_OK"
    by (rule rm_admits_overflow [OF inv _ _ _ _ _ _ util_task_util(3), where c = 0])
      (simp_all add: util_plugin_def util_task_def zero_params_def)
  then show ?thesis by blast
qed

end
