(* ===== verification/Startup_Correct.thy ===== *)
theory Startup_Correct
  imports Startup Daemon_Correct
begin

text \<open>
  Bringing the daemon up establishes the invariant that its loop keeps; the checks of the
  configuration mean what they are for; tearing the daemon down frees every task.
\<close>

subsection \<open>The checks of the configuration\<close>

text \<open>The merge of two core lists finds a common core when both lists are sorted.\<close>

lemma common_cpu_sorted:
  "sorted as \<Longrightarrow> sorted bs \<Longrightarrow> common_cpu as bs \<longleftrightarrow> set as \<inter> set bs \<noteq> {}"
  by (induction as bs rule: common_cpu.induct) (auto simp: not_less_iff_gr_or_eq)

lemma for_each_stuck: "for_each (\<lambda>b l. if \<not> b then Some False else f l) False ls = Some r \<Longrightarrow> \<not> r"
  by (induction ls) auto

lemma for_each_all:
  "for_each (\<lambda>b l. if \<not> b then Some False else f l) True ls = Some True \<Longrightarrow> l \<in> set ls \<Longrightarrow> f l = Some True"
proof (induction ls)
  case (Cons a ls)
  then obtain b where b: "f a = Some b" "for_each (\<lambda>b l. if \<not> b then Some False else f l) b ls = Some True"
    by (auto simp: bind_eq_Some)
  then have "b" using for_each_stuck [of f ls True] by (cases b) auto
  with b Cons show ?case by auto
qed simp

lemma check_pairs_all:
  "check_pairs ok ps = Some True \<Longrightarrow> i < j \<Longrightarrow> j < length ps \<Longrightarrow> ok (ps ! i) (ps ! j) = Some True"
proof (induction ok ps arbitrary: i j rule: check_pairs.induct)
  case (2 ok h ls)
  from "2.prems"(1) have r: "for_each (\<lambda>b l. if \<not> b then Some False else ok h l) True ls = Some True" "check_pairs ok ls = Some True"
    by (auto simp: bind_eq_Some split: if_splits)
  obtain j' where j: "j = Suc j'" using "2.prems"(2) by (cases j) auto
  show ?case
  proof (cases i)
    case 0
    then show ?thesis using for_each_all [OF r(1), of "ls ! j'"] j "2.prems"(3) by simp
  next
    case (Suc i')
    then show ?thesis using "2.IH" [OF r(1) _ r(2), of i' j'] j "2.prems"(2,3) by simp
  qed
qed simp

text \<open>What the checks of the windows and the cores establish.\<close>

lemma valid_windows:
  assumes "configuration_valid nprocs conf = Some True"
    and "i < j" "j < length (cplugins conf)" "sorted (the (cp_cores (cplugins conf ! i)))" "sorted (the (cp_cores (cplugins conf ! j)))"
      "set (the (cp_cores (cplugins conf ! i))) \<inter> set (the (cp_cores (cplugins conf ! j))) \<noteq> {}"
  shows "the (cp_prio_max (cplugins conf ! j)) < the (cp_prio_min (cplugins conf ! i))"
proof -
  have "check_priority_windows conf = Some True"
    by (rule for_each_all [of "\<lambda>c. c conf", OF assms(1) [unfolded configuration_valid_def]]) simp
  from check_pairs_all [OF this [unfolded check_priority_windows_def] assms(2,3)] common_cpu_sorted [OF assms(4,5)] assms(6)
  show ?thesis by (auto simp: bind_eq_Some plugins_have_common_cpus_def)
qed

text \<open>C31: A configuration that passes the checks has a maximal utilisation between 0 and 1, unless the file says that it is not a
  number (\<open>nan\<close>), which passes as well because every comparison with a NaN is false; every plugin has
  ordered priorities and only cores of the machine; different plugins have different names; and when
  the cores of two plugins are listed in ascending order and they share one, the priorities of the
  earlier plugin are all above those of the later one.\<close>

theorem configuration_valid_sound:
  assumes "configuration_valid nprocs conf = Some True"
  shows "(sched_max_util (csystem conf) = NaN \<or> (\<exists>u. sched_max_util (csystem conf) = Finite u \<and> 0 \<le> u \<and> u \<le> 1)) \<and>
    (\<forall>p \<in> set (cplugins conf). \<exists>cs mn mx. cp_cores p = Some cs \<and> cp_prio_min p = Some mn \<and> cp_prio_max p = Some mx \<and>
       mn \<le> mx \<and> (\<forall>c \<in> set cs. 0 \<le> c \<and> c < nprocs)) \<and>
    (\<forall>i j. i < j \<longrightarrow> j < length (cplugins conf) \<longrightarrow>
       (let p = cplugins conf ! i; q = cplugins conf ! j
        in cp_name p \<noteq> cp_name q \<and>
           (sorted (the (cp_cores p)) \<longrightarrow> sorted (the (cp_cores q)) \<longrightarrow> set (the (cp_cores p)) \<inter> set (the (cp_cores q)) \<noteq> {} \<longrightarrow>
              the (cp_prio_max q) < the (cp_prio_min p))))"
proof -
  let ?ps = "cplugins conf"
  have ok: "check_max_util conf = Some True" "check_cpus nprocs conf = Some True" "check_minmax_priorities conf = Some True"
    "check_plugin_names conf = Some True"
    by (rule for_each_all [of "\<lambda>c. c conf", OF assms [unfolded configuration_valid_def]]; simp)+
  have "sched_max_util (csystem conf) = NaN \<or> (\<exists>u. sched_max_util (csystem conf) = Finite u \<and> 0 \<le> u \<and> u \<le> 1)"
    using ok(1) by (cases "sched_max_util (csystem conf)") (auto simp: check_max_util_def)
  moreover have each: "\<exists>cs mn mx. cp_cores p = Some cs \<and> cp_prio_min p = Some mn \<and> cp_prio_max p = Some mx \<and> mn \<le> mx \<and>
      (\<forall>c \<in> set cs. 0 \<le> c \<and> c < nprocs)" if "p \<in> set ?ps" for p
    using for_each_all [OF ok(2) [unfolded check_cpus_def] that] for_each_all [OF ok(3) [unfolded check_minmax_priorities_def] that]
    by (auto simp: bind_eq_Some)
  moreover have "cp_name (?ps ! i) \<noteq> cp_name (?ps ! j)" if "i < j" "j < length ?ps" for i j
    using check_pairs_all [OF ok(4) [unfolded check_plugin_names_def] that] by (auto simp: bind_eq_Some)
  moreover have "the (cp_prio_max (?ps ! j)) < the (cp_prio_min (?ps ! i))"
    if "i < j" "j < length ?ps" "sorted (the (cp_cores (?ps ! i)))" "sorted (the (cp_cores (?ps ! j)))"
      "set (the (cp_cores (?ps ! i))) \<inter> set (the (cp_cores (?ps ! j))) \<noteq> {}" for i j
    using assms that by (rule valid_windows)
  ultimately show ?thesis unfolding Let_def by blast
qed

definition conf_item :: "string \<Rightarrow> int \<Rightarrow> int \<Rightarrow> int list \<Rightarrow> conf_plugin" where
  "conf_item nm mn mx cs = \<lparr>cp_name = Some nm, cp_path = Some ''/p.so'', cp_prio_min = Some mn, cp_prio_max = Some mx, cp_cores = Some cs\<rparr>"

lemma configuration_valid_sound_witness:
  "let conf = zero_configuration\<lparr>cplugins := [conf_item ''A'' 50 99 [0, 1], conf_item ''B'' 1 49 [1, 2]]\<rparr>
   in configuration_valid 4 conf = Some True \<and> cp_name (cplugins conf ! 0) \<noteq> cp_name (cplugins conf ! 1)"
proof -
  let ?conf = "zero_configuration\<lparr>cplugins := [conf_item ''A'' 50 99 [0, 1], conf_item ''B'' 1 49 [1, 2]]\<rparr>"
  have v: "configuration_valid 4 ?conf = Some True" by code_simp
  have "cp_name (cplugins ?conf ! 0) \<noteq> cp_name (cplugins ?conf ! 1)"
    using configuration_valid_sound [OF v, THEN conjunct2, THEN conjunct2, THEN spec [of _ 0], THEN spec [of _ 1]] by (simp add: Let_def)
  then show ?thesis using v by (simp add: Let_def)
qed

text \<open>A maximal utilisation that is not a number is read from the file and passes the checks.\<close>

lemma nan_passes:
  "string_to_double False ''nan'' = (0, Some NaN, False) \<and>
   configuration_valid 4 (zero_configuration\<lparr>csystem := \<lparr>rr_timeslice = 100, sched_max_util = NaN\<rparr>\<rparr>) = Some True"
  by code_simp

text \<open>With cores in another order the check misses a shared core: two plugins that share the core 1 and have
  the same priorities are accepted.\<close>

theorem configuration_valid_misses_unsorted:
  "configuration_valid 4 (zero_configuration\<lparr>cplugins :=
     [conf_item ''A'' 10 20 [2, 1], conf_item ''B'' 10 20 [1]]\<rparr>) = Some True"
  by code_simp

subsection \<open>Loading the plugins\<close>

text \<open>What a freshly loaded plugin takes from its entry in the configuration.\<close>

definition loaded :: "nat \<Rightarrow> conf_plugin \<Rightarrow> rtf_plugin \<Rightarrow> bool" where
  "loaded i c p \<longleftrightarrow> plg_id p = int i \<and> cp_cores c = Some (cpulist p) \<and> cp_prio_min c = Some (prio_min p) \<and>
     cp_prio_max c = Some (prio_max p) \<and> cp_name c = Some (plg_name p) \<and> cputot p = int (length (cpulist p)) \<and>
     util_free_percpu p = replicate (length (cpulist p)) 1 \<and> task_count_percpu p = replicate (length (cpulist p)) 0 \<and>
     plg_tasks p = replicate (length (cpulist p)) rtf_taskset_init"

lemma init_plugin_loaded: "init_plugin ld path i c = Some (Some p) \<Longrightarrow> loaded i c p"
  unfolding init_plugin_def bind_eq_Some Let_def case_prod_beta
  by (elim exE conjE) (auto simp: loaded_def split: option.splits)

lemma init_plugins_loaded:
  assumes "init_plugins ld path (length plgs) cs plgs = Some (0, plgs')"
  shows "\<exists>new. plgs' = plgs @ new \<and> length new = length cs \<and> (\<forall>j < length cs. loaded (length plgs + j) (cs ! j) (new ! j))"
  using assms
proof (induction cs arbitrary: plgs)
  case (Cons c cs)
  from Cons.prems obtain p where p: "init_plugin ld path (length plgs) c = Some (Some p)"
      "init_plugins ld path (Suc (length plgs)) cs (plgs @ [p]) = Some (0, plgs')"
    by (auto simp: bind_eq_Some split: option.splits)
  from Cons.IH [of "plgs @ [p]"] p(2) obtain new where new: "plgs' = (plgs @ [p]) @ new" "length new = length cs"
      "\<forall>j < length cs. loaded (length (plgs @ [p]) + j) (cs ! j) (new ! j)" by auto
  have "loaded (length plgs + j) ((c # cs) ! j) ((p # new) ! j)" if "j < length (c # cs)" for j
    using that new(3) init_plugin_loaded [OF p(1)] by (cases j) auto
  with new(1,2) show ?case by (intro exI [of _ "p # new"]) simp
qed simp

text \<open>The entries of a configuration that the plugins can be run with: the cores of a plugin are some of the
  first ones, as many as there are, and its priorities lie between 0 and 99.\<close>

definition entry_ok :: "conf_plugin \<Rightarrow> bool" where
  "entry_ok c \<longleftrightarrow> (\<forall>cs mn mx. cp_cores c = Some cs \<longrightarrow> cp_prio_min c = Some mn \<longrightarrow> cp_prio_max c = Some mx \<longrightarrow>
     cs \<noteq> [] \<and> length cs \<le> MAX_CPU \<and> (\<forall>x \<in> set cs. 0 \<le> x \<and> nat x < length cs) \<and> 0 \<le> mn \<and> mn \<le> mx \<and> mx \<le> 99)"

text \<open>The plugins of the sample configuration \<open>conf/retifconf.yaml\<close>.  They pass the checks of the code, but two of them have the cores 1 and 2, whose numbers are used as
  indices of arrays with two entries: choosing a core reads past their end.\<close>

definition shipped_plugins :: "conf_plugin list" where
  "shipped_plugins = [conf_item ''EDF'' 100 100 [0], conf_item ''RM'' 50 99 [1, 2], conf_item ''RR'' 1 49 [1, 2], conf_item ''FP'' 1 99 [3, 4, 5, 6, 7]]"

lemma shipped_configuration_valid: "configuration_valid 8 (zero_configuration\<lparr>cplugins := shipped_plugins\<rparr>) = Some True"
  by code_simp

lemma shipped_cores_overrun:
  assumes "loaded i (shipped_plugins ! 1) p"
  shows "rm_least_loaded_cpu p = None \<and> rr_least_loaded_cpu p = None"
proof -
  have cores: "cpulist p = [1, 2]" using assms by (simp add: loaded_def shipped_plugins_def conf_item_def)
  then have "cputot p = 2" "util_free_percpu p = [1, 1]" "task_count_percpu p = [0, 0]"
    using assms by (simp_all add: loaded_def numeral_2_eq_2)
  then show ?thesis using cores
    by (simp add: rm_least_loaded_cpu_def rr_least_loaded_cpu_def least_loaded_by_util_def least_loaded_by_count_def
        pick_cpu_def aget_def iget_def upt_rec numeral_eq_Suc)
qed

definition boot_world :: "'k \<Rightarrow> 'k world" where
  "boot_world k = \<lparr>heap = Map.empty, kern = k, rm_dist_prio = replicate MAX_CPU 0, rr_dist_prio = replicate MAX_CPU 0,
     rr_n_per_prio = replicate MAX_CPU (replicate MAX_PRIO 0)\<rparr>"

lemma loaded_inv:
  assumes "loaded i c p" and "entry_ok c" and "linux_prio os"
  shows "plg_inv os p (boot_world k) {}"
proof -
  have L: "cp_cores c = Some (cpulist p)" "cp_prio_min c = Some (prio_min p)" "cp_prio_max c = Some (prio_max p)"
    "cputot p = int (length (cpulist p))" "util_free_percpu p = replicate (length (cpulist p)) 1"
    "task_count_percpu p = replicate (length (cpulist p)) 0" "plg_tasks p = replicate (length (cpulist p)) rtf_taskset_init"
    using assms(1) by (simp_all add: loaded_def)
  have E: "cpulist p \<noteq> []" "length (cpulist p) \<le> MAX_CPU" "\<forall>x \<in> set (cpulist p). 0 \<le> x \<and> nat x < length (cpulist p)"
    "window_ok p"
    using assms(2) L(1-3) by (auto simp: entry_ok_def window_ok_def)
  have "base_inv p (heap (boot_world k)) {}"
    using E L(4-7) by (simp add: base_inv_def plugin_ok_def owned_ok_def count_ok_def on_cpu_def)
  moreover have "lists_ok f p h {}" for f h
    using L(7) by (simp add: lists_ok_def rtf_taskset_init_def ts_ok_def list_ok_def list_init_def on_cpu_def)
  moreover have "rr_counts (length (plg_tasks p)) (boot_world k) (heap (boot_world k)) {}"
    using E(2) L(7) by (simp add: rr_counts_def boot_world_def on_cpu_def with_prio_def)
  moreover have "util_ok p" using L(5) by (simp add: util_ok_def)
  moreover have "length (rm_dist_prio (boot_world k)) = MAX_CPU" by (simp add: boot_world_def)
  ultimately show ?thesis
    using E(4) assms(3)
    by (cases "dl_ptr p") (simp_all add: plg_inv_def fp_inv_def rr_inv_def rm_inv_def edf_inv_def prios_declared_def rr_prios_ok_def in_window_def)
qed

lemma init_plugins_result: "init_plugins ld path i cs plgs = Some (r, plgs') \<Longrightarrow> r = 0 \<or> r = - 1"
  by (induction ld path i cs plgs rule: init_plugins.induct) (auto simp: bind_eq_Some split: option.splits)

lemma scheduler_init_zero:
  assumes "rtf_scheduler_init io fs ld path nprocs conf s = Some (r, s')" and "\<not> r < 0"
    and "fst (file_read_long io fs PROC_RT_RUNTIME_FILE) = 0" and "fst (file_read_long io fs PROC_RT_PERIOD_FILE) = 0"
  shows "r = 0"
proof -
  obtain rt pd where "file_read_long io fs PROC_RT_RUNTIME_FILE = (0, Some rt)" "file_read_long io fs PROC_RT_PERIOD_FILE = (0, Some pd)"
    using assms(3,4) by (auto simp: file_read_long_def split: option.splits)
  then show ?thesis
    using assms(1,2) by (auto simp: rtf_scheduler_init_def rtf_plugins_init_def bind_eq_Some split: if_splits dest: init_plugins_result)
qed

lemma scheduler_init_ok:
  assumes run: "rtf_scheduler_init io fs ld path nprocs conf s = Some (0, s')"
    and read: "fst (file_read_long io fs PROC_RT_RUNTIME_FILE) = 0" "fst (file_read_long io fs PROC_RT_PERIOD_FILE) = 0"
    and entries: "\<forall>c \<in> set (cplugins conf). entry_ok c" and lp: "linux_prio os"
  shows "(libs_ok (plugin s') \<longrightarrow> sched_ok os (map dl_ptr (plugin s')) (s', boot_world k)) \<and> taskset s' = rtf_taskset_init \<and> last_task_id s' = 0 \<and>
    length (plugin s') = length (cplugins conf) \<and> (\<forall>j < length (plugin s'). loaded j (cplugins conf ! j) (plugin s' ! j))"
proof -
  obtain rt pd where "file_read_long io fs PROC_RT_RUNTIME_FILE = (0, Some rt)" "file_read_long io fs PROC_RT_PERIOD_FILE = (0, Some pd)"
    using read by (auto simp: file_read_long_def split: option.splits)
  with run obtain plgs where P: "rtf_plugins_init ld path (cplugins conf) = Some (0, plgs)"
      and s': "s' = s\<lparr>taskset := rtf_taskset_init, last_task_id := 0, num_of_cpu := nprocs,
        plugin := plgs, num_of_plugins := int (length (cplugins conf))\<rparr>"
    by (auto simp: rtf_scheduler_init_def bind_eq_Some split: if_splits)
  from init_plugins_loaded [of ld path "[]" "cplugins conf" plgs] P
  have L: "length plgs = length (cplugins conf)" "\<forall>j < length plgs. loaded j (cplugins conf ! j) (plgs ! j)"
    by (auto simp: rtf_plugins_init_def)
  have own: "owns s' h j = {}" for h j by (simp add: owns_def s' rtf_taskset_init_def list_init_def)
  have "plg_id (plgs ! j) = int j \<and> plg_inv os (plgs ! j) (boot_world k) {}" if "j < length plgs" for j
    using L that entries loaded_inv [OF _ _ lp] by (metis loaded_def nth_mem)
  then have "plugins_ok os s' (boot_world k) (owns s' (heap (boot_world k)))" if "libs_ok (plugin s')"
    using that own by (simp add: plugins_ok_def s')
  then have "sched_inv os (s', boot_world k)" if "libs_ok (plugin s')"
    using that L(1) by (simp add: sched_inv_def) (simp add: s' rtf_taskset_init_def list_init_def ts_ok_def list_ok_def)
  then show ?thesis using L by (simp add: sched_ok_def) (simp add: s' rtf_taskset_init_def list_init_def boot_world_def)
qed


lemma rtf_carrier_init_ok:
  assumes "rtf_carrier_init net k c = Some (0, c', k')" and "\<forall>k p. fst (sys_socket net k p) < int SET_MAX_SIZE"
    and "length (last_n c) = SET_MAX_SIZE" and "length (last_req c) = SET_MAX_SIZE" and "length (client c) = SET_MAX_SIZE"
    and "\<forall>r \<in> set (last_req c). P r"
  shows "carrier_ok P c'"
proof -
  obtain fd k1 where s: "sys_socket net k TCP = (fd, k1)" by (cases "sys_socket net k TCP")
  then have "fd < int SET_MAX_SIZE" using assms(2) by (metis fst_conv)
  then show ?thesis
    using assms(1,3-6) s
    by (auto simp: rtf_carrier_init_def usocket_init_def usocket_prepare_recv_def FD_SET_def bind_eq_Some carrier_ok_def Let_def
        usocket_ok_def zero_usocket_def split: if_splits prod.splits)
qed

text \<open>What is relied on to start: readable kernel files, descriptors below \<open>FD_SETSIZE\<close>, the static arrays of
  the carrier at their size and cleared, an empty heap.\<close>

definition startable :: "('k, 'n, 'f) environment \<Rightarrow> ('k, 'n, 'f) daemon_state \<Rightarrow> bool" where
  "startable env st \<longleftrightarrow> (\<forall>fs. fst (file_read_long (env_files env) fs PROC_RT_RUNTIME_FILE) = 0 \<and>
       fst (file_read_long (env_files env) fs PROC_RT_PERIOD_FILE) = 0) \<and>
     (\<forall>k p. fst (sys_socket (env_net env) k p) < int SET_MAX_SIZE) \<and> linux_prio (env_os env) \<and>
     (\<exists>k. dworld (daemon st) = boot_world k) \<and>
     (let c = chann (daemon st)
      in length (last_n c) = SET_MAX_SIZE \<and> length (last_req c) = SET_MAX_SIZE \<and> length (client c) = SET_MAX_SIZE \<and>
         (\<forall>r \<in> set (last_req c). req_type r = Some RTF_CONNECTION))"

lemma daemon_init_ok:
  assumes run: "rtf_daemon_init env st = Some (0, st')" and start: "startable env st"
    and entries: "\<forall>c \<in> set (cplugins (config st')). entry_ok c"
  shows "(libs_ok (plugin (sched (daemon st'))) \<longrightarrow>
      daemon_inv (env_os env) (map dl_ptr (plugin (sched (daemon st')))) (daemon st')) \<and>
    taskset (sched (daemon st')) = rtf_taskset_init \<and> last_task_id (sched (daemon st')) = 0 \<and>
    length (plugin (sched (daemon st'))) = length (cplugins (config st')) \<and>
    (\<forall>j < length (plugin (sched (daemon st'))). loaded j (cplugins (config st') ! j) (plugin (sched (daemon st')) ! j)) \<and>
    (cplugins (config st') = cplugins (config st) \<or> configuration_valid (sys_nprocs (env_os env)) (config st') = Some True)"
proof -
  obtain conf where parse: "parse_configuration (env_yaml env) (sys_nprocs (env_os env)) (env_errno env) (config st)
      (env_conf_path env) = Some (0, conf)"
    using run by (auto simp: rtf_daemon_init_def bind_eq_Some Let_def split: if_splits)
  obtain b where save: "save_rt_kernel_params (env_files env) (dfiles st) (proc_bk st) = (0, b)"
    using run parse by (cases "save_rt_kernel_params (env_files env) (dfiles st) (proc_bk st)")
      (auto simp: rtf_daemon_init_def bind_eq_Some Let_def split: if_splits)
  obtain r1 fs where set: "set_rt_kernel_params (env_files env) (dfiles st) (csystem conf) = (r1, fs)"
    by (cases "set_rt_kernel_params (env_files env) (dfiles st) (csystem conf)")
  obtain r2 c k where car: "rtf_carrier_init (env_net env) (dnet (daemon st)) (chann (daemon st)) = Some (r2, c, k)" "\<not> r2 < 0"
    using run parse save set by (auto simp: rtf_daemon_init_def bind_eq_Some Let_def split: if_splits)
  then have r2: "r2 = 0" by (auto simp: rtf_carrier_init_def bind_eq_Some Let_def split: prod.splits if_splits)
  obtain r3 s where sch: "rtf_scheduler_init (env_files env) fs (env_loader env) (env_conf_path env)
      (sys_nprocs (env_os env)) conf ((sched (daemon st))\<lparr>taskset := rtf_taskset_init\<rparr>) = Some (r3, s)" "\<not> r3 < 0"
      and st': "config st' = conf" "sched (daemon st') = s" "chann (daemon st') = c" "dworld (daemon st') = dworld (daemon st)"
    using run parse save set car r2 by (auto simp: rtf_daemon_init_def bind_eq_Some Let_def split: if_splits)
  have read: "fst (file_read_long (env_files env) fs PROC_RT_RUNTIME_FILE) = 0" "fst (file_read_long (env_files env) fs PROC_RT_PERIOD_FILE) = 0"
    using start by (simp_all add: startable_def)
  have r3: "r3 = 0" using sch read by (rule scheduler_init_zero)
  obtain k0 where w: "dworld (daemon st) = boot_world k0" using start by (auto simp: startable_def)
  have "carrier_ok (good_request (map dl_ptr (plugin s))) c"
    using car(1) r2 by (intro rtf_carrier_init_ok [of "env_net env" "dnet (daemon st)" "chann (daemon st)" c k])
      (use start in \<open>simp_all add: startable_def Let_def good_request_def\<close>)
  moreover from sch(1) r3 have "rtf_scheduler_init (env_files env) fs (env_loader env) (env_conf_path env)
      (sys_nprocs (env_os env)) conf ((sched (daemon st))\<lparr>taskset := rtf_taskset_init\<rparr>) = Some (0, s)" by simp
  from scheduler_init_ok [OF this read, of "env_os env" k0] entries start st' w
  have "(libs_ok (plugin s) \<longrightarrow> sched_ok (env_os env) (map dl_ptr (plugin s)) (s, boot_world k0)) \<and> taskset s = rtf_taskset_init \<and>
      last_task_id s = 0 \<and> length (plugin s) = length (cplugins conf) \<and>
      (\<forall>j < length (plugin s). loaded j (cplugins conf ! j) (plugin s ! j))"
    by (simp add: startable_def)
  moreover have "cplugins conf = cplugins (config st) \<or> configuration_valid (sys_nprocs (env_os env)) conf = Some True"
    using parse by (auto simp: parse_configuration_def bind_eq_Some split: yaml_file.splits option.splits if_splits)
  ultimately show ?thesis using st' w by (simp add: daemon_inv_def)
qed

subsection \<open>Starting and running\<close>


definition ex_files :: "(string \<Rightarrow> int) files" where
  "ex_files = \<lparr>fs_scan = (\<lambda>fs p. Some (Some (fs p))), fs_print = (\<lambda>fs p v. Some (1, fs(p := v)))\<rparr>"

definition ex_yaml :: yaml_node where
  "ex_yaml = YAML_MAPPING [(YAML_SCALAR ''plugins'', YAML_SEQUENCE [YAML_MAPPING
     [(YAML_SCALAR ''name'', YAML_SCALAR ''FP''), (YAML_SCALAR ''plugin'', YAML_SCALAR ''/fp.so''),
      (YAML_SCALAR ''priority'', YAML_SCALAR ''1-99''), (YAML_SCALAR ''cores'', YAML_SCALAR ''0'')]])]"

definition ex_env :: "(unit, unit, string \<Rightarrow> int) environment" where
  "ex_env = \<lparr>env_os = ex_os, env_net = ex_net, env_files = ex_files, env_yaml = (\<lambda>_. YamlDoc (Some ex_yaml)), env_errno = False,
     env_loader = \<lparr>file_exists = (\<lambda>_. True), dl_open = (\<lambda>_. Some SCHED_FP_so), install_path = ''/usr/''\<rparr>, env_conf_path = ''/etc/r''\<rparr>"

definition ex_state :: "(unit, unit, string \<Rightarrow> int) daemon_state" where
  "ex_state = \<lparr>daemon = \<lparr>chann = \<lparr>sock = zero_usocket, last_n = replicate SET_MAX_SIZE 0,
        last_req = replicate SET_MAX_SIZE \<lparr>req_type = Some RTF_CONNECTION, param = zero_params\<rparr>,
        client = replicate SET_MAX_SIZE \<lparr>cl_state = EMPTY, cl_pid = 0\<rparr>\<rparr>,
      sched = \<lparr>num_of_cpu = 0, num_of_plugins = 0, last_task_id = 0, taskset = rtf_taskset_init, plugin = []\<rparr>,
      dworld = boot_world (), dnet = ()\<rparr>,
    proc_bk = \<lparr>bk_rr_timeslice = 0, bk_rt_runtime = 0\<rparr>, config = zero_configuration, dfiles = (\<lambda>_. 950000)\<rparr>"

lemma ex_parse:
  "parse_configuration (\<lambda>_. YamlDoc (Some ex_yaml)) 1 False zero_configuration path =
     Some (0, zero_configuration\<lparr>cplugins := [\<lparr>cp_name = Some ''FP'', cp_path = Some ''/fp.so'', cp_prio_min = Some 1,
       cp_prio_max = Some 99, cp_cores = Some [0]\<rparr>]\<rparr>)"
  by code_simp

lemma ex_startable: "startable ex_env ex_state"
  by (auto simp: startable_def ex_env_def ex_state_def ex_files_def file_read_long_def ex_net_def ex_os_def linux_prio_def SET_MAX_SIZE_def)


text \<open>The state in which that daemon starts.\<close>

definition ex_booted :: "(unit, unit, string \<Rightarrow> int) daemon_state" where
  "ex_booted = (case rtf_daemon_init ex_env ex_state of Some (_, st) \<Rightarrow> st | None \<Rightarrow> ex_state)"

lemmas ex_boot_defs = save_rt_kernel_params_def
      set_rt_kernel_params_def file_read_long_def file_write_long_def ex_files_def rtf_carrier_init_def usocket_init_def
      usocket_bind_def usocket_listen_def usocket_prepare_recv_def ex_net_def FD_SET_def zero_usocket_def SET_MAX_SIZE_def
      procfs_util_below_def rtf_scheduler_init_def rtf_plugins_init_def init_plugin_def find_and_open_plugin_def open_plugin_dll_def fullpath_def
      zero_configuration_def

lemma ex_boots:
  "rtf_daemon_init ex_env ex_state = Some (0, ex_booted)"
  "cplugins (config ex_booted) = [\<lparr>cp_name = Some ''FP'', cp_path = Some ''/fp.so'', cp_prio_min = Some 1,
     cp_prio_max = Some 99, cp_cores = Some [0]\<rparr>]"
  "map dl_ptr (plugin (sched (daemon ex_booted))) = [SCHED_FP_so]"
proof -
  have "length CHANNEL_PATH < SUN_PATH_MAX" by code_simp
  then have "\<exists>st. rtf_daemon_init ex_env ex_state = Some (0, st) \<and>
    cplugins (config st) = [\<lparr>cp_name = Some ''FP'', cp_path = Some ''/fp.so'', cp_prio_min = Some 1,
      cp_prio_max = Some 99, cp_cores = Some [0]\<rparr>] \<and> map dl_ptr (plugin (sched (daemon st))) = [SCHED_FP_so]"
    by (simp add: rtf_daemon_init_def ex_env_def ex_state_def ex_parse [unfolded zero_configuration_def, simplified] ex_os_def ex_boot_defs)
  then show "rtf_daemon_init ex_env ex_state = Some (0, ex_booted)"
  "cplugins (config ex_booted) = [\<lparr>cp_name = Some ''FP'', cp_path = Some ''/fp.so'', cp_prio_min = Some 1,
     cp_prio_max = Some 99, cp_cores = Some [0]\<rparr>]"
  "map dl_ptr (plugin (sched (daemon ex_booted))) = [SCHED_FP_so]"
    by (auto simp: ex_booted_def)
qed

lemma ex_entries: "\<forall>c \<in> set (cplugins (config ex_booted)). entry_ok c" "libs_ok (plugin (sched (daemon ex_booted)))"
proof -
  show "\<forall>c \<in> set (cplugins (config ex_booted)). entry_ok c"
    by (simp add: ex_boots(2) entry_ok_def MAX_CPU_def)
  have "length (plugin (sched (daemon ex_booted))) = 1" using ex_boots(3) by auto
  then show "libs_ok (plugin (sched (daemon ex_booted)))" by (simp add: libs_ok_def)
qed


lemma malformed_configuration_starts:
  assumes "startable env st" and "env_yaml env (env_conf_path env) = YamlBad" and "config st = zero_configuration"
    and "rtf_carrier_init (env_net env) (dnet (daemon st)) (chann (daemon st)) = Some (0, c, k)"
    and "fst (file_read_long (env_files env) (dfiles st) PROC_RR_TIMESLICE_FILE) = 0"
    and "fs = snd (set_rt_kernel_params (env_files env) (dfiles st) (csystem (config st)))"
    and "file_read_long (env_files env) fs PROC_RT_RUNTIME_FILE = (0, Some rt)" and "- 1 \<le> rt"
    and "file_read_long (env_files env) fs PROC_RT_PERIOD_FILE = (0, Some pd)" and "0 < pd"
  shows "\<exists>st'. rtf_daemon_init env st = Some (0, st')"
proof -
  let ?io = "env_files env"
  have read: "\<exists>v. file_read_long ?io fs f = (0, Some v)" if "fst (file_read_long ?io fs f) = 0" for fs f
    using that by (auto simp: file_read_long_def split: option.splits)
  obtain x where x: "file_read_long ?io (dfiles st) PROC_RR_TIMESLICE_FILE = (0, Some x)" using read [OF assms(5)] by blast
  obtain y where y: "file_read_long ?io (dfiles st) PROC_RT_RUNTIME_FILE = (0, Some y)"
    using read assms(1) by (fastforce simp: startable_def)
  obtain b where save: "save_rt_kernel_params ?io (dfiles st) (proc_bk st) = (0, b)"
    using x y by (auto simp: save_rt_kernel_params_def Let_def)
  obtain r1 where set: "set_rt_kernel_params ?io (dfiles st) (csystem zero_configuration) = (r1, fs)"
    using assms(3,6) by (cases "set_rt_kernel_params ?io (dfiles st) (csystem zero_configuration)") auto
  note rp = assms(7-10)
  have "\<not> (rt \<noteq> - 1 \<and> procfs_util_below rt pd (Finite 0))"
  proof -
    have "0 \<le> f64_round (f64_round (of_int rt) / f64_round (of_int pd))" if "rt \<noteq> - 1"
    proof -
      have "0 \<le> f64_round (of_int rt)" "0 \<le> f64_round (of_int pd)"
        using that rp(2,4) by (simp_all add: f64_round_def fround_nonneg)
      then show ?thesis by (simp add: f64_round_def fround_nonneg)
    qed
    then show ?thesis using rp(4) by (auto simp: procfs_util_below_def)
  qed
  then obtain s where "rtf_scheduler_init ?io fs (env_loader env) (env_conf_path env) (sys_nprocs (env_os env)) zero_configuration
      ((sched (daemon st))\<lparr>taskset := rtf_taskset_init\<rparr>) = Some (0, s)"
    using rp by (auto simp: rtf_scheduler_init_def rtf_plugins_init_def zero_configuration_def)
  then show ?thesis
    using assms(2-4) save set by (simp add: rtf_daemon_init_def parse_configuration_def Let_def)
qed

text \<open>C39: A configuration file that libyaml cannot load does not stop the daemon.  When the rest of the start succeeds (the socket
  opens, the kernel files hold numbers, and after they were written a positive period and a runtime of at least -1), the initialisation
  reports success; the daemon has no plugin, and it refuses every task.\<close>

theorem malformed_configuration_starts_empty:
  assumes "startable env st" and "env_yaml env (env_conf_path env) = YamlBad" and "config st = zero_configuration"
    and "rtf_carrier_init (env_net env) (dnet (daemon st)) (chann (daemon st)) = Some (0, c, k)"
    and "fst (file_read_long (env_files env) (dfiles st) PROC_RR_TIMESLICE_FILE) = 0"
    and "fs = snd (set_rt_kernel_params (env_files env) (dfiles st) (csystem (config st)))"
    and "file_read_long (env_files env) fs PROC_RT_RUNTIME_FILE = (0, Some rt)" and "- 1 \<le> rt"
    and "file_read_long (env_files env) fs PROC_RT_PERIOD_FILE = (0, Some pd)" and "0 < pd"
  shows "\<exists>st'. rtf_daemon_init env st = Some (0, st') \<and> plugin (sched (daemon st')) = [] \<and>
    (\<forall>tp ppid p. sys_calloc (env_os env) (heap (dworld (daemon st'))) = Some p \<longrightarrow>
       (\<exists>s w. rtf_scheduler_task_create (env_os env) tp ppid (sched (daemon st'), dworld (daemon st')) = Some (RTF_NO, s, w) \<and>
          ts_tasks (taskset s) = []))"
proof -
  obtain st' where run: "rtf_daemon_init env st = Some (0, st')" using malformed_configuration_starts [OF assms] by blast
  have conf: "cplugins (config st') = []"
    using run assms(2,3) by (auto simp: rtf_daemon_init_def parse_configuration_def bind_eq_Some Let_def zero_configuration_def
      split: prod.splits if_splits)
  then have I: "length (plugin (sched (daemon st'))) = 0" "taskset (sched (daemon st')) = rtf_taskset_init"
      "libs_ok (plugin (sched (daemon st'))) \<longrightarrow> daemon_inv (env_os env) (map dl_ptr (plugin (sched (daemon st')))) (daemon st')"
    using daemon_init_ok [OF run assms(1)] conf by auto
  then have inv: "sched_inv (env_os env) (sched (daemon st'), dworld (daemon st'))"
    by (simp add: daemon_inv_def sched_ok_def libs_ok_def)
  have "\<exists>s w. rtf_scheduler_task_create (env_os env) tp ppid (sched (daemon st'), dworld (daemon st')) = Some (RTF_NO, s, w) \<and>
      ts_tasks (taskset s) = []"
    if p: "sys_calloc (env_os env) (heap (dworld (daemon st'))) = Some p" for tp ppid p
    unfolding create_eq [OF p] using sched_invD(2) [OF inv] I(1,2)
    by (subst test_and_assign_eq) (simp_all add: decision_def first_answer_def rtf_taskset_init_def list_init_def)
  then show ?thesis using I(1) run by blast
qed

lemma malformed_configuration_starts_empty_witness:
  "\<exists>st. rtf_daemon_init (ex_env\<lparr>env_yaml := (\<lambda>_. YamlBad)\<rparr>) ex_state = Some (0, st) \<and> plugin (sched (daemon st)) = []"
proof -
  let ?env = "ex_env\<lparr>env_yaml := (\<lambda>_. YamlBad)\<rparr>"
  have "length CHANNEL_PATH < SUN_PATH_MAX" by code_simp
  then obtain c k where c: "rtf_carrier_init (env_net ?env) (dnet (daemon ex_state)) (chann (daemon ex_state)) = Some (0, c, k)"
    by (simp add: ex_env_def ex_state_def ex_boot_defs)
  have "startable ?env ex_state" using ex_startable by (simp add: startable_def ex_env_def)
  from malformed_configuration_starts_empty [OF this _ _ c _ refl, of "- 1" 950000] show ?thesis
    by (force simp: ex_env_def ex_state_def zero_configuration_def ex_boot_defs PROC_RR_TIMESLICE_FILE_def PROC_RT_RUNTIME_FILE_def
      PROC_RT_PERIOD_FILE_def)
qed

subsection \<open>Stopping\<close>

lemma free_all_tasks_frees:
  "ts_ok h0 ts \<Longrightarrow> free_all_tasks ts h = Some (rtf_taskset_init, h |` (- set (ts_tasks ts)))"
proof (induction "ts_tasks ts" arbitrary: ts h)
  case Nil
  then have "ts = rtf_taskset_init" by (cases ts) (auto simp: ts_ok_def list_ok_def rtf_taskset_init_def list_init_def)
  then show ?case
    by (subst free_all_tasks.simps) (simp add: rtf_taskset_remove_top_def list_remove_top_def list_is_empty_def
      rtf_taskset_init_def list_init_def restrict_map_def)
next
  case (Cons p ps)
  note xs = Cons.hyps(2) [symmetric]
  have l: "list_ok ts" using Cons.prems by (simp add: ts_ok_def)
  have "ts_ok h0 (ts_of ps)" using Cons.prems by (simp add: ts_ok_def [of h0 ts] xs)
  moreover have "ts_tasks (ts_of ps) = ps" by (simp add: ts_of_def)
  ultimately have "free_all_tasks (ts_of ps) (h(p := None)) = Some (rtf_taskset_init, h(p := None) |` (- set ps))"
    using Cons.hyps(1) [of "ts_of ps" "h(p := None)"] by simp
  moreover have "h(p := None) |` (- set ps) = h |` (- set (ts_tasks ts))"
    by (simp add: restrict_map_def fun_eq_iff xs)
  moreover have "rtf_taskset_remove_top ts = Some (Some p, ts_of ps)"
    by (simp add: rtf_taskset_remove_top_def list_remove_top_spec [OF l] xs ts_of_def)
  ultimately show ?case by (subst free_all_tasks.simps) (simp add: rtf_task_release_def)
qed

lemma kernel_files_restored:
  fixes io :: "'f files"
  assumes law: "\<forall>fs p v. \<exists>r fs'. fs_print io fs p v = Some (r, fs') \<and> 0 < r \<and> fs_scan io fs' p = Some (Some v) \<and>
      (\<forall>q. q \<noteq> p \<longrightarrow> fs_scan io fs' q = fs_scan io fs q)"
    and save: "save_rt_kernel_params io fs b = (0, b')"
    and set: "set_rt_kernel_params io fs c = (r1, fs1)" and restore: "restore_rt_kernel_params io fs1 b' = (r2, fs2)"
  shows "r1 = 0 \<and> r2 = 0 \<and> fs_scan io fs1 PROC_RR_TIMESLICE_FILE = Some (Some (rr_timeslice c)) \<and>
    fs_scan io fs1 PROC_RT_RUNTIME_FILE = Some (Some (- 1)) \<and> (\<forall>q. fs_scan io fs2 q = fs_scan io fs q)"
proof -
  have ne: "PROC_RR_TIMESLICE_FILE \<noteq> PROC_RT_RUNTIME_FILE" by (simp add: PROC_RR_TIMESLICE_FILE_def PROC_RT_RUNTIME_FILE_def)
  have two: "\<exists>fb. (let (res, fs) = file_write_long io fa PROC_RR_TIMESLICE_FILE x
      in if res \<noteq> 0 then (res, fs)
         else let (res, fs) = file_write_long io fs PROC_RT_RUNTIME_FILE y in if res \<noteq> 0 then (res, fs) else (0, fs)) = (0, fb) \<and>
      fs_scan io fb PROC_RR_TIMESLICE_FILE = Some (Some x) \<and> fs_scan io fb PROC_RT_RUNTIME_FILE = Some (Some y) \<and>
      (\<forall>q. q \<noteq> PROC_RR_TIMESLICE_FILE \<longrightarrow> q \<noteq> PROC_RT_RUNTIME_FILE \<longrightarrow> fs_scan io fb q = fs_scan io fa q)" for fa x y
  proof -
    obtain r fm where m: "fs_print io fa PROC_RR_TIMESLICE_FILE x = Some (r, fm)" "0 < r"
      "fs_scan io fm PROC_RR_TIMESLICE_FILE = Some (Some x)" "\<forall>q. q \<noteq> PROC_RR_TIMESLICE_FILE \<longrightarrow> fs_scan io fm q = fs_scan io fa q"
      using law by blast
    obtain r' fb where b: "fs_print io fm PROC_RT_RUNTIME_FILE y = Some (r', fb)" "0 < r'"
      "fs_scan io fb PROC_RT_RUNTIME_FILE = Some (Some y)" "\<forall>q. q \<noteq> PROC_RT_RUNTIME_FILE \<longrightarrow> fs_scan io fb q = fs_scan io fm q"
      using law by blast
    show ?thesis using m b ne by (intro exI [of _ fb]) (simp add: file_write_long_def)
  qed
  obtain x y where xy: "fs_scan io fs PROC_RR_TIMESLICE_FILE = Some (Some x)" "fs_scan io fs PROC_RT_RUNTIME_FILE = Some (Some y)"
      "bk_rr_timeslice b' = x" "bk_rt_runtime b' = y"
    using save by (auto simp: save_rt_kernel_params_def file_read_long_def Let_def split: option.splits if_splits)
  note S = set [unfolded set_rt_kernel_params_def] and R = restore [unfolded restore_rt_kernel_params_def xy(3,4)]
  have 1: "r1 = 0 \<and> fs_scan io fs1 PROC_RR_TIMESLICE_FILE = Some (Some (rr_timeslice c)) \<and> fs_scan io fs1 PROC_RT_RUNTIME_FILE = Some (Some (- 1)) \<and>
      (\<forall>q. q \<noteq> PROC_RR_TIMESLICE_FILE \<longrightarrow> q \<noteq> PROC_RT_RUNTIME_FILE \<longrightarrow> fs_scan io fs1 q = fs_scan io fs q)"
    using two [of fs "rr_timeslice c" "- 1"] S by auto
  have 2: "r2 = 0 \<and> fs_scan io fs2 PROC_RR_TIMESLICE_FILE = Some (Some x) \<and> fs_scan io fs2 PROC_RT_RUNTIME_FILE = Some (Some y) \<and>
      (\<forall>q. q \<noteq> PROC_RR_TIMESLICE_FILE \<longrightarrow> q \<noteq> PROC_RT_RUNTIME_FILE \<longrightarrow> fs_scan io fs2 q = fs_scan io fs1 q)"
    using two [of fs1 x y] R by auto
  have "fs_scan io fs2 q = fs_scan io fs q" for q
    using 1 2 xy(1,2) by (cases "q = PROC_RR_TIMESLICE_FILE"; cases "q = PROC_RT_RUNTIME_FILE") auto
  with 1 2 show ?thesis by blast
qed

definition freed_plugin :: "rtf_plugin \<Rightarrow> rtf_plugin" where
  "freed_plugin p = p\<lparr>util_free_percpu := [], cpulist := [], task_count_percpu := []\<rparr>"

lemma plugins_freed: "rtf_plugins_destroy plgs (int (length plgs)) = Some (map freed_plugin plgs)"
proof -
  have "for_each (\<lambda>plgs i. do { p \<leftarrow> aget plgs i; aset plgs i (freed_plugin p) }) plgs [0..<k] =
      Some (map freed_plugin (take k plgs) @ drop k plgs)" if "k \<le> length plgs" for k
    using that
  proof (induction k)
    case (Suc k)
    then have "drop k plgs = plgs ! k # drop (Suc k) plgs" by (simp add: Cons_nth_drop_Suc)
    with Suc show ?case by (simp add: for_each_append c_simps nth_append list_update_append take_Suc_conv_app_nth)
  qed simp
  then show ?thesis by (simp add: rtf_plugins_destroy_def freed_plugin_def)
qed

lemma stops_clean:
  assumes "rtf_daemon_init env st = Some (0, st1)" and "dfiles st2 = dfiles st1" and "proc_bk st2 = proc_bk st1"
    and "sched_inv os (sched (daemon st2), dworld (daemon st2))"
    and "\<forall>fs p v. \<exists>r fs'. fs_print (env_files env) fs p v = Some (r, fs') \<and> 0 < r \<and>
      fs_scan (env_files env) fs' p = Some (Some v) \<and> (\<forall>q. q \<noteq> p \<longrightarrow> fs_scan (env_files env) fs' q = fs_scan (env_files env) fs q)"
  shows "\<exists>st3. rtf_daemon_destroy env st2 = Some st3 \<and> ts_tasks (taskset (sched (daemon st3))) = [] \<and>
    heap (dworld (daemon st3)) = heap (dworld (daemon st2)) |` (- set (ts_tasks (taskset (sched (daemon st2))))) \<and>
    plugin (sched (daemon st3)) = map freed_plugin (plugin (sched (daemon st2))) \<and>
    fs_scan (env_files env) (dfiles st1) PROC_RR_TIMESLICE_FILE = Some (Some (rr_timeslice (csystem (config st1)))) \<and>
    fs_scan (env_files env) (dfiles st1) PROC_RT_RUNTIME_FILE = Some (Some (- 1)) \<and>
    (\<forall>q. fs_scan (env_files env) (dfiles st3) q = fs_scan (env_files env) (dfiles st) q)"
proof -
  obtain b r1 fs1 where save: "save_rt_kernel_params (env_files env) (dfiles st) (proc_bk st) = (0, b)"
      and set: "set_rt_kernel_params (env_files env) (dfiles st) (csystem (config st1)) = (r1, fs1)"
      and st1: "proc_bk st1 = b" "dfiles st1 = fs1"
    using assms(1) by (auto simp: rtf_daemon_init_def bind_eq_Some Let_def split: prod.splits if_splits)
  obtain r2 fs2 where res: "restore_rt_kernel_params (env_files env) fs1 b = (r2, fs2)"
    by (cases "restore_rt_kernel_params (env_files env) fs1 b")
  note K = kernel_files_restored [OF assms(5) save set res]
  show ?thesis
    using free_all_tasks_frees [OF sched_invD(1) [OF assms(4)]] sched_invD(2) [OF assms(4)] K res st1 assms(2,3)
    by (simp add: rtf_daemon_destroy_def rtf_scheduler_destroy_def plugins_freed Let_def) (simp add: rtf_taskset_init_def list_init_def)
qed

text \<open>C30: The tear down of the daemon is defined, frees every task and nothing else of the store, frees the arrays of every
  plugin, and gives the kernel files
  back the values they had before the initialisation, provided that a file holds what was last written to it.
  While the daemon runs it has the configured time slice and no limit on real-time runtime.\<close>

theorem daemon_stops_clean:
  assumes "rtf_daemon_init env st = Some (0, st1)" and "dfiles st2 = dfiles st1" and "proc_bk st2 = proc_bk st1"
    and "sched_inv os (sched (daemon st2), dworld (daemon st2))"
    and "\<forall>fs p v. \<exists>r fs'. fs_print (env_files env) fs p v = Some (r, fs') \<and> 0 < r \<and>
      fs_scan (env_files env) fs' p = Some (Some v) \<and> (\<forall>q. q \<noteq> p \<longrightarrow> fs_scan (env_files env) fs' q = fs_scan (env_files env) fs q)"
  shows "\<exists>st3. rtf_daemon_destroy env st2 = Some st3 \<and> ts_tasks (taskset (sched (daemon st3))) = [] \<and>
    heap (dworld (daemon st3)) = heap (dworld (daemon st2)) |` (- set (ts_tasks (taskset (sched (daemon st2))))) \<and>
    plugin (sched (daemon st3)) = map freed_plugin (plugin (sched (daemon st2))) \<and>
    fs_scan (env_files env) (dfiles st1) PROC_RR_TIMESLICE_FILE = Some (Some (rr_timeslice (csystem (config st1)))) \<and>
    fs_scan (env_files env) (dfiles st1) PROC_RT_RUNTIME_FILE = Some (Some (- 1)) \<and>
    (\<forall>q. fs_scan (env_files env) (dfiles st3) q = fs_scan (env_files env) (dfiles st) q)"
  using assms by (rule stops_clean)

lemma daemon_stops_clean_witness:
  "\<exists>st3. rtf_daemon_destroy ex_env ex_booted = Some st3 \<and> dfiles st3 PROC_RT_RUNTIME_FILE = 950000"
proof -
  have b: "sched_inv ex_os (sched (daemon ex_booted), dworld (daemon ex_booted))"
    using daemon_init_ok [OF ex_boots(1) ex_startable ex_entries(1)] ex_entries(2) daemon_invD(3) by (fastforce simp: ex_env_def)
  have law: "\<forall>fs p v. \<exists>r fs'. fs_print (env_files ex_env) fs p v = Some (r, fs') \<and> 0 < r \<and>
      fs_scan (env_files ex_env) fs' p = Some (Some v) \<and>
      (\<forall>q. q \<noteq> p \<longrightarrow> fs_scan (env_files ex_env) fs' q = fs_scan (env_files ex_env) fs q)"
    by (simp add: ex_env_def ex_files_def)
  from daemon_stops_clean [OF ex_boots(1) refl refl b law]
  show ?thesis by (auto simp: ex_env_def ex_files_def ex_state_def)
qed

end
