(* ===== verification/EntryPoint.thy ===== *)
theory EntryPoint
  imports Startup_Correct
begin

text \<open>
  The entry and exit points of the daemon, \<open>daemon/retif_daemon_main.c\<close>, with the logger of \<open>common/logger.h\<close>.

  The argument parser of the C library is a parameter: it turns the command line into the calls of
  \<open>parse_opt\<close>, a key with its argument and the number of positional arguments seen.  The default path of the
  configuration is fixed when the daemon is built.  Only the messages of \<open>main\<close> itself are modelled.
\<close>

subsection \<open>Logging\<close>

datatype LOG_HANDLER = LOG_STDOUT | LOG_SYS | LOG_FILE

definition ERR :: int where "ERR = 10"
definition WARNING :: int where "WARNING = 20"
definition INFO :: int where "INFO = 30"
definition DEBUG :: int where "DEBUG = 40"

text \<open>\<open>log_output\<close> is the file that messages are appended to, NULL when it could not be opened.\<close>

record logger =
  loglvl :: int
  handler :: LOG_HANDLER
  log_output :: "string option"

type_synonym log_line = "LOG_HANDLER \<times> string"

definition OUT :: "logger \<Rightarrow> string \<Rightarrow> log_line option" where
  "OUT lg str = (if handler lg = LOG_FILE \<and> log_output lg = None then None else Some (handler lg, str))"

definition LOG :: "logger \<Rightarrow> int \<Rightarrow> string \<Rightarrow> log_line list option" where
  "LOG lg level str = (if level < loglvl lg then map_option (\<lambda>m. [m]) (OUT lg str) else Some [])"

definition NL :: string where "NL = [CHR 0x0A]"
definition CRLF :: string where "CRLF = [CHR 0x0D, CHR 0x0A]"

subsection \<open>Arguments\<close>

record arguments =
  level :: int
  output_file :: string
  conf_file :: string

datatype opt_key = Opt char | ARGP_KEY_ARG | ARGP_KEY_END | ARGP_KEY_OTHER

datatype opt_result = Parsed arguments | Usage | ARGP_ERR_UNKNOWN

definition atoi :: "string \<Rightarrow> int" where
  "atoi s = (case strtol s of None \<Rightarrow> 0 | Some (v, _) \<Rightarrow> s32_of_int v)"

definition parse_opt :: "opt_key \<Rightarrow> string \<Rightarrow> nat \<Rightarrow> arguments \<Rightarrow> opt_result" where
  "parse_opt key arg arg_num args =
     (case key of
        Opt c \<Rightarrow>
          if c = CHR ''l'' then Parsed (args\<lparr>level := atoi arg\<rparr>)
          else if c = CHR ''o'' then Parsed (args\<lparr>output_file := arg\<rparr>)
          else if c = CHR ''c'' then Parsed (args\<lparr>conf_file := arg\<rparr>)
          else ARGP_ERR_UNKNOWN
      | ARGP_KEY_ARG \<Rightarrow> if arg_num \<ge> 1 then Usage else Parsed args
      | ARGP_KEY_END \<Rightarrow> Parsed args
      | ARGP_KEY_OTHER \<Rightarrow> ARGP_ERR_UNKNOWN)"

text \<open>The calls of \<open>argp_parse\<close>: a key that the parser does not know is skipped, and the usage message ends the process.\<close>

fun parse_opts :: "(opt_key \<times> string \<times> nat) list \<Rightarrow> arguments \<Rightarrow> arguments option" where
  "parse_opts [] args = Some args"
| "parse_opts ((key, arg, n) # calls) args =
     (case parse_opt key arg n args of
        Parsed args \<Rightarrow> parse_opts calls args
      | Usage \<Rightarrow> None
      | ARGP_ERR_UNKNOWN \<Rightarrow> parse_opts calls args)"

subsection \<open>Start and interrupt\<close>

text \<open>The process ends with a status, or goes on in the loop of the daemon, with the logger it has set up.\<close>

datatype ('k, 'n, 'f) outcome = Exits int | Loops logger "('k, 'n, 'f) daemon_state"

definition EXIT_SUCCESS :: int where "EXIT_SUCCESS = 0"
definition EXIT_FAILURE :: int where "EXIT_FAILURE = 1"
definition EX_USAGE :: int where "EX_USAGE = 64"

definition daemon_main ::
  "(string \<Rightarrow> bool) \<Rightarrow> string \<Rightarrow> ('k, 'n, 'f) environment \<Rightarrow> (opt_key \<times> string \<times> nat) list \<Rightarrow>
   ('k, 'n, 'f) daemon_state \<Rightarrow> (('k, 'n, 'f) outcome \<times> log_line list) option" where
  "daemon_main fopen_ok settings_cfg env calls st =
     (case parse_opts calls \<lparr>level = 20, output_file = [], conf_file = settings_cfg\<rparr> of
        None \<Rightarrow> Some (Exits EX_USAGE, [])
      | Some args \<Rightarrow> do {
          let lg = (if output_file args \<noteq> []
                    then \<lparr>loglvl = level args, handler = LOG_FILE,
                          log_output = (if fopen_ok (output_file args) then Some (output_file args) else None)\<rparr>
                    else \<lparr>loglvl = level args, handler = LOG_STDOUT, log_output = None\<rparr>);
          o1 \<leftarrow> LOG lg ERR (''-------------------------------'' @ CRLF);
          if conf_file args = [] then do {
            o2 \<leftarrow> LOG lg ERR (''Empty argument to -c|--config option!'' @ NL);
            Some (Exits EXIT_FAILURE, o1 @ o2)
          } else do {
            o2 \<leftarrow> LOG lg INFO (''ReTiF daemon - Daemon started.'' @ CRLF);
            (res, st) \<leftarrow> rtf_daemon_init (env\<lparr>env_conf_path := conf_file args\<rparr>) st;
            if res < 0 then do {
              o3 \<leftarrow> LOG lg ERR (''Could not initialize Retif daemon.'' @ NL);
              Some (Exits EXIT_FAILURE, o1 @ o2 @ o3)
            } else Some (Loops lg st, o1 @ o2)
          }
        })"

text \<open>The handler of SIGINT.\<close>

definition term_handler ::
  "logger \<Rightarrow> ('k, 'n, 'f) environment \<Rightarrow> ('k, 'n, 'f) daemon_state \<Rightarrow>
   (('k, 'n, 'f) outcome \<times> log_line list \<times> ('k, 'n, 'f) daemon_state) option" where
  "term_handler lg env st = do {
     out \<leftarrow> LOG lg INFO (NL @ ''ReTiF daemon was interrupted. It will destroy data and stop.'' @ NL);
     st \<leftarrow> rtf_daemon_destroy env st;
     Some (Exits EXIT_SUCCESS, out, st)
   }"

subsection \<open>Properties\<close>

lemma daemon_init_result: "rtf_daemon_init env st = Some (r, st') \<Longrightarrow> r = 0 \<or> r = - 1"
  by (auto simp: rtf_daemon_init_def bind_eq_Some Let_def split: prod.splits if_splits)

lemma LOG_any: "LOG lg l s = Some o1 \<Longrightarrow> \<exists>o2. LOG lg l s' = Some o2"
  by (auto simp: LOG_def OUT_def split: if_splits)

lemma main_inits:
  assumes "daemon_main fopen_ok cfg env calls st = Some (Loops lg st', out)"
  shows "\<exists>path. rtf_daemon_init (env\<lparr>env_conf_path := path\<rparr>) st = Some (0, st')" and "\<exists>o2. LOG lg INFO str = Some o2"
proof -
  obtain path r where "rtf_daemon_init (env\<lparr>env_conf_path := path\<rparr>) st = Some (r, st')" "\<not> r < 0"
    using assms by (auto simp: daemon_main_def bind_eq_Some Let_def split: option.splits if_splits)
  moreover from this have "r = 0" by (auto dest: daemon_init_result)
  ultimately show "\<exists>path. rtf_daemon_init (env\<lparr>env_conf_path := path\<rparr>) st = Some (0, st')" by blast
  show "\<exists>o2. LOG lg INFO str = Some o2"
    using assms by (auto simp: daemon_main_def bind_eq_Some Let_def split: option.splits if_splits intro: LOG_any)
qed

text \<open>Where a signal may find the daemon in the round that starts in \<open>d\<close>: waiting for its clients, or between the visits of two
  descriptors, or before the next round.\<close>

definition signal_point :: "'k kernel \<Rightarrow> 'n rtf_sockets \<Rightarrow> ('k, 'n) rtf_daemon \<Rightarrow> ('k, 'n) rtf_daemon \<Rightarrow> bool" where
  "signal_point os net d d' \<longleftrightarrow> d' = d \<or> (\<exists>m. interrupted_round os net m d = Some d')"

lemma signal_point_inv:
  assumes "signal_point os net d d'" and "daemon_inv os libs d" and "kernel_ok os" and "sockets_ok net (good_request libs)"
    and "last_task_id (sched d) + int SET_MAX_SIZE \<le> ID_BOUND"
  shows "daemon_inv os libs d'"
  using assms(1,2) interrupted_round_keeps(1) [OF assms(2-5)] unfolding signal_point_def by (metis option.inject)

text \<open>C8: The life of the daemon, for a configuration that fits the machine (\<open>entry_ok\<close>: the cores of an entry are below their number, its priorities at most
  99; round robin and rate monotonic at most once each), a system it can start on (\<open>startable\<close>), good requests, memory, and
  kernel files in which every write succeeds and is read back.  When \<open>main\<close> enters the loop, any number of rounds that keeps the ids below a million is
  defined, and so is every part of the next one; when SIGINT interrupts the daemon while it waits or between two visits of that round, it
  exits with success, every task that exists at that moment is freed, and the kernel files have the values they had before
  the daemon started.  (The sample configuration of the repository does not fit: \<open>shipped_cores_overrun\<close>.)\<close>

theorem daemon_life:
  assumes "daemon_main fopen_ok cfg env calls st = Some (Loops lg st', out)" and "startable env st"
    and "\<forall>c \<in> set (cplugins (config st')). entry_ok c" and "libs_ok (plugin (sched (daemon st')))"
    and "kernel_ok (env_os env)"
    and "sockets_ok (env_net env) (good_request (map dl_ptr (plugin (sched (daemon st')))))"
    and "int SET_MAX_SIZE * int (Suc n) \<le> ID_BOUND"
    and "\<forall>fs p v. \<exists>r fs'. fs_print (env_files env) fs p v = Some (r, fs') \<and> 0 < r \<and>
      fs_scan (env_files env) fs' p = Some (Some v) \<and> (\<forall>q. q \<noteq> p \<longrightarrow> fs_scan (env_files env) fs' q = fs_scan (env_files env) fs q)"
  shows "\<exists>d0. for_each (\<lambda>d _. rtf_daemon_round (env_os env) (env_net env) d) (daemon st') [0..<n] = Some d0 \<and>
    (\<forall>m. \<exists>d. interrupted_round (env_os env) (env_net env) m d0 = Some d) \<and>
    (\<forall>d. signal_point (env_os env) (env_net env) d0 d \<longrightarrow>
      (\<exists>msg st3. term_handler lg env (st'\<lparr>daemon := d\<rparr>) = Some (Exits EXIT_SUCCESS, msg, st3) \<and>
        ts_tasks (taskset (sched (daemon st3))) = [] \<and>
        (\<forall>p \<in> set (ts_tasks (taskset (sched d))). heap (dworld (daemon st3)) p = None) \<and>
        (\<forall>q. fs_scan (env_files env) (dfiles st3) q = fs_scan (env_files env) (dfiles st) q)))"
proof -
  obtain path where init: "rtf_daemon_init (env\<lparr>env_conf_path := path\<rparr>) st = Some (0, st')"
    using main_inits(1) [OF assms(1)] by blast
  let ?env = "env\<lparr>env_conf_path := path\<rparr>" and ?libs = "map dl_ptr (plugin (sched (daemon st')))"
  have "startable ?env st" using assms(2) by (simp add: startable_def)
  from daemon_init_ok [OF init this assms(3)] assms(4)
  have I: "daemon_inv (env_os env) ?libs (daemon st')" "last_task_id (sched (daemon st')) = 0"
    by simp_all
  then obtain d0 where d0: "for_each (\<lambda>d _. rtf_daemon_round (env_os env) (env_net env) d) (daemon st') [0..<n] = Some d0"
      "daemon_inv (env_os env) ?libs d0" "last_task_id (sched d0) + int SET_MAX_SIZE \<le> ID_BOUND"
    using rounds_keep [OF I(1) assms(5,6), of n] assms(7) by (auto simp: algebra_simps)
  obtain msg where msg: "LOG lg INFO (NL @ ''ReTiF daemon was interrupted. It will destroy data and stop.'' @ NL) = Some msg"
    using main_inits(2) [OF assms(1)] by blast
  have stop: "\<exists>msg st3. term_handler lg env (st'\<lparr>daemon := d\<rparr>) = Some (Exits EXIT_SUCCESS, msg, st3) \<and>
        ts_tasks (taskset (sched (daemon st3))) = [] \<and>
        (\<forall>p \<in> set (ts_tasks (taskset (sched d))). heap (dworld (daemon st3)) p = None) \<and>
        (\<forall>q. fs_scan (env_files env) (dfiles st3) q = fs_scan (env_files env) (dfiles st) q)"
    if d: "signal_point (env_os env) (env_net env) d0 d" for d
  proof -
    have ts: "sched_inv (env_os env) (sched (daemon (st'\<lparr>daemon := d\<rparr>)), dworld (daemon (st'\<lparr>daemon := d\<rparr>)))"
      using daemon_invD(3) [OF signal_point_inv [OF d d0(2) assms(5,6) d0(3)]] by simp
    from stops_clean [OF init _ _ ts] assms(8)
    obtain st3 where "rtf_daemon_destroy ?env (st'\<lparr>daemon := d\<rparr>) = Some st3" "ts_tasks (taskset (sched (daemon st3))) = []"
        "heap (dworld (daemon st3)) = heap (dworld d) |` (- set (ts_tasks (taskset (sched d))))"
        "\<forall>q. fs_scan (env_files env) (dfiles st3) q = fs_scan (env_files env) (dfiles st) q" by auto
    moreover have "rtf_daemon_destroy ?env = rtf_daemon_destroy env" by (simp add: rtf_daemon_destroy_def fun_eq_iff)
    ultimately show ?thesis using msg by (auto simp: term_handler_def restrict_map_def)
  qed
  then show ?thesis using d0(1) interrupted_round_keeps(1) [OF d0(2) assms(5,6) d0(3)] by blast
qed

definition ex_logger :: logger where
  "ex_logger = \<lparr>loglvl = 20, handler = LOG_STDOUT, log_output = None\<rparr>"

lemma daemon_life_witness:
  "daemon_main (\<lambda>_. True) ''/etc/r'' ex_env [(ARGP_KEY_END, [], 0)] ex_state = Some (Loops ex_logger ex_booted, [(LOG_STDOUT, ''-------------------------------'' @ CRLF)]) \<and>
   (\<exists>d0 d msg st3. for_each (\<lambda>d _. rtf_daemon_round ex_os ex_net d) (daemon ex_booted) [0..<1000] = Some d0 \<and>
     interrupted_round ex_os ex_net 2 d0 = Some d \<and>
     term_handler ex_logger ex_env (ex_booted\<lparr>daemon := d\<rparr>) = Some (Exits 0, msg, st3) \<and> dfiles st3 PROC_RT_RUNTIME_FILE = 950000)"
proof -
  have env: "env_os ex_env = ex_os" "env_net ex_env = ex_net" "ex_env\<lparr>env_conf_path := ''/etc/r''\<rparr> = ex_env"
    by (simp_all add: ex_env_def)
  have main: "daemon_main (\<lambda>_. True) ''/etc/r'' ex_env [(ARGP_KEY_END, [], 0)] ex_state =
      Some (Loops ex_logger ex_booted, [(LOG_STDOUT, ''-------------------------------'' @ CRLF)])"
    by (simp add: daemon_main_def ex_logger_def parse_opt_def LOG_def OUT_def ERR_def INFO_def env ex_boots(1))
  have law: "\<forall>fs p v. \<exists>r fs'. fs_print (env_files ex_env) fs p v = Some (r, fs') \<and> 0 < r \<and>
      fs_scan (env_files ex_env) fs' p = Some (Some v) \<and>
      (\<forall>q. q \<noteq> p \<longrightarrow> fs_scan (env_files ex_env) fs' q = fs_scan (env_files ex_env) fs q)"
    by (simp add: ex_env_def ex_files_def)
  have n: "int SET_MAX_SIZE * int (Suc 1000) \<le> ID_BOUND" by (simp add: SET_MAX_SIZE_def ID_BOUND_def)
  obtain d0 where d0: "for_each (\<lambda>d _. rtf_daemon_round ex_os ex_net d) (daemon ex_booted) [0..<1000] = Some d0"
      "\<forall>m. \<exists>d. interrupted_round ex_os ex_net m d0 = Some d"
      "\<forall>d. signal_point ex_os ex_net d0 d \<longrightarrow> (\<exists>msg st3. term_handler ex_logger ex_env (ex_booted\<lparr>daemon := d\<rparr>) = Some (Exits EXIT_SUCCESS, msg, st3) \<and>
        ts_tasks (taskset (sched (daemon st3))) = [] \<and> (\<forall>p \<in> set (ts_tasks (taskset (sched d))). heap (dworld (daemon st3)) p = None) \<and>
        (\<forall>q. fs_scan (env_files ex_env) (dfiles st3) q = fs_scan (env_files ex_env) (dfiles ex_state) q))"
    using daemon_life [OF main ex_startable ex_entries _ _ n law, unfolded env, OF ex_kernel ex_sockets] by (elim exE conjE) (rule that)
  obtain d where d: "interrupted_round ex_os ex_net 2 d0 = Some d" using d0(2) by blast
  then have "signal_point ex_os ex_net d0 d" by (auto simp: signal_point_def)
  then obtain msg st3 where T: "term_handler ex_logger ex_env (ex_booted\<lparr>daemon := d\<rparr>) = Some (Exits EXIT_SUCCESS, msg, st3)"
      "\<forall>q. fs_scan (env_files ex_env) (dfiles st3) q = fs_scan (env_files ex_env) (dfiles ex_state) q" using d0(3) by blast
  have "dfiles st3 PROC_RT_RUNTIME_FILE = 950000"
    using T(2) [THEN spec, of PROC_RT_RUNTIME_FILE] by (simp add: ex_env_def ex_files_def ex_state_def)
  with main d0(1) d T(1) show ?thesis by (intro conjI exI) (simp_all add: EXIT_SUCCESS_def)
qed

text \<open>A log file that cannot be opened is not noticed: with the default verbosity the first message is printed through NULL.\<close>

lemma unopenable_log_undefined:
  assumes "\<not> fopen_ok f" and "f \<noteq> []"
  shows "daemon_main fopen_ok cfg env [(Opt CHR ''o'', f, 0), (ARGP_KEY_END, [], 0)] st = None"
  using assms by (simp add: daemon_main_def parse_opt_def LOG_def OUT_def ERR_def)

text \<open>An empty path of the configuration ends the process before anything is initialised.\<close>

lemma empty_config_exits:
  "daemon_main fopen_ok cfg env [(Opt CHR ''c'', [], 0), (ARGP_KEY_END, [], 0)] st = Some (Exits EXIT_FAILURE,
     [(LOG_STDOUT, ''-------------------------------'' @ CRLF), (LOG_STDOUT, ''Empty argument to -c|--config option!'' @ NL)])"
  by (simp add: daemon_main_def parse_opt_def LOG_def OUT_def ERR_def)

end
