(* ===== verification/Activation.thy ===== *)
theory Activation
  imports ClientLib
begin

text \<open>
  The periodic activation of a task in the client library, \<open>rtf_task_start\<close> and \<open>rtf_task_wait_period\<close>
  of \<open>lib/retif_lib.c\<close>: the sums in \<open>double\<close> are exact for the times that occur.
\<close>

subsection \<open>Sums in double\<close>

lemma f64_int: "\<bar>i\<bar> < 2 ^ 53 \<Longrightarrow> f64_round (of_int i) = of_int i"
  by (simp add: f64_round_def fround_int_exact)

lemma f64_mono: "0 \<le> x \<Longrightarrow> x \<le> y \<Longrightarrow> f64_round x \<le> f64_round y"
  by (simp add: f64_round_def fround_mono)

text \<open>A value at most 1 - 1/1024 above an integer is not rounded up to the next one.\<close>

lemma f64_between:
  assumes "0 \<le> q" and "q < 2 ^ 42" and "of_int q \<le> x" and "x \<le> of_int q + 1 - 1 / 1024"
  shows "of_int q \<le> f64_round x \<and> f64_round x \<le> of_int q + 1 - 1 / 1024"
proof -
  let ?i = "(q + 1) * 1024 - 1"
  have i: "\<bar>?i\<bar> < 2 ^ 53" using assms(1,2) by simp
  have d: "(of_int q + 1 - 1 / 1024 :: rat) = of_int ?i * 2 powi (- 10)"
    by (simp add: power_int_minus field_simps)
  have "f64_round (of_int q + 1 - 1 / 1024) = of_int q + 1 - 1 / 1024"
    unfolding d f64_round_def using i by (rule fround_dyadic_exact) simp
  moreover have "f64_round (of_int q) = of_int q" using assms(1,2) by (intro f64_int) simp
  moreover have "(0 :: rat) \<le> of_int q" using assms(1) by simp
  ultimately show ?thesis
    using f64_mono [OF _ assms(3)] f64_mono [OF _ assms(4)] assms(3) by simp
qed

lemma trunc_of_int [simp]: "trunc_s64 (of_int i) = i"
  by (auto simp: trunc_s64_def)

lemma trunc_between: "0 \<le> q \<Longrightarrow> of_int q \<le> x \<Longrightarrow> x \<le> of_int q + 1 - 1 / 1024 \<Longrightarrow> trunc_s64 x = q"
proof -
  assume a: "0 \<le> q" "of_int q \<le> x" "x \<le> of_int q + 1 - 1 / 1024"
  then have "(0 :: rat) \<le> of_int q" by simp
  then have "0 \<le> x" using a(2) by linarith
  moreover have "\<lfloor>x\<rfloor> = q" using a by (simp add: floor_eq_iff)
  ultimately show ?thesis by (simp add: trunc_s64_def)
qed

lemma lib_time_add_ms_exact:
  assumes "0 \<le> tv_sec t" and "tv_sec t < 2 ^ 41" and "0 \<le> tv_nsec t" and "tv_nsec t \<le> EXP9"
  shows "nsec_total (lib_time_add_ms t ms) = nsec_total t + uint ms * EXP6" and "0 \<le> tv_nsec (lib_time_add_ms t ms)"
    and "tv_nsec (lib_time_add_ms t ms) \<le> EXP9" and "tv_sec t \<le> tv_sec (lib_time_add_ms t ms)"
    and "tv_sec (lib_time_add_ms t ms) \<le> tv_sec t + 2 ^ 23"
proof -
  define q m where "q = uint ms div 1000" and "m = uint ms mod 1000"
  have ms: "uint ms = q * 1000 + m" "0 \<le> m" "m \<le> 999" "0 \<le> q" "q < 2 ^ 22 + 2 ^ 20"
  proof -
    show "uint ms = q * 1000 + m" "0 \<le> m" "0 \<le> q" by (simp_all add: q_def m_def pos_imp_zdiv_nonneg_iff)
    show "m \<le> 999" using pos_mod_bound [of 1000 "uint ms"] by (simp add: m_def)
    have "uint ms < 2 ^ 32" using uint_bounded [of ms] by simp
    with \<open>uint ms = q * 1000 + m\<close> \<open>0 \<le> m\<close> show "q < 2 ^ 22 + 2 ^ 20" by simp
  qed
  have "(of_int (uint ms) / 1000 :: rat) = of_int q + of_int m / 1000" by (simp add: ms(1) add_divide_distrib)
  moreover have "(0 :: rat) \<le> of_int m" "(of_int m :: rat) \<le> 999" using ms(2,3) by simp_all
  ultimately have "of_int q \<le> (of_int (uint ms) / 1000 :: rat)" "(of_int (uint ms) / 1000 :: rat) \<le> of_int q + 1 - 1 / 1024"
    by simp_all
  then have r: "of_int q \<le> f64_round (of_int (uint ms) / 1000)" "f64_round (of_int (uint ms) / 1000) \<le> of_int q + 1 - 1 / 1024"
    using f64_between [of q] ms(4,5) by simp_all
  let ?r = "f64_round (of_int (uint ms) / 1000)"
  have sec: "f64_of_int (tv_sec t) = of_int (tv_sec t)" using assms(1,2) by (simp add: f64_of_int_def f64_int)
  have "of_int (tv_sec t + q) \<le> f64_round (of_int (tv_sec t) + ?r) \<and> f64_round (of_int (tv_sec t) + ?r) \<le> of_int (tv_sec t + q) + 1 - 1 / 1024"
    using assms(1,2) ms(4,5) r by (intro f64_between) simp_all
  then have S: "trunc_s64 (f64_round (f64_of_int (tv_sec t) + ?r)) = tv_sec t + q"
    unfolding sec using assms(1) ms(4) by (intro trunc_between) simp_all
  have ns: "f64_of_int (tv_nsec t) = of_int (tv_nsec t)" "f64_round (of_int m * 1000000) = of_int (m * 1000000)"
    using assms(3,4) ms(2,3) f64_int [of "m * 1000000"] by (simp_all add: f64_of_int_def f64_int EXP9_def)
  have "f64_round (of_int (tv_nsec t + m * 1000000)) = of_int (tv_nsec t + m * 1000000)"
    using assms(3,4) ms(2,3) by (intro f64_int) (simp add: EXP9_def)
  then have "f64_round (f64_of_int (tv_nsec t) + f64_round (of_int m * 1000000)) = of_int (tv_nsec t + m * 1000000)"
    by (simp add: ns)
  then have N: "trunc_s64 (f64_round (f64_of_int (tv_nsec t) + f64_round (of_int m * 1000000))) = tv_nsec t + m * 1000000"
    by (simp only: trunc_of_int)
  let ?n = "tv_nsec t + m * 1000000"
  have n: "0 \<le> ?n" "?n \<le> 2 * EXP9" using assms(3,4) ms(2,3) by (simp_all add: EXP9_def)
  then have nr: "f64_of_int ?n = of_int ?n" unfolding f64_of_int_def by (intro f64_int) (simp add: EXP9_def)
  have C: "trunc_s64 (f64_round (of_int ?n - 1000000000)) = ?n - 1000000000"
    using f64_int [of "?n - 1000000000"] n trunc_of_int [of "?n - 1000000000"] by (simp add: EXP9_def)
  have gt: "(1000000000 :: rat) < of_int ?n \<longleftrightarrow> EXP9 < ?n"
    unfolding EXP9_def by (metis of_int_less_iff of_int_numeral)
  have L: "lib_time_add_ms t ms = (if EXP9 < ?n then \<lparr>tv_sec = tv_sec t + q + 1, tv_nsec = ?n - EXP9\<rparr>
      else \<lparr>tv_sec = tv_sec t + q, tv_nsec = ?n\<rparr>)"
    unfolding lib_time_add_ms_def Let_def m_def [symmetric] S N nr C gt EXP9_def [symmetric] by (simp add: EXP9_def)
  show "nsec_total (lib_time_add_ms t ms) = nsec_total t + uint ms * EXP6"
    by (simp add: L nsec_total_def ms(1) EXP9_def EXP6_def)
  show "0 \<le> tv_nsec (lib_time_add_ms t ms)" "tv_nsec (lib_time_add_ms t ms) \<le> EXP9" "tv_sec t \<le> tv_sec (lib_time_add_ms t ms)"
    "tv_sec (lib_time_add_ms t ms) \<le> tv_sec t + 2 ^ 23"
    using n ms(4,5) by (simp_all add: L)
qed

subsection \<open>Periods\<close>

text \<open>A time that is at most the \<open>k\<close>-th sum of steps after \<open>now\<close>, and normal.\<close>

definition reached :: "timespec \<Rightarrow> int \<Rightarrow> nat \<Rightarrow> timespec \<Rightarrow> bool" where
  "reached now ms k x \<longleftrightarrow> nsec_total x = nsec_total now + int k * ms * EXP6 \<and> 0 \<le> tv_sec x \<and> 0 \<le> tv_nsec x \<and> tv_nsec x \<le> EXP9"

lemma reached_step:
  assumes "reached now (uint ms) k x" and "nsec_total now + int k * uint ms * EXP6 < 2 ^ 41 * EXP9"
  shows "reached now (uint ms) (Suc k) (lib_time_add_ms x ms)"
proof -
  note X = assms(1) [unfolded reached_def]
  have "tv_sec x * EXP9 < 2 ^ 41 * EXP9" using X assms(2) by (simp add: nsec_total_def)
  then have "tv_sec x < 2 ^ 41" by (simp add: EXP9_def)
  from lib_time_add_ms_exact [OF _ this, of ms] X show ?thesis
    by (simp add: reached_def algebra_simps)
qed

lemma waits_reach:
  assumes now: "0 \<le> tv_sec now" "0 \<le> tv_nsec now" "tv_nsec now \<le> EXP9"
    and p: "P = u32_of_u64 (period (cli_p t))" "nsec_total now + int k * uint P * EXP6 < 2 ^ 41 * EXP9"
    and d: "D = u32_of_u64 (deadline (cli_p t))" "nsec_total now + int k * uint D * EXP6 < 2 ^ 41 * EXP9"
    and T: "T = (\<lambda>k. (rtf_task_wait_period ^^ k) (rtf_task_start now t))"
  shows "cli_p (T k) = cli_p t \<and> reached now (uint P) (Suc k) (act_time (T k)) \<and> reached now (uint D) (Suc k) (abs_dl (T k))"
  using p(2) d(2)
proof (induction k)
  case 0
  have "reached now ms 0 now" for ms using now by (simp add: reached_def)
  then have "reached now (uint P) (Suc 0) (lib_time_add_ms now P)" "reached now (uint D) (Suc 0) (lib_time_add_ms now D)"
    using 0 by (simp_all add: reached_step)
  moreover have "lib_time_copy now = now" by (simp add: lib_time_copy_def)
  ultimately show ?case by (simp add: T rtf_task_start_def p(1) d(1))
next
  case (Suc k)
  have less: "int k * uint w * EXP6 \<le> int (Suc k) * uint w * EXP6" for w :: u32
    by (intro mult_right_mono) (simp_all add: EXP6_def)
  then have "nsec_total now + int k * uint P * EXP6 < 2 ^ 41 * EXP9" "nsec_total now + int k * uint D * EXP6 < 2 ^ 41 * EXP9"
    using Suc.prems less [of P] less [of D] by linarith+
  with Suc.IH have "cli_p (T k) = cli_p t \<and> reached now (uint P) (Suc k) (act_time (T k)) \<and> reached now (uint D) (Suc k) (abs_dl (T k))"
    by blast
  then show ?case using reached_step Suc.prems by (simp add: T rtf_task_wait_period_def p(1) d(1) del: of_nat_Suc)
qed

text \<open>C34: A task whose period and deadline are below 2^32 microseconds is activated in steps of exactly that many milliseconds,
  a thousand times its declared period: after \<open>k\<close> waits the next activation lies \<open>k + 1\<close> periods after the
  start.  The absolute deadline advances by the relative deadline at each wait, so it lies \<open>k + 1\<close> deadlines after the
  start and leaves the activations behind or is left behind by them when the two differ.  This holds as long as the times stay
  below 2^41 seconds (some 69000 years), where the sums in \<open>double\<close> are exact.\<close>

theorem activation_times:
  assumes "0 \<le> tv_sec now" and "0 \<le> tv_nsec now" and "tv_nsec now \<le> EXP9"
    and "uint (period (cli_p t)) < 2 ^ 32" and "uint (deadline (cli_p t)) < 2 ^ 32"
    and "nsec_total now + int k * uint (period (cli_p t)) * EXP6 < 2 ^ 41 * EXP9"
    and "nsec_total now + int k * uint (deadline (cli_p t)) * EXP6 < 2 ^ 41 * EXP9"
  shows "let t' = (rtf_task_wait_period ^^ k) (rtf_task_start now t)
    in cli_p t' = cli_p t \<and>
       nsec_total (act_time t') = nsec_total now + int (k + 1) * uint (period (cli_p t)) * EXP6 \<and>
       nsec_total (abs_dl t') = nsec_total now + int (k + 1) * uint (deadline (cli_p t)) * EXP6 \<and>
       tv_nsec (act_time t') \<le> EXP9 \<and> tv_nsec (abs_dl t') \<le> EXP9"
  using waits_reach [OF assms(1-3) refl _ refl _ refl, where t = t and k = k] assms(4-7) by (simp add: Let_def reached_def uint_u32_of_u64)

definition periodic :: "u64 \<Rightarrow> u64 \<Rightarrow> cli_task" where
  "periodic p d = \<lparr>task_id = 1, dmiss = 0, acc_runtime = 0, cli_p = zero_params\<lparr>period := p, deadline := d\<rparr>,
     act_time = \<lparr>tv_sec = 0, tv_nsec = 0\<rparr>, abs_dl = \<lparr>tv_sec = 0, tv_nsec = 0\<rparr>\<rparr>"

lemma activation_times_witness:
  "let t = periodic 5 4
   in nsec_total (act_time ((rtf_task_wait_period ^^ 100) (rtf_task_start \<lparr>tv_sec = 7, tv_nsec = 0\<rparr> t))) = 7505000000"
proof -
  let ?t = "periodic 5 4"
  have "let t' = (rtf_task_wait_period ^^ 100) (rtf_task_start \<lparr>tv_sec = 7, tv_nsec = 0\<rparr> ?t)
    in cli_p t' = cli_p ?t \<and>
       nsec_total (act_time t') = nsec_total \<lparr>tv_sec = 7, tv_nsec = 0\<rparr> + int (100 + 1) * uint (period (cli_p ?t)) * EXP6 \<and>
       nsec_total (abs_dl t') = nsec_total \<lparr>tv_sec = 7, tv_nsec = 0\<rparr> + int (100 + 1) * uint (deadline (cli_p ?t)) * EXP6 \<and>
       tv_nsec (act_time t') \<le> EXP9 \<and> tv_nsec (abs_dl t') \<le> EXP9"
    by (rule activation_times) (simp_all add: EXP9_def EXP6_def nsec_total_def periodic_def)
  then show ?thesis by (simp add: Let_def nsec_total_def EXP9_def EXP6_def periodic_def)
qed

end
