(* ===== verification/Monitor.thy ===== *)
theory Monitor
  imports Client_Daemon
begin

text \<open>
  The monitor, \<open>monitor/main.c\<close> and the tables of \<open>monitor/terminal.c\<close>: a client that asks the daemon for
  everything it knows.  Printing is the list of the rows printed; colours and the spinner are left out, and an error
  that ends the process is its message.
\<close>

definition stringFromState :: "CLIENT_STATE \<Rightarrow> string" where
  "stringFromState s = (case s of EMPTY \<Rightarrow> ''EMPTY'' | CONNECTED \<Rightarrow> ''CONNECTED'' | DISCONNECTED \<Rightarrow> ''DISCONNECTED'' | ERROR \<Rightarrow> ''ERROR'')"

text \<open>The names of the plugins in the order of the monitor, whatever the daemon has loaded.\<close>

definition stringFromName :: "int \<Rightarrow> string option" where
  "stringFromName s = iget [''EDF'', ''RM'', ''RR'', ''FP''] s"

text \<open>An answer of the library, as the member that the monitor reads; the wrong member is undefined.\<close>

definition answer :: "(reply_payload \<Rightarrow> 'a option) \<Rightarrow> int \<times> reply_payload \<times> 's \<Rightarrow> ('a option \<times> 's) option" where
  "answer sel = (\<lambda>(r, pl, st). if r = RTF_ERROR then Some (None, st) else do { x \<leftarrow> sel pl; Some (Some x, st) })"

definition cpu_of :: "reply_payload \<Rightarrow> rtf_cpu_info option" where
  "cpu_of pl = (case pl of CpuInfo c \<Rightarrow> Some c | _ \<Rightarrow> None)"

definition plugin_of :: "reply_payload \<Rightarrow> rtf_plugin_info option" where
  "plugin_of pl = (case pl of PluginInfo p \<Rightarrow> Some p | _ \<Rightarrow> None)"

definition client_of :: "reply_payload \<Rightarrow> rtf_client_info option" where
  "client_of pl = (case pl of ClientInfo c \<Rightarrow> Some c | _ \<Rightarrow> None)"

definition task_of :: "reply_payload \<Rightarrow> rtf_task_info option" where
  "task_of pl = (case pl of TaskInfo t \<Rightarrow> Some t | _ \<Rightarrow> None)"

subsection \<open>Plugins\<close>

text \<open>One row per CPU, without data when the daemon refused.\<close>

definition printCPUs ::
  "'n rtf_sockets \<Rightarrow> u32 \<Rightarrow> u32 \<Rightarrow> 'n lib_state \<Rightarrow> ((nat \<times> rtf_cpu_info option) list \<times> 'n lib_state) option" where
  "printCPUs net nplug ncpu st = for_each (\<lambda>(rows, st) i. do {
       (x, st) \<leftarrow> answer cpu_of (rtf_plugin_cpu_info nplug (u32_of_int (int i)) net st);
       Some (rows @ [(i, x)], st)
     }) ([], st) [0..<unat ncpu]"

type_synonym plugin_row = "nat \<times> (rtf_plugin_info \<times> (nat \<times> rtf_cpu_info option) list) option"

definition printPlugins ::
  "'n rtf_sockets \<Rightarrow> 'n lib_state \<Rightarrow> ((string + int \<times> plugin_row list) \<times> 'n lib_state) option" where
  "printPlugins net st = do {
     (nplug, st) \<leftarrow> rtf_plugins_info net st;
     if nplug = RTF_ERROR then Some (Inl (''> Unable to get plugins info'' @ [CHR 0x0A]), st)
     else do {
       (rows, st) \<leftarrow> for_each (\<lambda>(rows, st) i. do {
           (x, st) \<leftarrow> answer plugin_of (lib_plugin_info (u32_of_int (int i)) net st);
           case x of
             None \<Rightarrow> Some (rows @ [(i, None)], st)
           | Some p \<Rightarrow> do {
               (cpus, st) \<leftarrow> printCPUs net (u32_of_int (int i)) (u32_of_int (pi_cputot p)) st;
               Some (rows @ [(i, Some (p, cpus))], st)
             }
         }) ([], st) [0..<nat nplug];
       Some (Inr (nplug, rows), st)
     }
   }"

subsection \<open>Connections and tasks\<close>

text \<open>
  The loop that asks one descriptor after the other until as many rows were printed as were announced.  When
  there are fewer, the descriptor, an \<open>int\<close>, finally overflows.
\<close>

function search_rows :: "(int \<Rightarrow> 's \<Rightarrow> ('r option \<times> 's) option) \<Rightarrow> int \<Rightarrow> int \<Rightarrow> int \<Rightarrow> 'r list \<Rightarrow> 's \<Rightarrow> ('r list \<times> 's) option" where
  "search_rows ask n desc cnt rows st =
     (if \<not> cnt < n then Some (rows, st)
      else do {
        (x, st) \<leftarrow> ask desc st;
        if \<not> desc < 2 ^ 31 - 1 then None
        else case x of
            None \<Rightarrow> search_rows ask n (desc + 1) cnt rows st
          | Some r \<Rightarrow> search_rows ask n (desc + 1) (cnt + 1) (rows @ [r]) st
      })"
  by pat_completeness auto
termination
  by (relation "measure (\<lambda>(ask, n, desc, cnt, rows, st). nat (2 ^ 31 - desc))") auto

declare search_rows.simps [simp del]

type_synonym connection_row = "int \<times> int \<times> string"

definition connection_row :: "'n rtf_sockets \<Rightarrow> int \<Rightarrow> 'n lib_state \<Rightarrow> (connection_row option \<times> 'n lib_state) option" where
  "connection_row net desc st = do {
     (x, st) \<leftarrow> answer client_of (rtf_connection_info (u32_of_int desc) net st);
     Some (map_option (\<lambda>c. (desc, ci_pid c, stringFromState (ci_state c))) x, st)
   }"

definition printConnections ::
  "'n rtf_sockets \<Rightarrow> 'n lib_state \<Rightarrow> ((string + int \<times> connection_row list) \<times> 'n lib_state) option" where
  "printConnections net st = do {
     (nconn, st) \<leftarrow> rtf_connections_info net st;
     if nconn = RTF_ERROR then Some (Inl (''> Unable to get plugins info'' @ [CHR 0x0A]), st)
     else do { (rows, st) \<leftarrow> search_rows (connection_row net) nconn 0 0 [] st; Some (Inr (nconn, rows), st) }
   }"

type_synonym task_row = "int \<times> rtf_task_info \<times> string"

definition task_row :: "'n rtf_sockets \<Rightarrow> int \<Rightarrow> 'n lib_state \<Rightarrow> (task_row option \<times> 'n lib_state) option" where
  "task_row net desc st = do {
     (x, st) \<leftarrow> answer task_of (lib_task_info (u32_of_int desc) net st);
     case x of
       None \<Rightarrow> Some (None, st)
     | Some t \<Rightarrow> do { nm \<leftarrow> stringFromName (ti_pluginid t); Some (Some (desc, t, nm), st) }
   }"

definition printTasks ::
  "'n rtf_sockets \<Rightarrow> 'n lib_state \<Rightarrow> ((string + int \<times> task_row list) \<times> 'n lib_state) option" where
  "printTasks net st = do {
     (ntask, st) \<leftarrow> rtf_tasks_info net st;
     if ntask = RTF_ERROR then Some (Inl (''> Unable to get tasks info'' @ [CHR 0x0A]), st)
     else do { (rows, st) \<leftarrow> search_rows (task_row net) ntask 1 0 [] st; Some (Inr (ntask, rows), st) }
   }"

subsection \<open>The monitor\<close>

text \<open>One pass of the endless loop: a message when the process ends, else what was printed.\<close>

definition monitor_pass ::
  "'n rtf_sockets \<Rightarrow> 'n lib_state \<Rightarrow>
     ((string + (int \<times> connection_row list) \<times> (int \<times> plugin_row list) \<times> (int \<times> task_row list)) \<times> 'n lib_state) option" where
  "monitor_pass net st = do {
     (cs, st) \<leftarrow> printConnections net st;
     case cs of
       Inl msg \<Rightarrow> Some (Inl msg, st)
     | Inr cs \<Rightarrow> do {
         (ps, st) \<leftarrow> printPlugins net st;
         case ps of
           Inl msg \<Rightarrow> Some (Inl msg, st)
         | Inr ps \<Rightarrow> do {
             (ts, st) \<leftarrow> printTasks net st;
             case ts of Inl msg \<Rightarrow> Some (Inl msg, st) | Inr ts \<Rightarrow> Some (Inr (cs, ps, ts), st)
           }
       }
   }"

text \<open>The monitor connects first and gives up on any other status than OK.\<close>

definition monitor_start :: "'n rtf_sockets \<Rightarrow> int \<Rightarrow> 'n lib_state \<Rightarrow> (string option \<times> 'n lib_state) option" where
  "monitor_start net pid st = do {
     (r, st) \<leftarrow> rtf_connect net pid st;
     Some (if r \<noteq> RTF_OK then Some (''> Unable to connect with RTF'' @ [CHR 0x0A]) else None, st)
   }"

subsection \<open>What is listed\<close>

lemma search_rows_finds:
  assumes "\<forall>d st. 0 \<le> d \<longrightarrow> d < 2 ^ 31 \<longrightarrow> (\<exists>st'. ask d st = Some (info d, st'))" and "0 \<le> desc" and "desc < 2 ^ 31" and e: "e = 2 ^ 31 - 2"
  shows "if n - cnt \<le> int (length (List.map_filter info [desc..e]))
    then \<exists>st'. search_rows ask n desc cnt rows st = Some (rows @ take (nat (n - cnt)) (List.map_filter info [desc..e]), st')
    else search_rows ask n desc cnt rows st = None"
  using assms(2,3)
proof (induction "nat (2 ^ 31 - desc)" arbitrary: desc cnt rows st rule: less_induct)
  case less
  let ?xs = "\<lambda>d. List.map_filter info [d..e]"
  obtain st' where a: "ask desc st = Some (info desc, st')" using assms(1) less.prems by blast
  consider "\<not> cnt < n" | "cnt < n" "desc = 2 ^ 31 - 1" | "cnt < n" "desc < 2 ^ 31 - 1" using less.prems(2) by linarith
  then show ?case
  proof cases
    case 1
    then show ?thesis by (subst search_rows.simps) auto
  next
    case 2
    then show ?thesis using a using e by (subst (1 2) search_rows.simps) (simp add: List.map_filter_simps)
  next
    case 3
    have xs: "?xs desc = (case info desc of None \<Rightarrow> ?xs (desc + 1) | Some r \<Rightarrow> r # ?xs (desc + 1))"
      using 3(2) e by (subst upto.simps) (auto simp: List.map_filter_simps split: option.split)
    note IH = less.hyps [of "desc + 1"]
    show ?thesis
    proof (cases "info desc")
      case None
      then have "search_rows ask n desc cnt rows st = search_rows ask n (desc + 1) cnt rows st'"
        using 3 a by (subst search_rows.simps) simp
      then show ?thesis using IH [of cnt rows st'] None xs less.prems 3(2) by simp
    next
      case (Some r)
      then have "search_rows ask n desc cnt rows st = search_rows ask n (desc + 1) (cnt + 1) (rows @ [r]) st'"
        using 3 a by (subst search_rows.simps) simp
      moreover have "nat (n - cnt) = Suc (nat (n - (cnt + 1)))" using 3(1) by simp
      ultimately show ?thesis using IH [of "cnt + 1" "rows @ [r]" st'] Some xs less.prems 3(2) by (auto split: if_splits)
    qed
  qed
qed

text \<open>C35: The monitor's list of connections.  When the daemon answers for the slots in \<open>conns\<close> and refuses the others, and announces
  \<open>n\<close> connections, the monitor prints the first \<open>n\<close> of them in the order of their slots; when it announced
  more than there are, as happens when a client leaves in between, the search goes on until the
  slot number overflows.\<close>

theorem monitor_lists_connections:
  assumes "\<forall>d st. 0 \<le> d \<longrightarrow> d < 2 ^ 31 \<longrightarrow> (\<exists>st'. rtf_connection_info (u32_of_int d) net st =
      (case conns d of None \<Rightarrow> (RTF_ERROR, Unset, st') | Some c \<Rightarrow> (RTF_OK, ClientInfo c, st')))"
    and "rtf_connections_info net st = Some (n, st0)" and "0 \<le> n" and "e = 2 ^ 31 - 2"
  shows "let rows = List.map_filter (\<lambda>d. map_option (\<lambda>c. (d, ci_pid c, stringFromState (ci_state c))) (conns d)) [0..e]
    in if n \<le> int (length rows) then \<exists>st'. printConnections net st = Some (Inr (n, take (nat n) rows), st')
       else printConnections net st = None"
proof -
  let ?info = "\<lambda>d. map_option (\<lambda>c. (d, ci_pid c, stringFromState (ci_state c))) (conns d)"
  have ask: "\<exists>st'. connection_row net d st = Some (?info d, st')" if "0 \<le> d" "d < 2 ^ 31" for d st
  proof -
    obtain st' where "rtf_connection_info (u32_of_int d) net st =
        (case conns d of None \<Rightarrow> (RTF_ERROR, Unset, st') | Some c \<Rightarrow> (RTF_OK, ClientInfo c, st'))" using assms(1) \<open>0 \<le> d\<close> \<open>d < 2 ^ 31\<close> by blast
    then show ?thesis
      by (cases "conns d") (simp_all add: connection_row_def answer_def client_of_def RTF_OK_def RTF_ERROR_def)
  qed
  have "n \<noteq> RTF_ERROR" using assms(3) by (simp add: RTF_ERROR_def)
  then show ?thesis
    using search_rows_finds [of "connection_row net" ?info 0 e n 0 "[]" st0] ask assms(2-4)
    unfolding Let_def printConnections_def by (auto split: if_splits)
qed

text \<open>A daemon with one client, process 7 in the slot 2; the state of the network is the last request.\<close>

definition one_client :: "rtf_request rtf_sockets" where
  "one_client = \<lparr>sys_socket = (\<lambda>k _. (3, k)), sys_connect = (\<lambda>k _ _. (0, k)), sys_bind = (\<lambda>k _ _. (0, k)),
     sys_unlink = (\<lambda>k _. k), sys_chmod = (\<lambda>k _. (0, k)), sys_listen = (\<lambda>k _ _. (0, k)), sys_accept = (\<lambda>k _. (- 1, k)),
     sys_select = (\<lambda>k _ _. (0, {}, k)), sys_recv_req = (\<lambda>k _ b. (0, b, k)),
     sys_recv_rep = (\<lambda>k _ b. (1, if req_type k = Some RTF_CONNECTIONS_INFO then \<lparr>rep_type = RTF_CONNECTIONS_INFO_OK, payload = Nconnected 1\<rparr>
       else if ids_rsvid k = 2 then \<lparr>rep_type = RTF_CONNECTION_INFO_OK, payload = ClientInfo \<lparr>ci_pid = 7, ci_state = CONNECTED\<rparr>\<rparr>
       else \<lparr>rep_type = RTF_CONNECTION_INFO_ERR, payload = Unset\<rparr>, k)),
     sys_send_req = (\<lambda>_ _ q. (1, q)), sys_send_rep = (\<lambda>k _ _. (1, k)), sys_setsockopt_timeout = (\<lambda>k _ _ _. (0, k)),
     sys_set_flags = (\<lambda>k _ _. (0, k)), sys_calloc_ucred = (\<lambda>_. True), sys_peercred = (\<lambda>_ _. None),
     sys_close = (\<lambda>k _. k)\<rparr>"

definition asking :: "rtf_request lib_state" where
  "asking = (ex_access (ex_request RTF_CONNECTION) \<lparr>rep_type = RTF_CONNECTION_OK, payload = Unset\<rparr>, ex_request RTF_CONNECTION)"

lemma monitor_lists_connections_witness:
  "\<exists>st. printConnections one_client asking = Some (Inr (1, [(2, 7, ''CONNECTED'')]), st)"
proof -
  let ?conns = "\<lambda>d :: int. if d = 2 then Some \<lparr>ci_pid = 7, ci_state = CONNECTED\<rparr> else None"
  define e :: int where "e = 2 ^ 31 - 2"
  let ?rows = "List.map_filter (\<lambda>d. map_option (\<lambda>c. (d, ci_pid c, stringFromState (ci_state c))) (?conns d)) [0..e]"
  note lib = query_item_def query_count_def rtf_task_communicate_def rtf_access_send_def rtf_access_recv_def usocket_send_def
    usocket_recv_def with_req_def one_client_def ids_of_set RTF_ERROR_def RTF_OK_def
  have two: "u32_of_int d = 2 \<longleftrightarrow> d = 2" if "0 \<le> d" "d < 2 ^ 31" for d
  proof -
    have "uint (u32_of_int d) = d" using \<open>0 \<le> d\<close> \<open>d < 2 ^ 31\<close> by (simp add: uint_u32_of_int)
    moreover have "uint (2 :: u32) = 2" by simp
    ultimately show ?thesis by (metis word_uint_eq_iff)
  qed
  have item: "\<forall>d st. 0 \<le> d \<longrightarrow> d < 2 ^ 31 \<longrightarrow> (\<exists>st'. rtf_connection_info (u32_of_int d) one_client st =
      (case ?conns d of None \<Rightarrow> (RTF_ERROR, Unset, st') | Some c \<Rightarrow> (RTF_OK, ClientInfo c, st')))"
    using two by (auto simp: rtf_connection_info_def lib)
  obtain st0 where n: "rtf_connections_info one_client asking = Some (1, st0)"
    by (simp add: asking_def rtf_connections_info_def lib payload_count_def)
  have "2 \<le> e" by (simp add: e_def)
  then have ds: "[0..e] = 0 # 1 # 2 # [3..e]" using upto_rec1 [of 0 e] upto_rec1 [of 1 e] upto_rec1 [of 2 e] by simp
  have rows: "\<exists>xs. ?rows = (2, 7, ''CONNECTED'') # xs"
    by (simp add: ds List.map_filter_simps stringFromState_def)
  from monitor_lists_connections [OF item n _ e_def] rows show ?thesis by (auto simp: Let_def)
qed

end
