(* ===== verification/Daemon_Refine.thy ===== *)
theory Daemon_Refine
  imports Server
begin

text \<open>
  The daemon refines the server of Server: every round of the loop is a run of the server whose events are the
  calls that the daemon made on its sockets, in that order.
\<close>

subsection \<open>The server of a daemon\<close>

definition slot :: "('c \<Rightarrow> 'a) \<Rightarrow> 'a \<Rightarrow> 'c list \<Rightarrow> nat \<Rightarrow> 'a" where
  "slot f x cs i = (if i < SET_MAX_SIZE then f (cs ! i) else x)"

text \<open>The daemon does not store the largest descriptor of the last poll, so \<open>server_of\<close> leaves it at none; \<open>serving\<close> sets it.\<close>

definition server_of :: "('k, 'n) rtf_daemon \<Rightarrow> server" where
  "server_of d = \<lparr>srv_state = slot cl_state EMPTY (client (chann d)), srv_pid = slot cl_pid 0 (client (chann d)),
     srv_req = slot (\<lambda>q. q) \<lparr>req_type = None, param = zero_params\<rparr> (last_req (chann d)),
     srv_new = slot (\<lambda>n. 0 < n) False (last_n (chann d)),
     srv_res = sched_abs (sched d, dworld d), srv_issued = last_task_id (sched d),
     srv_listen = sock_fd (sock (chann d)), srv_polled = - 1\<rparr>"

abbreviation serving :: "int \<Rightarrow> ('k, 'n) rtf_daemon \<Rightarrow> server" where
  "serving p d \<equiv> server_of d\<lparr>srv_polled := p\<rparr>"

lemma slot_simps [simp]: "i < SET_MAX_SIZE \<Longrightarrow> slot f x cs i = f (cs ! i)" "\<not> i < SET_MAX_SIZE \<Longrightarrow> slot f x cs i = x"
  by (simp_all add: slot_def)

lemma slot_upd: "i < SET_MAX_SIZE \<Longrightarrow> length cs = SET_MAX_SIZE \<Longrightarrow> slot f x (cs[i := c]) = (slot f x cs)(i := f c)"
  by (auto simp: slot_def fun_eq_iff nth_list_update)

lemma server_of_sel [simp]:
  "srv_state (server_of d) = slot cl_state EMPTY (client (chann d))" "srv_pid (server_of d) = slot cl_pid 0 (client (chann d))"
  "srv_req (server_of d) = slot (\<lambda>q. q) \<lparr>req_type = None, param = zero_params\<rparr> (last_req (chann d))"
  "srv_new (server_of d) = slot (\<lambda>n. 0 < n) False (last_n (chann d))"
  "srv_res (server_of d) = sched_abs (sched d, dworld d)" "srv_issued (server_of d) = last_task_id (sched d)"
  "srv_listen (server_of d) = sock_fd (sock (chann d))"
  by (simp_all add: server_of_def)

subsection \<open>Receiving\<close>

text \<open>The server in the middle of a receive, when \<open>data\<close> and \<open>nrecv\<close> are the buffers.\<close>

definition receiving :: "server \<Rightarrow> int \<Rightarrow> rtf_request list \<Rightarrow> int list \<Rightarrow> server" where
  "receiving s hi data nrecv = s\<lparr>srv_polled := hi,
     srv_req := slot (\<lambda>q. q) \<lparr>req_type = None, param = zero_params\<rparr> data, srv_new := slot (\<lambda>n. 0 < n) False nrecv,
     srv_state := (\<lambda>i. if i < SET_MAX_SIZE \<and> int i \<le> hi \<and> int i \<noteq> srv_listen s then client_step (srv_state s i) (nrecv ! i)
       else srv_state s i)\<rparr>"

lemma receive_accepts:
  assumes "srv_listen s = int i" and "length nrecv = SET_MAX_SIZE" and "i < SET_MAX_SIZE" and "0 < n \<longrightarrow> 0 < r"
  shows "server_step (receiving s hi data nrecv) (Accepted r) (receiving s hi data (nrecv[i := n]))"
proof -
  have "receiving s hi data (nrecv[i := n]) = (receiving s hi data nrecv)
      \<lparr>srv_new := (srv_new (receiving s hi data nrecv))(nat (srv_listen (receiving s hi data nrecv)) := 0 < n)\<rparr>"
    using assms(1-3) by (auto simp: receiving_def slot_upd fun_eq_iff)
  with accepted [of "0 < n" r] assms(4) show ?thesis by metis
qed

lemma receive_takes:
  assumes "srv_listen s \<noteq> int i" and "length nrecv = SET_MAX_SIZE" "length data = SET_MAX_SIZE" and "i < SET_MAX_SIZE"
    and "int i \<le> hi \<longrightarrow> nrecv ! i = 0"
  shows "server_step (receiving s hi data nrecv) (Took (int i) n q) (receiving s hi (data[i := q]) (nrecv[i := (if n = 0 then - 1 else n)]))"
proof -
  let ?s = "receiving s hi data nrecv"
  have "receiving s hi (data[i := q]) (nrecv[i := (if n = 0 then - 1 else n)]) =
      ?s\<lparr>srv_req := (srv_req ?s)(i := q), srv_new := (srv_new ?s)(i := 0 < n),
        srv_state := (if int i \<le> srv_polled ?s then (srv_state ?s)(i := client_step (srv_state ?s i) (if n = 0 then - 1 else n))
          else srv_state ?s)\<rparr>"
    using assms by (auto simp: receiving_def slot_upd fun_eq_iff nth_list_update client_step_0)
  with took [of i ?s n q] assms(1) show ?thesis by (simp add: receiving_def)
qed

lemma recvall_refines:
  assumes "recvall_loop net ready i us data nrecv k = Some (us', data', nrecv', k')"
    and "sock_fd us = srv_listen s" and "length data = SET_MAX_SIZE" and "length nrecv = SET_MAX_SIZE"
    and "\<forall>j. i \<le> j \<and> int j \<le> hi \<longrightarrow> nrecv ! j = 0"
  shows "\<exists>es. recvall_loop (recording net) ready i us data nrecv (k, l) = Some (us', data', nrecv', k', l @ es) \<and>
    server_run (receiving s hi data nrecv) es (receiving s hi data' nrecv') \<and> conn_set_max us \<le> conn_set_max us'"
  using assms
proof (induction "SET_MAX_SIZE - i" arbitrary: i us data nrecv k l rule: less_induct)
  case less
  note run = less.prems(1) and P = less.prems(2-5)
  show ?case
  proof (cases "int i > conn_set_max us")
    case True
    then show ?thesis using run server_run.nil by (subst (asm) recvall_loop.simps, subst recvall_loop.simps) simp
  next
    case False
    have i: "i < SET_MAX_SIZE" using run False by (subst (asm) recvall_loop.simps) (auto simp: FD_ISSET_def split: if_splits)
    then have set: "FD_ISSET (int i) ready = Some (i \<in> ready)" by (simp add: FD_ISSET_def)
    have IH: "\<exists>es. recvall_loop (recording net) ready (Suc i) u d m (k1, l1) = Some (us', data', nrecv', k', l1 @ es) \<and>
        server_run (receiving s hi d m) es (receiving s hi data' nrecv') \<and> conn_set_max u \<le> conn_set_max us'"
      if "recvall_loop net ready (Suc i) u d m k1 = Some (us', data', nrecv', k')" "sock_fd u = srv_listen s"
        "length d = SET_MAX_SIZE" "length m = SET_MAX_SIZE" "\<forall>j. Suc i \<le> j \<longrightarrow> m ! j = nrecv ! j" for u d m k1 l1
      by (rule less.hyps [OF _ that(1-4)]) (use i that(5) P(4) in auto)
    have step: ?thesis
      if rec: "recvall_loop net ready (Suc i) u d m k1 = Some (us', data', nrecv', k')"
        and rec': "\<And>r. recvall_loop (recording net) ready (Suc i) u d m (k1, l @ [e]) = r \<Longrightarrow>
          recvall_loop (recording net) ready i us data nrecv (k, l) = r"
        and st: "server_step (receiving s hi data nrecv) e (receiving s hi d m)"
        and inv: "sock_fd u = srv_listen s" "length d = SET_MAX_SIZE" "length m = SET_MAX_SIZE"
          "\<forall>j. Suc i \<le> j \<longrightarrow> m ! j = nrecv ! j" "conn_set_max us \<le> conn_set_max u" for u d m k1 e
    proof -
      from IH [OF rec inv(1-4), of "l @ [e]"] obtain es where
        es: "recvall_loop (recording net) ready (Suc i) u d m (k1, l @ [e]) = Some (us', data', nrecv', k', (l @ [e]) @ es)"
          "server_run (receiving s hi d m) es (receiving s hi data' nrecv')" "conn_set_max u \<le> conn_set_max us'" by blast
      show ?thesis using rec' [OF es(1)] run_Cons [OF st es(2)] es(3) inv(5) by (intro exI [of _ "e # es"]) simp
    qed
    consider "i \<notin> ready" | "i \<in> ready" "int i = sock_fd us" | "i \<in> ready" "int i \<noteq> sock_fd us" by blast
    then show ?thesis
    proof cases
      case 1
      then have skip: "recvall_loop net ready i us data nrecv k = recvall_loop net ready (Suc i) us data nrecv k"
        "recvall_loop (recording net) ready i us data nrecv (k, l) = recvall_loop (recording net) ready (Suc i) us data nrecv (k, l)"
        using False set by (simp_all add: recvall_loop.simps [where i = i])
      show ?thesis using IH [of us data nrecv k l] run P by (simp add: skip)
    next
      case 2
      then obtain n u k1 where a: "usocket_add_connections net k us = Some (n, u, k1)"
          "recvall_loop net ready (Suc i) u data (nrecv[i := n]) k1 = Some (us', data', nrecv', k')"
        using run False set P(3) i by (subst (asm) recvall_loop.simps) (auto simp: bind_eq_Some c_simps)
      have max: "conn_set_max us \<le> conn_set_max u" using a(1) by (rule accepted_max)
      have same: "recvall_loop (recording net) ready i us data nrecv (k, l) = recvall_loop (recording net) ready (Suc i) u data (nrecv[i := n])
          (k1, l @ [Accepted (fst (sys_accept net k (sock_fd us)))])"
        using 2 False set P(3) i a(1) by (subst recvall_loop.simps) (simp add: recorded_accept c_simps)
      have st: "server_step (receiving s hi data nrecv) (Accepted (fst (sys_accept net k (sock_fd us)))) (receiving s hi data (nrecv[i := n]))"
        by (rule receive_accepts) (use 2 P i accepted_fd [OF a(1)] in auto)
      show ?thesis by (rule step [OF a(2) _ st]) (use same P accepted_fd [OF a(1)] max in simp_all)
    next
      case 3
      obtain n q k1 where r: "sys_recv_req net k (int i) (data ! i) = (n, q, k1)"
        by (cases "sys_recv_req net k (int i) (data ! i)") auto
      define u where "u = (if n = 0 then us\<lparr>conn_set := conn_set us - {i}\<rparr> else us)"
      let ?n = "if n = 0 then - 1 else n"
      have rec: "recvall_loop net ready (Suc i) u (data[i := q]) (nrecv[i := ?n]) k1 = Some (us', data', nrecv', k')"
        using run 3 False set r P i by (subst (asm) recvall_loop.simps) (simp add: c_simps FD_CLR_def u_def split: if_splits)
      have same: "recvall_loop (recording net) ready i us data nrecv (k, l) =
          recvall_loop (recording net) ready (Suc i) u (data[i := q]) (nrecv[i := ?n]) (k1, l @ [Took (int i) n q])"
        using 3 False set P i recorded_recv [OF r, of l] by (subst recvall_loop.simps) (simp add: c_simps FD_CLR_def u_def)
      have st: "server_step (receiving s hi data nrecv) (Took (int i) n q) (receiving s hi (data[i := q]) (nrecv[i := ?n]))"
        by (rule receive_takes) (use 3 P i in auto)
      show ?thesis by (rule step [OF rec _ st]) (use same P u_def in simp_all)
    qed
  qed
qed

lemma receiving_start:
  assumes "\<forall>j. int j \<le> hi \<longrightarrow> nrecv ! j = 0" and "\<forall>j. hi < int j \<longrightarrow> nrecv ! j = last_n (chann d) ! j" and "hi < int SET_MAX_SIZE"
    and "0 \<le> r" and "hi = max (n - 1) (sock_fd (sock (chann d)))"
  shows "server_step (server_of d\<lparr>srv_polled := p\<rparr>) (Polled r n) (receiving (server_of d) hi (last_req (chann d)) nrecv)"
proof -
  let ?s = "server_of d\<lparr>srv_polled := p\<rparr>"
  have new: "slot (\<lambda>n. 0 < n) False nrecv = (\<lambda>i. srv_new ?s i \<and> hi < int i)"
  proof
    show "slot (\<lambda>n. 0 < n) False nrecv i = (srv_new ?s i \<and> hi < int i)" for i
      using assms(1-3) by (cases "int i \<le> hi"; cases "i < SET_MAX_SIZE") simp_all
  qed
  have st: "(\<lambda>i. if i < SET_MAX_SIZE \<and> int i \<le> hi \<and> int i \<noteq> srv_listen ?s then client_step (srv_state ?s i) (nrecv ! i) else srv_state ?s i) =
      (\<lambda>i. if 0 \<le> r \<and> int i \<le> hi \<and> int i \<noteq> srv_listen ?s then client_step (srv_state ?s i) 0 else srv_state ?s i)"
    using assms(1,3,4) by (auto simp: fun_eq_iff)
  have "receiving (server_of d) hi (last_req (chann d)) nrecv = ?s\<lparr>srv_polled := hi, srv_new := (\<lambda>i. srv_new ?s i \<and> hi < int i),
       srv_state := (\<lambda>i. if 0 \<le> r \<and> int i \<le> hi \<and> int i \<noteq> srv_listen ?s then client_step (srv_state ?s i) 0 else srv_state ?s i)\<rparr>"
    using new st by (simp add: receiving_def server_of_def cong: if_cong)
  with polled [of hi n ?s r] assms(5) show ?thesis by simp
qed

text \<open>What the receiving of a round is to the server.\<close>

lemma update_refines:
  assumes net: "sockets_ok net P" and C: "carrier_ok P (chann d)" and u: "rtf_carrier_update net (dnet d) (chann d) = Some (c, k)"
  shows "\<exists>es q. rtf_carrier_update (recording net) (dnet d, l) (chann d) = Some (c, k, l @ es) \<and>
    server_run (serving p d) es (serving q (d\<lparr>chann := c, dnet := k\<rparr>)) \<and> q \<le> rtf_carrier_get_conn c"
proof -
  let ?c = "chann d" and ?d = "d\<lparr>chann := c, dnet := k\<rparr>"
  let ?hi = "usocket_get_maxfd (sock ?c)" and ?n = "conn_set_max (sock ?c) + 1"
  note L = carrier_okD [OF C]
  have hi: "?hi < int SET_MAX_SIZE" "?hi = max (?n - 1) (sock_fd (sock ?c))" "nat (?hi + 1) \<le> SET_MAX_SIZE"
    using L(1) by (auto simp: usocket_get_maxfd_def usocket_ok_def)
  obtain m where m: "for_each (\<lambda>l i. aset l i 0) (last_n ?c) [0..<nat (?hi + 1)] = Some m" "length m = SET_MAX_SIZE"
      "\<forall>j < nat (?hi + 1). m ! j = 0" "\<forall>j. nat (?hi + 1) \<le> j \<longrightarrow> m ! j = last_n ?c ! j"
    using cleared_prefix [of "nat (?hi + 1)" "last_n ?c"] L(2) hi by auto
  have zero: "\<forall>j. int j \<le> ?hi \<longrightarrow> m ! j = 0" and old: "\<forall>j. ?hi < int j \<longrightarrow> m ! j = last_n ?c ! j"
    using m(3,4) by auto
  obtain r ready k1 where sel: "sys_select net (dnet d) ?n (conn_set (sock ?c)) = (r, ready, k1)"
    by (cases "sys_select net (dnet d) ?n (conn_set (sock ?c))") auto
  show ?thesis
  proof (cases "r < 0")
    case True
    then have c: "c = ?c\<lparr>last_n := m\<rparr>" "k = k1" using u m(1) sel by (simp_all add: rtf_carrier_update_def usocket_recvall_def Let_def)
    let ?s = "server_of d\<lparr>srv_polled := p\<rparr>"
    have "serving ?hi ?d = ?s\<lparr>srv_polled := ?hi, srv_new := (\<lambda>i. srv_new ?s i \<and> ?hi < int i),
       srv_state := (\<lambda>i. if 0 \<le> r \<and> int i \<le> ?hi \<and> int i \<noteq> srv_listen ?s then client_step (srv_state ?s i) 0 else srv_state ?s i)\<rparr>"
      using True c zero old by (auto simp: server_of_def slot_def fun_eq_iff) (metis not_le order_less_irrefl)+
    with polled [of ?hi ?n ?s r] hi(2) have "server_step (serving p d) (Polled r ?n) (serving ?hi ?d)" by simp
    then have "server_run (serving p d) [Polled r ?n] (serving ?hi ?d)" by (rule run_step)
    moreover have "rtf_carrier_update (recording net) (dnet d, l) ?c = Some (c, k, l @ [Polled r ?n])"
      using True c m(1) recorded_select [OF sel, of l] by (simp add: rtf_carrier_update_def usocket_recvall_def Let_def)
    moreover have "?hi \<le> rtf_carrier_get_conn c" using c by (simp add: rtf_carrier_get_conn_def)
    ultimately show ?thesis by blast
  next
    case False
    have "bufs_ok P (sock_fd (sock ?c)) (sock ?c, last_req ?c, m, k1)" using L m(2) by (simp add: bufs_ok_def)
    from recvall_loop_ok [OF net this, where ready = ready and i = 0] obtain us data nrecv k2 where
      rec: "recvall_loop net ready 0 (sock ?c) (last_req ?c) m k1 = Some (us, data, nrecv, k2)"
      and B: "bufs_ok P (sock_fd (sock ?c)) (us, data, nrecv, k2)" by auto
    have B': "sock_fd us = sock_fd (sock ?c)" "length data = SET_MAX_SIZE" "length nrecv = SET_MAX_SIZE"
      using B by (simp_all add: bufs_ok_def)
    have cs: "for_each (update_client (sock_fd us) nrecv) (client ?c) [0..<nat (?hi + 1)] =
        Some (stepped (sock_fd us) nrecv (nat (?hi + 1)) (client ?c))"
      by (rule update_clients) (use B' L(5) hi in simp_all)
    then have c: "c = ?c\<lparr>sock := us, last_req := data, last_n := nrecv,
        client := stepped (sock_fd us) nrecv (nat (?hi + 1)) (client ?c)\<rparr>" "k = k2"
      using False u m(1) sel rec by (simp_all add: rtf_carrier_update_def usocket_recvall_def Let_def)
    from recvall_refines [OF rec, of "server_of d" ?hi "l @ [Polled r ?n]"] obtain es where
      es: "recvall_loop (recording net) ready 0 (sock ?c) (last_req ?c) m (k1, l @ [Polled r ?n]) =
          Some (us, data, nrecv, k2, (l @ [Polled r ?n]) @ es)"
        "server_run (receiving (server_of d) ?hi (last_req ?c) m) es (receiving (server_of d) ?hi data nrecv)"
        "conn_set_max (sock ?c) \<le> conn_set_max us"
      using L(3) m(2) zero by auto
    have "receiving (server_of d) ?hi data nrecv = serving ?hi ?d"
      using c B' L(5) by (auto simp: receiving_def server_of_def slot_def fun_eq_iff stepped_nth)
    moreover have "server_step (serving p d) (Polled r ?n) (receiving (server_of d) ?hi (last_req ?c) m)"
      by (rule receiving_start) (use zero old hi False in auto)
    ultimately have "server_run (serving p d) (Polled r ?n # es) (serving ?hi ?d)" using run_Cons es(2) by metis
    moreover have "rtf_carrier_update (recording net) (dnet d, l) ?c = Some (c, k, l @ Polled r ?n # es)"
      using False c m(1) recorded_select [OF sel, of l] es(1) cs by (simp add: rtf_carrier_update_def usocket_recvall_def Let_def)
    moreover have "?hi \<le> rtf_carrier_get_conn c" using c(1) es(3) B'(1) by (simp add: rtf_carrier_get_conn_def usocket_get_maxfd_def)
    ultimately show ?thesis by blast
  qed
qed

subsection \<open>What the queries answer\<close>

lemma count_loop:
  "k \<le> length xs \<Longrightarrow> for_each (\<lambda>n j. do { c \<leftarrow> aget xs j; Some (if P c then n + 1 else n) }) (m :: int) [0..<k] =
    Some (m + int (card {j. j < k \<and> P (xs ! j)}))"
proof (induction k)
  case (Suc k)
  have "{j. j < Suc k \<and> P (xs ! j)} = (if P (xs ! k) then insert k {j. j < k \<and> P (xs ! j)} else {j. j < k \<and> P (xs ! j)})"
    by (auto simp: less_Suc_eq)
  with Suc show ?case by (simp add: for_each_append c_simps)
qed simp

lemma reservations_count:
  assumes "sched_inv os (s, w)"
  shows "list_n (taskset s) = int (card (dom (sched_abs (s, w))))"
proof -
  note I = sched_invD [OF assms]
  let ?f = "\<lambda>p. t_id (the (heap w p))" and ?xs = "ts_tasks (taskset s)"
  have "sched_abs (s, w) n = None \<longleftrightarrow> n \<notin> ?f ` set ?xs" for n by (auto simp: sched_abs_def find_None_iff)
  then have "dom (sched_abs (s, w)) = ?f ` set ?xs" by (intro set_eqI) (simp only: domIff not_not)
  then have "card (dom (sched_abs (s, w))) = card (set ?xs)" using I(5) by (simp add: card_image)
  also have "\<dots> = length ?xs" using I(1) by (simp add: ts_ok_def distinct_card)
  finally show ?thesis using I(1) by (simp add: ts_ok_def list_ok_def)
qed

lemma task_info_reports:
  assumes inv: "daemon_inv os libs d" and i: "i < SET_MAX_SIZE"
  shows "\<exists>rep. req_task_info d (int i) = Some rep \<and>
    (case sched_abs (sched d, dworld d) (u32_of_int (q_desc (last_req (chann d) ! i))) of
       None \<Rightarrow> rep_type rep = RTF_TASK_INFO_ERR
     | Some (pid, k, tp) \<Rightarrow> rep_type rep = RTF_TASK_INFO_OK \<and>
         (\<exists>x. payload rep = TaskInfo x \<and> ti_ppid x = pid \<and> ti_pluginid x = k \<and> ti_period x = s32_of_u64 (period tp)))"
proof -
  note I = sched_invD [OF daemon_invD(3) [OF inv]]
  let ?id = "u32_of_int (q_desc (last_req (chann d) ! i))" and ?xs = "ts_tasks (taskset (sched d))" and ?h = "heap (dworld d)"
  note search = carrier_access(1) [OF daemon_invD(2) [OF inv] i] ts_search [OF I(1), of ?id]
  show ?thesis
  proof (cases "find (\<lambda>p. t_id (the (?h p)) = ?id) ?xs")
    case None
    then show ?thesis using search by (simp add: req_task_info_def sched_abs_def Let_def)
  next
    case (Some p)
    then have "allocated ?h p" using I(8) [of p] by (auto dest: find_in_set)
    then obtain t where "?h p = Some t" by (rule allocatedE)
    then show ?thesis using search Some by (simp add: req_task_info_def sched_abs_def reservation_def Let_def)
  qed
qed

lemma clients_count:
  assumes inv: "daemon_inv os libs d"
  shows "for_each (\<lambda>n j. do { c \<leftarrow> aget (client (chann d)) j; Some (if cl_pid c \<noteq> 0 then n + 1 else n) }) (0 :: int) [0..<CHANNEL_MAX_SIZE] =
    Some (int (card {j. srv_pid (server_of d) j \<noteq> 0}))"
proof -
  have "{j. srv_pid (server_of d) j \<noteq> 0} = {j. j < CHANNEL_MAX_SIZE \<and> cl_pid (client (chann d) ! j) \<noteq> 0}"
    by (auto simp: slot_def CHANNEL_MAX_SIZE_def)
  then show ?thesis
    using count_loop [of CHANNEL_MAX_SIZE "client (chann d)" "\<lambda>c. cl_pid c \<noteq> 0" 0] carrier_okD(5) [OF daemon_invD(2) [OF inv]]
    by (simp add: CHANNEL_MAX_SIZE_def)
qed

subsection \<open>Requests\<close>

lemma attach_answer:
  assumes "sched_inv os (s, w)"
  shows "rtf_scheduler_task_attach os i pid (s, w) = Some (r, s', w') \<Longrightarrow>
      s' = s \<and> sched_abs (s, w') = sched_abs (s, w) \<and> (0 \<le> r \<longrightarrow> sched_abs (s, w) i \<noteq> None)"
    "rtf_scheduler_task_detach os i (s, w) = Some (r, s', w') \<Longrightarrow>
      s' = s \<and> sched_abs (s, w') = sched_abs (s, w) \<and> (0 \<le> r \<longrightarrow> sched_abs (s, w) i \<noteq> None)"
  using attach_ok [OF assms, of i pid] attach_abs(1) [OF assms, of i pid] attach_abs(2) [OF assms, of i]
  by (auto simp: sched_abs_def RTF_ERROR_def split: option.splits)

text \<open>The handlers that create, destroy and connect.\<close>

lemma create_answer:
  assumes inv: "daemon_inv os libs d" and i: "i < SET_MAX_SIZE" and k: "kernel_ok os" and few: "last_task_id (sched d) < ID_BOUND"
    and ty: "req_type (last_req (chann d) ! i) = Some RTF_TASK_CREATE" and r: "req_task_create os d (int i) = Some (rep, d')"
  shows "served i (serving p d) rep (serving p d')"
proof -
  let ?q = "last_req (chann d) ! i" and ?pid = "cl_pid (client (chann d) ! i)"
  let ?dec = "decision (plugin (sched d)) (new_task (sched d) (param ?q) ?pid)"
  have "good_params libs (param ?q)" using good_reqD [OF inv i] ty by (simp add: good_request_def)
  from create_abs [OF daemon_invD(1) [OF inv] k few this, of ?pid] obtain res s w where
    C: "rtf_scheduler_task_create os (param ?q) ?pid (sched d, dworld d) = Some (res, s, w)"
      "last_task_id s = last_task_id (sched d) + 1"
      "sched_abs (s, w) = spec_create (plugin (sched d)) (new_task (sched d) (param ?q) ?pid) (sched_abs (sched d, dworld d))"
      "case ?dec of None \<Rightarrow> res = RTF_NO | Some (a, _) \<Rightarrow> res = a"
    by (auto split: option.splits)
  have "s32_of_u32 (u32_of_int (last_task_id s)) = last_task_id (sched d) + 1"
    using C(2) few sched_invD(6) [OF daemon_invD(3) [OF inv]] by (simp add: s32_of_small ID_BOUND_def)
  then have d': "d' = d\<lparr>sched := s, dworld := w\<rparr>"
    and rep: "rep_type rep = (if res = RTF_NO then RTF_TASK_CREATE_ERR else if res = RTF_PARTIAL then RTF_TASK_CREATE_PART else RTF_TASK_CREATE_OK)"
    and id: "res \<noteq> RTF_NO \<longrightarrow> payload rep = Response (f32_of_int (last_task_id (sched d) + 1))"
    using r carrier_access(1,2) [OF daemon_invD(2) [OF inv] i] C(1) by (auto simp: req_task_create_def Let_def)
  show ?thesis
  proof (cases ?dec)
    case None
    then have "rep_type rep = RTF_TASK_CREATE_ERR" "sched_abs (s, w) = sched_abs (sched d, dworld d)"
      using C(3,4) rep by (simp_all add: spec_create_def)
    then show ?thesis using refused [of "serving p d" i rep] i ty d' C(2) by (simp add: server_of_def)
  next
    case (Some x)
    then obtain a j where j: "?dec = Some (a, j)" by (cases x) auto
    then have "res = RTF_OK \<or> res = RTF_PARTIAL" using C(4) decision_Some by fastforce
    then have g: "granted (rep_type rep)" and no: "res \<noteq> RTF_NO" using rep by (auto simp: RTF_OK_def RTF_PARTIAL_def RTF_NO_def)
    have "sched_abs (s, w) = (sched_abs (sched d, dworld d))(u32_of_int (last_task_id (sched d) + 1) \<mapsto> (?pid, int j, param ?q))"
      using C(3) j by (simp add: spec_create_def new_task_def)
    then show ?thesis using reserved [of "serving p d" i rep "int j"] i ty g id no d' C(2) by (simp add: server_of_def)
  qed
qed

lemma destroy_answer:
  assumes inv: "daemon_inv os libs d" and i: "i < SET_MAX_SIZE"
    and ty: "req_type (last_req (chann d) ! i) = Some RTF_TASK_DESTROY" and r: "req_task_destroy os d (int i) = Some (rep, d')"
  shows "served i (serving p d) rep (serving p d')"
proof -
  let ?q = "last_req (chann d) ! i"
  from destroy_abs [OF daemon_invD(3) [OF inv], of "ids_rsvid ?q"] obtain res s w where
    D: "rtf_scheduler_task_destroy os (ids_rsvid ?q) (sched d, dworld d) = Some (res, s, w)"
      "res = (if ids_rsvid ?q \<in> dom (sched_abs (sched d, dworld d)) then RTF_OK else RTF_ERROR)"
      "last_task_id s = last_task_id (sched d)"
      "sched_abs (s, w) = (sched_abs (sched d, dworld d))(ids_rsvid ?q := None)"
    by blast
  have d': "d' = d\<lparr>sched := s, dworld := w\<rparr>" and rep: "rep_type rep = (if res < 0 then RTF_TASK_DESTROY_ERR else RTF_TASK_DESTROY_OK)"
    using r carrier_access(1) [OF daemon_invD(2) [OF inv] i] D(1) by (auto simp: req_task_destroy_def)
  have s': "serving p d' = (serving p d)\<lparr>srv_res := (srv_res (serving p d))(ids_rsvid ?q := None)\<rparr>"
    using d' D(3,4) by (simp add: server_of_def)
  show ?thesis
  proof (cases "sched_abs (sched d, dworld d) (ids_rsvid ?q)")
    case None
    then have "serving p d' = serving p d" unfolding s' by (simp add: fun_upd_idem)
    then show ?thesis using None answered [of "serving p d" i rep] D(2) rep i ty
      by (simp add: domIff may_answer_def RTF_ERROR_def Let_def)
  next
    case (Some r)
    then show ?thesis using destroyed [of "serving p d" i rep] s' D(2) rep i ty by (simp add: domIff RTF_OK_def)
  qed
qed

text \<open>The handlers that change no reservation.\<close>

lemma modify_answer:
  assumes inv: "daemon_inv os libs d" and i: "i < SET_MAX_SIZE"
    and ty: "req_type (last_req (chann d) ! i) = Some RTF_TASK_MODIFY" and r: "req_task_modify os d (int i) = Some (rep, d')"
  shows "server_of d' = server_of d \<and> may_answer (serving p d) (last_req (chann d) ! i) rep"
proof -
  let ?q = "last_req (chann d) ! i"
  have "ids_rsvid ?q = 0" using good_reqD [OF inv i] ty ids_rsvid_small by (simp add: good_request_def)
  then have "rtf_scheduler_task_change os (param ?q) (ids_rsvid ?q) (sched d, dworld d) = Some (RTF_ERROR, sched d, dworld d)"
    using change_of_0 [OF daemon_invD(1) [OF inv]] by simp
  then show ?thesis using r ty carrier_access(1) [OF daemon_invD(2) [OF inv] i]
    by (auto simp: req_task_modify_def may_answer_def RTF_NO_def RTF_ERROR_def server_of_def Let_def)
qed

lemma attached_answer:
  assumes inv: "daemon_inv os libs d" and i: "i < SET_MAX_SIZE"
  shows "req_type (last_req (chann d) ! i) = Some RTF_TASK_ATTACH \<Longrightarrow> req_task_attach os d (int i) = Some (rep, d') \<Longrightarrow>
      server_of d' = server_of d \<and> may_answer (serving p d) (last_req (chann d) ! i) rep"
    "req_type (last_req (chann d) ! i) = Some RTF_TASK_DETACH \<Longrightarrow> req_task_detach os d (int i) = Some (rep, d') \<Longrightarrow>
      server_of d' = server_of d \<and> may_answer (serving p d) (last_req (chann d) ! i) rep"
  using carrier_access(1) [OF daemon_invD(2) [OF inv] i]
  by (auto simp: req_task_attach_def req_task_detach_def may_answer_def bind_eq_Some server_of_def
      dest!: attach_answer [OF daemon_invD(3) [OF inv]])

lemma task_info_answer:
  assumes inv: "daemon_inv os libs d" and i: "i < SET_MAX_SIZE" and r: "req_task_info d (int i) = Some rep"
    and ty: "req_type (last_req (chann d) ! i) = Some RTF_TASK_INFO"
  shows "may_answer (serving p d) (last_req (chann d) ! i) rep"
  using task_info_reports [OF inv i] r ty by (auto simp: may_answer_def split: option.splits)

lemma counts_answer:
  assumes inv: "daemon_inv os libs d" and i: "i < SET_MAX_SIZE"
  shows "req_type (last_req (chann d) ! i) = Some RTF_CONNECTIONS_INFO \<Longrightarrow> req_connections_info d (int i) = Some rep \<Longrightarrow>
      may_answer (serving p d) (last_req (chann d) ! i) rep"
    "req_type (last_req (chann d) ! i) = Some RTF_TASKS_INFO \<Longrightarrow> req_tasks_info d (int i) = Some rep \<Longrightarrow>
      may_answer (serving p d) (last_req (chann d) ! i) rep"
  using clients_count [OF inv] reservations_count [OF daemon_invD(3) [OF inv]] carrier_access(1) [OF daemon_invD(2) [OF inv] i]
  by (auto simp: may_answer_def req_connections_info_def req_tasks_info_def)

lemma connection_info_answer:
  assumes inv: "daemon_inv os libs d" and i: "i < SET_MAX_SIZE" and r: "req_connection_info d (int i) = Some rep"
    and ty: "req_type (last_req (chann d) ! i) = Some RTF_CONNECTION_INFO"
  shows "may_answer (serving p d) (last_req (chann d) ! i) rep"
proof -
  let ?q = "q_desc (last_req (chann d) ! i)" and ?n = "int CHANNEL_MAX_SIZE"
  note C = daemon_invD(2) [OF inv]
  have q: "0 \<le> ?q" "?q \<noteq> ?n" using good_reqD [OF inv i] ty by (simp_all add: good_request_def)
  show ?thesis
  proof (cases "?q > ?n")
    case True
    then have "\<not> nat ?q < SET_MAX_SIZE" by (simp add: CHANNEL_MAX_SIZE_def)
    then show ?thesis using True r ty carrier_access(1) [OF C i]
      by (auto simp: req_connection_info_def may_answer_def Let_def)
  next
    case False
    then have "nat ?q < SET_MAX_SIZE" using q by (simp add: CHANNEL_MAX_SIZE_def)
    then show ?thesis using False q r ty carrier_access(1) [OF C i] carrier_okD(5) [OF C]
      by (auto simp: req_connection_info_def may_answer_def Let_def c_simps split: if_splits)
  qed
qed

lemma dispatch_refines:
  assumes inv: "daemon_inv os libs d" and i: "i < SET_MAX_SIZE" and k: "kernel_ok os" and few: "last_task_id (sched d) < ID_BOUND"
    and r: "dispatch_req os d (int i) (req_type (last_req (chann d) ! i)) = Some (rep, d')"
  shows "served i (serving p d) rep (serving p d')"
proof -
  let ?q = "last_req (chann d) ! i"
  note get = carrier_access(1,5) [OF daemon_invD(2) [OF inv] i]
  have same: "?thesis" if "server_of d' = server_of d" "may_answer (serving p d) ?q rep"
    using that answered [of "serving p d" i rep] i by simp
  show ?thesis
  proof (cases "req_type ?q")
    case None
    then show ?thesis using r by (intro same) (auto simp: dispatch_req_def may_answer_def)
  next
    case (Some ty)
    show ?thesis
    proof (cases ty)
      case RTF_CONNECTION
      then have "rep_type rep = RTF_CONNECTION_OK"
        and d': "d' = d\<lparr>chann := (chann d)\<lparr>client := (client (chann d))[i := (client (chann d) ! i)\<lparr>cl_pid := ids_pid ?q\<rparr>]\<rparr>\<rparr>"
        using r Some get by (auto simp: dispatch_req_def req_connection_def)
      moreover have "serving p d' = (serving p d)\<lparr>srv_pid := (srv_pid (serving p d))(i := ids_pid ?q)\<rparr>"
        using i d' carrier_okD(5) [OF daemon_invD(2) [OF inv]] by (simp add: server_of_def slot_upd fun_eq_iff)
      ultimately show ?thesis using greeted [of "serving p d" i rep] i Some RTF_CONNECTION by simp
    next
      case RTF_TASK_CREATE
      then show ?thesis using create_answer [OF inv i k few] r Some by (simp add: dispatch_req_def)
    next
      case RTF_TASK_DESTROY
      then show ?thesis using destroy_answer [OF inv i] r Some by (simp add: dispatch_req_def)
    next
      case RTF_TASK_MODIFY
      then show ?thesis using modify_answer [OF inv i] r Some by (intro same) (auto simp: dispatch_req_def)
    next
      case RTF_TASK_ATTACH
      then show ?thesis using attached_answer(1) [OF inv i] r Some by (intro same) (auto simp: dispatch_req_def)
    next
      case RTF_TASK_DETACH
      then show ?thesis using attached_answer(2) [OF inv i] r Some by (intro same) (auto simp: dispatch_req_def)
    next
      case RTF_TASK_INFO
      then show ?thesis using task_info_answer [OF inv i] r Some by (intro same) (auto simp: dispatch_req_def)
    next
      case RTF_CONNECTION_INFO
      then show ?thesis using connection_info_answer [OF inv i] r Some by (intro same) (auto simp: dispatch_req_def)
    next
      case RTF_CONNECTIONS_INFO
      then show ?thesis using counts_answer(1) [OF inv i] r Some by (intro same) (auto simp: dispatch_req_def)
    next
      case RTF_TASKS_INFO
      then show ?thesis using counts_answer(2) [OF inv i] r Some by (intro same) (auto simp: dispatch_req_def)
    qed (use r Some same get in \<open>auto simp: dispatch_req_def may_answer_def req_plugins_info_def
      req_plugin_info_def req_plugin_cpu_info_def bind_eq_Some Let_def split: if_splits\<close>)
  qed
qed

subsection \<open>The loop\<close>

text \<open>The events of the visit of slot \<open>i\<close>, and a slot that has nothing left to do: no answer is due and the client has not left.\<close>

definition by_slot :: "nat \<Rightarrow> io \<Rightarrow> bool" where
  "by_slot i e \<longleftrightarrow> (case e of Gave j _ _ \<Rightarrow> j = int i | Shut j \<Rightarrow> j = int i | _ \<Rightarrow> False)"

definition settled :: "server \<Rightarrow> nat \<Rightarrow> bool" where
  "settled s i \<longleftrightarrow> srv_state s i \<noteq> DISCONNECTED \<and> \<not> (srv_state s i = CONNECTED \<and> srv_new s i)"

lemma visit_settles:
  assumes "server_step s e t" and "by_slot i e"
  shows "settled t i \<and> (\<forall>j. settled s j \<longrightarrow> settled t j)"
  using assms by (cases rule: server_step.cases) (auto simp: by_slot_def settled_def dest: served_keeps)

lemma leave_refines:
  assumes inv: "daemon_inv os libs d" and i: "i < SET_MAX_SIZE"
    and st: "cl_state (client (chann d) ! i) = ERROR \<or> cl_state (client (chann d) ! i) = DISCONNECTED"
    and r: "rtf_daemon_check_for_fail os net d (int i) = Some (res, d')"
  shows "res = 1 \<and> rtf_daemon_check_for_fail os (recording net) (watched d l) (int i) = Some (1, watched d' (l @ [Shut (int i)])) \<and>
    server_step (serving p d) (Shut (int i)) (serving p d')"
proof -
  let ?x = "client (chann d) ! i" and ?c = "chann d"
  note C = daemon_invD(2) [OF inv]
  note len = carrier_okD(5) [OF C]
  define c1 where "c1 = ?c\<lparr>client := (client ?c)[i := ?x\<lparr>cl_state := EMPTY\<rparr>]\<rparr>"
  have C1: "carrier_ok (good_request libs) c1" using carrier_ok_upd(1) [OF C] by (simp add: c1_def)
  have c1: "client c1 ! i = ?x\<lparr>cl_state := EMPTY\<rparr>" using i len by (simp add: c1_def)
  from delete_abs [OF daemon_invD(3) [OF inv], of "cl_pid ?x"] obtain s' w' where
    D: "rtf_scheduler_delete os (cl_pid ?x) (sched d, dworld d) = Some (s', w')"
      "sched_abs (s', w') = spec_delete (cl_pid ?x) (sched_abs (sched d, dworld d))" by blast
  have n: "last_task_id s' = last_task_id (sched d)"
    using D(1) delete_keeps [OF daemon_invD(1) [OF inv], of "cl_pid ?x"] by auto
  note acc = carrier_access(3) [OF C i] carrier_access(6) [OF C i, of EMPTY] carrier_access(2,5) [OF C1 i]
  have same: "res = 1 \<and> client (chann d') = (client ?c)[i := ?x\<lparr>cl_state := EMPTY, cl_pid := 0\<rparr>] \<and> sched d' = s' \<and> dworld d' = w' \<and>
      last_req (chann d') = last_req ?c \<and> last_n (chann d') = last_n ?c \<and> sock_fd (sock (chann d')) = sock_fd (sock ?c)"
    using r st acc D(1) i c1
    by (auto simp: rtf_daemon_check_for_fail_def rtf_carrier_close_def usocket_remove_connection_def FD_CLR_def
        bind_eq_Some simp flip: c1_def) (simp_all add: c1_def)
  moreover have "rtf_daemon_check_for_fail os (recording net) (watched d l) (int i) = Some (1, watched d' (l @ [Shut (int i)]))"
    using r st acc D(1) i c1
    by (auto simp: rtf_daemon_check_for_fail_def recorded_close bind_eq_Some simp flip: c1_def)
  moreover have "serving p d' = (serving p d)\<lparr>srv_state := (srv_state (serving p d))(i := EMPTY),
      srv_pid := (srv_pid (serving p d))(i := 0), srv_res := spec_delete (cl_pid ?x) (sched_abs (sched d, dworld d))\<rparr>"
    using same i len D(2) n by (simp add: server_of_def slot_upd)
  ultimately show ?thesis using shut [of "serving p d" i] st i by simp
qed

lemma handle_refines:
  assumes inv: "daemon_inv os libs d" and i: "i < SET_MAX_SIZE" and k: "kernel_ok os" and few: "last_task_id (sched d) < ID_BOUND"
    and r: "rtf_daemon_handle_req os net d (int i) = Some (res, d')"
  shows "\<exists>es. rtf_daemon_handle_req os (recording net) (watched d l) (int i) = Some (res, watched d' (l @ es)) \<and>
    (es = [] \<and> d' = d \<and> settled (server_of d) i \<or> (\<exists>e. es = [e] \<and> by_slot i e \<and> server_step (serving p d) e (serving p d')))"
proof -
  note C = daemon_invD(2) [OF inv]
  note get = carrier_access(1,3,4) [OF C i]
  let ?st = "cl_state (client (chann d) ! i)" and ?q = "last_req (chann d) ! i"
  consider "?st = ERROR \<or> ?st = DISCONNECTED" | "?st = EMPTY \<or> \<not> last_n (chann d) ! i > 0" "?st \<noteq> ERROR \<and> ?st \<noteq> DISCONNECTED"
    | "?st = CONNECTED" "last_n (chann d) ! i > 0" by (cases ?st) auto
  then show ?thesis
  proof cases
    case 1
    from check_for_fail_keeps [OF inv i, of net] obtain f d1 where F: "rtf_daemon_check_for_fail os net d (int i) = Some (f, d1)" by blast
    from leave_refines [OF inv i 1 F, of l p] F r show ?thesis
      by (intro exI [of _ "[Shut (int i)]"]) (auto simp: rtf_daemon_handle_req_def by_slot_def)
  next
    case 2
    then have "d' = d \<and> rtf_daemon_handle_req os (recording net) (watched d l) (int i) = Some (res, watched d l)" using r get
      by (auto simp: rtf_daemon_handle_req_def rtf_daemon_check_for_fail_def rtf_daemon_check_for_update_def split: if_splits)
    moreover have "settled (server_of d) i" using 2 i by (auto simp: settled_def)
    ultimately show ?thesis by (intro exI [of _ "[]"]) simp
  next
    case 3
    have pre: "rtf_daemon_check_for_fail os n e (int i) = Some (0, e)" "rtf_daemon_check_for_update e (int i) = Some 1"
      if "chann e = chann d" for n :: "'z rtf_sockets" and e :: "('a, 'z) rtf_daemon"
      using 3 get that by (simp_all add: rtf_daemon_check_for_fail_def rtf_daemon_check_for_update_def)
    obtain sent d2 c where P: "rtf_daemon_process_req os net d (int i) = Some (sent, d2)"
        and c: "(if sent \<le> 0 then rtf_carrier_set_state ((chann d2)\<lparr>last_n := (last_n (chann d2))[i := 0]\<rparr>) (int i) ERROR
          else Some ((chann d2)\<lparr>last_n := (last_n (chann d2))[i := 0]\<rparr>)) = Some c" "d' = d2\<lparr>chann := c\<rparr>" "res = 0"
      using 3 r get by (auto simp: rtf_daemon_handle_req_def rtf_daemon_check_for_fail_def rtf_daemon_check_for_update_def
          rtf_carrier_req_clear_def iset_eq_Some bind_eq_Some)
    from P get obtain rep d1 where D1: "dispatch_req os d (int i) (req_type ?q) = Some (rep, d1)"
        "(case rtf_carrier_send net (dnet d1) rep (int i) of (sent, n) \<Rightarrow> Some (sent, d1\<lparr>dnet := n\<rparr>)) = Some (sent, d2)"
      by (auto simp: rtf_daemon_process_req_def bind_eq_Some)
    then obtain n where D: "dispatch_req os d (int i) (req_type ?q) = Some (rep, d1)" "d2 = d1\<lparr>dnet := n\<rparr>"
        "rtf_carrier_send net (dnet d1) rep (int i) = (sent, n)"
      by (cases "rtf_carrier_send net (dnet d1) rep (int i)") auto
    have inv1: "daemon_inv os libs d1"
      using dispatch_serves [OF inv i k few] D(1) by (auto simp: serves_def)
    then have C1: "carrier_ok (good_request libs) (chann d2)" using daemon_invD(2) [OF inv1] D(2) by simp
    note C2 = carrier_ok_upd(2) [OF C1, of i 0]
    have "rtf_daemon_process_req os (recording net) (watched d l) (int i) = Some (sent, watched d2 (l @ [Gave (int i) rep sent]))"
      using get D(1,2) recorded_send [OF D(3), of l] by (simp add: rtf_daemon_process_req_def recorded_dispatch)
    then have rec: "rtf_daemon_handle_req os (recording net) (watched d l) (int i) = Some (res, watched d' (l @ [Gave (int i) rep sent]))"
      using c carrier_access(7) [OF C1 i] by (simp add: rtf_daemon_handle_req_def pre)
    have served: "served i (serving p d) rep (serving p d1)" by (rule dispatch_refines [OF inv i k few D(1)])
    have "serving p d' = (serving p d1)\<lparr>srv_new := (srv_new (serving p d1))(i := False),
        srv_state := (if sent \<le> 0 then (srv_state (serving p d1))(i := ERROR) else srv_state (serving p d1))\<rparr>"
      using c carrier_access(6) [OF C2 i, of ERROR] i carrier_okD(2,5) [OF C1] D(2)
      by (cases "sent \<le> 0") (auto simp: server_of_def slot_upd fun_eq_iff)
    with gave [OF _ _ served, of sent] 3 i have "server_step (serving p d) (Gave (int i) rep sent) (serving p d')" by simp
    with rec show ?thesis by (intro exI [of _ "[Gave (int i) rep sent]"]) (simp add: by_slot_def)
  qed
qed

text \<open>A stretch of visits, and the rounds.\<close>

abbreviation visit :: "'k kernel \<Rightarrow> 'n rtf_sockets \<Rightarrow> ('k, 'n) rtf_daemon \<Rightarrow> nat \<Rightarrow> ('k, 'n) rtf_daemon option" where
  "visit os net \<equiv> \<lambda>d i. map_option snd (rtf_daemon_handle_req os net d (int i))"

lemma visits_refine:
  assumes "daemon_inv os libs d" and "kernel_ok os" and "\<forall>i \<in> set xs. i < SET_MAX_SIZE"
    and "last_task_id (sched d) + int (length xs) \<le> ID_BOUND" and "for_each (visit os net) d xs = Some d'"
  shows "\<exists>es. for_each (visit os (recording net)) (watched d l) xs = Some (watched d' (l @ es)) \<and>
    server_run (serving p d) es (serving p d') \<and> (\<forall>i. i \<in> set xs \<or> settled (server_of d) i \<longrightarrow> settled (server_of d') i)"
  using assms(1,3-5)
proof (induction xs arbitrary: d l)
  case Nil
  then show ?case using server_run.nil [of "serving p d"] by (intro exI [of _ "[]"]) simp
next
  case (Cons i xs)
  have i: "i < SET_MAX_SIZE" and few: "last_task_id (sched d) < ID_BOUND" using Cons.prems(2,3) by simp_all
  from handle_req_keeps [OF Cons.prems(1) i assms(2) few, of net] obtain res d1 where
    h: "rtf_daemon_handle_req os net d (int i) = Some (res, d1)" "daemon_inv os libs d1"
      "last_task_id (sched d1) \<le> last_task_id (sched d) + 1" by blast
  from handle_refines [OF Cons.prems(1) i assms(2) few h(1), of l p] obtain es where
    E: "rtf_daemon_handle_req os (recording net) (watched d l) (int i) = Some (res, watched d1 (l @ es))"
      "es = [] \<and> d1 = d \<and> settled (server_of d) i \<or> (\<exists>e. es = [e] \<and> by_slot i e \<and> server_step (serving p d) e (serving p d1))" by blast
  from E(2) have one: "server_run (serving p d) es (serving p d1)" using server_run.nil run_step by blast
  have set: "settled (server_of d1) j" if "j = i \<or> settled (server_of d) j" for j
    using E(2) visit_settles [of "serving p d" _ "serving p d1" i] that by (auto simp: settled_def)
  have "\<forall>i \<in> set xs. i < SET_MAX_SIZE" "last_task_id (sched d1) + int (length xs) \<le> ID_BOUND" "for_each (visit os net) d1 xs = Some d'"
    using Cons.prems(2-4) h by simp_all
  from Cons.IH [OF h(2) this, of "l @ es"] obtain fs where
    F: "for_each (visit os (recording net)) (watched d1 (l @ es)) xs = Some (watched d' ((l @ es) @ fs))"
      "server_run (serving p d1) fs (serving p d')" "\<forall>j. j \<in> set xs \<or> settled (server_of d1) j \<longrightarrow> settled (server_of d') j" by blast
  show ?case using E(1) F(1) run_append [OF F(2) one] F(3) set by (intro exI [of _ "es @ fs"]) auto
qed

lemma round_refines:
  assumes inv: "daemon_inv os libs d" and k: "kernel_ok os" and net: "sockets_ok net (good_request libs)"
    and few: "last_task_id (sched d) + int SET_MAX_SIZE \<le> ID_BOUND" and r: "rtf_daemon_round os net d = Some d'"
  shows "\<exists>es q. rtf_daemon_round os (recording net) (watched d l) = Some (watched d' (l @ es)) \<and>
    server_run (serving p d) es (serving q d') \<and> (\<forall>i. int i \<le> q \<longrightarrow> settled (server_of d') i)"
proof -
  note C = daemon_invD(2) [OF inv]
  from rtf_carrier_update_ok [OF net C] obtain c n1 where U: "rtf_carrier_update net (dnet d) (chann d) = Some (c, n1)"
      "carrier_ok (good_request libs) c" by blast
  define d1 where "d1 = d\<lparr>chann := c, dnet := n1\<rparr>"
  let ?xs = "[0..<nat (rtf_carrier_get_conn c + 1)]"
  from update_refines [OF net C U(1), of l p] obtain es q where
    E: "rtf_carrier_update (recording net) (dnet d, l) (chann d) = Some (c, n1, l @ es)" "server_run (serving p d) es (serving q d1)"
      "q \<le> rtf_carrier_get_conn c" by (auto simp: d1_def)
  have len: "length ?xs \<le> SET_MAX_SIZE"
    using carrier_okD(1) [OF U(2)] by (auto simp: rtf_carrier_get_conn_def usocket_get_maxfd_def usocket_ok_def)
  have "daemon_inv os libs d1" using daemon_invD(1) [OF inv] U(2) by (simp add: d1_def daemon_inv_def)
  moreover have "\<forall>i \<in> set ?xs. i < SET_MAX_SIZE" using len by simp
  moreover have "last_task_id (sched d1) = last_task_id (sched d)" by (simp add: d1_def)
  then have "last_task_id (sched d1) + int (length ?xs) \<le> ID_BOUND" using few len by linarith
  moreover have "for_each (visit os net) d1 ?xs = Some d'" using r U(1) by (simp add: rtf_daemon_round_def d1_def)
  ultimately obtain fs where F: "for_each (visit os (recording net)) (watched d1 (l @ es)) ?xs = Some (watched d' ((l @ es) @ fs))"
      "server_run (serving q d1) fs (serving q d')" "\<forall>i. i \<in> set ?xs \<longrightarrow> settled (server_of d') i"
    using visits_refine [OF _ k, of libs d1 ?xs net d' "l @ es" q] by blast
  have "rtf_daemon_round os (recording net) (watched d l) = Some (watched d' (l @ es @ fs))"
    using E(1) F(1) by (simp add: rtf_daemon_round_def d1_def)
  moreover have "settled (server_of d') i" if "int i \<le> q" for i using F(3) E(3) that by auto
  ultimately show ?thesis using run_append [OF F(2) E(2)] by blast
qed

abbreviation rounds :: "'k kernel \<Rightarrow> 'n rtf_sockets \<Rightarrow> ('k, 'n) rtf_daemon \<Rightarrow> nat \<Rightarrow> ('k, 'n) rtf_daemon option" where
  "rounds os net d n \<equiv> for_each (\<lambda>d _. rtf_daemon_round os net d) d [0..<n]"

lemma rounds_refine:
  assumes "daemon_inv os libs d" and "kernel_ok os" and "sockets_ok net (good_request libs)"
    and "last_task_id (sched d) + int SET_MAX_SIZE * int n \<le> ID_BOUND" and "rounds os net d n = Some d'"
  shows "\<exists>es q. rounds os (recording net) (watched d l) n = Some (watched d' (l @ es)) \<and> server_run (serving p d) es (serving q d') \<and>
    (0 < n \<longrightarrow> (\<forall>i. int i \<le> q \<longrightarrow> settled (server_of d') i))"
  using assms(4,5)
proof (induction n arbitrary: d')
  case 0
  then show ?case using server_run.nil [of "serving p d"] by (intro exI [of _ "[]"] exI [of _ p]) simp
next
  case (Suc n)
  then obtain d1 where d1: "rounds os net d n = Some d1" "rtf_daemon_round os net d1 = Some d'"
    by (auto simp: for_each_append bind_eq_Some)
  have few: "last_task_id (sched d) + int SET_MAX_SIZE * int n \<le> ID_BOUND" using Suc.prems(1) by (simp add: algebra_simps)
  from Suc.IH [OF few d1(1)] obtain es q where
    E: "rounds os (recording net) (watched d l) n = Some (watched d1 (l @ es))" "server_run (serving p d) es (serving q d1)" by blast
  have I: "daemon_inv os libs d1" "last_task_id (sched d1) + int SET_MAX_SIZE \<le> ID_BOUND"
    using rounds_keep [OF assms(1-3) few] d1(1) Suc.prems(1) by (auto simp: algebra_simps)
  from round_refines [OF I(1) assms(2,3) I(2) d1(2), of "l @ es" q] obtain fs q' where
    F: "rtf_daemon_round os (recording net) (watched d1 (l @ es)) = Some (watched d' ((l @ es) @ fs))"
      "server_run (serving q d1) fs (serving q' d')" "\<forall>i. int i \<le> q' \<longrightarrow> settled (server_of d') i" by blast
  have "rounds os (recording net) (watched d l) (Suc n) = Some (watched d' (l @ es @ fs))"
    using E(1) F(1) by (simp add: for_each_append)
  with run_append [OF F(2) E(2)] F(3) show ?case by blast
qed

subsection \<open>A client that hung up\<close>

text \<open>The visit of another slot than \<open>i\<close> that does not name the process \<open>p\<close>: slot \<open>i\<close> stays as it is, and no other slot and, if there is
  none yet, no reservation gets the process \<open>p\<close>.\<close>

definition aside :: "nat \<Rightarrow> int \<Rightarrow> server \<Rightarrow> server \<Rightarrow> bool" where
  "aside i p s t \<longleftrightarrow> srv_state t i = srv_state s i \<and> srv_pid t i = srv_pid s i \<and> (\<forall>l. l \<noteq> i \<longrightarrow> srv_pid t l \<noteq> p) \<and>
     ((\<forall>n r. srv_res s n = Some r \<longrightarrow> fst r \<noteq> p) \<longrightarrow> (\<forall>n r. srv_res t n = Some r \<longrightarrow> fst r \<noteq> p))"

lemma aside_refl: "\<forall>l. l \<noteq> i \<longrightarrow> srv_pid s l \<noteq> p \<Longrightarrow> aside i p s s"
  by (simp add: aside_def)

lemma aside_trans: "aside i p s t \<Longrightarrow> aside i p t u \<Longrightarrow> aside i p s u"
  unfolding aside_def by (elim conjE, intro conjI) (metis | blast)+

lemma step_aside:
  assumes "server_step s e t" and "by_slot j e" and "j \<noteq> i" and "\<forall>l. l \<noteq> i \<longrightarrow> srv_pid s l \<noteq> p"
    and "p \<noteq> 0" and "\<not> (req_type (srv_req s j) = Some RTF_CONNECTION \<and> ids_pid (srv_req s j) = p)"
  shows "aside i p s t"
  using assms(1)
proof (cases rule: server_step.cases)
  case (gave l rep t' r)
  then have l: "l = j" using assms(2) by (simp add: by_slot_def)
  then have "srv_pid s j \<noteq> p" using assms(3,4) by simp
  with gave(5) have "aside i p s t'"
    by (cases rule: served.cases) (use l assms(3,4,6) in \<open>auto simp: aside_def\<close>)
  then show ?thesis using gave(2) l assms(3) by (simp add: aside_def)
next
  case (shut l)
  then have "l \<noteq> i" using assms(2,3) by (simp add: by_slot_def)
  then show ?thesis using shut(2) assms(4,5) by (simp add: aside_def spec_delete_def restrict_map_def)
qed (use assms(2) in \<open>simp_all add: by_slot_def\<close>)

lemma handle_last_req:
  "rtf_daemon_handle_req os net d i = Some (r, d') \<Longrightarrow> last_req (chann d') = last_req (chann d)"
proof -
  have dispatch: "last_req (chann d2) = last_req (chann d1)" if "dispatch_req os d1 i ty = Some (rep, d2)" for d1 d2 ty rep
    using that by (auto simp: dispatch_req_def req_connection_def req_task_create_def req_task_modify_def req_task_attach_def
        req_task_detach_def req_task_destroy_def rtf_carrier_set_pid_def bind_eq_Some Let_def split: option.splits REQ_TYPE.splits)
  have process: "last_req (chann d2) = last_req (chann d1)" if m: "rtf_daemon_process_req os net d1 i = Some (n, d2)" for d1 d2 n
  proof -
    obtain ty rep d3 where "dispatch_req os d1 i ty = Some (rep, d3)"
        "(case rtf_carrier_send net (dnet d3) rep i of (sent, k) \<Rightarrow> Some (sent, d3\<lparr>dnet := k\<rparr>)) = Some (n, d2)"
      using m by (auto simp: rtf_daemon_process_req_def bind_eq_Some)
    then show ?thesis using dispatch by (cases "rtf_carrier_send net (dnet d3) rep i") auto
  qed
  have fail: "last_req (chann d2) = last_req (chann d1)" if "rtf_daemon_check_for_fail os net d1 i = Some (n, d2)" for d1 d2 n
    using that by (auto simp: rtf_daemon_check_for_fail_def rtf_carrier_set_state_def rtf_carrier_set_pid_def
        rtf_carrier_close_def bind_eq_Some split: if_splits)
  assume "rtf_daemon_handle_req os net d i = Some (r, d')"
  then show ?thesis
    by (auto simp: rtf_daemon_handle_req_def rtf_carrier_req_clear_def rtf_carrier_set_state_def bind_eq_Some
        dest!: process fail split: if_splits)
qed

text \<open>A stretch of the loop over other slots.\<close>

lemma others_aside:
  assumes inv: "daemon_inv os libs d" and k: "kernel_ok os" and js: "\<forall>j \<in> set js. j < SET_MAX_SIZE \<and> j \<noteq> i"
    and few: "last_task_id (sched d) + int (length js) \<le> ID_BOUND" and p: "p \<noteq> 0" "\<forall>l. l \<noteq> i \<longrightarrow> srv_pid (server_of d) l \<noteq> p"
    and quiet: "\<forall>j \<in> set js. \<not> (req_type (last_req (chann d) ! j) = Some RTF_CONNECTION \<and> ids_pid (last_req (chann d) ! j) = p)"
  shows "\<exists>d'. for_each (\<lambda>d i. map_option snd (rtf_daemon_handle_req os net d (int i))) d js = Some d' \<and>
    daemon_inv os libs d' \<and> aside i p (server_of d) (server_of d') \<and> last_req (chann d') = last_req (chann d) \<and>
    last_task_id (sched d') \<le> last_task_id (sched d) + int (length js)"
proof -
  let ?I = "\<lambda>e. daemon_inv os libs e \<and> aside i p (server_of d) (server_of e) \<and> last_req (chann e) = last_req (chann d)"
  have "\<exists>d'. for_each (\<lambda>d i. map_option snd (rtf_daemon_handle_req os net d (int i))) d js = Some d' \<and> ?I d' \<and>
      last_task_id (sched d') \<le> last_task_id (sched d) + 1 * int (length js)"
  proof (rule for_each_bounded [where I = ?I and B = ID_BOUND])
    show "\<exists>d'. map_option snd (rtf_daemon_handle_req os net e (int j)) = Some d' \<and> ?I d' \<and>
        last_task_id (sched d') \<le> last_task_id (sched e) + 1"
      if "?I e" "j \<in> set js" "last_task_id (sched e) + 1 \<le> ID_BOUND" for e j
    proof -
      have j: "j < SET_MAX_SIZE" "j \<noteq> i" and few: "last_task_id (sched e) < ID_BOUND" using that js by simp_all
      from handle_req_keeps [OF _ j(1) k few, of libs net] that(1) obtain res d' where
        h: "rtf_daemon_handle_req os net e (int j) = Some (res, d')" "daemon_inv os libs d'"
          "last_task_id (sched d') \<le> last_task_id (sched e) + 1" by blast
      from handle_refines [OF _ j(1) k few h(1), of libs "[]" "- 1"] that(1) consider "d' = e"
        | x where "by_slot j x" "server_step (serving (- 1) e) x (serving (- 1) d')" by blast
      then have "aside i p (server_of e) (server_of d')"
      proof cases
        case 1
        then show ?thesis using that(1) by (auto simp: aside_def intro: aside_refl)
      next
        case 2
        have "\<not> (req_type (srv_req (serving (- 1) e) j) = Some RTF_CONNECTION \<and> ids_pid (srv_req (serving (- 1) e) j) = p)"
          using quiet that(1,2) j(1) by simp
        moreover have "\<forall>l. l \<noteq> i \<longrightarrow> srv_pid (serving (- 1) e) l \<noteq> p" using that(1) by (simp add: aside_def)
        ultimately have "aside i p (serving (- 1) e) (serving (- 1) d')" using step_aside [OF 2(2,1) j(2) _ p(1)] by blast
        then show ?thesis by (simp add: aside_def)
      qed
      then have "?I d'" using that(1) h(2) handle_last_req [OF h(1)] aside_trans by metis
      with h(1,3) show ?thesis by simp
    qed
  qed (use inv few p(2) in \<open>simp_all add: aside_refl\<close>)
  then show ?thesis by simp
qed

subsection \<open>Properties\<close>

text \<open>C1: The daemon refines the server.  Record the calls that the daemon makes on its sockets: what each poll, accept and receive
  returned, which reply was sent to whom, what was closed.  From a state that satisfies the invariant, with good requests, memory and ids below the
  bound, any number of rounds is defined, and that very log is a run of the server from the state of the daemon before to the
  one after.  So every reply answers the request last received on its descriptor, from a client that is connected and not yet
  answered, with the type and payload that the server allows; a reservation is made exactly by a granted reply, under the
  next id, for the process of the slot and with the parameters of the request; it ends exactly by a confirmed request to destroy it or when a descriptor of its process is
  closed, which happens only to clients that left.  And no client is kept waiting: after a
  round no polled slot (up to \<open>q\<close>) has an unanswered request or a client that has hung up.\<close>

theorem daemon_refines:
  assumes "daemon_inv os libs d" and "kernel_ok os" and "sockets_ok net (good_request libs)"
    and "last_task_id (sched d) + int SET_MAX_SIZE * int n \<le> ID_BOUND"
  shows "\<exists>d' log q. rounds os net d n = Some d' \<and> rounds os (recording net) (watched d []) n = Some (watched d' log) \<and>
    server_run (server_of d) log ((server_of d')\<lparr>srv_polled := q\<rparr>) \<and>
    (0 < n \<longrightarrow> (\<forall>i. int i \<le> q \<longrightarrow> settled (server_of d') i))"
proof -
  obtain d' where d': "rounds os net d n = Some d'" using rounds_keep [OF assms] by blast
  have "serving (- 1) d = server_of d" by (simp add: server_of_def)
  with rounds_refine [OF assms d', of "[]" "- 1"] d' show ?thesis by auto
qed

text \<open>C2: No reservation is lost, altered or made up, over any number of rounds (invariant, good requests, memory and ids below the bound given): a reservation that was there
  before is there afterwards with the same process, plugin and parameters, unless the log of the socket calls shows that the request last received on some descriptor asked for its destruction and was told that it was
  destroyed, or that the descriptor of a slot of its process was closed; and for a reservation that was not there before the log shows a request
  to create a task with just these parameters, received from a slot of just that process, that was granted with just that id in the reply, an id that was not
  given out before.  The request and the process of a slot are read off the log (\<open>noted\<close>).\<close>

theorem reservations_accounted:
  assumes "daemon_inv os libs d" and "kernel_ok os" and "sockets_ok net (good_request libs)"
    and "last_task_id (sched d) + int SET_MAX_SIZE * int n \<le> ID_BOUND" and "rounds os net d n = Some d'"
  shows "\<exists>log. rounds os (recording net) (watched d []) n = Some (watched d' log) \<and> (\<forall>n r.
    let before = sched_abs (sched d, dworld d); after = sched_abs (sched d', dworld d');
        slots = (srv_req (server_of d), srv_pid (server_of d))
    in (before n = Some r \<longrightarrow> after n = Some r \<or> after n = None \<and> along (\<lambda>N e. ends N e n (fst r)) slots log) \<and>
       (after n = Some r \<and> before n \<noteq> Some r \<longrightarrow> last_task_id (sched d) < uint n \<and> uint n \<le> last_task_id (sched d') \<and>
          along (\<lambda>N e. begins N e n (fst r) (snd (snd r))) slots log))"
proof -
  note I = sched_invD [OF daemon_invD(3) [OF assms(1)]]
  from rounds_refine [OF assms, of "[]" "- 1"] obtain log q where
    log: "rounds os (recording net) (watched d []) n = Some (watched d' log)" and run: "server_run (serving (- 1) d) log (serving q d')"
    by auto
  have "last_task_id (sched d') \<le> ID_BOUND" using rounds_keep [OF assms(1-4)] assms(4,5) by auto
  then have few: "srv_issued (serving q d') < 2 ^ 32" by (simp add: ID_BOUND_def)
  have old: "uint n \<le> last_task_id (sched d)" if m: "sched_abs (sched d, dworld d) n = Some r" for n r
  proof -
    obtain p where "p \<in> set (ts_tasks (taskset (sched d)))" "t_id (the (heap (dworld d) p)) = n"
      using m unfolding abs_Some [OF daemon_invD(3) [OF assms(1)]] by blast
    with I(7) show ?thesis by auto
  qed
  have "0 \<le> srv_issued (serving (- 1) d)" using I(6) by simp
  note R = run_reservation [OF run this few]
  have same: "srv_res (serving (- 1) d) = sched_abs (sched d, dworld d)" "srv_res (serving q d') = sched_abs (sched d', dworld d')"
    "srv_issued (serving (- 1) d) = last_task_id (sched d)" "srv_issued (serving q d') = last_task_id (sched d')"
    "srv_req (serving (- 1) d) = srv_req (server_of d)" "srv_pid (serving (- 1) d) = srv_pid (server_of d)"
    by simp_all
  show ?thesis unfolding Let_def
    by (intro exI [of _ log] conjI [OF log] allI) (use R [unfolded same] old in blast)
qed

lemma daemon_refines_witness:
  "\<exists>d' log q. rounds ex_os (recording ex_net) (watched ex_daemon []) 1000 = Some (watched d' log) \<and>
     server_run (server_of ex_daemon) log ((server_of d')\<lparr>srv_polled := q\<rparr>) \<and> srv_res (server_of ex_daemon) 1 \<noteq> None"
proof -
  have "last_task_id (sched ex_daemon) + int SET_MAX_SIZE * int 1000 \<le> ID_BOUND"
    by (simp add: ex_daemon_def SET_MAX_SIZE_def ID_BOUND_def)
  from daemon_refines [OF ex_daemon_inv ex_kernel ex_sockets this] show ?thesis
    by (auto simp: ex_daemon_def sched_abs_def ex_sched_def ts_of_def ex_world_def ex_task_def)
qed

lemma reservations_accounted_witness:
  "\<exists>d' log. rounds ex_os (recording ex_net) (watched ex_daemon []) 3 = Some (watched d' log) \<and>
     (sched_abs (sched d', dworld d') 1 = Some (7, 1, ex_params) \<or>
      along (\<lambda>N e. ends N e 1 7) (srv_req (server_of ex_daemon), srv_pid (server_of ex_daemon)) log)"
proof -
  have few: "last_task_id (sched ex_daemon) + int SET_MAX_SIZE * int 3 \<le> ID_BOUND"
    by (simp add: ex_daemon_def SET_MAX_SIZE_def ID_BOUND_def)
  from rounds_keep [OF ex_daemon_inv ex_kernel ex_sockets few] obtain d' where
    d': "rounds ex_os ex_net ex_daemon 3 = Some d'" by blast
  have "sched_abs (sched ex_daemon, dworld ex_daemon) 1 = Some (7, 1, ex_params)"
    by (simp add: ex_daemon_def sched_abs_def reservation_def ex_sched_def ts_of_def ex_world_def ex_task_def zero_task_def)
  with reservations_accounted [OF ex_daemon_inv ex_kernel ex_sockets few d'] show ?thesis
    unfolding Let_def by (metis fst_conv)
qed

text \<open>C6: A client that hung up loses its reservations at once.  When the descriptors that were polled show that the client in slot
  \<open>i\<close> has disconnected or failed, the same round empties the slot, and at its end there is no reservation
  for the process of the client, unless another client belongs to that process or claims it in this round.\<close>

theorem hangup_frees:
  assumes "daemon_inv os libs d" and "kernel_ok os" and "sockets_ok net (good_request libs)"
    and "last_task_id (sched d) + int SET_MAX_SIZE \<le> ID_BOUND"
    and "rtf_carrier_update net (dnet d) (chann d) = Some (c, k)" and "int i \<le> rtf_carrier_get_conn c"
    and "cl_state (client c ! i) = ERROR \<or> cl_state (client c ! i) = DISCONNECTED"
    and "p = cl_pid (client c ! i)" and "p \<noteq> 0"
    and "\<forall>j < SET_MAX_SIZE. j \<noteq> i \<longrightarrow> cl_pid (client c ! j) \<noteq> p \<and>
      \<not> (req_type (last_req c ! j) = Some RTF_CONNECTION \<and> ids_pid (last_req c ! j) = p)"
  shows "\<exists>d'. rtf_daemon_round os net d = Some d' \<and> srv_state (server_of d') i = EMPTY \<and> srv_pid (server_of d') i = 0 \<and>
    (\<forall>n r. sched_abs (sched d', dworld d') n = Some r \<longrightarrow> fst r \<noteq> p)"
proof -
  define d1 where "d1 = d\<lparr>chann := c, dnet := k\<rparr>"
  let ?N = "nat (rtf_carrier_get_conn c + 1)"
  let ?f = "\<lambda>d i. map_option snd (rtf_daemon_handle_req os net d (int i))"
  have c: "carrier_ok (good_request libs) c"
    using rtf_carrier_update_ok [OF assms(3) daemon_invD(2) [OF assms(1)], of "dnet d"] assms(5) by auto
  have N: "?N \<le> SET_MAX_SIZE" "i < ?N"
    using carrier_okD(1) [OF c] assms(6) by (auto simp: rtf_carrier_get_conn_def usocket_get_maxfd_def usocket_ok_def)
  then have i: "i < SET_MAX_SIZE" by simp
  have inv1: "daemon_inv os libs d1" using daemon_invD(1) [OF assms(1)] c by (simp add: d1_def daemon_inv_def)
  have quiet: "\<not> (req_type (last_req c ! j) = Some RTF_CONNECTION \<and> ids_pid (last_req c ! j) = p)" if "j < ?N" "j \<noteq> i" for j
    using assms(10) that N(1) by simp
  have "\<forall>l. l \<noteq> i \<longrightarrow> srv_pid (server_of d1) l \<noteq> p" using assms(9,10) by (simp add: d1_def slot_def)
  moreover have "last_task_id (sched d1) + int (length [0..<i]) \<le> ID_BOUND" using assms(4) i by (simp add: d1_def)
  ultimately obtain d2 where d2: "for_each ?f d1 [0..<i] = Some d2" "daemon_inv os libs d2"
      "aside i p (server_of d1) (server_of d2)" "last_req (chann d2) = last_req c" "last_task_id (sched d2) \<le> last_task_id (sched d1) + int i"
    using others_aside [OF inv1 assms(2), of "[0..<i]" i p net] assms(9) quiet N by (auto simp: d1_def)
  have st: "cl_state (client (chann d2) ! i) = ERROR \<or> cl_state (client (chann d2) ! i) = DISCONNECTED" "cl_pid (client (chann d2) ! i) = p"
    using d2(3) assms(7,8) i by (simp_all add: aside_def d1_def)
  have "last_task_id (sched d2) < ID_BOUND" using d2(5) assms(4) i by (simp add: d1_def)
  from handle_req_keeps [OF d2(2) i assms(2) this, of net] obtain res d3 where
    h: "rtf_daemon_handle_req os net d2 (int i) = Some (res, d3)" "daemon_inv os libs d3" "last_task_id (sched d3) \<le> last_task_id (sched d2) + 1"
    by blast
  from check_for_fail_keeps [OF d2(2) i, of net] obtain e f where F: "rtf_daemon_check_for_fail os net d2 (int i) = Some (f, e)" by blast
  with leave_refines [OF d2(2) i st(1) F, of "[]" "- 1"] h(1) have "server_step (serving (- 1) d2) (Shut (int i)) (serving (- 1) d3)"
    by (auto simp: rtf_daemon_handle_req_def)
  then have "srv_state (serving (- 1) d3) i = EMPTY \<and> srv_pid (serving (- 1) d3) i = 0 \<and>
      srv_pid (serving (- 1) d3) = (srv_pid (serving (- 1) d2))(i := 0) \<and>
      srv_res (serving (- 1) d3) = spec_delete (srv_pid (serving (- 1) d2) i) (srv_res (serving (- 1) d2))"
    by (cases rule: server_step.cases) simp
  then have gone: "srv_state (server_of d3) i = EMPTY" "srv_pid (server_of d3) i = 0" "srv_pid (server_of d3) = (srv_pid (server_of d2))(i := 0)"
      "srv_res (server_of d3) = spec_delete p (srv_res (server_of d2))"
    using st(2) i by simp_all
  have "\<forall>l. l \<noteq> i \<longrightarrow> srv_pid (server_of d3) l \<noteq> p" using d2(3) gone(3) by (auto simp: aside_def)
  moreover have "last_task_id (sched d3) + int (length [Suc i..<?N]) \<le> ID_BOUND"
  proof -
    have "last_task_id (sched d3) \<le> last_task_id (sched d) + int i + 1" using h(3) d2(5) by (simp add: d1_def)
    moreover have "int (length [Suc i..<?N]) + int i + 1 \<le> int SET_MAX_SIZE" using N by simp
    ultimately show ?thesis using assms(4) by linarith
  qed
  moreover have "last_req (chann d3) = last_req c" using handle_last_req [OF h(1)] d2(4) by simp
  ultimately obtain d4 where d4: "for_each ?f d3 [Suc i..<?N] = Some d4" "aside i p (server_of d3) (server_of d4)"
    using others_aside [OF h(2) assms(2), of "[Suc i..<?N]" i p net] assms(9) quiet N(1) by auto
  have "[0..<?N] = [0..<i] @ i # [Suc i..<?N]" 
    using N(2) upt_add_eq_append [of 0 i "?N - i"] upt_conv_Cons [of i ?N] by simp
  then have "rtf_daemon_round os net d = Some d4"
    using assms(5) d2(1) h(1) d4(1) by (simp add: rtf_daemon_round_def for_each_append flip: d1_def)
  moreover have "\<forall>n r. srv_res (server_of d3) n = Some r \<longrightarrow> fst r \<noteq> p"
    unfolding gone(4) by (auto simp: spec_delete_def restrict_map_def split: if_splits)
  ultimately show ?thesis using d4(2) gone(1,2) unfolding aside_def by (metis server_of_sel(5))
qed

text \<open>Polling fails in this round, so the client that is noted as disconnected stays so until it is visited.\<close>

definition silent_net :: "unit rtf_sockets" where
  "silent_net = ex_net\<lparr>sys_select := (\<lambda>k _ _. (- 1, {}, k))\<rparr>"

lemma hangup_frees_witness:
  "\<exists>d'. rtf_daemon_round ex_os silent_net ex_daemon = Some d' \<and> srv_pid (server_of d') 4 = 0 \<and>
     sched_abs (sched d', dworld d') 1 \<noteq> Some (7, 1, ex_params) \<and>
     sched_abs (sched ex_daemon, dworld ex_daemon) 1 = Some (7, 1, ex_params)"
proof -
  let ?c = "chann ex_daemon"
  have net: "sockets_ok silent_net P" for P using ex_sockets [of P] by (simp add: sockets_ok_def silent_net_def)
  have few: "last_task_id (sched ex_daemon) + int SET_MAX_SIZE \<le> ID_BOUND"
    by (simp add: ex_daemon_def SET_MAX_SIZE_def ID_BOUND_def)
  have maxfd: "usocket_get_maxfd (sock ?c) = 4" by (simp add: usocket_get_maxfd_def ex_daemon_def zero_usocket_def)
  have "\<exists>l. for_each (\<lambda>l i. aset l i 0) (last_n ?c) [0..<nat (4 + 1)] = Some l \<and> length l = SET_MAX_SIZE"
    by (rule for_each_inv) (auto simp: c_simps ex_daemon_def SET_MAX_SIZE_def)
  then obtain l where l: "for_each (\<lambda>l i. aset l i 0) (last_n ?c) [0..<nat (4 + 1)] = Some l" by blast
  have upd: "rtf_carrier_update silent_net (dnet ex_daemon) ?c = Some (?c\<lparr>last_n := l\<rparr>, dnet ex_daemon)"
    using l by (simp add: rtf_carrier_update_def maxfd usocket_recvall_def silent_net_def Let_def)
  have slots: "client ?c ! j = (if j = 4 then \<lparr>cl_state = DISCONNECTED, cl_pid = 7\<rparr> else \<lparr>cl_state = EMPTY, cl_pid = 0\<rparr>)"
      "last_req ?c ! j = \<lparr>req_type = Some RTF_CONNECTION, param = zero_params\<rparr>" if "j < SET_MAX_SIZE" for j
    using that by (simp_all add: ex_daemon_def nth_list_update)
  have pid0: "ids_pid \<lparr>req_type = Some RTF_CONNECTION, param = zero_params\<rparr> = 0"
    by (simp add: ids_pid_def low_half_def zero_params_def s32_of_u32_def)
  have four: "4 < SET_MAX_SIZE" by (simp add: SET_MAX_SIZE_def)
  have "\<exists>d'. rtf_daemon_round ex_os silent_net ex_daemon = Some d' \<and> srv_state (server_of d') 4 = EMPTY \<and> srv_pid (server_of d') 4 = 0 \<and>
    (\<forall>n r. sched_abs (sched d', dworld d') n = Some r \<longrightarrow> fst r \<noteq> 7)"
    by (rule hangup_frees [OF ex_daemon_inv ex_kernel net few upd])
      (use slots four pid0 maxfd in \<open>simp_all add: rtf_carrier_get_conn_def\<close>)
  moreover have "sched_abs (sched ex_daemon, dworld ex_daemon) 1 = Some (7, 1, ex_params)"
    by (simp add: ex_daemon_def sched_abs_def reservation_def ex_sched_def ts_of_def ex_world_def ex_task_def zero_task_def)
  ultimately show ?thesis by fastforce
qed

end
