(* ===== verification/Protocol.thy ===== *)
theory Protocol
  imports Client_Daemon Daemon_Refine
begin

text \<open>
  The protocol of requests and replies as the handlers of the daemon and the calls of the library use it: which
  member of the union each reply carries, that the library reads no other one, and that the answers
  to the queries describe the server of Daemon_Refine, and that a session of creating and releasing a
  task returns to the same reservations.
\<close>

subsection \<open>The members of the replies\<close>

text \<open>The type of the reply and the member that was written, for each request.\<close>

definition well_typed :: "REQ_TYPE option \<Rightarrow> rtf_reply \<Rightarrow> bool" where
  "well_typed ty rep = (case ty of
     Some RTF_CONNECTION \<Rightarrow> rep_type rep = RTF_CONNECTION_OK
   | Some RTF_CONNECTIONS_INFO \<Rightarrow> rep_type rep = RTF_CONNECTIONS_INFO_OK \<and> (\<exists>n. payload rep = Nconnected n)
   | Some RTF_CONNECTION_INFO \<Rightarrow> rep_type rep = RTF_CONNECTION_INFO_ERR \<or>
       rep_type rep = RTF_CONNECTION_INFO_OK \<and> (\<exists>x. payload rep = ClientInfo x)
   | Some RTF_PLUGINS_INFO \<Rightarrow> rep_type rep = RTF_PLUGINS_INFO_OK \<and> (\<exists>n. payload rep = Nplugin n)
   | Some RTF_PLUGIN_INFO \<Rightarrow> rep_type rep = RTF_PLUGIN_INFO_ERR \<or>
       rep_type rep = RTF_PLUGIN_INFO_OK \<and> (\<exists>x. payload rep = PluginInfo x)
   | Some RTF_PLUGIN_CPU_INFO \<Rightarrow> rep_type rep = RTF_PLUGIN_CPU_INFO_ERR \<or>
       rep_type rep = RTF_PLUGIN_CPU_INFO_OK \<and> (\<exists>x. payload rep = CpuInfo x)
   | Some RTF_TASKS_INFO \<Rightarrow> rep_type rep = RTF_PLUGINS_INFO_OK \<and> (\<exists>n. payload rep = Ntask n)
   | Some RTF_TASK_INFO \<Rightarrow> rep_type rep = RTF_TASK_INFO_ERR \<or>
       rep_type rep = RTF_TASK_INFO_OK \<and> (\<exists>x. payload rep = TaskInfo x \<and> ti_util x = None)
   | Some RTF_TASK_CREATE \<Rightarrow> (\<exists>x. payload rep = Response x) \<and>
       rep_type rep \<in> {RTF_TASK_CREATE_OK, RTF_TASK_CREATE_PART, RTF_TASK_CREATE_ERR}
   | Some RTF_TASK_MODIFY \<Rightarrow> rep_type rep \<in> {RTF_TASK_MODIFY_OK, RTF_TASK_MODIFY_PART, RTF_TASK_MODIFY_ERR}
   | Some RTF_TASK_ATTACH \<Rightarrow> rep_type rep \<in> {RTF_TASK_ATTACH_OK, RTF_TASK_ATTACH_ERR}
   | Some RTF_TASK_DETACH \<Rightarrow> rep_type rep \<in> {RTF_TASK_DETACH_OK, RTF_TASK_DETACH_ERR}
   | Some RTF_TASK_DESTROY \<Rightarrow> rep_type rep \<in> {RTF_TASK_DESTROY_OK, RTF_TASK_DESTROY_ERR}
   | _ \<Rightarrow> rep_type rep = RTF_REQUEST_ERR)"

lemma dispatch_well_typed:
  assumes "dispatch_req os d i ty = Some (rep, d')"
  shows "well_typed ty rep"
proof (cases ty)
  case None
  then show ?thesis using assms by (auto simp: dispatch_req_def well_typed_def)
next
  case (Some a)
  note defs = dispatch_req_def well_typed_def bind_eq_Some Let_def
  show ?thesis
  proof (cases a)
    case RTF_CONNECTION
    then show ?thesis using assms Some by (auto simp: defs req_connection_def)
  next
    case RTF_TASK_CREATE
    then show ?thesis using assms Some by (auto simp: defs req_task_create_def split: if_splits)
  next
    case RTF_TASK_MODIFY
    then show ?thesis using assms Some by (auto simp: defs req_task_modify_def split: if_splits)
  next
    case RTF_TASK_ATTACH
    then show ?thesis using assms Some by (auto simp: defs req_task_attach_def)
  next
    case RTF_TASK_DETACH
    then show ?thesis using assms Some by (auto simp: defs req_task_detach_def)
  next
    case RTF_TASK_DESTROY
    then show ?thesis using assms Some by (auto simp: defs req_task_destroy_def)
  next
    case RTF_CONNECTION_INFO
    then show ?thesis using assms Some by (auto simp: defs req_connection_info_def split: if_splits)
  next
    case RTF_PLUGIN_INFO
    then show ?thesis using assms Some by (auto simp: defs req_plugin_info_def split: if_splits)
  next
    case RTF_PLUGIN_CPU_INFO
    then show ?thesis using assms Some by (auto simp: defs req_plugin_cpu_info_def split: if_splits)
  next
    case RTF_TASK_INFO
    then show ?thesis using assms Some by (auto simp: defs req_task_info_def split: option.splits)
  next
    case RTF_CONNECTIONS_INFO
    then show ?thesis using assms Some by (auto simp: defs req_connections_info_def)
  next
    case RTF_PLUGINS_INFO
    then show ?thesis using assms Some by (auto simp: defs req_plugins_info_def)
  next
    case RTF_TASKS_INFO
    then show ?thesis using assms Some by (auto simp: defs req_tasks_info_def)
  qed (use assms Some in \<open>auto simp: defs\<close>)
qed

text \<open>The sockets of a client bring it the answer of the daemon: a successful exchange delivers the reply of the handler for
  the request, in some state \<open>d \<in> D\<close> of the daemon that has received it.\<close>

definition answered_by :: "'k kernel \<Rightarrow> ('k, 'n) rtf_daemon set \<Rightarrow> 'm rtf_sockets \<Rightarrow> bool" where
  "answered_by os D net \<longleftrightarrow> (\<forall>c k r c' k'. rtf_task_communicate net (c, k) = (r, c', k') \<longrightarrow> 0 \<le> r \<longrightarrow>
     (\<exists>d \<in> D. \<exists>i d'. i < SET_MAX_SIZE \<and> last_req (chann d) ! i = acc_req c \<and>
        dispatch_req os d (int i) (req_type (acc_req c)) = Some (acc_rep c', d')))"

lemma communicated:
  assumes "answered_by os D net" and "rtf_task_communicate net (c, k) = (r, c', k')" and "0 \<le> r"
  obtains d i d' where "d \<in> D" "i < SET_MAX_SIZE" "last_req (chann d) ! i = acc_req c"
    "dispatch_req os d (int i) (req_type (acc_req c)) = Some (acc_rep c', d')" "well_typed (req_type (acc_req c)) (acc_rep c')"
  using assms dispatch_well_typed unfolding answered_by_def by metis

lemma query_count_defined:
  assumes "answered_by os D net" and "ty \<in> {RTF_CONNECTIONS_INFO, RTF_PLUGINS_INFO, RTF_TASKS_INFO}"
  shows "\<exists>n st'. query_count ty net st = Some (n, st')"
proof -
  obtain c k where st: "st = (c, k)" by (cases st)
  let ?c = "with_req (\<lambda>q. q\<lparr>req_type := Some ty\<rparr>) c"
  obtain r c' k' where x: "rtf_task_communicate net (?c, k) = (r, c', k')" by (cases "rtf_task_communicate net (?c, k)")
  show ?thesis
  proof (cases "r < 0")
    case True
    then show ?thesis using st x by (simp add: query_count_def)
  next
    case False
    then have "0 \<le> r" by simp
    from communicated [OF assms(1) x this] have "well_typed (Some ty) (acc_rep c')" by (auto simp: with_req_def)
    then have "\<exists>n. payload_count (acc_rep c') = Some n"
      using assms(2) by (auto simp: well_typed_def payload_count_def)
    then show ?thesis using False st x by (auto simp: query_count_def)
  qed
qed

lemma query_item_typed:
  assumes "answered_by os D net" and "query_item args ty err net st = (RTF_OK, m, st')" and "\<And>q. req_type (args q) = req_type q"
  obtains rep where "well_typed (Some ty) rep" "rep_type rep \<noteq> err" "payload rep = m"
proof -
  obtain c k where st: "st = (c, k)" by (cases st)
  let ?c = "with_req (\<lambda>q. args (q\<lparr>req_type := Some ty\<rparr>)) c"
  obtain r c' k' where x: "rtf_task_communicate net (?c, k) = (r, c', k')" by (cases "rtf_task_communicate net (?c, k)")
  then have r: "0 \<le> r" "rep_type (acc_rep c') \<noteq> err" "payload (acc_rep c') = m"
    using assms(2) st by (auto simp: query_item_def RTF_OK_def RTF_ERROR_def split: if_splits)
  from communicated [OF assms(1) x r(1)] have "well_typed (Some ty) (acc_rep c')" using assms(3) by (auto simp: with_req_def)
  then show ?thesis using that r by blast
qed

lemma create_defined:
  assumes "answered_by os D net" and "kernel_ok os" and "\<forall>d \<in> D. daemon_inv os libs d \<and> last_task_id (sched d) < ID_BOUND"
  shows "\<exists>r t' st'. cli_task_create net p (t, st) = Some (r, t', st')"
proof -
  obtain c k where st: "st = (c, k)" by (cases st)
  let ?c = "with_req (\<lambda>q. q\<lparr>req_type := Some RTF_TASK_CREATE, param := p\<rparr>) c"
  obtain r c' k' where x: "rtf_task_communicate net (?c, k) = (r, c', k')" by (cases "rtf_task_communicate net (?c, k)")
  show ?thesis
  proof (cases "r < 0 \<or> rep_type (acc_rep c') = RTF_TASK_CREATE_ERR")
    case True
    then show ?thesis using st x by (auto simp: cli_task_create_def Let_def)
  next
    case False
    then have "0 \<le> r" by simp
    have q: "req_type (acc_req ?c) = Some RTF_TASK_CREATE" by (simp add: with_req_def)
    from communicated [OF assms(1) x \<open>0 \<le> r\<close>, unfolded q] obtain d i d' where d: "d \<in> D" "i < SET_MAX_SIZE" "last_req (chann d) ! i = acc_req ?c"
        "dispatch_req os d (int i) (Some RTF_TASK_CREATE) = Some (acc_rep c', d')" by blast
    with assms(3) have inv: "daemon_inv os libs d" "last_task_id (sched d) < ID_BOUND" by simp_all
    let ?q = "last_req (chann d) ! i" and ?pid = "cl_pid (client (chann d) ! i)"
    have "good_params libs (param ?q)" using good_reqD [OF inv(1) d(2)] d(3) by (simp add: good_request_def with_req_def)
    from create_abs [OF daemon_invD(1) [OF inv(1)] assms(2) inv(2) this, of ?pid] obtain res s w where
      C: "rtf_scheduler_task_create os (param ?q) ?pid (sched d, dworld d) = Some (res, s, w)"
        "last_task_id s = last_task_id (sched d) + 1" by blast
    have n: "0 \<le> last_task_id s" "last_task_id s < 2 ^ 24"
      using C(2) inv(2) sched_invD(6) [OF daemon_invD(3) [OF inv(1)]] by (simp_all add: ID_BOUND_def)
    then have "s32_of_u32 (u32_of_int (last_task_id s)) = last_task_id s" by (intro s32_of_small) simp_all
    moreover have "acc_rep c' = fst (the (req_task_create os d (int i)))" using d(4) by (simp add: dispatch_req_def)
    ultimately have "payload_id (acc_rep c') = Some (word_of_int (last_task_id s))"
      using False u32_of_f32_of_int [OF n] unfolding req_task_create_eq [OF inv(1) d(2) C(1)]
      by (auto simp: payload_id_def Let_def split: if_splits)
    then show ?thesis using False st x by (simp add: cli_task_create_def Let_def)
  qed
qed

subsection \<open>Properties\<close>

text \<open>C7: Requests and replies are well typed from end to end, up to one field.  When every reply that arrives is the answer of a daemon that satisfies its
  invariant (with memory, and ids below the bound), the library reads no other member of the reply than the one the daemon wrote: the counters and the id of a
  created task are always defined, and information on a client, a task, a plugin or a CPU that is
  reported with success is of that kind.  Inside the information on a task one field, the utilisation, was never written by the
  daemon, for no task; the library copies it to its caller all the same.\<close>

theorem library_reads_what_was_written:
  assumes "answered_by os D net" and "kernel_ok os" and "\<forall>d \<in> D. daemon_inv os libs d \<and> last_task_id (sched d) < ID_BOUND"
  shows "(\<exists>n st'. rtf_connections_info net st = Some (n, st')) \<and> (\<exists>n st'. rtf_plugins_info net st = Some (n, st')) \<and>
    (\<exists>n st'. rtf_tasks_info net st = Some (n, st')) \<and> (\<exists>r t' st'. cli_task_create net p (t, st) = Some (r, t', st')) \<and>
    (rtf_connection_info desc net st = (RTF_OK, m, st') \<longrightarrow> (\<exists>x. m = ClientInfo x)) \<and>
    (lib_task_info desc net st = (RTF_OK, m, st') \<longrightarrow> (\<exists>x. m = TaskInfo x \<and> ti_util x = None)) \<and>
    (lib_plugin_info desc net st = (RTF_OK, m, st') \<longrightarrow> (\<exists>x. m = PluginInfo x)) \<and>
    (rtf_plugin_cpu_info desc cpuid net st = (RTF_OK, m, st') \<longrightarrow> (\<exists>x. m = CpuInfo x))"
proof (intro conjI impI)
  note Q = query_item_typed [OF assms(1)]
  show "\<exists>x. m = ClientInfo x" if "rtf_connection_info desc net st = (RTF_OK, m, st')"
    by (rule Q [OF that [unfolded rtf_connection_info_def]]) (auto simp: well_typed_def)
  show "\<exists>x. m = TaskInfo x \<and> ti_util x = None" if "lib_task_info desc net st = (RTF_OK, m, st')"
    by (rule Q [OF that [unfolded lib_task_info_def]]) (auto simp: well_typed_def)
  show "\<exists>x. m = PluginInfo x" if "lib_plugin_info desc net st = (RTF_OK, m, st')"
    by (rule Q [OF that [unfolded lib_plugin_info_def]]) (auto simp: well_typed_def)
  show "\<exists>x. m = CpuInfo x" if "rtf_plugin_cpu_info desc cpuid net st = (RTF_OK, m, st')"
    by (rule Q [OF that [unfolded rtf_plugin_cpu_info_def]]) (auto simp: well_typed_def)
qed (use query_count_defined [OF assms(1)] create_defined [OF assms] in
  \<open>auto simp: rtf_connections_info_def rtf_plugins_info_def rtf_tasks_info_def\<close>)

text \<open>C15: The queries describe the server: the number of clients is the number of slots with a process, the number of tasks the number of
  reservations, the number of plugins that of the scheduler; the information on a task carries the process, the
  plugin and the period of the reservation with that id, and is refused when there is none.\<close>

theorem queries_report_server:
  assumes "daemon_inv os libs d" and "i < SET_MAX_SIZE"
  shows "(\<exists>rep. req_connections_info d (int i) = Some rep \<and> payload rep = Nconnected (int (card {j. srv_pid (server_of d) j \<noteq> 0}))) \<and>
    (\<exists>rep. req_tasks_info d (int i) = Some rep \<and> payload rep = Ntask (int (card (dom (srv_res (server_of d)))))) \<and>
    (\<exists>rep. req_plugins_info d (int i) = Some rep \<and> payload rep = Nplugin (int (length (plugin (sched d))))) \<and>
    (\<exists>rep. req_task_info d (int i) = Some rep \<and>
      (case srv_res (server_of d) (u32_of_int (q_desc (last_req (chann d) ! i))) of
         None \<Rightarrow> rep_type rep = RTF_TASK_INFO_ERR
       | Some (pid, k, tp) \<Rightarrow> rep_type rep = RTF_TASK_INFO_OK \<and>
           (\<exists>x. payload rep = TaskInfo x \<and> ti_ppid x = pid \<and> ti_pluginid x = k \<and> ti_period x = s32_of_u64 (period tp))))"
proof -
  note C = daemon_invD(2) [OF assms(1)] and S = daemon_invD(3) [OF assms(1)]
  show ?thesis
    using carrier_access(1) [OF C assms(2)] clients_count [OF assms(1)] reservations_count [OF S] sched_invD(2) [OF S] task_info_reports [OF assms]
    by (simp add: req_connections_info_def req_tasks_info_def req_plugins_info_def)
qed

text \<open>C14: A session with the daemon through the library leaves no trace.  A client that creates a task, is told that it was accepted, and later
  releases it under the id that the library noted, with nothing in between but the receiving of the request, gets
  a success both times, and the daemon has the reservations that it had before; only the counter of ids has
  advanced, by one.\<close>

theorem session_roundtrip:
  assumes "daemon_inv os libs d" and "kernel_ok os" and "last_task_id (sched d) < ID_BOUND"
    and "exchanged net d i (with_req (\<lambda>q. q\<lparr>req_type := Some RTF_TASK_CREATE, param := p\<rparr>) c, k) rep k1"
    and "dispatch_req os d (int i) (Some RTF_TASK_CREATE) = Some (rep, d1)" and "rep_type rep \<noteq> RTF_TASK_CREATE_ERR"
    and "cli_task_create net p (t, c, k) = Some (r, t', c', k')"
    and "daemon_inv os libs d2" and "sched d2 = sched d1" and "dworld d2 = dworld d1"
    and "exchanged net d2 j (with_req (\<lambda>q. set_high (task_id t') (q\<lparr>req_type := Some RTF_TASK_DESTROY\<rparr>)) c', k') rep' k2"
    and "dispatch_req os d2 (int j) (Some RTF_TASK_DESTROY) = Some (rep', d3)"
  shows "r = RTF_OK \<and> fst (cli_task_release net t' (c', k')) = RTF_OK \<and>
    sched_abs (sched d3, dworld d3) = sched_abs (sched d, dworld d) \<and> last_task_id (sched d3) = last_task_id (sched d) + 1"
proof -
  note E = exchangedD [OF assms(4)] and E' = exchangedD [OF assms(11)]
  let ?pid = "cl_pid (client (chann d) ! i)" and ?id = "u32_of_int (last_task_id (sched d) + 1)"
  note S = daemon_invD(3) [OF assms(1)]
  have "req_type (last_req (chann d) ! i) = Some RTF_TASK_CREATE" "param (last_req (chann d) ! i) = p"
    using E(2) by (simp_all add: with_req_def)
  then have good: "good_params libs p" and q: "param (last_req (chann d) ! i) = p"
    using good_reqD [OF assms(1) E(1)] by (simp_all add: good_request_def)
  from create_abs [OF daemon_invD(1) [OF assms(1)] assms(2,3) good, of ?pid] obtain res s w where
    C: "rtf_scheduler_task_create os p ?pid (sched d, dworld d) = Some (res, s, w)" "last_task_id s = last_task_id (sched d) + 1"
      "sched_abs (s, w) = spec_create (plugin (sched d)) (new_task (sched d) p ?pid) (sched_abs (sched d, dworld d))"
      "case decision (plugin (sched d)) (new_task (sched d) p ?pid) of None \<Rightarrow> res = RTF_NO | Some (a, _) \<Rightarrow> res = a"
    by (auto split: option.splits)
  have "res \<noteq> RTF_NO"
    using req_task_create_eq [OF assms(1) E(1), unfolded q, OF C(1)] assms(5,6) by (auto simp: dispatch_req_def Let_def)
  moreover have "0 \<le> last_task_id (sched d)" "last_task_id (sched d) + 1 < 2 ^ 24" using sched_invD(6) [OF S] assms(3) by (simp_all add: ID_BOUND_def)
  ultimately have created: "sched d1 = s" "dworld d1 = w" "r = RTF_OK" "task_id t' = ?id"
    using created_id [OF assms(1) _ _ assms(4) C(1,2) _ assms(5), of t] assms(7) C(2) by auto
  obtain k0 a where a: "decision (plugin (sched d)) (new_task (sched d) p ?pid) = Some (a, k0)"
    using C(4) \<open>res \<noteq> RTF_NO\<close> by (cases "decision (plugin (sched d)) (new_task (sched d) p ?pid)") auto
  have abs1: "sched_abs (s, w) = (sched_abs (sched d, dworld d))(?id \<mapsto> (?pid, int k0, p))"
    using C(3) a by (simp add: spec_create_def new_task_def)
  have fresh: "sched_abs (sched d, dworld d) ?id = None"
  proof (rule ccontr)
    assume "sched_abs (sched d, dworld d) ?id \<noteq> None"
    then obtain x where "x \<in> set (ts_tasks (taskset (sched d)))" "t_id (the (heap (dworld d) x)) = ?id" using abs_Some [OF S] by blast
    moreover have "uint ?id = last_task_id (sched d) + 1" using sched_invD(6) [OF S] assms(3) by (simp add: uint_u32_of_int ID_BOUND_def)
    ultimately show False using sched_invD(7) [OF S] by fastforce
  qed
  have id: "ids_rsvid (last_req (chann d2) ! j) = ?id" using E'(2) created(4) by (simp add: with_req_def ids_of_set)
  from destroy_abs [OF daemon_invD(3) [OF assms(8)], of ?id] obtain res' s' w' where
    D: "rtf_scheduler_task_destroy os ?id (sched d2, dworld d2) = Some (res', s', w')"
      "res' = (if ?id \<in> dom (sched_abs (sched d2, dworld d2)) then RTF_OK else RTF_ERROR)"
      "last_task_id s' = last_task_id (sched d2)" "sched_abs (s', w') = (sched_abs (sched d2, dworld d2))(?id := None)" by blast
  have "res' = RTF_OK" using D(2) assms(9,10) created(1,2) abs1 by simp
  then have "rep' = \<lparr>rep_type = RTF_TASK_DESTROY_OK, payload = Unset\<rparr> \<and> d3 = d2\<lparr>sched := s', dworld := w'\<rparr>"
    using assms(12) carrier_access(1) [OF daemon_invD(2) [OF assms(8)] E'(1)] D(1) id
    by (auto simp: dispatch_req_def req_task_destroy_def)
  moreover from this have "fst (cli_task_release net t' (c', k')) = RTF_OK"
    using E'(3) by (simp add: cli_task_release_def request_on_task_def Let_def)
  moreover have "sched_abs (s', w') = sched_abs (sched d, dworld d)"
    using D(4) assms(9,10) created(1,2) abs1 fresh by (simp add: fun_upd_idem)
  ultimately show ?thesis using created(1,3) D(3) assms(9) C(2) by simp
qed

text \<open>A client whose requests are answered by the small daemon; the state of its sockets is the last request.\<close>

definition looped :: "rtf_request rtf_sockets" where
  "looped = \<lparr>sys_socket = (\<lambda>k _. (3, k)), sys_connect = (\<lambda>k _ _. (0, k)), sys_bind = (\<lambda>k _ _. (0, k)),
     sys_unlink = (\<lambda>k _. k), sys_chmod = (\<lambda>k _. (0, k)), sys_listen = (\<lambda>k _ _. (0, k)), sys_accept = (\<lambda>k _. (- 1, k)),
     sys_select = (\<lambda>k _ _. (0, {}, k)), sys_recv_req = (\<lambda>k _ b. (0, b, k)),
     sys_recv_rep = (\<lambda>k _ b. if good_request ex_libs k
       then (case dispatch_req ex_os (ex_served 1 k) 5 (req_type k) of None \<Rightarrow> (- 1, b, k) | Some (rep, _) \<Rightarrow> (1, rep, k))
       else (- 1, b, k)),
     sys_send_req = (\<lambda>_ _ q. (1, q)), sys_send_rep = (\<lambda>k _ _. (1, k)), sys_setsockopt_timeout = (\<lambda>k _ _ _. (0, k)),
     sys_set_flags = (\<lambda>k _ _. (0, k)), sys_calloc_ucred = (\<lambda>_. True), sys_peercred = (\<lambda>_ _. None),
     sys_close = (\<lambda>k _. k)\<rparr>"

lemma looped_answered: "answered_by ex_os {ex_served 1 q | q. good_request ex_libs q} looped"
  unfolding answered_by_def
proof (intro allI impI)
  fix c k r c' k'
  assume x: "rtf_task_communicate looped (c, k) = (r, c', k')" and "0 \<le> r"
  let ?q = "acc_req c"
  from x \<open>0 \<le> r\<close> have "good_request ex_libs ?q"
      "\<exists>d'. dispatch_req ex_os (ex_served 1 ?q) 5 (req_type ?q) = Some (acc_rep c', d')"
    by (auto simp: rtf_task_communicate_def rtf_access_send_def rtf_access_recv_def usocket_send_def usocket_recv_def
        looped_def RTF_ERROR_def Let_def split: if_splits option.splits prod.splits)
  moreover have "5 < SET_MAX_SIZE" by (simp add: SET_MAX_SIZE_def)
  ultimately show "\<exists>d \<in> {ex_served 1 q | q. good_request ex_libs q}. \<exists>i d'. i < SET_MAX_SIZE \<and>
      last_req (chann d) ! i = ?q \<and> dispatch_req ex_os d (int i) (req_type ?q) = Some (acc_rep c', d')"
    by (intro bexI [of _ "ex_served 1 ?q"] exI [of _ 5]) auto
qed

lemma library_reads_what_was_written_witness:
  "\<exists>n st'. rtf_tasks_info looped (ex_access (ex_request RTF_CONNECTION) \<lparr>rep_type = RTF_CONNECTION_OK, payload = Unset\<rparr>,
     ex_request RTF_CONNECTION) = Some (n, st')"
proof -
  have "\<forall>d \<in> {ex_served 1 q | q. good_request ex_libs q}. daemon_inv ex_os ex_libs d \<and> last_task_id (sched d) < ID_BOUND"
    using ex_served_inv [of 1] by (auto simp: ID_BOUND_def)
  from library_reads_what_was_written [OF looped_answered ex_kernel this] show ?thesis by blast
qed

lemma queries_report_server_witness:
  "\<exists>rep. req_tasks_info (ex_served 1 (ex_request RTF_TASKS_INFO)) 5 = Some rep \<and> payload rep = Ntask 1"
proof -
  let ?d = "ex_served 1 (ex_request RTF_TASKS_INFO)"
  have inv: "daemon_inv ex_os ex_libs ?d" by (rule ex_served_inv) (simp_all add: good_request_def)
  have "sched_abs (sched ?d, dworld ?d) = [1 \<mapsto> (7, 1, ex_params)]"
    by (auto simp: sched_abs_def reservation_def ex_sched_def ts_of_def ex_world_def ex_task_def zero_task_def fun_eq_iff)
  moreover have "5 < SET_MAX_SIZE" by (simp add: SET_MAX_SIZE_def)
  ultimately show ?thesis using queries_report_server [OF inv, of 5] by simp
qed

text \<open>A session with the small daemon: the sockets of the client hold the replies that are on their way.\<close>

definition scripted :: "rtf_reply list rtf_sockets" where
  "scripted = \<lparr>sys_socket = (\<lambda>k _. (3, k)), sys_connect = (\<lambda>k _ _. (0, k)), sys_bind = (\<lambda>k _ _. (0, k)),
     sys_unlink = (\<lambda>k _. k), sys_chmod = (\<lambda>k _. (0, k)), sys_listen = (\<lambda>k _ _. (0, k)), sys_accept = (\<lambda>k _. (- 1, k)),
     sys_select = (\<lambda>k _ _. (0, {}, k)), sys_recv_req = (\<lambda>k _ b. (0, b, k)),
     sys_recv_rep = (\<lambda>k _ b. case k of [] \<Rightarrow> (- 1, b, []) | rep # k' \<Rightarrow> (1, rep, k')),
     sys_send_req = (\<lambda>k _ _. (1, k)), sys_send_rep = (\<lambda>k _ _. (1, k)), sys_setsockopt_timeout = (\<lambda>k _ _ _. (0, k)),
     sys_set_flags = (\<lambda>k _ _. (0, k)), sys_calloc_ucred = (\<lambda>_. True), sys_peercred = (\<lambda>_ _. None),
     sys_close = (\<lambda>k _. k)\<rparr>"

lemma scripted_exchanged:
  "i < SET_MAX_SIZE \<Longrightarrow> last_req (chann d) ! i = acc_req c \<Longrightarrow> exchanged scripted d i (c, rep # k) rep k"
  by (simp add: exchanged_def scripted_def)

lemma cli_task_create_req:
  "cli_task_create net p (t, c, k) = Some (r, t', c', k') \<Longrightarrow> acc_req c' = (acc_req c)\<lparr>req_type := Some RTF_TASK_CREATE, param := p\<rparr>"
  by (auto simp: cli_task_create_def with_req_def rtf_task_communicate_def rtf_access_send_def rtf_access_recv_def usocket_send_def
      usocket_recv_def Let_def bind_eq_Some_conv split: if_splits option.splits prod.splits)

abbreviation "ex_reply \<equiv> \<lparr>rep_type = RTF_CONNECTION_OK, payload = Unset\<rparr>"

lemma session_roundtrip_witness:
  "\<exists>reps t' c' k' (d3 :: (unit, unit) rtf_daemon). cli_task_create scripted ex_params (ex_client, ex_access (ex_request RTF_TASK_CREATE) ex_reply, reps) =
      Some (RTF_OK, t', c', k') \<and> fst (cli_task_release scripted t' (c', k')) = RTF_OK \<and>
    sched_abs (sched d3, dworld d3) = sched_abs (ex_sched\<lparr>last_task_id := 1\<rparr>, ex_world)"
proof -
  let ?q = "ex_request RTF_TASK_CREATE" and ?t = "ex_client\<lparr>cli_p := ex_params, task_id := 2\<rparr>"
  let ?q2 = "set_high 2 (?q\<lparr>req_type := Some RTF_TASK_DESTROY\<rparr>)" and ?c = "ex_access ?q ex_reply"
  let ?d = "ex_served 1 ?q"
  have inv: "daemon_inv ex_os ex_libs ?d" by (rule ex_served_inv) (simp_all add: ex_good)
  have five: "5 < SET_MAX_SIZE" by (simp add: SET_MAX_SIZE_def)
  obtain s w where S: "rtf_scheduler_task_create ex_os ex_params (cl_pid (client (chann ?d) ! 5)) (sched ?d, dworld ?d) = Some (RTF_OK, s, w)"
      "last_task_id s = 2"
    using ex_create [of 1 "cl_pid (client (chann ?d) ! 5)"] by auto
  from dispatch_serves [OF inv five ex_kernel] obtain rep d1 where
    D: "dispatch_req ex_os ?d (int 5) (Some RTF_TASK_CREATE) = Some (rep, d1)" "daemon_inv ex_os ex_libs d1"
    by (auto simp: serves_def ID_BOUND_def)
  have ok: "rep_type rep \<noteq> RTF_TASK_CREATE_ERR"
    using req_task_create_eq [OF inv five, of RTF_OK s w] S D(1) by (auto simp: dispatch_req_def RTF_OK_def RTF_NO_def RTF_PARTIAL_def Let_def)
  let ?d2 = "d1\<lparr>chann := (chann d1)\<lparr>last_req := replicate SET_MAX_SIZE ?q2\<rparr>\<rparr>"
  have inv2: "daemon_inv ex_os ex_libs ?d2"
    using D(2) by (simp add: daemon_inv_def carrier_ok_def good_request_def)
  have x: "exchanged scripted ?d 5 (with_req (\<lambda>q. q\<lparr>req_type := Some RTF_TASK_CREATE, param := ex_params\<rparr>) ?c, rep # reps) rep reps" for reps
    by (rule scripted_exchanged [OF five]) (simp add: with_req_def ex_access_def)
  have "RTF_OK \<noteq> RTF_NO" by (simp add: RTF_OK_def RTF_NO_def)
  from created_id [OF inv _ _ x S(1) _ this D(1), of ex_client] S(2)
  have made: "\<exists>c'. cli_task_create scripted ex_params (ex_client, ?c, rep # reps) = Some (RTF_OK, ?t, c', reps)" and same: "sched d1 = s" for reps
    by (auto simp: u32_of_int_def)
  have q2: "req_type (last_req (chann ?d2) ! 5) = Some RTF_TASK_DESTROY" using five by simp
  have "last_task_id (sched ?d2) < ID_BOUND" using same S(2) by (simp add: ID_BOUND_def)
  from dispatch_serves [OF inv2 five ex_kernel this] obtain rep' d3 where
    D3: "dispatch_req ex_os ?d2 (int 5) (Some RTF_TASK_DESTROY) = Some (rep', d3)"
    unfolding q2 by (auto simp: serves_def)
  from made [of "[rep']"] obtain c' where M: "cli_task_create scripted ex_params (ex_client, ?c, [rep, rep']) = Some (RTF_OK, ?t, c', [rep'])"
    by blast
  have "acc_req c' = ?q" using cli_task_create_req [OF M] by (simp add: ex_access_def)
  then have x2: "exchanged scripted ?d2 5 (with_req (\<lambda>q. set_high (task_id ?t) (q\<lparr>req_type := Some RTF_TASK_DESTROY\<rparr>)) c', [rep']) rep' []"
    using five by (intro scripted_exchanged) (simp_all add: with_req_def)
  have few: "last_task_id (sched ?d) < ID_BOUND" by (simp add: ID_BOUND_def)
  from session_roundtrip [OF inv ex_kernel few x D(1) ok M inv2 _ _ x2 D3]
  have "fst (cli_task_release scripted ?t (c', [rep'])) = RTF_OK \<and>
      sched_abs (sched d3, dworld d3) = sched_abs (ex_sched\<lparr>last_task_id := 1\<rparr>, ex_world)" by simp
  then show ?thesis using M by blast
qed

end
