(* ===== verification/Config_Correct.thy ===== *)
theory Config_Correct
  imports Config
begin

text \<open>
  The parsers of the configuration read back what is written down: numbers, windows of priorities, lists of
  cores and whole configurations.  The printer below is the usual notation of the files: a list of ranges of cores
  is \<open>0-3,5,8-9\<close>, a window of priorities \<open>10-20\<close>.
\<close>

subsection \<open>Numbers\<close>

definition digit :: "nat \<Rightarrow> char" where
  "digit d = char_of (48 + d)"

fun show_nat :: "nat \<Rightarrow> string" where
  "show_nat n = (if n < 10 then [digit n] else show_nat (n div 10) @ [digit (n mod 10)])"

declare show_nat.simps [simp del]

lemma of_char_digit:
  assumes "d < 10"
  shows "(of_char (digit d) :: nat) = 48 + d" "(of_char (digit d) :: int) = 48 + int d"
proof -
  show n: "(of_char (digit d) :: nat) = 48 + d" using assms by (simp add: digit_def)
  have "(of_char (digit d) :: int) = int (of_char (digit d))" by (simp only: of_nat_of_char)
  then show "(of_char (digit d) :: int) = 48 + int d" using n by simp
qed

lemma is_digit_digit [simp]: "d < 10 \<Longrightarrow> is_digit (digit d)"
  by (simp add: is_digit_def of_char_digit)

lemma digits_value_snoc: "digits_value (ds @ [c]) = 10 * digits_value ds + (of_char c - 48)"
  by (simp add: digits_value_def)

lemma show_nat_digits: "list_all is_digit (show_nat n)" "show_nat n \<noteq> []"
proof (induction n rule: show_nat.induct)
  case (1 n)
  { case 1 then show ?case using "1.IH" by (subst show_nat.simps) simp }
  { case 2 then show ?case by (subst show_nat.simps) simp }
qed

lemma digits_value_show: "digits_value (show_nat n) = int n"
proof (induction n rule: show_nat.induct)
  case (1 n)
  show ?case
  proof (cases "n < 10")
    case True
    then show ?thesis by (subst show_nat.simps) (simp add: digits_value_def of_char_digit)
  next
    case False
    then have "digits_value (show_nat n) = 10 * int (n div 10) + int (n mod 10)"
      using 1 by (subst show_nat.simps) (simp add: digits_value_snoc of_char_digit)
    then show ?thesis by presburger
  qed
qed

lemma digit_chars: "is_digit c \<Longrightarrow> \<not> is_space c \<and> c \<noteq> CHR ''-'' \<and> c \<noteq> CHR ''+'' \<and> c \<noteq> CHR '','' \<and> c \<noteq> NUL"
  by (auto simp: is_digit_def is_space_def NUL_def)

lemma split_sign_digits: "list_all is_digit s \<Longrightarrow> split_sign s = (1, s)"
  by (cases s) (auto simp: split_sign_def digit_chars)

lemma strtol_show: "int n \<le> LONG_MAX \<Longrightarrow> strtol (show_nat n) = Some (int n, False)"
proof -
  assume n: "int n \<le> LONG_MAX"
  have "takeWhile is_digit (show_nat n) = show_nat n"
    using show_nat_digits(1) [of n] unfolding takeWhile_eq_all_conv list_all_iff .
  with n show ?thesis
    using split_sign_digits [OF show_nat_digits(1) [of n]] show_nat_digits(2) [of n]
    by (simp add: strtol_def Let_def digits_value_show LONG_MIN_def del: takeWhile_eq_all_conv)
qed

lemma string_to_long_show: "int n \<le> LONG_MAX \<Longrightarrow> string_to_long False (show_nat n) = (0, Some (int n), False)"
  by (simp add: string_to_long_def strtol_show)

lemma no_NUL_show: "NUL \<notin> set (show_nat n)"
  using show_nat_digits(1) [of n] digit_chars by (auto simp: list_all_iff)

lemma cut_NUL: "NUL \<notin> set s \<Longrightarrow> takeWhile (\<lambda>c. c \<noteq> NUL) s = s"
  by (auto simp: takeWhile_eq_all_conv)

lemma yaml_get_show: "int n \<le> LONG_MAX \<Longrightarrow> yaml_get_long False (YAML_SCALAR (show_nat n)) = (0, Some (int n), False)"
  by (simp add: yaml_get_long_def yaml_get_string_def cut_NUL no_NUL_show string_to_long_show)

lemma small_long: "n < 2 ^ 31 \<Longrightarrow> int n \<le> LONG_MAX"
  by (simp add: LONG_MAX_def)

lemma s32_small: "n < 2 ^ 31 \<Longrightarrow> s32_of_int (int n) = int n"
proof -
  assume "n < 2 ^ 31"
  then have "int n < 2 ^ 31" by simp
  then show ?thesis by (simp add: s32_of_int_def s32_of_small)
qed

subsection \<open>Tokens\<close>

lemma strtok_split:
  assumes "tok \<noteq> []" and "\<forall>c \<in> set tok. c \<notin> set dl"
  shows "strtok dl tok = Some (tok, None, [])" "d \<in> set dl \<Longrightarrow> strtok dl (tok @ d # rest) = Some (tok, Some d, rest)"
proof -
  have "hd tok \<notin> set dl" using assms by (meson hd_in_set)
  then have drop: "dropWhile (\<lambda>c. c \<in> set dl) (tok @ r) = tok @ r" for r using assms(1) by (cases tok) simp_all
  have all: "takeWhile (\<lambda>c. c \<notin> set dl) tok = tok" using assms(2) unfolding takeWhile_eq_all_conv .
  have rest: "dropWhile (\<lambda>c. c \<notin> set dl) tok = []" using assms(2) unfolding dropWhile_eq_Nil_conv .
  show "strtok dl tok = Some (tok, None, [])" using drop [of "[]"] all rest assms(1)
    by (simp add: strtok_def Let_def del: takeWhile_eq_all_conv dropWhile_eq_Nil_conv)
  assume d: "d \<in> set dl"
  then have "takeWhile (\<lambda>c. c \<notin> set dl) (tok @ d # rest) = tok" "dropWhile (\<lambda>c. c \<notin> set dl) (tok @ d # rest) = d # rest"
    using assms(2) by (simp_all add: takeWhile_append2 dropWhile_append2)
  then show "strtok dl (tok @ d # rest) = Some (tok, Some d, rest)" using drop [of "d # rest"] assms(1) by (simp add: strtok_def Let_def)
qed

lemma strtok_show:
  assumes "set dl \<subseteq> {CHR '','', CHR ''-''}"
  shows "strtok dl (show_nat n) = Some (show_nat n, None, [])"
    "d \<in> set dl \<Longrightarrow> strtok dl (show_nat n @ d # rest) = Some (show_nat n, Some d, rest)"
proof -
  have "\<forall>c \<in> set (show_nat n). c \<notin> set dl" using assms show_nat_digits(1) [of n] digit_chars by (fastforce simp: list_all_iff)
  then show "strtok dl (show_nat n) = Some (show_nat n, None, [])"
    "d \<in> set dl \<Longrightarrow> strtok dl (show_nat n @ d # rest) = Some (show_nat n, Some d, rest)"
    using strtok_split show_nat_digits(2) by blast+
qed

subsection \<open>Lists of cores\<close>

fun show_range :: "nat \<times> nat \<Rightarrow> string" where
  "show_range (a, b) = (if a = b then show_nat a else show_nat a @ CHR ''-'' # show_nat b)"

fun show_cores :: "(nat \<times> nat) list \<Rightarrow> string" where
  "show_cores [] = []"
| "show_cores [r] = show_range r"
| "show_cores (r # rs) = show_range r @ CHR '','' # show_cores rs"

text \<open>Ranges of cores in ascending order.\<close>

fun ascending :: "(nat \<times> nat) list \<Rightarrow> bool" where
  "ascending [] = True"
| "ascending ((a, b) # rs) = (a \<le> b \<and> b < 2 ^ 31 \<and> (\<forall>r \<in> set rs. b < fst r) \<and> ascending rs)"

definition cores_of :: "(nat \<times> nat) list \<Rightarrow> int list" where
  "cores_of rs = concat (map (\<lambda>(a, b). [int a..int b]) rs)"

lemma core_token:
  assumes "n < 2 ^ 31" and "cs \<noteq> [] \<longrightarrow> last cs < int n" and "in_range \<longrightarrow> cs \<noteq> []"
  defines "cs' \<equiv> if in_range then cs @ [last cs + 1..int n] else cs @ [int n]"
  shows "cores_scalar False in_range (show_nat n) cs = Some (cs', False)"
    "cores_scalar False in_range (show_nat n @ CHR '','' # t) cs = cores_scalar False False t cs'"
    "\<not> in_range \<Longrightarrow> cores_scalar False in_range (show_nat n @ CHR ''-'' # t) cs = cores_scalar False True t cs'"
proof -
  have num: "int n \<le> 2 ^ 31 - 1" "string_to_long False (show_nat n) = (0, Some (int n), False)" "s32_of_int (int n) = int n"
    using assms(1) string_to_long_show [OF small_long] s32_small by simp_all
  have cs': "(if in_range then cs @ [last cs + 1..int n] else cs @ [s32_of_int (int n)]) = cs'" using num(3) by (simp add: cs'_def)
  have step: "cores_scalar False in_range str cs =
      (if d = Some (CHR '','') then cores_scalar False False rest cs'
       else if d = Some (CHR ''-'') then (if in_range then Some (cs', False) else cores_scalar False True rest cs')
       else cores_scalar False in_range rest cs')" if "strtok '',-'' str = Some (show_nat n, d, rest)" for str d rest
    unfolding cores_scalar.simps [of False in_range str cs] that using num(1,2) assms(2) cs'
    by (simp only: option.case prod.case Let_def) auto
  have "cores_scalar False in_range [] cs' = Some (cs', False)"
    by (subst cores_scalar.simps) (simp add: strtok_def)
  then show "cores_scalar False in_range (show_nat n) cs = Some (cs', False)" using step [OF strtok_show(1)] by simp
  show "cores_scalar False in_range (show_nat n @ CHR '','' # t) cs = cores_scalar False False t cs'"
    using step [OF strtok_show(2)] by simp
  show "cores_scalar False in_range (show_nat n @ CHR ''-'' # t) cs = cores_scalar False True t cs'" if "\<not> in_range"
    using step [OF strtok_show(2)] that by simp
qed

lemma range_token:
  assumes "a \<le> b" and "b < 2 ^ 31" and "cs \<noteq> [] \<longrightarrow> last cs < int a"
  shows "cores_scalar False False (show_range (a, b)) cs = Some (cs @ [int a..int b], False)"
    "cores_scalar False False (show_range (a, b) @ CHR '','' # t) cs = cores_scalar False False t (cs @ [int a..int b])"
proof -
  note A = core_token [of a cs False] and B = core_token [of b "cs @ [int a]" True]
  show "cores_scalar False False (show_range (a, b)) cs = Some (cs @ [int a..int b], False)"
    "cores_scalar False False (show_range (a, b) @ CHR '','' # t) cs = cores_scalar False False t (cs @ [int a..int b])"
    using assms A B upto_rec1 [of "int a" "int b"] by (auto simp: not_le)
qed

lemma cores_scalar_show:
  "ascending rs \<Longrightarrow> cs \<noteq> [] \<longrightarrow> (\<forall>r \<in> set rs. last cs < int (fst r)) \<Longrightarrow>
   cores_scalar False False (show_cores rs) cs = Some (cs @ cores_of rs, False)"
proof (induction rs arbitrary: cs rule: show_cores.induct)
  case 1
  show ?case by (subst cores_scalar.simps) (simp add: strtok_def cores_of_def)
next
  case (2 r)
  then show ?case by (cases r) (auto simp: range_token cores_of_def simp del: show_range.simps)
next
  case (3 r r' rs)
  obtain a b where r: "r = (a, b)" by (cases r)
  have "last (cs @ [int a..int b]) = int b" using 3(2) r by (simp add: upto_rec2)
  moreover have "\<forall>x \<in> set (r' # rs). int b < int (fst x)" using 3(2) r by auto
  ultimately have "cores_scalar False False (show_cores (r' # rs)) (cs @ [int a..int b]) =
      Some ((cs @ [int a..int b]) @ cores_of (r' # rs), False)"
    using 3(1) [of "cs @ [int a..int b]"] 3(2) r by simp
  then show ?case using 3(2,3) r by (simp add: range_token cores_of_def del: show_range.simps)
qed

lemma nul_chars: "CHR '','' \<noteq> NUL" "CHR ''-'' \<noteq> NUL" "NUL \<noteq> CHR '',''" "NUL \<noteq> CHR ''-''"
  by (simp_all add: NUL_def)

lemma no_NUL_cores: "NUL \<notin> set (show_cores rs)"
  by (induction rs rule: show_cores.induct) (auto simp: no_NUL_show nul_chars split: if_splits)

lemma cores_roundtrip:
  "ascending rs \<Longrightarrow> parse_conf_plugins_item_cores (YAML_SCALAR (show_cores rs)) (p, False) =
     Some (0, p\<lparr>cp_cores := Some (cores_of rs)\<rparr>, False)"
  using cores_scalar_show [of rs "[]"] by (simp add: parse_conf_plugins_item_cores_def cut_NUL no_NUL_cores)

subsection \<open>Windows of priorities\<close>

definition show_window :: "nat \<Rightarrow> nat \<Rightarrow> string" where
  "show_window mn mx = show_nat mn @ CHR ''-'' # show_nat mx"

lemma window_roundtrip:
  assumes "mn < 2 ^ 31" and "mx < 2 ^ 31"
  shows "parse_conf_plugins_item_priority (YAML_SCALAR (show_window mn mx)) (p, False) =
    Some (0, p\<lparr>cp_prio_min := Some (int mn), cp_prio_max := Some (int mx)\<rparr>, False)"
proof -
  have "NUL \<notin> set (show_window mn mx)" by (simp add: show_window_def no_NUL_show nul_chars)
  then show ?thesis
    using assms string_to_long_show [OF small_long]
    by (simp add: parse_conf_plugins_item_priority_def cut_NUL priority_scalar_def show_window_def strtok_show
        store_priorities_def s32_small)
qed

subsection \<open>Configurations\<close>

text \<open>A plugin as it is written: name, path, window of priorities, cores.\<close>

type_synonym written_plugin = "string \<times> string \<times> nat \<times> nat \<times> (nat \<times> nat) list"

fun show_plugin :: "written_plugin \<Rightarrow> yaml_node" where
  "show_plugin (name, path, mn, mx, rs) = YAML_MAPPING
     [(YAML_SCALAR ''name'', YAML_SCALAR name), (YAML_SCALAR ''plugin'', YAML_SCALAR path),
      (YAML_SCALAR ''priority'', YAML_SCALAR (show_window mn mx)), (YAML_SCALAR ''cores'', YAML_SCALAR (show_cores rs))]"

fun plugin_of :: "written_plugin \<Rightarrow> conf_plugin" where
  "plugin_of (name, path, mn, mx, rs) = \<lparr>cp_name = Some name, cp_path = Some path, cp_prio_min = Some (int mn),
     cp_prio_max = Some (int mx), cp_cores = Some (cores_of rs)\<rparr>"

fun writable :: "written_plugin \<Rightarrow> bool" where
  "writable (name, path, mn, mx, rs) \<longleftrightarrow> NUL \<notin> set name \<and> NUL \<notin> set path \<and> mn < 2 ^ 31 \<and> mx < 2 ^ 31 \<and> ascending rs"

definition show_conf :: "nat \<Rightarrow> string \<Rightarrow> written_plugin list \<Rightarrow> yaml_node" where
  "show_conf quantum util ps = YAML_MAPPING
     [(YAML_SCALAR ''system'', YAML_MAPPING [(YAML_SCALAR ''rr_timeslice'', YAML_SCALAR (show_nat quantum)),
         (YAML_SCALAR ''sched_max_util'', YAML_SCALAR util)]),
      (YAML_SCALAR ''plugins'', YAML_SEQUENCE (map show_plugin ps))]"

lemma key_of: "NUL \<notin> set s \<Longrightarrow> yaml_get_string (YAML_SCALAR s) = Some s"
  by (simp add: yaml_get_string_def cut_NUL)

lemma keys [simp]:
  "yaml_get_string (YAML_SCALAR ''name'') = Some ''name''" "yaml_get_string (YAML_SCALAR ''plugin'') = Some ''plugin''"
  "yaml_get_string (YAML_SCALAR ''priority'') = Some ''priority''" "yaml_get_string (YAML_SCALAR ''cores'') = Some ''cores''"
  "yaml_get_string (YAML_SCALAR ''system'') = Some ''system''" "yaml_get_string (YAML_SCALAR ''plugins'') = Some ''plugins''"
  "yaml_get_string (YAML_SCALAR ''rr_timeslice'') = Some ''rr_timeslice''"
  "yaml_get_string (YAML_SCALAR ''sched_max_util'') = Some ''sched_max_util''"
  by (simp_all add: key_of NUL_def)

lemma plugin_roundtrip:
  assumes "writable p"
  shows "parse_conf_plugins_item (show_plugin p) (fresh_plugin, False) = Some (0, plugin_of p, False)"
proof -
  obtain name path mn mx rs where p: "p = (name, path, mn, mx, rs)" by (cases p) auto
  then have "NUL \<notin> set name" "NUL \<notin> set path" "mn < 2 ^ 31" "mx < 2 ^ 31" "ascending rs" using assms by simp_all
  then show ?thesis
    using p window_roundtrip cores_roundtrip
    by (simp add: parse_conf_plugins_item_def yaml_parse_mapping_def parse_conf_plugins_item_name_def
        parse_conf_plugins_item_plugin_path_def key_of fresh_plugin_def)
qed

lemma items_roundtrip:
  "\<forall>p \<in> set ps. writable p \<Longrightarrow> yaml_parse_items parse_conf_plugins_item fresh_plugin (map show_plugin ps) (xs, False) =
     Some (0, xs @ map plugin_of ps, False)"
  by (induction ps arbitrary: xs) (simp_all add: plugin_roundtrip del: show_plugin.simps plugin_of.simps writable.simps)

lemma system_roundtrip:
  assumes "int quantum \<le> LONG_MAX" and "NUL \<notin> set util" and "strtod util = Some (u, False)"
  shows "parse_conf_system (YAML_MAPPING [(YAML_SCALAR ''rr_timeslice'', YAML_SCALAR (show_nat quantum)),
      (YAML_SCALAR ''sched_max_util'', YAML_SCALAR util)]) (c, False) =
    Some (0, c\<lparr>csystem := \<lparr>rr_timeslice = int quantum, sched_max_util = u\<rparr>\<rparr>, False)"
  using assms
  by (simp add: parse_conf_system_def yaml_parse_mapping_def parse_conf_system_rr_timeslice_def
      parse_conf_system_sched_max_util_def yaml_get_show yaml_get_double_def key_of string_to_double_def)

text \<open>C16: A configuration file is read back as it was written: from the usual notation of a time quantum, a maximal utilisation and
  any number of plugins, each with its name, path, window of priorities \<open>min-max\<close> and ascending list of ranges of
  cores, the parser returns exactly these values, with every range expanded to its cores; it then accepts
  the configuration if and only if the checks do.\<close>

theorem configuration_roundtrip:
  assumes "int quantum \<le> LONG_MAX" and "NUL \<notin> set util" and "strtod util = Some (u, False)" and "\<forall>p \<in> set ps. writable p"
    and "yaml path = YamlDoc (Some (show_conf quantum util ps))"
    and "conf = \<lparr>csystem = \<lparr>rr_timeslice = int quantum, sched_max_util = u\<rparr>, cplugins = map plugin_of ps\<rparr>"
  shows "parse_configuration yaml nprocs False c path =
    map_option (\<lambda>valid. (if valid then 0 else 1, conf)) (configuration_valid nprocs conf)"
proof -
  have "parse_conf (show_conf quantum util ps) (c, False) = Some (0, conf, False)"
    using system_roundtrip [OF assms(1-3)] items_roundtrip [OF assms(4), of "[]"] assms(6)
    by (simp add: show_conf_def parse_conf_plugins_def yaml_parse_list_def)
  then show ?thesis
    using assms(5) by (cases "configuration_valid nprocs conf") (simp_all add: parse_configuration_def)
qed

lemma configuration_roundtrip_witness:
  "\<exists>conf. parse_configuration (\<lambda>_. YamlDoc (Some (show_conf 100 ''1'' [(''EDF'', ''edf.so'', 10, 20, [(0, 2), (5, 5)])]))) 8 False
     zero_configuration ''retif.conf'' = Some (0, conf) \<and> map cp_cores (cplugins conf) = [Some [0, 1, 2, 5]]"
proof -
  let ?conf = "\<lparr>csystem = \<lparr>rr_timeslice = 100, sched_max_util = Finite 1\<rparr>,
    cplugins = [plugin_of (''EDF'', ''edf.so'', 10, 20, [(0, 2), (5, 5)])]\<rparr>"
  have "f64_round 1 = 1" using fround_int_exact [of 1] by (simp add: f64_round_def)
  then have "strtod ''1'' = Some (Finite 1, False)"
    by (simp add: strtod_def strtod_decimal_def split_point_def rounded_double_def lower_def split_sign_def is_space_def is_digit_def digits_value_def exponent_of_def Let_def)
  moreover have "configuration_valid 8 ?conf = Some True" by code_simp
  ultimately show ?thesis
    using configuration_roundtrip [of 100 "''1''" "Finite 1" "[(''EDF'', ''edf.so'', 10, 20, [(0, 2), (5, 5)])]"
      "\<lambda>_. YamlDoc (Some (show_conf 100 ''1'' [(''EDF'', ''edf.so'', 10, 20, [(0, 2), (5, 5)])]))" _ ?conf 8 zero_configuration]
    by (auto simp: LONG_MAX_def NUL_def cores_of_def upto.simps simp del: show_plugin.simps)
qed

end
