(* ===== verification/Loader_Correct.thy ===== *)
theory Loader_Correct
  imports Startup
begin

text \<open>
  Where the libraries of the plugins are looked for, \<open>find_and_open_plugin\<close> of \<open>daemon/retif_plugin.c\<close>: the directory
  of the configuration file first, the directory of the installed plugins second.
\<close>

lemma dropWhile_not: "x \<notin> set xs \<Longrightarrow> dropWhile (\<lambda>c. c \<noteq> x) (xs @ x # ys) = x # ys"
  by (induction xs) auto

lemma strip_slashes_id: "p \<noteq> [] \<Longrightarrow> last p \<noteq> CHR ''/'' \<Longrightarrow> strip_slashes p = p"
  by (cases p rule: rev_cases) (auto simp: strip_slashes_def)

lemma strip_slashes_append [simp]: "strip_slashes (p @ [CHR ''/'']) = strip_slashes p"
  by (simp add: strip_slashes_def)

text \<open>The directory of a path with a directory part.\<close>

lemma dirname_of:
  assumes "dir \<noteq> []" and "last dir \<noteq> CHR ''/''" and "fname \<noteq> []" and "CHR ''/'' \<notin> set fname"
  shows "dirname_buffer (dir @ CHR ''/'' # fname) = dir"
proof -
  let ?p = "dir @ CHR ''/'' # fname"
  have "last ?p \<noteq> CHR ''/''" using assms(3,4) last_in_set [of fname] by (metis append_is_Nil_conv last_ConsR last_append list.distinct(1))
  then have base: "strip_slashes ?p = ?p" by (intro strip_slashes_id) simp_all
  have "dropWhile (\<lambda>c. c \<noteq> CHR ''/'') (rev ?p) = CHR ''/'' # rev dir"
    using dropWhile_not [of "CHR ''/''" "rev fname" "rev dir"] assms(4) by simp
  then have "rev (dropWhile (\<lambda>c. c \<noteq> CHR ''/'') (rev ?p)) = dir @ [CHR ''/'']" by simp
  then show ?thesis using base assms(1) strip_slashes_id [OF assms(1,2)] by (simp add: dirname_buffer_def Let_def)
qed

text \<open>Opening a library that is there.\<close>

definition opened :: "loader \<Rightarrow> string \<Rightarrow> int \<times> plugin_lib option" where
  "opened ld path = (case dl_open ld path of None \<Rightarrow> (- 1, None) | Some lib \<Rightarrow> (0, Some lib))"

text \<open>A configuration file named without a directory, or in the root directory.\<close>

lemma dirname_bare:
  assumes "fname \<noteq> []" and "CHR ''/'' \<notin> set fname"
  shows "dirname_buffer fname = fname" "dirname_buffer (CHR ''/'' # fname) = ''/''"
proof -
  have l: "last fname \<noteq> CHR ''/''" using assms last_in_set [of fname] by metis
  have e: "dropWhile (\<lambda>c. c \<noteq> CHR ''/'') (rev fname) = []" using assms(2) by auto
  show "dirname_buffer fname = fname" using strip_slashes_id [OF assms(1) l] e by (simp add: dirname_buffer_def)
  have "strip_slashes (CHR ''/'' # fname) = CHR ''/'' # fname" using assms(1) l by (intro strip_slashes_id) simp_all
  moreover have "dropWhile (\<lambda>c. c \<noteq> CHR ''/'') (rev fname @ [CHR ''/'']) = [CHR ''/'']"
    using dropWhile_not [of "CHR ''/''" "rev fname" "[]"] assms(2) by simp
  moreover have "strip_slashes ''/'' = []" by (simp add: strip_slashes_def)
  ultimately show "dirname_buffer (CHR ''/'' # fname) = ''/''" by (simp add: dirname_buffer_def Let_def)
qed

text \<open>C32: Where the library of a plugin is looked for.  An absolute path is opened as it is.  A relative one is looked for in the directory of
  the configuration file (for a file in the root directory, under \<open>//\<close>), and only when there is no such file in the directory of the installed plugins; a file that is there but is no
  library is an error, not a reason to go on.  The result is 0 with the library or -1, also for an empty path; but when the
  configuration file is named without a directory, looking for a relative path writes behind the end of a buffer.\<close>

theorem find_and_open_plugin_searches:
  assumes "path \<noteq> []" and "hd path \<noteq> CHR ''/''"
    and "dir \<noteq> []" and "last dir \<noteq> CHR ''/''" and "fname \<noteq> []" and "CHR ''/'' \<notin> set fname"
  shows "find_and_open_plugin ld (dir @ CHR ''/'' # fname) path = Some
      (if file_exists ld (dir @ CHR ''/'' # path) then opened ld (dir @ CHR ''/'' # path)
       else if file_exists ld (install_path ld @ path) then opened ld (install_path ld @ path)
       else (- 1, None)) \<and>
    find_and_open_plugin ld (CHR ''/'' # fname) path = Some
      (if file_exists ld (''//'' @ path) then opened ld (''//'' @ path)
       else if file_exists ld (install_path ld @ path) then opened ld (install_path ld @ path)
       else (- 1, None)) \<and>
    find_and_open_plugin ld fname path = None \<and>
    find_and_open_plugin ld conf (CHR ''/'' # path) = Some
      (if file_exists ld (CHR ''/'' # path) then opened ld (CHR ''/'' # path) else (- 1, None)) \<and>
    find_and_open_plugin ld conf [] = Some (- 1, None)"
proof -
  have p: "path \<noteq> [] \<and> \<not> length path < 1" using assms(1) by (cases path) simp_all
  note D = dirname_of [OF assms(3-6)] dirname_bare [OF assms(5,6)]
  show ?thesis
    using p assms(2) assms(5) D
    by (intro conjI) (auto simp: find_and_open_plugin_def open_plugin_dll_def fullpath_def opened_def Let_def split: option.split)
qed

text \<open>The file is missing next to the configuration and installed.\<close>

lemma find_and_open_plugin_searches_witness:
  "find_and_open_plugin \<lparr>file_exists = (\<lambda>p. p = ''/usr/lib/edf.so''), dl_open = (\<lambda>_. Some SCHED_EDF_so), install_path = ''/usr/lib/''\<rparr>
     ''/etc/retif.conf'' ''edf.so'' = Some (0, Some SCHED_EDF_so)"
  using find_and_open_plugin_searches [of "''edf.so''" "''/etc''" "''retif.conf''"
      "\<lparr>file_exists = (\<lambda>p. p = ''/usr/lib/edf.so''), dl_open = (\<lambda>_. Some SCHED_EDF_so), install_path = ''/usr/lib/''\<rparr>"]
  by (simp add: opened_def)

end
