(* ===== verification/Dump.thy ===== *)
theory Dump
  imports EntryPoint
begin

text \<open>
  The report of the state of the daemon that SIGTTOU asks for: \<open>rtf_scheduler_dump\<close>, \<open>rtf_carrier_dump\<close>,
  \<open>rtf_daemon_dump\<close> and the handler \<open>output\<close> of \<open>daemon/retif_daemon_main.c\<close>.

  A message is a row with the values it prints.  The arguments of \<open>LOG\<close> are evaluated when the level is
  enabled only, so reading beyond an array is undefined then only.
\<close>

datatype row =
    Text string
  | NumCpus int
  | NumPlugins int
  | PluginRow string string
  | CpuRow int f32 int
  | TaskPlugin int
  | TaskRow u64 int int f32
  | ClientRow nat int CLIENT_STATE

type_synonym report = "(LOG_HANDLER \<times> row) list"

definition LOG_row :: "logger \<Rightarrow> int \<Rightarrow> row option \<Rightarrow> report option" where
  "LOG_row lg lv arg =
     (if lv < loglvl lg
      then do { r \<leftarrow> arg; if handler lg = LOG_FILE \<and> log_output lg = None then None else Some [(handler lg, r)] }
      else Some [])"

subsection \<open>Scheduler\<close>

definition dump_cpu :: "logger \<Rightarrow> rtf_plugin \<Rightarrow> report \<Rightarrow> nat \<Rightarrow> report option" where
  "dump_cpu lg p out j = do {
     r \<leftarrow> LOG_row lg DEBUG (do {
       c \<leftarrow> aget (cpulist p) j;
       u \<leftarrow> aget (util_free_percpu p) j;
       n \<leftarrow> aget (task_count_percpu p) j;
       Some (CpuRow c u n)
     });
     Some (out @ r)
   }"

definition dump_plugin :: "logger \<Rightarrow> rtf_scheduler \<Rightarrow> report \<Rightarrow> nat \<Rightarrow> report option" where
  "dump_plugin lg s out i = do {
     r \<leftarrow> LOG_row lg DEBUG (map_option (\<lambda>p. PluginRow (plg_name p) (plg_path p)) (aget (plugin s) i));
     p \<leftarrow> aget (plugin s) i;
     for_each (dump_cpu lg p) (out @ r) [0..<nat (cputot p)]
   }"

fun dump_tasks :: "logger \<Rightarrow> heap \<Rightarrow> task_ptr iterator_t \<Rightarrow> report \<Rightarrow> report option" where
  "dump_tasks lg h [] out = Some out"
| "dump_tasks lg h (p # it) out = do {
     r1 \<leftarrow> LOG_row lg DEBUG (Some (Text (''Task:'' @ NL)));
     r2 \<leftarrow> LOG_row lg DEBUG (map_option (\<lambda>t. TaskPlugin (pluginid t)) (h p));
     r3 \<leftarrow> LOG_row lg DEBUG (map_option (\<lambda>t. TaskRow (cpu t) (ptid t) (tid t) (acceptedu t)) (h p));
     dump_tasks lg h it (out @ r1 @ r2 @ r3)
   }"

definition rtf_scheduler_dump :: "logger \<Rightarrow> rtf_scheduler \<Rightarrow> heap \<Rightarrow> report option" where
  "rtf_scheduler_dump lg s h = do {
     r1 \<leftarrow> LOG_row lg DEBUG (Some (NumCpus (num_of_cpu s)));
     r2 \<leftarrow> LOG_row lg DEBUG (Some (NumPlugins (num_of_plugins s)));
     out \<leftarrow> for_each (dump_plugin lg s) (r1 @ r2) [0..<nat (num_of_plugins s)];
     r3 \<leftarrow> LOG_row lg DEBUG (Some (Text (''Tasks:'' @ NL)));
     dump_tasks lg h (rtf_taskset_iterator_init (taskset s)) (out @ r3)
   }"

subsection \<open>Carrier and daemon\<close>

definition dump_client :: "logger \<Rightarrow> rtf_carrier \<Rightarrow> report \<Rightarrow> nat \<Rightarrow> report option" where
  "dump_client lg c out i = do {
     x \<leftarrow> aget (client c) i;
     if cl_pid x = 0 then Some out
     else do {
       r \<leftarrow> LOG_row lg DEBUG (Some (ClientRow i (cl_pid x) (cl_state x)));
       Some (out @ r)
     }
   }"

definition rtf_carrier_dump :: "logger \<Rightarrow> rtf_carrier \<Rightarrow> report option" where
  "rtf_carrier_dump lg c = for_each (dump_client lg c) [] [0..<CHANNEL_MAX_SIZE]"

definition rtf_daemon_dump :: "logger \<Rightarrow> ('k, 'n) rtf_daemon \<Rightarrow> report option" where
  "rtf_daemon_dump lg d = do {
     r1 \<leftarrow> LOG_row lg DEBUG (Some (Text (''###### SYS INFO ######'' @ NL)));
     r2 \<leftarrow> rtf_scheduler_dump lg (sched d) (heap (dworld d));
     r3 \<leftarrow> LOG_row lg DEBUG (Some (Text (''######################'' @ NL)));
     r4 \<leftarrow> LOG_row lg DEBUG (Some (Text (''###### CONNECTION INFO ######'' @ NL)));
     r5 \<leftarrow> rtf_carrier_dump lg (chann d);
     r6 \<leftarrow> LOG_row lg DEBUG (Some (Text (''#############################'' @ NL)));
     Some (r1 @ r2 @ r3 @ r4 @ r5 @ r6)
   }"

definition output_handler :: "logger \<Rightarrow> ('k, 'n) rtf_daemon \<Rightarrow> report option" where
  "output_handler lg d = do {
     r1 \<leftarrow> LOG_row lg INFO (Some (Text (NL @ ''--------------------------'' @ NL)));
     r2 \<leftarrow> LOG_row lg INFO (Some (Text (''ReTiF daemon info dump'' @ NL)));
     r3 \<leftarrow> LOG_row lg INFO (Some (Text (''--------------------------'' @ NL)));
     r4 \<leftarrow> rtf_daemon_dump lg d;
     Some (r1 @ r2 @ r3 @ r4)
   }"

subsection \<open>What the report says\<close>

text \<open>The rows at a level that is enabled or not.\<close>

definition rows :: "logger \<Rightarrow> int \<Rightarrow> row list \<Rightarrow> report" where
  "rows lg lv rs = (if lv < loglvl lg then map (Pair (handler lg)) rs else [])"

definition logs :: "logger \<Rightarrow> bool" where
  "logs lg \<longleftrightarrow> handler lg = LOG_FILE \<longrightarrow> log_output lg \<noteq> None"

lemma LOG_row_Some: "logs lg \<Longrightarrow> LOG_row lg lv (Some r) = Some (rows lg lv [r])"
  by (auto simp: LOG_row_def rows_def logs_def)

lemma rows_append: "rows lg lv xs @ rows lg lv ys = rows lg lv (xs @ ys)"
    "rows lg lv xs @ rows lg lv ys @ zs = rows lg lv (xs @ ys) @ zs"
  by (simp_all add: rows_def)

lemma rows_Nil: "rows lg lv [] = []"
  by (simp add: rows_def)

text \<open>A loop whose body appends rows.\<close>

lemma for_each_rows:
  assumes "\<And>out i. i \<in> set is \<Longrightarrow> f out i = Some (out @ rows lg lv (g i))"
  shows "for_each f out is = Some (out @ rows lg lv (concat (map g is)))"
  using assms by (induction "is" arbitrary: out) (simp_all add: rows_Nil rows_append)

definition cpu_rows :: "rtf_plugin \<Rightarrow> row list" where
  "cpu_rows p = map (\<lambda>j. CpuRow (cpulist p ! j) (util_free_percpu p ! j) (task_count_percpu p ! j)) [0..<length (cpulist p)]"

definition task_rows :: "rtf_task \<Rightarrow> row list" where
  "task_rows t = [Text (''Task:'' @ NL), TaskPlugin (pluginid t), TaskRow (cpu t) (ptid t) (tid t) (acceptedu t)]"

definition client_rows :: "rtf_client list \<Rightarrow> row list" where
  "client_rows cs = map (\<lambda>i. ClientRow i (cl_pid (cs ! i)) (cl_state (cs ! i))) (filter (\<lambda>i. cl_pid (cs ! i) \<noteq> 0) [0..<length cs])"

lemma dump_plugin_rows:
  assumes "logs lg" and "i < length (plugin s)" and "plugin_ok (plugin s ! i)"
  shows "dump_plugin lg s out i = Some (out @ rows lg DEBUG
    (PluginRow (plg_name (plugin s ! i)) (plg_path (plugin s ! i)) # cpu_rows (plugin s ! i)))"
proof -
  let ?p = "plugin s ! i"
  have len: "cputot ?p = int (length (cpulist ?p))" "length (util_free_percpu ?p) = length (cpulist ?p)"
      "length (task_count_percpu ?p) = length (cpulist ?p)" using assms(3) by (simp_all add: plugin_ok_def)
  let ?g = "\<lambda>j. [CpuRow (cpulist ?p ! j) (util_free_percpu ?p ! j) (task_count_percpu ?p ! j)]"
  have "for_each (dump_cpu lg ?p) out' [0..<length (cpulist ?p)] =
      Some (out' @ rows lg DEBUG (concat (map ?g [0..<length (cpulist ?p)])))" for out'
    by (rule for_each_rows) (use len assms(1) in \<open>simp add: dump_cpu_def c_simps LOG_row_Some\<close>)
  moreover have "concat (map ?g [0..<length (cpulist ?p)]) = cpu_rows ?p" by (simp add: cpu_rows_def)
  ultimately show ?thesis using assms(1,2) len(1)
    by (simp add: dump_plugin_def c_simps LOG_row_Some rows_append)
qed

lemma dump_tasks_rows:
  "logs lg \<Longrightarrow> \<forall>p \<in> set ps. allocated h p \<Longrightarrow>
   dump_tasks lg h ps out = Some (out @ rows lg DEBUG (concat (map (\<lambda>p. task_rows (the (h p))) ps)))"
proof (induction ps arbitrary: out)
  case (Cons p ps)
  then obtain t where "h p = Some t" by (auto elim: allocatedE)
  with Cons show ?case by (simp add: LOG_row_Some task_rows_def rows_append)
qed (simp add: rows_Nil)

lemma rtf_carrier_dump_rows:
  assumes "logs lg" and "length (client c) = SET_MAX_SIZE"
  shows "rtf_carrier_dump lg c = Some (rows lg DEBUG (client_rows (client c)))"
proof -
  let ?cs = "client c"
  let ?g = "\<lambda>i. if cl_pid (?cs ! i) \<noteq> 0 then [ClientRow i (cl_pid (?cs ! i)) (cl_state (?cs ! i))] else []"
  have "rtf_carrier_dump lg c = Some ([] @ rows lg DEBUG (concat (map ?g [0..<length ?cs])))"
    unfolding rtf_carrier_dump_def CHANNEL_MAX_SIZE_def assms(2) [symmetric]
    by (rule for_each_rows) (simp add: dump_client_def c_simps LOG_row_Some assms(1) rows_Nil)
  moreover have "concat (map ?g xs) = map (\<lambda>i. ClientRow i (cl_pid (?cs ! i)) (cl_state (?cs ! i)))
      (filter (\<lambda>i. cl_pid (?cs ! i) \<noteq> 0) xs)" for xs by (induction xs) simp_all
  ultimately show ?thesis by (simp add: client_rows_def)
qed

text \<open>The report of the scheduler and of the channel.\<close>

definition sched_rows :: "rtf_scheduler \<Rightarrow> heap \<Rightarrow> row list" where
  "sched_rows s h = [NumCpus (num_of_cpu s), NumPlugins (int (length (plugin s)))] @
     concat (map (\<lambda>p. PluginRow (plg_name p) (plg_path p) # cpu_rows p) (plugin s)) @
     [Text (''Tasks:'' @ NL)] @ concat (map (\<lambda>p. task_rows (the (h p))) (ts_tasks (taskset s)))"

lemma rtf_scheduler_dump_rows:
  assumes "logs lg" and "sched_inv os (s, w)"
  shows "rtf_scheduler_dump lg s (heap w) = Some (rows lg DEBUG (sched_rows s (heap w)))"
proof -
  note I = sched_invD [OF assms(2)]
  let ?g = "\<lambda>i. PluginRow (plg_name (plugin s ! i)) (plg_path (plugin s ! i)) # cpu_rows (plugin s ! i)"
  have ok: "plugin_ok (plugin s ! i)" if "i < length (plugin s)" for i
  proof -
    have "base_inv (plugin s ! i) (heap w) (owns s (heap w) i)" using that I(3) plg.inv_base unfolding plugins_ok_def by metis
    then show ?thesis by (simp add: base_inv_def)
  qed
  have "for_each (dump_plugin lg s) out [0..<length (plugin s)] =
      Some (out @ rows lg DEBUG (concat (map ?g [0..<length (plugin s)])))" for out
    by (rule for_each_rows) (use dump_plugin_rows [OF assms(1) _ ok] in simp)
  moreover have "map ?g [0..<length (plugin s)] = map (\<lambda>p. PluginRow (plg_name p) (plg_path p) # cpu_rows p) (plugin s)"
    by (rule nth_equalityI) simp_all
  moreover have "\<forall>p \<in> set (ts_tasks (taskset s)). allocated (heap w) p" using I(8) by blast
  ultimately show ?thesis using assms(1) I(2)
    by (simp add: rtf_scheduler_dump_def LOG_row_Some dump_tasks_rows rows_append sched_rows_def
        rtf_taskset_iterator_init_def iterator_init_def)
qed

subsection \<open>Properties\<close>

text \<open>C33: The report of SIGTTOU is always defined between two rounds and complete: with the level of debugging enabled it
  lists the CPUs and plugins, for every plugin its CPUs with their free utilisation and number of tasks, every task of the
  task set in order, and every slot that belongs to a process; with a lower level only the heading, or nothing.\<close>

theorem output_reports:
  assumes "daemon_inv os libs d" and "logs lg"
  shows "output_handler lg d = Some (
    rows lg INFO [Text (NL @ ''--------------------------'' @ NL), Text (''ReTiF daemon info dump'' @ NL),
      Text (''--------------------------'' @ NL)] @
    rows lg DEBUG ([Text (''###### SYS INFO ######'' @ NL)] @ sched_rows (sched d) (heap (dworld d)) @
      [Text (''######################'' @ NL), Text (''###### CONNECTION INFO ######'' @ NL)] @
      client_rows (client (chann d)) @ [Text (''#############################'' @ NL)]))"
  using rtf_scheduler_dump_rows [OF assms(2) daemon_invD(3) [OF assms(1)]]
    rtf_carrier_dump_rows [OF assms(2) carrier_okD(5) [OF daemon_invD(2) [OF assms(1)]]] assms(2)
  by (simp add: output_handler_def rtf_daemon_dump_def LOG_row_Some rows_append)

lemma output_reports_witness:
  "\<exists>out. output_handler (ex_logger\<lparr>loglvl := 50\<rparr>) ex_daemon = Some out \<and> (LOG_STDOUT, ClientRow 4 7 DISCONNECTED) \<in> set out \<and>
     (LOG_STDOUT, TaskPlugin 1) \<in> set out"
proof -
  let ?lg = "ex_logger\<lparr>loglvl := 50\<rparr>"
  have "client (chann ex_daemon) ! 4 = \<lparr>cl_state = DISCONNECTED, cl_pid = 7\<rparr>" "4 < length (client (chann ex_daemon))"
    by (simp_all add: ex_daemon_def SET_MAX_SIZE_def)
  then have "ClientRow 4 7 DISCONNECTED \<in> set (client_rows (client (chann ex_daemon)))"
    unfolding client_rows_def set_map set_filter by (intro image_eqI [of _ _ 4]) simp_all
  moreover have "TaskPlugin 1 \<in> set (sched_rows (sched ex_daemon) (heap (dworld ex_daemon)))"
    by (simp add: sched_rows_def ex_daemon_def ex_sched_def ts_of_def ex_world_def ex_task_def task_rows_def)
  moreover have "logs ?lg" by (simp add: logs_def ex_logger_def)
  ultimately show ?thesis
    using output_reports [OF ex_daemon_inv, of ?lg] by (simp add: rows_def ex_logger_def DEBUG_def INFO_def)
qed

end
