(* ===== verification/Isolation.thy ===== *)
theory Isolation
  imports Startup_Correct Scheduler_Refine
begin

text \<open>
  The real-time guarantee of the whole system: the priorities under which the daemon runs its tasks stay in
  the windows of the configuration, so a plugin that comes first in the configuration
  is never disturbed by a later one on a core that both use.
\<close>

subsection \<open>What no operation of a plugin changes\<close>

lemma same_plugin_trans [trans]: "same_plugin p q \<Longrightarrow> same_plugin q r \<Longrightarrow> same_plugin p r"
  by (simp add: same_plugin_def)

lemma same_plugin_upd [simp]:
  "same_plugin p (q\<lparr>util_free_percpu := us\<rparr>) = same_plugin p q" "same_plugin p (q\<lparr>task_count_percpu := ns\<rparr>) = same_plugin p q"
  "same_plugin p (q\<lparr>plg_tasks := tss\<rparr>) = same_plugin p q"
  "same_plugin (p\<lparr>util_free_percpu := us\<rparr>) q = same_plugin p q" "same_plugin (p\<lparr>plg_tasks := tss\<rparr>) q = same_plugin p q"
  by (simp_all add: same_plugin_def)

lemma add_same:
  "add_util_free p c f = Some q \<Longrightarrow> same_plugin p q" "add_task_count p c n = Some q \<Longrightarrow> same_plugin p q"
  by (auto simp: add_util_free_def add_task_count_def bind_eq_Some)

lemma schedule_same: "rtf_plg_task_schedule os this p w = Some (this', w') \<Longrightarrow> same_plugin this this'"
  by (cases "dl_ptr this")
    (auto simp: rtf_plg_task_schedule_def fp_task_schedule_def rr_task_schedule_def rm_task_schedule_def edf_task_schedule_def
      bind_eq_Some Let_def dest!: add_same intro: same_plugin_trans)

lemma release_same: "rtf_plg_task_release os this p w = Some (r, this', w') \<Longrightarrow> same_plugin this this'"
  by (cases "dl_ptr this")
    (auto simp: rtf_plg_task_release_def fp_task_release_def rr_task_release_def rm_task_release_def edf_task_release_def
      bind_eq_Some Let_def split: if_splits dest!: add_same intro: same_plugin_trans)

lemma change_same: "rtf_plg_task_change this t = Some (r, this') \<Longrightarrow> same_plugin this this'"
  by (cases "dl_ptr this")
    (auto simp: rtf_plg_task_change_def rm_task_change_def edf_task_change_def
      bind_eq_Some split: if_splits dest!: add_same intro: same_plugin_trans)

text \<open>The plugins of a scheduler, up to their books.\<close>

definition plugins_kept :: "rtf_scheduler \<Rightarrow> rtf_scheduler \<Rightarrow> bool" where
  "plugins_kept s s' \<longleftrightarrow> list_all2 same_plugin (plugin s) (plugin s')"

lemma plugins_kept_refl [simp]: "plugins_kept s s"
  by (simp add: plugins_kept_def list_all2_refl)

lemma plugins_kept_trans: "plugins_kept s s1 \<Longrightarrow> plugins_kept s1 s2 \<Longrightarrow> plugins_kept s s2"
  unfolding plugins_kept_def by (rule list_all2_trans [of same_plugin same_plugin same_plugin]) (rule same_plugin_trans)

lemma plugins_kept_fields [simp]:
  "plugins_kept s (s'\<lparr>taskset := ts\<rparr>) = plugins_kept s s'" "plugins_kept (s\<lparr>taskset := ts\<rparr>) s' = plugins_kept s s'"
  "plugins_kept s (s'\<lparr>last_task_id := n\<rparr>) = plugins_kept s s'" "plugins_kept (s\<lparr>last_task_id := n\<rparr>) s' = plugins_kept s s'"
  by (simp_all add: plugins_kept_def)

lemma plugins_kept_upd:
  assumes "same_plugin (plugin s ! i) p" and "i < length (plugin s)"
  shows "plugins_kept s (s\<lparr>plugin := (plugin s)[i := p]\<rparr>)"
  using assms by (auto simp: plugins_kept_def list_all2_conv_all_nth nth_list_update)

lemma schedule_on_kept: "schedule_on os i p (s, w) = Some (s', w') \<Longrightarrow> plugins_kept s s'"
  by (auto simp: schedule_on_def bind_eq_Some aget_def split: if_splits intro!: plugins_kept_upd dest!: schedule_same)

lemma release_on_kept: "release_on os i p (s, w) = Some (s', w') \<Longrightarrow> plugins_kept s s'"
  by (auto simp: release_on_def bind_eq_Some iget_def aget_def split: if_splits intro!: plugins_kept_upd dest!: release_same)

subsection \<open>What no request changes\<close>

lemma create_kept: "rtf_scheduler_task_create os tp ppid (s, w) = Some (r, s', w') \<Longrightarrow> plugins_kept s s'"
  by (auto simp: rtf_scheduler_task_create_def rtf_scheduler_test_and_assign_def bind_eq_Some Let_def
      split: prod.splits option.splits dest!: schedule_on_kept)

lemma change_loop_kept: "change_loop t is results s = Some (k, results', s') \<Longrightarrow> plugins_kept s s'"
proof (induction t "is" results s rule: change_loop.induct)
  case (2 t i "is" results s)
  then obtain r p where p: "i < length (plugin s)" "rtf_plg_task_change (plugin s ! i) t = Some (r, p)"
    by (auto simp: bind_eq_Some aget_def split: if_splits)
  let ?s = "s\<lparr>plugin := (plugin s)[i := p]\<rparr>"
  have "plugins_kept s ?s" using change_same [OF p(2)] p(1) by (rule plugins_kept_upd)
  moreover have "plugins_kept ?s s'"
    using 2 p by (auto simp: bind_eq_Some aget_def Let_def split: if_splits)
  ultimately show ?case by (rule plugins_kept_trans)
qed simp

lemma change_kept: "rtf_scheduler_task_change os tp i (s, w) = Some (r, s', w') \<Longrightarrow> plugins_kept s s'"
  by (auto simp: rtf_scheduler_task_change_def rtf_scheduler_test_and_modify_def bind_eq_Some Let_def
      split: option.splits dest!: change_loop_kept release_on_kept schedule_on_kept) (metis plugins_kept_trans)+

lemma attach_kept:
  "rtf_scheduler_task_attach os i pid (s, w) = Some (r, s', w') \<Longrightarrow> plugins_kept s s'"
  "rtf_scheduler_task_detach os i (s, w) = Some (r, s', w') \<Longrightarrow> plugins_kept s s'"
  by (auto simp: rtf_scheduler_task_attach_def rtf_scheduler_task_detach_def bind_eq_Some split: option.splits)

lemma destroy_kept: "rtf_scheduler_task_destroy os i (s, w) = Some (r, s', w') \<Longrightarrow> plugins_kept s s'"
  by (auto simp: rtf_scheduler_task_destroy_def bind_eq_Some Let_def split: option.splits dest!: release_on_kept)

lemma delete_kept: "rtf_scheduler_delete os ppid (s, w) = Some (s', w') \<Longrightarrow> plugins_kept s s'"
proof (induction os ppid "(s, w)" arbitrary: s w rule: rtf_scheduler_delete.induct)
  case (1 os ppid s w)
  from "1.prems" obtain q ts where q: "rtf_taskset_remove_by_ppid (heap w) (taskset s) ppid = Some (q, ts)"
    by (subst (asm) rtf_scheduler_delete.simps) (auto simp: bind_eq_Some)
  show ?case
  proof (cases q)
    case None
    then show ?thesis using "1.prems" q by (subst (asm) rtf_scheduler_delete.simps) auto
  next
    case (Some p)
    then obtain t s1 w1 where r: "heap w p = Some t" "release_on os (pluginid t) p (s\<lparr>taskset := ts\<rparr>, w) = Some (s1, w1)"
        "rtf_scheduler_delete os ppid (s1, w1\<lparr>heap := rtf_task_release (heap w1) p\<rparr>) = Some (s', w')"
      using "1.prems" q by (subst (asm) rtf_scheduler_delete.simps) (auto simp: bind_eq_Some Let_def)
    have "plugins_kept s s1" using release_on_kept [OF r(2)] by simp
    moreover have "plugins_kept s1 s'" using "1.hyps" q Some r by simp
    ultimately show ?thesis by (rule plugins_kept_trans)
  qed
qed

lemma dispatch_kept: "dispatch_req os d i ty = Some (rep, d') \<Longrightarrow> plugins_kept (sched d) (sched d')"
  by (auto simp: dispatch_req_def req_connection_def req_task_create_def req_task_modify_def req_task_attach_def
      req_task_detach_def req_task_destroy_def bind_eq_Some Let_def split: option.splits REQ_TYPE.splits
      dest: create_kept change_kept attach_kept destroy_kept)

lemma check_for_fail_kept:
  "rtf_daemon_check_for_fail os net d i = Some (r, d') \<Longrightarrow> plugins_kept (sched d) (sched d')"
  by (auto simp: rtf_daemon_check_for_fail_def bind_eq_Some split: if_splits dest!: delete_kept)

lemma process_req_kept:
  assumes "rtf_daemon_process_req os net d i = Some (r, d')"
  shows "plugins_kept (sched d) (sched d')"
proof -
  obtain ty rep d1 where q: "dispatch_req os d i ty = Some (rep, d1)"
      "(case rtf_carrier_send net (dnet d1) rep i of (sent, k) \<Rightarrow> Some (sent, d1\<lparr>dnet := k\<rparr>)) = Some (r, d')"
    using assms unfolding rtf_daemon_process_req_def bind_eq_Some Let_def by fastforce
  then have "sched d' = sched d1" by (cases "rtf_carrier_send net (dnet d1) rep i") auto
  then show ?thesis using dispatch_kept [OF q(1)] by simp
qed

lemma handle_req_kept:
  "rtf_daemon_handle_req os net d i = Some (r, d') \<Longrightarrow> plugins_kept (sched d) (sched d')"
  by (auto simp: rtf_daemon_handle_req_def bind_eq_Some split: if_splits
      dest!: check_for_fail_kept process_req_kept intro: plugins_kept_trans)

lemma round_kept:
  assumes "rtf_daemon_round os net d = Some d'"
  shows "plugins_kept (sched d) (sched d')"
proof -
  obtain c k where "for_each (\<lambda>d i. map_option snd (rtf_daemon_handle_req os net d (int i))) (d\<lparr>chann := c, dnet := k\<rparr>)
      [0..<nat (rtf_carrier_get_conn c + 1)] = Some d'"
    using assms by (auto simp: rtf_daemon_round_def bind_eq_Some Let_def)
  then show ?thesis
    by (rule for_each_preserves) (auto dest!: handle_req_kept intro: plugins_kept_trans)
qed

lemma rounds_kept:
  "for_each (\<lambda>d _. rtf_daemon_round os net d) d ns = Some d' \<Longrightarrow> plugins_kept (sched d) (sched d')"
  by (erule for_each_preserves) (auto dest!: round_kept intro: plugins_kept_trans)

subsection \<open>Every task where the configuration puts it\<close>

text \<open>The libraries that keep the priorities of their tasks in the window of the plugin whatever is asked for.\<close>

definition ranked :: "rtf_plugin \<Rightarrow> bool" where
  "ranked p \<longleftrightarrow> dl_ptr p = SCHED_FP_so \<or> dl_ptr p = SCHED_RR_so"

text \<open>A task on a core of its entry in the configuration, and with a priority of the entry's window when \<open>r\<close>.\<close>

definition obeys :: "conf_plugin \<Rightarrow> bool \<Rightarrow> rtf_task \<Rightarrow> bool" where
  "obeys c r t \<longleftrightarrow> (\<exists>x \<in> set (the (cp_cores c)). 0 \<le> x \<and> unat (cpu t) = nat x) \<and>
     (r \<longrightarrow> the (cp_prio_min c) \<le> uint (schedprio t) \<and> uint (schedprio t) \<le> the (cp_prio_max c))"

lemma owned_obeys:
  assumes "plg_inv os plg w own" and "q \<in> own" and "heap w q = Some t"
    and "same_plugin plg0 plg" and "loaded i c plg0"
  shows "obeys c (ranked plg) t"
proof -
  have L: "cp_cores c = Some (cpulist plg)" "cp_prio_min c = Some (prio_min plg)" "cp_prio_max c = Some (prio_max plg)"
    using assms(4,5) by (simp_all add: same_plugin_def loaded_def)
  have "base_inv plg (heap w) own"
    using assms(1) by (cases "dl_ptr plg") (simp_all add: plg_inv_def fp_inv_def rr_inv_def rm_inv_def edf_inv_def)
  then have "\<exists>x \<in> set (cpulist plg). 0 \<le> x \<and> unat (cpu t) = nat x"
    using assms(2,3) by (fastforce simp: base_inv_def owned_ok_def plugin_ok_def)
  moreover have "in_window plg (heap w) own" if "ranked plg"
    using that assms(1) by (auto simp: ranked_def plg_inv_def fp_inv_def rr_inv_def rr_prios_ok_def in_window_def)
  ultimately show ?thesis using L assms(2,3) by (fastforce simp: obeys_def in_window_def)
qed

lemma tasks_obey:
  assumes inv: "daemon_inv os libs d" and kept: "plugins_kept s0 (sched d)"
    and loaded: "\<forall>j < length (plugin s0). loaded j (cs ! j) (plugin s0 ! j)"
    and q: "q \<in> set (ts_tasks (taskset (sched d)))" and t: "heap (dworld d) q = Some t"
  shows "\<exists>i < length (plugin s0). pluginid t = int i \<and> obeys (cs ! i) (ranked (plugin (sched d) ! i)) t"
proof -
  note I = daemon_invD(3) [OF inv]
  have K: "length (plugin s0) = length (plugin (sched d))" "\<forall>i < length (plugin s0). same_plugin (plugin s0 ! i) (plugin (sched d) ! i)"
    using kept by (simp_all add: plugins_kept_def list_all2_conv_all_nth)
  obtain i where i: "i < length (plugin (sched d))" "pluginid t = int i" using sched_invD(4) [OF I q] t by auto
  have "plg_inv os (plugin (sched d) ! i) (dworld d) (owns (sched d) (heap (dworld d)) i)"
    using sched_invD(3) [OF I] i(1) by (simp add: plugins_ok_def)
  moreover have "q \<in> owns (sched d) (heap (dworld d)) i" using q t i(2) by (simp add: owns_def)
  ultimately have "obeys (cs ! i) (ranked (plugin (sched d) ! i)) t"
    using owned_obeys [of os _ "dworld d" _ q t "plugin s0 ! i" i "cs ! i"] t K loaded i(1) by simp
  then show ?thesis using i K(1) by auto
qed

text \<open>C3: Isolation of the plugins.  When the daemon has started with a configuration whose entries fit the machine (\<open>entry_ok\<close>: the cores of an
  entry, in ascending order, are below their number, the priorities at most 99) and name the round robin and the rate monotonic
  library at most once each, with memory and with sockets on which only good requests arrive (priority at most 99, not 0 when a round robin plugin is
  loaded, no desired runtime), then after any number of rounds that keeps the ids below a million every task is on a core of the
  configuration of its plugin, the priority of every task of a fixed priority or round robin plugin lies in the
  window that is configured for the plugin, and of two such tasks on one core, the one whose plugin comes first in the
  configuration has the strictly higher priority, whatever good requests the clients have sent.\<close>

theorem plugins_isolated:
  assumes "rtf_daemon_init env st = Some (0, st')" and "startable env st" and "cplugins (config st) = []"
    and "\<forall>c \<in> set (cplugins (config st')). entry_ok c \<and> sorted (the (cp_cores c))"
    and "libs_ok (plugin (sched (daemon st')))" and "kernel_ok (env_os env)"
    and "sockets_ok (env_net env) (good_request (map dl_ptr (plugin (sched (daemon st')))))"
    and "int SET_MAX_SIZE * int n \<le> ID_BOUND"
  shows "\<exists>d. for_each (\<lambda>d _. rtf_daemon_round (env_os env) (env_net env) d) (daemon st') [0..<n] = Some d \<and>
    (\<forall>p \<in> set (ts_tasks (taskset (sched d))). \<exists>t i. heap (dworld d) p = Some t \<and> pluginid t = int i \<and>
       i < length (cplugins (config st')) \<and> obeys (cplugins (config st') ! i) (ranked (plugin (sched d) ! i)) t) \<and>
    (\<forall>p \<in> set (ts_tasks (taskset (sched d))). \<forall>q \<in> set (ts_tasks (taskset (sched d))).
       let t = the (heap (dworld d) p); u = the (heap (dworld d) q)
       in pluginid t < pluginid u \<and> cpu t = cpu u \<and> ranked (plugin (sched d) ! nat (pluginid t)) \<and>
          ranked (plugin (sched d) ! nat (pluginid u)) \<longrightarrow> schedprio u < schedprio t)"
proof -
  let ?cs = "cplugins (config st')" and ?libs = "map dl_ptr (plugin (sched (daemon st')))"
  have entries: "\<forall>c \<in> set ?cs. entry_ok c" using assms(4) by blast
  note D = daemon_init_ok [OF assms(1,2) entries]
  have init: "daemon_inv (env_os env) ?libs (daemon st')" "last_task_id (sched (daemon st')) = 0"
      "length (plugin (sched (daemon st'))) = length ?cs"
      "\<forall>j < length (plugin (sched (daemon st'))). loaded j (?cs ! j) (plugin (sched (daemon st')) ! j)"
    using D assms(5) by blast+
  obtain d where run: "for_each (\<lambda>d _. rtf_daemon_round (env_os env) (env_net env) d) (daemon st') [0..<n] = Some d"
      "daemon_inv (env_os env) ?libs d"
    using rounds_keep [OF init(1) assms(6,7), of n] assms(8) init(2) by auto
  let ?S = "set (ts_tasks (taskset (sched d)))" and ?h = "heap (dworld d)"
  have obey: "\<exists>t i. ?h p = Some t \<and> pluginid t = int i \<and> i < length ?cs \<and> obeys (?cs ! i) (ranked (plugin (sched d) ! i)) t"
    if p: "p \<in> ?S" for p
  proof -
    obtain t where t: "?h p = Some t" using sched_invD(8) [OF daemon_invD(3) [OF run(2)] p] by (auto elim: allocatedE)
    then show ?thesis using tasks_obey [OF run(2) rounds_kept [OF run(1)] init(4) p t] init(3) by auto
  qed
  have "schedprio (the (?h q)) < schedprio (the (?h p))"
    if pq: "p \<in> ?S" "q \<in> ?S" and less: "pluginid (the (?h p)) < pluginid (the (?h q))" and cpu: "cpu (the (?h p)) = cpu (the (?h q))"
      and r: "ranked (plugin (sched d) ! nat (pluginid (the (?h p))))" "ranked (plugin (sched d) ! nat (pluginid (the (?h q))))" for p q
  proof -
    obtain t i where t: "?h p = Some t" "pluginid t = int i" "i < length ?cs" "obeys (?cs ! i) (ranked (plugin (sched d) ! i)) t"
      using obey [OF pq(1)] by blast
    obtain u j where u: "?h q = Some u" "pluginid u = int j" "j < length ?cs" "obeys (?cs ! j) (ranked (plugin (sched d) ! j)) u"
      using obey [OF pq(2)] by blast
    have ij: "i < j" using less t u by simp
    have "set (the (cp_cores (?cs ! i))) \<inter> set (the (cp_cores (?cs ! j))) \<noteq> {}"
      using t(1,4) u(1,4) cpu by (force simp: obeys_def nat_eq_iff)
    moreover have "sorted (the (cp_cores (?cs ! i)))" "sorted (the (cp_cores (?cs ! j)))" using assms(4) t(3) u(3) by simp_all
    moreover have "configuration_valid (sys_nprocs (env_os env)) (config st') = Some True"
      using D assms(3) t(3) by auto
    ultimately have "the (cp_prio_max (?cs ! j)) < the (cp_prio_min (?cs ! i))" using valid_windows ij u(3) by blast
    then show ?thesis using t u r by (auto simp: obeys_def word_less_def)
  qed
  then show ?thesis using run(1) obey by (intro exI [of _ d]) (simp add: Let_def)
qed

text \<open>Two fixed priority plugins that share a core.\<close>

definition two_entry :: "string \<Rightarrow> string \<Rightarrow> yaml_node" where
  "two_entry nm pr = YAML_MAPPING [(YAML_SCALAR ''name'', YAML_SCALAR nm), (YAML_SCALAR ''plugin'', YAML_SCALAR ''/fp.so''),
     (YAML_SCALAR ''priority'', YAML_SCALAR pr), (YAML_SCALAR ''cores'', YAML_SCALAR ''0'')]"

definition two_yaml :: yaml_node where
  "two_yaml = YAML_MAPPING [(YAML_SCALAR ''plugins'', YAML_SEQUENCE [two_entry ''HI'' ''50-99'', two_entry ''LO'' ''1-49''])]"

abbreviation "two_env \<equiv> ex_env\<lparr>env_yaml := (\<lambda>_. YamlDoc (Some two_yaml))\<rparr>"

definition two_item :: "string \<Rightarrow> int \<Rightarrow> int \<Rightarrow> conf_plugin" where
  "two_item nm mn mx = \<lparr>cp_name = Some nm, cp_path = Some ''/fp.so'', cp_prio_min = Some mn, cp_prio_max = Some mx, cp_cores = Some [0]\<rparr>"

lemma two_parse:
  "parse_configuration (\<lambda>_. YamlDoc (Some two_yaml)) 1 False zero_configuration path =
     Some (0, zero_configuration\<lparr>cplugins := [two_item ''HI'' 50 99, two_item ''LO'' 1 49]\<rparr>)"
  by code_simp

text \<open>Sockets on which the client of descriptor 4 asks for a task in every round.\<close>

abbreviation "create_request \<equiv> \<lparr>req_type = Some RTF_TASK_CREATE, param = ex_params\<rparr>"

definition busy_net :: "unit rtf_sockets" where
  "busy_net = ex_net\<lparr>sys_socket := (\<lambda>k _. (5, k)), sys_select := (\<lambda>k _ _. (1, {4}, k)),
     sys_recv_req := (\<lambda>k _ _. (1, create_request, k))\<rparr>"

abbreviation "busy_env \<equiv> two_env\<lparr>env_net := busy_net\<rparr>"

lemma two_boots:
  "\<exists>st. rtf_daemon_init busy_env ex_state = Some (0, st) \<and> cplugins (config st) = [two_item ''HI'' 50 99, two_item ''LO'' 1 49] \<and>
    map dl_ptr (plugin (sched (daemon st))) = [SCHED_FP_so, SCHED_FP_so] \<and> sock (chann (daemon st)) = zero_usocket\<lparr>sock_fd := 5, conn_set_max := 5, conn_set := {5}\<rparr> \<and>
    client (chann (daemon st)) = replicate SET_MAX_SIZE \<lparr>cl_state = EMPTY, cl_pid = 0\<rparr> \<and> dnet (daemon st) = ()"
proof -
  have "length CHANNEL_PATH < SUN_PATH_MAX" by code_simp
  then show ?thesis
    by (simp add: rtf_daemon_init_def ex_env_def ex_state_def two_parse [unfolded zero_configuration_def, simplified] ex_os_def ex_boot_defs
      two_item_def busy_net_def)
qed

text \<open>The loop of a receive, one descriptor at a time.\<close>

lemma recvall_steps:
  "conn_set_max us < int i \<Longrightarrow> recvall_loop net ready i us data nrecv k = Some (us, data, nrecv, k)"
  "int i \<le> conn_set_max us \<Longrightarrow> i < SET_MAX_SIZE \<Longrightarrow> i \<notin> ready \<Longrightarrow>
    recvall_loop net ready i us data nrecv k = recvall_loop net ready (Suc i) us data nrecv k"
  "int i \<le> conn_set_max us \<Longrightarrow> i < SET_MAX_SIZE \<Longrightarrow> i \<in> ready \<Longrightarrow> int i \<noteq> sock_fd us \<Longrightarrow> length data = SET_MAX_SIZE \<Longrightarrow>
    length nrecv = SET_MAX_SIZE \<Longrightarrow> sys_recv_req net k (int i) (data ! i) = (n, q, k') \<Longrightarrow> n \<noteq> 0 \<Longrightarrow>
    recvall_loop net ready i us data nrecv k = recvall_loop net ready (Suc i) us (data[i := q]) (nrecv[i := n]) k'"
  by (subst recvall_loop.simps; simp add: FD_ISSET_def c_simps)+

lemma busy_update:
  assumes C: "carrier_ok P c" and us: "sock c = zero_usocket\<lparr>sock_fd := 5, conn_set_max := 5, conn_set := {5}\<rparr>"
    and cl: "client c = replicate SET_MAX_SIZE \<lparr>cl_state = EMPTY, cl_pid = 0\<rparr>"
  shows "\<exists>c'. rtf_carrier_update busy_net () c = Some (c', ()) \<and> rtf_carrier_get_conn c' = 5 \<and> last_req c' ! 4 = create_request \<and>
    0 < last_n c' ! 4 \<and> (\<forall>i \<le> 5. cl_state (client c' ! i) = (if i = 4 then CONNECTED else EMPTY))"
proof -
  note L = carrier_okD [OF C]
  have six: "(6 :: nat) \<le> SET_MAX_SIZE" by (simp add: SET_MAX_SIZE_def)
  then obtain m where m: "for_each (\<lambda>l i. aset l i 0) (last_n c) [0..<6] = Some m" "length m = SET_MAX_SIZE" "\<forall>j < 6. m ! j = 0"
    using cleared_prefix [of 6 "last_n c"] L(2) by auto
  let ?data = "(last_req c)[4 := create_request]" and ?m = "m[4 := 1]"
  have fd: "conn_set_max (sock c) = 5" "sock_fd (sock c) = 5" "usocket_get_maxfd (sock c) = 5"
    using us by (simp_all add: usocket_get_maxfd_def)
  have "recvall_loop busy_net {4} 0 (sock c) (last_req c) m () = Some (sock c, ?data, ?m, ())"
    using fd six L(3) m(2) by (simp add: recvall_steps busy_net_def) (simp add: eval_nat_numeral)
  moreover have "for_each (update_client 5 ?m) (client c) [0..<6] = Some (stepped 5 ?m 6 (client c))"
    by (rule update_clients) (use m(2) L(5) six in simp_all)
  ultimately have "rtf_carrier_update busy_net () c = Some (c\<lparr>last_req := ?data, last_n := ?m, client := stepped 5 ?m 6 (client c)\<rparr>, ())"
    using m(1) fd us by (simp add: rtf_carrier_update_def usocket_recvall_def Let_def) (simp add: busy_net_def)
  moreover have "cl_state (stepped 5 ?m 6 (client c) ! i) = (if i = 4 then CONNECTED else EMPTY)" if "i \<le> 5" for i
  proof -
    have "i < SET_MAX_SIZE" using that six by simp
    then show ?thesis using that m(2,3) L(5) six cl by (auto simp: stepped_nth nth_list_update client_step_def)
  qed
  ultimately show ?thesis using fd L(3) m(2) six by (simp add: rtf_carrier_get_conn_def)
qed

lemma idle_visit:
  assumes "carrier_ok P (chann d)" and "i < SET_MAX_SIZE" and "cl_state (client (chann d) ! i) = EMPTY"
  shows "map_option snd (rtf_daemon_handle_req os net d (int i)) = Some d"
  using carrier_access(3,4) [OF assms(1,2)] assms(3)
  by (simp add: rtf_daemon_handle_req_def rtf_daemon_check_for_fail_def rtf_daemon_check_for_update_def)

lemma creating_visit:
  assumes inv: "daemon_inv ex_os [SCHED_FP_so, SCHED_FP_so] d" and few: "last_task_id (sched d) < ID_BOUND" and i: "i < SET_MAX_SIZE"
    and st: "cl_state (client (chann d) ! i) = CONNECTED" "0 < last_n (chann d) ! i" "last_req (chann d) ! i = create_request"
  shows "\<exists>d' p. map_option snd (rtf_daemon_handle_req ex_os busy_net d (int i)) = Some d' \<and> client (chann d') = client (chann d) \<and>
    carrier_ok (\<lambda>_. True) (chann d') \<and> p \<in> set (ts_tasks (taskset (sched d')))"
proof -
  note C = daemon_invD(2) [OF inv]
  let ?pid = "cl_pid (client (chann d) ! i)"
  let ?dec = "decision (plugin (sched d)) (new_task (sched d) ex_params ?pid)"
  have good: "good_params [SCHED_FP_so, SCHED_FP_so] ex_params" by (rule ex_hyps)
  have libs: "map dl_ptr (plugin (sched d)) = [SCHED_FP_so, SCHED_FP_so]" using daemon_invD(1) [OF inv] by (simp add: sched_ok_def)
  have "length (plugin (sched d)) = 2" "dl_ptr (plugin (sched d) ! 0) = SCHED_FP_so"
    using arg_cong [OF libs, of length] arg_cong [OF libs, of "\<lambda>xs. xs ! 0"] by simp_all
  then have "?dec \<noteq> None" by (intro fp_decides) (auto simp: new_task_def ex_params)
  with create_abs [OF daemon_invD(1) [OF inv] ex_kernel few good, of ?pid] obtain r s w p where
    S: "rtf_scheduler_task_create ex_os ex_params ?pid (sched d, dworld d) = Some (r, s, w)" "p \<in> set (ts_tasks (taskset s))"
    by (fastforce split: option.splits)
  obtain rep where R: "req_task_create ex_os d (int i) = Some (rep, d\<lparr>sched := s, dworld := w\<rparr>)"
    using S(1) st(3) carrier_access(1,2) [OF C i] by (simp add: req_task_create_def Let_def)
  let ?d = "d\<lparr>sched := s, dworld := w, chann := (chann d)\<lparr>last_n := (last_n (chann d))[i := 0]\<rparr>\<rparr>"
  have "rtf_daemon_handle_req ex_os busy_net d (int i) = Some (0, ?d)"
    using st R carrier_access(1,3,4,7) [OF C i]
    by (simp add: rtf_daemon_handle_req_def rtf_daemon_check_for_fail_def rtf_daemon_check_for_update_def rtf_daemon_process_req_def
        dispatch_req_def rtf_carrier_send_def usocket_sendto_def busy_net_def ex_net_def)
  moreover have "carrier_ok (\<lambda>_. True) (chann ?d)" using C by (simp add: carrier_ok_def)
  ultimately show ?thesis using S(2) by (intro exI [of _ ?d] exI [of _ p]) simp
qed

lemma busy_round:
  assumes inv: "daemon_inv ex_os [SCHED_FP_so, SCHED_FP_so] d" and few: "last_task_id (sched d) < ID_BOUND"
    and net: "sockets_ok busy_net (good_request [SCHED_FP_so, SCHED_FP_so])"
    and us: "sock (chann d) = zero_usocket\<lparr>sock_fd := 5, conn_set_max := 5, conn_set := {5}\<rparr>"
    and cl: "client (chann d) = replicate SET_MAX_SIZE \<lparr>cl_state = EMPTY, cl_pid = 0\<rparr>"
  shows "\<exists>d' p. rtf_daemon_round ex_os busy_net d = Some d' \<and> p \<in> set (ts_tasks (taskset (sched d')))"
proof -
  note C = daemon_invD(2) [OF inv]
  have six: "(6 :: nat) \<le> SET_MAX_SIZE" by (simp add: SET_MAX_SIZE_def)
  from busy_update [OF C us cl] obtain c where c: "rtf_carrier_update busy_net () (chann d) = Some (c, ())" "rtf_carrier_get_conn c = 5"
      "last_req c ! 4 = create_request" "0 < last_n c ! 4" "\<forall>i \<le> 5. cl_state (client c ! i) = (if i = 4 then CONNECTED else EMPTY)" by blast
  have c_ok: "carrier_ok (good_request [SCHED_FP_so, SCHED_FP_so]) c"
    using rtf_carrier_update_ok [OF net C, of "()"] c(1) by auto
  let ?d = "d\<lparr>chann := c, dnet := ()\<rparr>"
  have inv1: "daemon_inv ex_os [SCHED_FP_so, SCHED_FP_so] ?d" using daemon_invD(1) [OF inv] c_ok by (simp add: daemon_inv_def)
  have idle: "map_option snd (rtf_daemon_handle_req ex_os busy_net ?d (int i)) = Some ?d" if "i < 4" for i
    by (rule idle_visit [of "good_request [SCHED_FP_so, SCHED_FP_so]"]) (use that c_ok c(5) six in simp_all)
  from creating_visit [OF inv1, of 4] few c(3-5) six obtain d4 p where
    d4: "map_option snd (rtf_daemon_handle_req ex_os busy_net ?d (int 4)) = Some d4" "client (chann d4) = client c"
      "carrier_ok (\<lambda>_. True) (chann d4)" "p \<in> set (ts_tasks (taskset (sched d4)))" by auto
  have "map_option snd (rtf_daemon_handle_req ex_os busy_net d4 (int 5)) = Some d4"
    by (rule idle_visit [OF d4(3)]) (use d4(2) c(5) six in simp_all)
  moreover have "[0..<6] = [0, 1, 2, 3, 4, 5 :: nat]" by (simp add: upt_rec)
  moreover have "dnet d = ()" by simp
  ultimately have "rtf_daemon_round ex_os busy_net d = Some d4"
    using c(1,2) idle [of 0] idle [of 1] idle [of 2] idle [of 3] d4(1) by (simp add: rtf_daemon_round_def del: map_option_eq_Some)
  with d4(4) show ?thesis by blast
qed

lemma plugins_isolated_witness:
  "\<exists>st d p t. rtf_daemon_init busy_env ex_state = Some (0, st) \<and> rtf_daemon_round ex_os busy_net (daemon st) = Some d \<and>
     p \<in> set (ts_tasks (taskset (sched d))) \<and> heap (dworld d) p = Some t \<and> unat (cpu t) = 0"
proof -
  have env: "env_os busy_env = ex_os" "env_net busy_env = busy_net" by (simp_all add: ex_env_def)
  obtain st where st: "rtf_daemon_init busy_env ex_state = Some (0, st)" "cplugins (config st) = [two_item ''HI'' 50 99, two_item ''LO'' 1 49]"
      "map dl_ptr (plugin (sched (daemon st))) = [SCHED_FP_so, SCHED_FP_so]"
      "sock (chann (daemon st)) = zero_usocket\<lparr>sock_fd := 5, conn_set_max := 5, conn_set := {5}\<rparr>"
      "client (chann (daemon st)) = replicate SET_MAX_SIZE \<lparr>cl_state = EMPTY, cl_pid = 0\<rparr>"
    using two_boots by (elim exE conjE) (rule that)
  have "length (plugin (sched (daemon st))) = 2" using st(3) by (metis length_Cons length_map list.size(3) numeral_2_eq_2)
  then have "dl_ptr (plugin (sched (daemon st)) ! i) = SCHED_FP_so" if "i < 2" for i
    using arg_cong [OF st(3), of "\<lambda>xs. xs ! i"] that by (auto simp: less_2_cases_iff)
  then have libs: "libs_ok (plugin (sched (daemon st)))"
    using \<open>length (plugin (sched (daemon st))) = 2\<close> by (simp add: libs_ok_def)
  have start: "startable busy_env ex_state" using ex_startable by (simp add: startable_def ex_env_def busy_net_def SET_MAX_SIZE_def)
  have none: "cplugins (config ex_state) = []" by (simp add: ex_state_def zero_configuration_def)
  have entries: "\<forall>c \<in> set (cplugins (config st)). entry_ok c \<and> sorted (the (cp_cores c))"
    by (simp add: st(2) two_item_def entry_ok_def MAX_CPU_def)
  have "good_request [SCHED_FP_so, SCHED_FP_so] create_request" using ex_hyps(3) by (simp add: good_request_def)
  then have net: "sockets_ok busy_net (good_request (map dl_ptr (plugin (sched (daemon st)))))"
    by (simp add: st(3) sockets_ok_def busy_net_def ex_net_def SET_MAX_SIZE_def)
  have few: "int SET_MAX_SIZE * int 1 \<le> ID_BOUND" by (simp add: SET_MAX_SIZE_def ID_BOUND_def)
  have "\<forall>c \<in> set (cplugins (config st)). entry_ok c" using entries by blast
  note boot = daemon_init_ok [OF st(1) start this]
  have "daemon_inv ex_os [SCHED_FP_so, SCHED_FP_so] (daemon st)" "last_task_id (sched (daemon st)) = 0"
    using boot libs st(3) by (simp_all add: env)
  then obtain d p where d: "rtf_daemon_round ex_os busy_net (daemon st) = Some d" "p \<in> set (ts_tasks (taskset (sched d)))"
    using busy_round [of "daemon st", OF _ _ net [unfolded st(3)] st(4,5)] by (auto simp: ID_BOUND_def)
  from plugins_isolated [OF st(1) start none entries libs, unfolded env, OF ex_kernel net few] d obtain t i where
    t: "heap (dworld d) p = Some t" "i < Suc (Suc 0)" "obeys ([two_item ''HI'' 50 99, two_item ''LO'' 1 49] ! i) (ranked (plugin (sched d) ! i)) t"
    by (fastforce simp: st(2))
  then have "unat (cpu t) = 0" by (auto simp: obeys_def two_item_def less_Suc_eq)
  with st(1) d t(1) show ?thesis by blast
qed

end
