(* ===== verification/Threads.thy ===== *)
theory Threads
  imports Protocol
begin

text \<open>
  The client library under several threads.  All calls of a process share the static \<open>main_channel\<close>; the mutex of
  \<open>rtf_task_communicate\<close> is held from before the request is sent until after the reply is received, but a
  call writes the request, store by store, before it takes the mutex and reads the reply after it has given it back.
  \<open>rtf_connect\<close> opens the socket anew, sends and receives on the same channel without the mutex.

  A call of the library is, for the channel, the list of its stores into the request.  Its steps
  are the accesses to what the threads share.
\<close>

subsection \<open>The steps of a call\<close>

type_synonym store = "rtf_request \<Rightarrow> rtf_request"

text \<open>Where a thread is: outside of the library; before its remaining stores; before the send; before the receive; before the unlock with the
  value of \<open>ret\<close>; behind it with the value that is returned.  In \<open>rtf_connect\<close>: with a new socket; connected, before its remaining stores;
  before the receive; behind it.\<close>

datatype phase = Idle | Writing "store list" | Locked | Sent | Answered int | Unlocked int
  | Opened | Greeting "store list" | Greeted | Heard

record 'n process =
  main_channel :: rtf_access
  wire :: 'n
  mutex :: "nat option"
  own_pid :: int
  pc :: "nat \<Rightarrow> phase"

text \<open>What happens, by which thread.  \<open>Fails\<close> is a send that returned an error; the last four are the calls of \<open>rtf_connect\<close>
  on the socket.\<close>

datatype access = Calls nat "store list" | Writes nat store | Locks nat | Sends nat rtf_request | Fails nat rtf_request
  | Receives nat rtf_reply | Unlocks nat | Reads nat rtf_reply | Returns nat int
  | Opens nat int | Links nat int | Greets nat rtf_request | Hears nat rtf_reply

definition greeting_stores :: "int \<Rightarrow> store list" where
  "greeting_stores pid = [\<lambda>q. q\<lparr>req_type := Some RTF_CONNECTION\<rparr>, set_low (u32_of_int pid)]"

inductive lib_step :: "'n rtf_sockets \<Rightarrow> 'n process \<Rightarrow> access \<Rightarrow> 'n process \<Rightarrow> bool" for net where
  calling: "pc s i = Idle \<Longrightarrow> lib_step net s (Calls i fs) (s\<lparr>pc := (pc s)(i := Writing fs)\<rparr>)"
| writing: "pc s i = Writing (f # fs) \<Longrightarrow>
    lib_step net s (Writes i f) (s\<lparr>main_channel := with_req f (main_channel s), pc := (pc s)(i := Writing fs)\<rparr>)"
| locking: "pc s i = Writing [] \<Longrightarrow> mutex s = None \<Longrightarrow> lib_step net s (Locks i) (s\<lparr>mutex := Some i, pc := (pc s)(i := Locked)\<rparr>)"
| sending: "pc s i = Locked \<Longrightarrow> rtf_access_send net (wire s) (main_channel s) = (r, k) \<Longrightarrow> r \<noteq> RTF_ERROR \<Longrightarrow>
    lib_step net s (Sends i (acc_req (main_channel s))) (s\<lparr>wire := k, pc := (pc s)(i := Sent)\<rparr>)"
| failing: "pc s i = Locked \<Longrightarrow> rtf_access_send net (wire s) (main_channel s) = (RTF_ERROR, k) \<Longrightarrow>
    lib_step net s (Fails i (acc_req (main_channel s))) (s\<lparr>wire := k, pc := (pc s)(i := Answered RTF_ERROR)\<rparr>)"
| receiving: "pc s i = Sent \<Longrightarrow> rtf_access_recv net (wire s) (main_channel s) = (r, c, k) \<Longrightarrow>
    lib_step net s (Receives i (acc_rep c)) (s\<lparr>main_channel := c, wire := k, pc := (pc s)(i := Answered r)\<rparr>)"
| unlocking: "pc s i = Answered r \<Longrightarrow> lib_step net s (Unlocks i)
    (s\<lparr>mutex := None, pc := (pc s)(i := Unlocked (if r = RTF_ERROR then RTF_ERROR else RTF_OK))\<rparr>)"
| reading: "pc s i = Unlocked r \<Longrightarrow> lib_step net s (Reads i (acc_rep (main_channel s))) s"
| returning: "pc s i = Unlocked r \<Longrightarrow> lib_step net s (Returns i r) (s\<lparr>pc := (pc s)(i := Idle)\<rparr>)"
| reopening: "pc s i = Idle \<Longrightarrow> rtf_access_init net (wire s) (main_channel s) = (r, c, k) \<Longrightarrow>
    lib_step net s (Opens i r) (s\<lparr>main_channel := c, wire := k, pc := (pc s)(i := if r < 0 then Unlocked RTF_ERROR else Opened)\<rparr>)"
| linking: "pc s i = Opened \<Longrightarrow> rtf_access_connect net (wire s) (main_channel s) = Some (r, k) \<Longrightarrow>
    lib_step net s (Links i r)
      (s\<lparr>wire := k, pc := (pc s)(i := if r < 0 then Unlocked RTF_ERROR else Greeting (greeting_stores (own_pid s)))\<rparr>)"
| presenting: "pc s i = Greeting (f # fs) \<Longrightarrow>
    lib_step net s (Writes i f) (s\<lparr>main_channel := with_req f (main_channel s), pc := (pc s)(i := Greeting fs)\<rparr>)"
| greeting: "pc s i = Greeting [] \<Longrightarrow> rtf_access_send net (wire s) (main_channel s) = (r, k) \<Longrightarrow>
    lib_step net s (Greets i (acc_req (main_channel s)))
      (s\<lparr>wire := k, pc := (pc s)(i := if r < 0 then Unlocked RTF_ERROR else Greeted)\<rparr>)"
| hearing: "pc s i = Greeted \<Longrightarrow> rtf_access_recv net (wire s) (main_channel s) = (r, c, k) \<Longrightarrow>
    lib_step net s (Hears i (acc_rep c))
      (s\<lparr>main_channel := c, wire := k, pc := (pc s)(i := if r < 0 then Unlocked RTF_ERROR else Heard)\<rparr>)"
| judging: "pc s i = Heard \<Longrightarrow> lib_step net s (Reads i (acc_rep (main_channel s)))
    (s\<lparr>pc := (pc s)(i := Unlocked (if rep_type (acc_rep (main_channel s)) = RTF_CONNECTION_ERR then RTF_FAIL else RTF_OK))\<rparr>)"

inductive lib_run :: "'n rtf_sockets \<Rightarrow> 'n process \<Rightarrow> access list \<Rightarrow> 'n process \<Rightarrow> bool" for net where
  none: "lib_run net s [] s"
| more: "lib_step net s e s1 \<Longrightarrow> lib_run net s1 es s' \<Longrightarrow> lib_run net s (e # es) s'"

inductive_cases lib_stepE: "lib_step net s e s'"
inductive_cases lib_runE: "lib_run net s [] s'" "lib_run net s (e # es) s'"

inductive_simps lib_step_simps:
  "lib_step net s (Calls i fs) s'" "lib_step net s (Writes i f) s'" "lib_step net s (Locks i) s'" "lib_step net s (Sends i q) s'"
  "lib_step net s (Fails i q) s'" "lib_step net s (Receives i rep) s'" "lib_step net s (Unlocks i) s'" "lib_step net s (Reads i rep) s'"
  "lib_step net s (Returns i r) s'" "lib_step net s (Opens i r) s'" "lib_step net s (Links i r) s'" "lib_step net s (Greets i q) s'"
  "lib_step net s (Hears i rep) s'"

inductive_simps lib_run_simps: "lib_run net s [] s'" "lib_run net s (e # es) s'"

lemma lib_run_append: "lib_run net s (es @ fs) s' \<longleftrightarrow> (\<exists>s1. lib_run net s es s1 \<and> lib_run net s1 fs s')"
  by (induction es arbitrary: s) (auto simp: lib_run_simps)

text \<open>A step of \<open>rtf_connect\<close> on the socket.\<close>

fun connects :: "access \<Rightarrow> bool" where
  "connects (Opens i r) = True" | "connects (Links i r) = True" | "connects (Greets i q) = True" | "connects (Hears i rep) = True"
| "connects _ = False"

subsection \<open>What the mutex protects\<close>

text \<open>The thread that holds the mutex is the one between its lock and its unlock.\<close>

fun holds :: "phase \<Rightarrow> bool" where
  "holds Locked = True" | "holds Sent = True" | "holds (Answered r) = True" | "holds _ = False"

definition mutex_inv :: "'n process \<Rightarrow> bool" where
  "mutex_inv s \<longleftrightarrow> (\<forall>i. holds (pc s i) \<longleftrightarrow> mutex s = Some i)"

lemma mutex_inv_step: "lib_step net s e s' \<Longrightarrow> mutex_inv s \<Longrightarrow> mutex_inv s'"
  by (induction rule: lib_step.induct) (force simp: mutex_inv_def)+

lemma mutex_inv_run: "lib_run net s es s' \<Longrightarrow> mutex_inv s \<Longrightarrow> mutex_inv s'"
  by (induction rule: lib_run.induct) (auto dest: mutex_inv_step)

text \<open>The accesses to the socket: every send of a call that does not fail is followed, as the next access, by the receive of the same thread.  The
  argument is the thread whose request is on its way.\<close>

fun paired :: "nat option \<Rightarrow> access list \<Rightarrow> bool" where
  "paired w [] = True"
| "paired w (Sends i q # es) = (w = None \<and> paired (Some i) es)"
| "paired w (Fails i q # es) = (w = None \<and> paired None es)"
| "paired w (Receives i rep # es) = (w = Some i \<and> paired None es)"
| "paired w (Opens i r # es) = (w = None \<and> paired None es)"
| "paired w (Links i r # es) = (w = None \<and> paired None es)"
| "paired w (Greets i q # es) = (w = None \<and> paired None es)"
| "paired w (Hears i rep # es) = (w = None \<and> paired None es)"
| "paired w (_ # es) = paired w es"

definition waits :: "nat option \<Rightarrow> 'n process \<Rightarrow> bool" where
  "waits w s \<longleftrightarrow> (\<forall>i. pc s i = Sent \<longleftrightarrow> w = Some i)"

lemma one_holds: "mutex_inv s \<Longrightarrow> holds (pc s i) \<Longrightarrow> holds (pc s j) \<Longrightarrow> i = j"
  by (simp add: mutex_inv_def)

lemma waits_None:
  assumes "mutex_inv s" and "pc s i = Locked" and "waits w s"
  shows "w = None"
proof (rule ccontr)
  assume "w \<noteq> None"
  then obtain j where "pc s j = Sent" using assms(3) by (auto simp: waits_def)
  then have "i = j" using one_holds [OF assms(1), of i j] assms(2) by simp
  then show False using assms(2) \<open>pc s j = Sent\<close> by simp
qed

lemma paired_step:
  assumes "lib_step net s e s'" and "mutex_inv s" and "waits w s" and "\<not> connects e"
  shows "\<exists>w'. waits w' s' \<and> (paired w' es \<longrightarrow> paired w (e # es))"
proof -
  have W: "pc s j = Sent \<longleftrightarrow> w = Some j" for j using assms(3) by (simp add: waits_def)
  have other: ?thesis if "pc s i \<noteq> Sent" "pc s' i \<noteq> Sent" "\<forall>j. j \<noteq> i \<longrightarrow> pc s' j = pc s j" "paired w (e # es) = paired w es" for i
    using that W by (intro exI [of _ w]) (simp add: waits_def, metis)
  show ?thesis using assms(1)
  proof cases
    case (calling i fs)
    then show ?thesis by (intro other [of i]) simp_all
  next
    case (writing i f fs)
    then show ?thesis by (intro other [of i]) simp_all
  next
    case (locking i)
    then show ?thesis by (intro other [of i]) simp_all
  next
    case (unlocking i r)
    then show ?thesis by (intro other [of i]) simp_all
  next
    case (returning i r)
    then show ?thesis by (intro other [of i]) simp_all
  next
    case (presenting i f fs)
    then show ?thesis by (intro other [of i]) simp_all
  next
    case (judging i)
    then show ?thesis by (intro other [of i]) simp_all
  next
    case (sending i r k)
    then have "w = None" using waits_None assms(2,3) by blast
    then show ?thesis using sending W by (intro exI [of _ "Some i"]) (auto simp: waits_def)
  next
    case (failing i k)
    then have "w = None" using waits_None assms(2,3) by blast
    then show ?thesis using failing W by (intro exI [of _ None]) (auto simp: waits_def)
  next
    case (receiving i r c k)
    then have "w = Some i" using assms(3) by (simp add: waits_def)
    then show ?thesis using receiving W by (intro exI [of _ None]) (auto simp: waits_def)
  next
    case (reading i r)
    then show ?thesis using assms(3) by (intro exI [of _ w]) simp
  qed (use assms(4) in simp_all)
qed

lemma paired_run: "lib_run net s es s' \<Longrightarrow> mutex_inv s \<Longrightarrow> waits w s \<Longrightarrow> \<forall>e \<in> set es. \<not> connects e \<Longrightarrow> paired w es"
proof (induction arbitrary: w rule: lib_run.induct)
  case (more s e s1 es s')
  have no: "\<not> connects e" using more.prems(3) by simp
  from paired_step [OF more.hyps(1) more.prems(1,2) no, of es] obtain w' where "waits w' s1" "paired w' es \<longrightarrow> paired w (e # es)" by blast
  then show ?case using more.IH mutex_inv_step [OF more.hyps(1) more.prems(1)] more.prems(3) by simp
qed simp

text \<open>A process whose threads are all outside of the library.\<close>

definition quiet :: "'n process \<Rightarrow> bool" where
  "quiet s \<longleftrightarrow> mutex s = None \<and> pc s = (\<lambda>_. Idle)"

lemma quiet_inv: "quiet s \<Longrightarrow> mutex_inv s" "quiet s \<Longrightarrow> waits None s"
  by (simp_all add: quiet_def mutex_inv_def waits_def)

text \<open>C17: The mutex keeps the exchanges on the socket apart once the process is connected.  However the threads of a process interleave their calls, at any time at most
  one of them is between its lock and its unlock; and as long as no thread is in \<open>rtf_connect\<close>, which does not take the mutex, every send that succeeds is followed, as the
  next access to the socket, by the receive of the same thread, so a reply never goes to a thread that did not send the last request.\<close>

theorem exchanges_do_not_overlap:
  assumes "lib_run net s es s'" and "quiet s"
  shows "((\<forall>e \<in> set es. \<not> connects e) \<longrightarrow> paired None es) \<and> (\<forall>i j. holds (pc s' i) \<longrightarrow> holds (pc s' j) \<longrightarrow> i = j)"
  using paired_run [OF assms(1)] quiet_inv [OF assms(2)] one_holds [OF mutex_inv_run [OF assms(1)]] by blast

subsection \<open>What it does not protect\<close>

text \<open>The request changes by the stores of a thread only, the reply by a receive only.\<close>

fun no_write :: "access \<Rightarrow> bool" where
  "no_write (Writes i f) = False" | "no_write _ = True"

fun no_receive :: "access \<Rightarrow> bool" where
  "no_receive (Receives i rep) = False" | "no_receive (Hears i rep) = False" | "no_receive _ = True"

lemma recv_keeps_req: "rtf_access_recv net k c = (r, c', k') \<Longrightarrow> acc_req c' = acc_req c"
  by (auto simp: rtf_access_recv_def Let_def split: prod.splits)

lemma init_keeps: "rtf_access_init net k c = (r, c', k') \<Longrightarrow> acc_req c' = acc_req c \<and> acc_rep c' = acc_rep c"
  by (auto simp: rtf_access_init_def Let_def split: prod.splits)

lemma step_req: "lib_step net s e s' \<Longrightarrow> no_write e \<Longrightarrow> acc_req (main_channel s') = acc_req (main_channel s)"
  by (induction rule: lib_step.induct) (auto dest: recv_keeps_req init_keeps)

lemma step_rep: "lib_step net s e s' \<Longrightarrow> no_receive e \<Longrightarrow> acc_rep (main_channel s') = acc_rep (main_channel s)"
  by (induction rule: lib_step.induct) (auto simp: with_req_def dest: init_keeps)

lemma same_req: "lib_run net s es s' \<Longrightarrow> \<forall>e \<in> set es. no_write e \<Longrightarrow> acc_req (main_channel s') = acc_req (main_channel s)"
  by (induction rule: lib_run.induct) (auto dest: step_req)

lemma same_rep: "lib_run net s es s' \<Longrightarrow> \<forall>e \<in> set es. no_receive e \<Longrightarrow> acc_rep (main_channel s') = acc_rep (main_channel s)"
  by (induction rule: lib_run.induct) (auto dest: step_rep)

fun thread :: "access \<Rightarrow> nat" where
  "thread (Calls i fs) = i" | "thread (Writes i f) = i" | "thread (Locks i) = i" | "thread (Sends i q) = i" | "thread (Fails i q) = i"
| "thread (Receives i rep) = i" | "thread (Unlocks i) = i" | "thread (Reads i rep) = i" | "thread (Returns i r) = i"
| "thread (Opens i r) = i" | "thread (Links i r) = i" | "thread (Greets i q) = i" | "thread (Hears i rep) = i"

lemma pc_of_other: "lib_step net s e s' \<Longrightarrow> thread e \<noteq> i \<Longrightarrow> pc s' i = pc s i"
  by (induction rule: lib_step.induct) auto

lemma pc_of_others: "lib_run net s es s' \<Longrightarrow> \<forall>e \<in> set es. thread e \<noteq> i \<Longrightarrow> pc s' i = pc s i"
  by (induction rule: lib_run.induct) (auto dest: pc_of_other)

text \<open>While a thread waits for its reply, nobody else touches the socket or the reply, unless some thread connects.\<close>

lemma sent_step:
  assumes "lib_step net s e s'" and "mutex_inv s" and "pc s i = Sent" and "thread e \<noteq> i" and "\<not> connects e"
  shows "wire s' = wire s \<and> acc_sock (main_channel s') = acc_sock (main_channel s) \<and> acc_rep (main_channel s') = acc_rep (main_channel s)"
proof -
  have "\<not> holds (pc s j)" if "j \<noteq> i" for j using that one_holds [OF assms(2), of j i] assms(3) by auto
  then have "pc s (thread e) \<noteq> Locked" "pc s (thread e) \<noteq> Sent" using assms(4) by (metis holds.simps(1,2))+
  with assms(1,5) show ?thesis by cases (auto simp: with_req_def)
qed

lemma sent_run:
  "lib_run net s es s' \<Longrightarrow> mutex_inv s \<Longrightarrow> pc s i = Sent \<Longrightarrow> \<forall>e \<in> set es. thread e \<noteq> i \<and> \<not> connects e \<Longrightarrow>
    wire s' = wire s \<and> acc_sock (main_channel s') = acc_sock (main_channel s) \<and> acc_rep (main_channel s') = acc_rep (main_channel s)"
proof (induction rule: lib_run.induct)
  case (more s e s1 es s')
  have "pc s1 i = pc s i" using pc_of_other [OF more.hyps(1)] more.prems(3) by simp
  with more sent_step [OF more.hyps(1) more.prems(1,2)] mutex_inv_step [OF more.hyps(1)] show ?case by simp
qed simp

lemma same_sock: "lib_run net s es s' \<Longrightarrow> \<forall>e \<in> set es. \<not> connects e \<Longrightarrow> acc_sock (main_channel s') = acc_sock (main_channel s)"
  by (induction rule: lib_run.induct)
    (auto elim!: lib_step.cases simp: with_req_def rtf_access_recv_def Let_def split: prod.splits)

text \<open>The stores of a thread, when no other one writes.\<close>

lemma writes_run:
  "lib_run net s es s' \<Longrightarrow> pc s i = Writing fs \<Longrightarrow> \<forall>e \<in> set es. thread e = i \<longleftrightarrow> \<not> no_write e \<Longrightarrow>
    \<exists>hs gs. fs = hs @ gs \<and> pc s' i = Writing gs \<and> acc_req (main_channel s') = fold (\<lambda>f. f) hs (acc_req (main_channel s))"
proof (induction arbitrary: fs rule: lib_run.induct)
  case (none s)
  then show ?case by (intro exI [of _ "[]"] exI [of _ fs]) simp
next
  case (more s e s1 es s')
  note e = more.hyps(1) and rest = more.prems(2)
  show ?case
  proof (cases "thread e = i")
    case True
    then obtain f where f: "e = Writes i f" using rest by (cases e) auto
    then obtain gs where "fs = f # gs" "pc s1 i = Writing gs" "acc_req (main_channel s1) = f (acc_req (main_channel s))"
      using e more.prems(1) by (auto simp: lib_step_simps with_req_def)
    with more.IH [of gs] rest show ?thesis by (metis append_Cons fold_simps(2) list.set_intros(2))
  next
    case False
    then have "pc s1 i = Writing fs" "acc_req (main_channel s1) = acc_req (main_channel s)"
      using pc_of_other [OF e] step_req [OF e] rest more.prems(1) by simp_all
    with more.IH [of fs] rest show ?thesis by simp
  qed
qed

text \<open>The reads behind the unlock.\<close>

lemma reads_run:
  "lib_run net s es s' \<Longrightarrow> \<forall>e \<in> set es. no_receive e \<Longrightarrow> Reads i rep \<in> set es \<Longrightarrow> rep = acc_rep (main_channel s)"
  by (induction rule: lib_run.induct) (auto simp: lib_step_simps dest: step_rep)

lemma reading_pc:
  "lib_run net s es s' \<Longrightarrow> pc s i = Unlocked r \<Longrightarrow> \<forall>e \<in> set es. thread e = i \<longrightarrow> (\<exists>rep. e = Reads i rep) \<Longrightarrow> pc s' i = Unlocked r"
proof (induction rule: lib_run.induct)
  case (more s e s1 es s')
  have "pc s1 i = Unlocked r"
  proof (cases "thread e = i")
    case True
    then obtain rep where "e = Reads i rep" using more.prems(2) by auto
    then show ?thesis using more.hyps(1) more.prems(1) by (auto simp: lib_step_simps)
  qed (use pc_of_other [OF more.hyps(1)] more.prems(1) in simp)
  with more show ?case by simp
qed simp

lemma answered_value:
  assumes "lib_step net s4 (Receives i rep) s5" and "lib_run net s5 es s6" and "\<forall>e \<in> set es. thread e \<noteq> i"
    and "lib_step net s6 (Unlocks i) s7" and "lib_run net s7 es' s8" and "\<forall>e \<in> set es'. thread e = i \<longrightarrow> (\<exists>rep. e = Reads i rep)"
    and "lib_step net s8 (Returns i r) s9"
  shows "\<exists>r0 c k. rtf_access_recv net (wire s4) (main_channel s4) = (r0, c, k) \<and> acc_rep c = rep \<and>
    r = (if r0 = RTF_ERROR then RTF_ERROR else RTF_OK)"
proof -
  obtain r0 c k where recv: "rtf_access_recv net (wire s4) (main_channel s4) = (r0, c, k)" "acc_rep c = rep" "pc s5 i = Answered r0"
    using assms(1) by (auto simp: lib_step_simps)
  then have "pc s6 i = Answered r0" using pc_of_others [OF assms(2,3)] by simp
  then have "pc s7 i = Unlocked (if r0 = RTF_ERROR then RTF_ERROR else RTF_OK)" using assms(4) by (auto simp: lib_step_simps)
  then have "r = (if r0 = RTF_ERROR then RTF_ERROR else RTF_OK)"
    using reading_pc [OF assms(5) _ assms(6)] assms(7) by (auto simp: lib_step_simps)
  with recv show ?thesis by blast
qed

text \<open>C18: A call that is not disturbed is served as if its process had one thread.  Take any call in any run, also one in which threads
  have connected before: if between the beginning of the call and its send no other
  thread stores into the request, between its unlock and its return none receives, and during the call none is in \<open>rtf_connect\<close>, then it
  sends the request that its own stores make, and what it returns, and the reply that it reads however often, are
  those of \<open>rtf_task_communicate\<close> for that request in one step.\<close>

theorem undisturbed_call:
  assumes "quiet s0" and "lib_run net s0 es0 s"
    and "lib_run net s (Calls i fs # es1 @ Locks i # es2 @ Sends i q # es3 @ Receives i rep # es4 @ Unlocks i # es5 @ [Returns i r]) s'"
    and "\<forall>e \<in> set (es2 @ es3 @ es4). thread e \<noteq> i" and "\<forall>e \<in> set es5. thread e = i \<longrightarrow> (\<exists>rep. e = Reads i rep)"
    and "\<forall>e \<in> set es1. thread e = i \<longleftrightarrow> \<not> no_write e" and "\<forall>e \<in> set es2. no_write e" and "\<forall>e \<in> set (es4 @ es5). no_receive e"
    and "\<forall>e \<in> set (es1 @ es2 @ es3 @ es4 @ es5). \<not> connects e"
  shows "q = fold (\<lambda>f. f) fs (acc_req (main_channel s)) \<and> (\<exists>c k c' k'. acc_req c = q \<and> acc_sock c = acc_sock (main_channel s) \<and>
    rtf_task_communicate net (c, k) = (r, c', k') \<and> (\<forall>rep'. Reads i rep' \<in> set es5 \<longrightarrow> rep' = acc_rep c'))"
proof -
  obtain s1 s2 s3 s4 where 1: "lib_step net s (Calls i fs) s1" "lib_run net s1 es1 s2" "lib_step net s2 (Locks i) s3" "lib_run net s3 es2 s4"
      "lib_run net s4 (Sends i q # es3 @ Receives i rep # es4 @ Unlocks i # es5 @ [Returns i r]) s'"
    using assms(3) unfolding lib_run_simps(2) lib_run_append append_Cons append_Nil by blast
  obtain s5 s6 s7 where 2: "lib_step net s4 (Sends i q) s5" "lib_run net s5 es3 s6" "lib_step net s6 (Receives i rep) s7"
      "lib_run net s7 (es4 @ Unlocks i # es5 @ [Returns i r]) s'"
    using 1(5) unfolding lib_run_simps(2) lib_run_append append_Cons append_Nil by blast
  obtain s8 s9 s10 s11 where 3: "lib_run net s7 es4 s8" "lib_step net s8 (Unlocks i) s9" "lib_run net s9 es5 s10"
      "lib_step net s10 (Returns i r) s11"
    using 2(4) unfolding lib_run_simps(2) lib_run_append append_Cons append_Nil by blast
  have other: "\<forall>e \<in> set es3. thread e \<noteq> i \<and> \<not> connects e" "\<forall>e \<in> set es4. thread e \<noteq> i" using assms(4,9) by auto
  have run4: "lib_run net s (Calls i fs # es1 @ Locks i # es2) s4" using 1 by (auto simp: lib_run_simps lib_run_append)
  have inv4: "mutex_inv s4" using mutex_inv_run [OF run4] mutex_inv_run [OF assms(2)] quiet_inv(1) [OF assms(1)] by blast
  then have inv5: "mutex_inv s5" using mutex_inv_step [OF 2(1)] by blast
  have "pc s1 i = Writing fs" "acc_req (main_channel s1) = acc_req (main_channel s)" using 1(1) by (auto simp: lib_step_simps)
  moreover from writes_run [OF 1(2) this(1) assms(6)] obtain hs gs where
    w: "fs = hs @ gs" "pc s2 i = Writing gs" "acc_req (main_channel s2) = fold (\<lambda>f. f) hs (acc_req (main_channel s1))" by blast
  moreover have "gs = []" "acc_req (main_channel s3) = acc_req (main_channel s2)" using 1(3) w(2) by (auto simp: lib_step_simps)
  moreover have "acc_req (main_channel s4) = acc_req (main_channel s3)" using same_req [OF 1(4)] assms(7) by simp
  ultimately have req: "acc_req (main_channel s4) = fold (\<lambda>f. f) fs (acc_req (main_channel s))" by simp
  obtain n where send: "q = acc_req (main_channel s4)" "rtf_access_send net (wire s4) (main_channel s4) = (n, wire s5)" "n \<noteq> RTF_ERROR"
      "main_channel s5 = main_channel s4" "pc s5 i = Sent"
    using 2(1) by (auto simp: lib_step_simps)
  note wait = sent_run [OF 2(2) inv5 send(5) other(1)]
  obtain r0 c k where recv: "rtf_access_recv net (wire s6) (main_channel s6) = (r0, c, k)" "acc_rep c = rep"
      "r = (if r0 = RTF_ERROR then RTF_ERROR else RTF_OK)"
    using answered_value [OF 2(3) 3(1) other(2) 3(2,3) assms(5) 3(4)] by blast
  have "rtf_access_recv net (wire s5) (main_channel s4) = (r0, (main_channel s4)\<lparr>acc_rep := rep\<rparr>, k)"
    using recv(1,2) wait send(4) by (auto simp: rtf_access_recv_def usocket_recv_def Let_def split: prod.splits)
  then have comm: "rtf_task_communicate net (main_channel s4, wire s4) = (r, (main_channel s4)\<lparr>acc_rep := rep\<rparr>, k)"
    using send(2,3) recv(3) by (simp add: rtf_task_communicate_def)
  have "acc_rep (main_channel s7) = rep" "acc_rep (main_channel s9) = acc_rep (main_channel s8)"
    using 2(3) 3(2) by (auto simp: lib_step_simps)
  moreover have "acc_rep (main_channel s8) = acc_rep (main_channel s7)" using same_rep [OF 3(1)] assms(8) by simp
  ultimately have reads: "\<forall>rep'. Reads i rep' \<in> set es5 \<longrightarrow> rep' = rep" using reads_run [OF 3(3)] assms(8) by auto
  have "acc_sock (main_channel s4) = acc_sock (main_channel s)" by (rule same_sock [OF run4]) (use assms(9) in auto)
  then show ?thesis using req send(1) comm reads
    by (intro conjI exI [of _ "main_channel s4"] exI [of _ "wire s4"] exI [of _ "(main_channel s4)\<lparr>acc_rep := rep\<rparr>"] exI [of _ k]) simp_all
qed

text \<open>The steps of \<open>rtf_connect\<close>, when no other thread moves, make \<open>rtf_connect\<close> of ClientLib.\<close>

lemma connect_alone:
  assumes "pc s i = Idle" and "rtf_connect net (own_pid s) (main_channel s, wire s) = Some (r, c, k)"
  shows "\<exists>es s'. lib_run net s (es @ [Returns i r]) s' \<and> main_channel s' = c \<and> wire s' = k \<and> (\<forall>e \<in> set es. thread e = i)"
proof -
  let ?c = "main_channel s" and ?f = "\<lambda>q. set_low (u32_of_int (own_pid s)) (q\<lparr>req_type := Some RTF_CONNECTION\<rparr>)"
  obtain r1 c1 k1 where 1: "rtf_access_init net (wire s) ?c = (r1, c1, k1)" by (cases "rtf_access_init net (wire s) ?c") auto
  note steps = lib_run_simps lib_step_simps assms(1) greeting_stores_def
  show ?thesis
  proof (cases "r1 < 0")
    case True
    then show ?thesis using assms(2) 1 by (intro exI [of _ "[Opens i r1]"]) (auto simp: steps rtf_connect_def)
  next
    case ok1: False
    then obtain r2 k2 where 2: "rtf_access_connect net k1 c1 = Some (r2, k2)"
      using assms(2) 1 by (auto simp: rtf_connect_def bind_eq_Some)
    show ?thesis
    proof (cases "r2 < 0")
      case True
      then show ?thesis using assms(2) 1 2 ok1 by (intro exI [of _ "[Opens i r1, Links i r2]"]) (auto simp: steps rtf_connect_def)
    next
      case ok2: False
      let ?c3 = "with_req ?f c1"
      let ?w = "[Opens i r1, Links i r2, Writes i (\<lambda>q. q\<lparr>req_type := Some RTF_CONNECTION\<rparr>), Writes i (set_low (u32_of_int (own_pid s)))]"
      have c3: "with_req (set_low (u32_of_int (own_pid s))) (with_req (\<lambda>q. q\<lparr>req_type := Some RTF_CONNECTION\<rparr>) c1) = ?c3"
        by (simp add: with_req_def)
      obtain r3 k3 where 3: "rtf_access_send net k2 ?c3 = (r3, k3)" by (cases "rtf_access_send net k2 ?c3") auto
      show ?thesis
      proof (cases "r3 < 0")
        case True
        then show ?thesis using assms(2) 1 2 3 ok1 ok2
          by (intro exI [of _ "?w @ [Greets i (acc_req ?c3)]"]) (auto simp: steps c3 rtf_connect_def Let_def)
      next
        case ok3: False
        obtain r4 c4 k4 where 4: "rtf_access_recv net k3 ?c3 = (r4, c4, k4)" by (cases "rtf_access_recv net k3 ?c3") auto
        show ?thesis
        proof (cases "r4 < 0")
          case True
          then show ?thesis using assms(2) 1 2 3 4 ok1 ok2 ok3
            by (intro exI [of _ "?w @ [Greets i (acc_req ?c3), Hears i (acc_rep c4)]"]) (auto simp: steps c3 rtf_connect_def Let_def)
        next
          case False
          then show ?thesis using assms(2) 1 2 3 4 ok1 ok2 ok3
            by (intro exI [of _ "?w @ [Greets i (acc_req ?c3), Hears i (acc_rep c4), Reads i (acc_rep c4)]"])
              (auto simp: steps c3 rtf_connect_def Let_def)
        qed
      qed
    qed
  qed
qed

text \<open>A thread that connects while another one waits for its reply takes its socket away: the receive of the waiting thread is
  on the new socket, on which it sent nothing.\<close>

lemma connect_takes_socket:
  assumes "quiet s" and "i \<noteq> j" and "rtf_access_send net (wire s) (with_req f (main_channel s)) = (n, k)" and "n \<noteq> RTF_ERROR"
    and "sys_socket net k TCP = (fd, k')" and "0 \<le> fd"
  shows "\<exists>q s'. lib_run net s [Calls i [f], Writes i f, Locks i, Sends i q, Opens j 0] s' \<and> pc s' i = Sent \<and>
    sock_fd (acc_sock (main_channel s')) = fd \<and> \<not> paired None [Calls i [f], Writes i f, Locks i, Sends i q, Opens j 0]"
  using assms by (auto simp: lib_run_simps lib_step_simps quiet_def rtf_access_init_def usocket_init_def)

subsection \<open>Two threads that create a task\<close>

text \<open>What \<open>cli_task_create\<close> makes of the value of \<open>rtf_task_communicate\<close> and the reply that it reads.\<close>

definition creation :: "rtf_params \<Rightarrow> cli_task \<Rightarrow> int \<Rightarrow> rtf_reply \<Rightarrow> (int \<times> cli_task) option" where
  "creation p t r rep = (let t = t\<lparr>cli_p := p\<rparr> in
     if r < 0 then Some (RTF_ERROR, t) else if rep_type rep = RTF_TASK_CREATE_ERR then Some (RTF_FAIL, t)
     else do { i \<leftarrow> payload_id rep; Some (RTF_OK, t\<lparr>task_id := i\<rparr>) })"

definition create_stores :: "rtf_params \<Rightarrow> store list" where
  "create_stores p = [\<lambda>q. q\<lparr>req_type := Some RTF_TASK_CREATE\<rparr>, \<lambda>q. q\<lparr>param := p\<rparr>]"

lemma cli_task_create_steps:
  "cli_task_create net p (t, c, k) = (case rtf_task_communicate net (with_req (fold (\<lambda>f. f) (create_stores p)) c, k) of
     (r, c', k') \<Rightarrow> map_option (\<lambda>(x, t'). (x, t', c', k')) (creation p t r (acc_rep c')))"
  by (cases "rtf_task_communicate net (with_req (fold (\<lambda>f. f) (create_stores p)) c, k)"; cases "payload_id (acc_rep (fst (snd (rtf_task_communicate net (with_req (fold (\<lambda>f. f) (create_stores p)) c, k)))))")
    (auto simp: cli_task_create_def creation_def create_stores_def with_req_def Let_def)

text \<open>C19: The calls of two threads can get mixed up.  Two threads of a connected process create a task each, with parameters \<open>p\<close> and \<open>p'\<close>, and the daemon grants both requests
  that it receives.  There is an interleaving in which both requests carry \<open>p'\<close>, so that the daemon makes two
  reservations for \<open>p'\<close>, and in which both calls succeed, reading the second reply: both threads note the
  id of the second reservation, one of them for the parameters \<open>p\<close>, and neither knows that of the first.
  (Invariant, memory, ids below the bound; nothing else happens in the daemon between the two requests.)\<close>

theorem threads_mix_calls:
  assumes c_def: "c = with_req (\<lambda>q. q\<lparr>req_type := Some RTF_TASK_CREATE, param := p'\<rparr>) (main_channel s)"
    and "quiet s" and "i \<noteq> j"
    and "daemon_inv os libs d" and "kernel_ok os" and "last_task_id (sched d) + 1 < ID_BOUND"
    and "exchanged net d a (c, wire s) rep1 k1" and "dispatch_req os d (int a) (Some RTF_TASK_CREATE) = Some (rep1, d1)"
    and "rep_type rep1 \<noteq> RTF_TASK_CREATE_ERR"
    and "daemon_inv os libs d2" and "sched d2 = sched d1" and "dworld d2 = dworld d1"
    and "exchanged net d2 b (c\<lparr>acc_rep := rep1\<rparr>, k1) rep2 k2" and "dispatch_req os d2 (int b) (Some RTF_TASK_CREATE) = Some (rep2, d3)"
    and "rep_type rep2 \<noteq> RTF_TASK_CREATE_ERR"
  shows "\<exists>s' q n1 n2 l1 l2. lib_run net s
      ([Calls i (create_stores p)] @ map (Writes i) (create_stores p) @ [Calls j (create_stores p')] @ map (Writes j) (create_stores p') @
       [Locks i, Sends i q, Receives i rep1, Unlocks i, Locks j, Sends j q, Receives j rep2, Unlocks j,
        Reads i rep2, Returns i RTF_OK, Reads j rep2, Returns j RTF_OK]) s' \<and> quiet s' \<and>
    creation p t RTF_OK rep2 = Some (RTF_OK, t\<lparr>cli_p := p, task_id := n2\<rparr>) \<and>
    creation p' t' RTF_OK rep2 = Some (RTF_OK, t'\<lparr>cli_p := p', task_id := n2\<rparr>) \<and>
    n1 \<noteq> n2 \<and> sched_abs (sched d, dworld d) n1 = None \<and> sched_abs (sched d, dworld d) n2 = None \<and>
    sched_abs (sched d3, dworld d3) = (sched_abs (sched d, dworld d))
      (n1 \<mapsto> (cl_pid (client (chann d) ! a), l1, p'), n2 \<mapsto> (cl_pid (client (chann d2) ! b), l2, p'))"
proof -
  let ?f = "\<lambda>q. q\<lparr>req_type := Some RTF_TASK_CREATE, param := p'\<rparr>"
  let ?n = "last_task_id (sched d)"
  have again: "with_req ?f (c\<lparr>acc_rep := r\<rparr>) = c\<lparr>acc_rep := r\<rparr>" for r by (simp add: c_def with_req_def)
  have few: "?n < ID_BOUND" using assms(6) by simp
  from created_reservation [OF assms(4,5) few, of net a p' "main_channel s" "wire s" rep1 k1 d1 t] assms(7-9) obtain t1 c1 l1 where
    1: "cli_task_create net p' (t, main_channel s, wire s) = Some (RTF_OK, t1, c1, k1)" "task_id t1 = u32_of_int (?n + 1)"
      "sched_abs (sched d, dworld d) (task_id t1) = None"
      "sched_abs (sched d1, dworld d1) = (sched_abs (sched d, dworld d))(task_id t1 \<mapsto> (cl_pid (client (chann d) ! a), l1, p'))"
      "last_task_id (sched d1) = ?n + 1"
    unfolding c_def by blast
  have few2: "last_task_id (sched d2) < ID_BOUND" using 1(5) assms(6,11) by simp
  have same: "sched_abs (sched d2, dworld d2) = sched_abs (sched d1, dworld d1)" using assms(11,12) by simp
  have x: "exchanged net d2 b (with_req ?f (c\<lparr>acc_rep := rep1\<rparr>), k1) rep2 k2" using assms(13) again by simp
  from created_reservation [OF assms(10,5) few2 x assms(14,15), of t', unfolded same] obtain t2 c2 l2 where
    2: "cli_task_create net p' (t', c\<lparr>acc_rep := rep1\<rparr>, k1) = Some (RTF_OK, t2, c2, k2)"
      "sched_abs (sched d1, dworld d1) (task_id t2) = None"
      "sched_abs (sched d3, dworld d3) = (sched_abs (sched d1, dworld d1))(task_id t2 \<mapsto> (cl_pid (client (chann d2) ! b), l2, p'))"
    by blast
  note E1 = exchangedD(3) [OF assms(7)] and E2 = exchangedD(3) [OF assms(13)]
  have id: "payload_id rep2 = Some (task_id t2)"
    using 2(1) E2 again [of rep1] assms(15) by (auto simp: cli_task_create_def Let_def bind_eq_Some)
  have "task_id t1 \<noteq> task_id t2" using 1(4) 2(2) by auto
  moreover have "sched_abs (sched d, dworld d) (task_id t2) = None" using 1(4) 2(2) calculation by simp
  moreover have "creation x u RTF_OK rep2 = Some (RTF_OK, u\<lparr>cli_p := x, task_id := task_id t2\<rparr>)" for x u
    using id assms(15) by (simp add: creation_def RTF_OK_def)
  moreover have "\<exists>s'. lib_run net s
      ([Calls i (create_stores p)] @ map (Writes i) (create_stores p) @ [Calls j (create_stores p')] @ map (Writes j) (create_stores p') @
       [Locks i, Sends i (acc_req c), Receives i rep1, Unlocks i, Locks j, Sends j (acc_req c), Receives j rep2, Unlocks j,
        Reads i rep2, Returns i RTF_OK, Reads j rep2, Returns j RTF_OK]) s' \<and> quiet s'"
  proof -
    have q: "mutex s = None" "pc s = (\<lambda>_. Idle)" using assms(2) by (simp_all add: quiet_def)
    have w: "with_req (\<lambda>q. q\<lparr>param := p'\<rparr>) (with_req (\<lambda>q. q\<lparr>req_type := Some RTF_TASK_CREATE\<rparr>)
        (with_req (\<lambda>q. q\<lparr>param := p\<rparr>) (with_req (\<lambda>q. q\<lparr>req_type := Some RTF_TASK_CREATE\<rparr>) (main_channel s)))) = c"
      by (simp add: c_def with_req_def)
    from E1 obtain n1 w1 m1 where x1: "rtf_access_send net (wire s) c = (n1, w1)" "n1 \<noteq> RTF_ERROR"
        "rtf_access_recv net w1 c = (m1, c\<lparr>acc_rep := rep1\<rparr>, k1)" "m1 \<noteq> RTF_ERROR"
      by (auto simp: rtf_task_communicate_def Let_def RTF_OK_def RTF_ERROR_def split: if_splits prod.splits)
    from E2 obtain n2 w2 m2 where x2: "rtf_access_send net k1 (c\<lparr>acc_rep := rep1\<rparr>) = (n2, w2)" "n2 \<noteq> RTF_ERROR"
        "rtf_access_recv net w2 (c\<lparr>acc_rep := rep1\<rparr>) = (m2, c\<lparr>acc_rep := rep2\<rparr>, k2)" "m2 \<noteq> RTF_ERROR"
      by (auto simp: rtf_task_communicate_def Let_def RTF_OK_def RTF_ERROR_def split: if_splits prod.splits)
    show ?thesis
      using q assms(3) x1 x2
      by (simp add: lib_run_simps lib_step_simps create_stores_def w quiet_def fun_upd_twist fun_eq_iff)
  qed
  ultimately show ?thesis using 1(3,4) 2(3) by (metis (no_types))
qed

subsection \<open>A process with two threads\<close>

text \<open>Sockets that answer every request with the number of requests so far.\<close>

definition counting :: "nat rtf_sockets" where
  "counting = \<lparr>sys_socket = (\<lambda>k _. (3, k)), sys_connect = (\<lambda>k _ _. (0, k)), sys_bind = (\<lambda>k _ _. (0, k)),
     sys_unlink = (\<lambda>k _. k), sys_chmod = (\<lambda>k _. (0, k)), sys_listen = (\<lambda>k _ _. (0, k)), sys_accept = (\<lambda>k _. (- 1, k)),
     sys_select = (\<lambda>k _ _. (0, {}, k)), sys_recv_req = (\<lambda>k _ b. (0, b, k)),
     sys_recv_rep = (\<lambda>k _ b. (1, \<lparr>rep_type = RTF_TASK_CREATE_OK, payload = Response (of_nat k)\<rparr>, k)),
     sys_send_req = (\<lambda>k _ _. (1, k + 1)), sys_send_rep = (\<lambda>k _ _. (1, k)), sys_setsockopt_timeout = (\<lambda>k _ _ _. (0, k)),
     sys_set_flags = (\<lambda>k _ _. (0, k)), sys_calloc_ucred = (\<lambda>_. True), sys_peercred = (\<lambda>_ _. None),
     sys_close = (\<lambda>k _. k)\<rparr>"

definition two_threads :: "nat process" where
  "two_threads = \<lparr>main_channel = \<lparr>acc_sock = zero_usocket, acc_req = \<lparr>req_type = None, param = zero_params\<rparr>,
      acc_rep = ex_reply\<rparr>, wire = 0, mutex = None, own_pid = 7, pc = (\<lambda>_. Idle)\<rparr>"

lemma counting_works [simp]:
  "rtf_access_send counting k c = (1, k + 1)"
  "rtf_access_recv counting k c = (1, c\<lparr>acc_rep := \<lparr>rep_type = RTF_TASK_CREATE_OK, payload = Response (of_nat k)\<rparr>\<rparr>, k)"
  by (simp_all add: counting_def rtf_access_send_def rtf_access_recv_def usocket_send_def usocket_recv_def)

lemma two_quiet: "quiet two_threads"
  by (simp add: quiet_def two_threads_def)

abbreviation "asks ty \<equiv> (\<lambda>q. q\<lparr>req_type := Some ty\<rparr>)"

abbreviation "answer_no n \<equiv> \<lparr>rep_type = RTF_TASK_CREATE_OK, payload = Response n\<rparr>"

abbreviation "asked ty \<equiv> \<lparr>req_type = Some ty, param = zero_params\<rparr>"

text \<open>Thread 0 asks for the number of tasks; meanwhile thread 1 begins to ask for that of the plugins.\<close>

abbreviation "two_calls \<equiv> Calls 0 [asks RTF_TASKS_INFO] # [Calls 1 [asks RTF_PLUGINS_INFO], Writes 0 (asks RTF_TASKS_INFO)] @ Locks 0 # [] @
  Sends 0 (asked RTF_TASKS_INFO) # [Writes 1 (asks RTF_PLUGINS_INFO)] @ Receives 0 (answer_no 1) # [] @ Unlocks 0 #
  [Reads 0 (answer_no 1)] @ [Returns 0 RTF_OK]"

lemma two_run: "\<exists>s'. lib_run counting two_threads two_calls s'"
  by (simp add: lib_run_simps lib_step_simps two_threads_def with_req_def RTF_ERROR_def)

lemma exchanges_do_not_overlap_witness:
  "\<exists>s'. lib_run counting two_threads two_calls s' \<and> (\<forall>i j. holds (pc s' i) \<longrightarrow> holds (pc s' j) \<longrightarrow> i = j)"
proof -
  obtain s' where run: "lib_run counting two_threads two_calls s'" using two_run by blast
  from exchanges_do_not_overlap [OF run two_quiet] run show ?thesis by blast
qed

lemma undisturbed_call_witness:
  "\<exists>c k c' k'. acc_req c = asked RTF_TASKS_INFO \<and> rtf_task_communicate counting (c, k) = (RTF_OK, c', k') \<and> acc_rep c' = answer_no 1"
proof -
  obtain s' where run: "lib_run counting two_threads two_calls s'" using two_run by blast
  have "fold (\<lambda>f. f) [asks RTF_TASKS_INFO] (acc_req (main_channel two_threads)) = asked RTF_TASKS_INFO"
    by (simp add: two_threads_def)
  with undisturbed_call [OF two_quiet lib_run.none run] obtain c k c' k' where "acc_req c = asked RTF_TASKS_INFO"
    "rtf_task_communicate counting (c, k) = (RTF_OK, c', k')" "answer_no 1 = acc_rep c'" by auto
  then show ?thesis by (intro exI [of _ c] exI [of _ k] exI [of _ c'] exI [of _ k']) simp
qed

text \<open>The small daemon, whose plugins have fixed priorities, grants every creation.\<close>

lemma ex_granted:
  assumes inv: "daemon_inv ex_os ex_libs d" and few: "last_task_id (sched d) < ID_BOUND" and i: "i < SET_MAX_SIZE"
    and ty: "req_type (last_req (chann d) ! i) = Some RTF_TASK_CREATE"
  shows "\<exists>rep d'. dispatch_req ex_os d (int i) (Some RTF_TASK_CREATE) = Some (rep, d') \<and> rep_type rep \<noteq> RTF_TASK_CREATE_ERR \<and>
    daemon_inv ex_os ex_libs d'"
proof -
  let ?tp = "param (last_req (chann d) ! i)" and ?pid = "cl_pid (client (chann d) ! i)"
  let ?dec = "decision (plugin (sched d)) (new_task (sched d) ?tp ?pid)"
  have good: "good_params ex_libs ?tp" using good_reqD [OF inv i] ty by (simp add: good_request_def)
  from create_abs [OF daemon_invD(1) [OF inv] ex_kernel few good, of ?pid] obtain r s w where
    C: "rtf_scheduler_task_create ex_os ?tp ?pid (sched d, dworld d) = Some (r, s, w)"
      "case ?dec of None \<Rightarrow> r = RTF_NO | Some (a, _) \<Rightarrow> r = a" by (auto split: option.splits)
  have libs: "map dl_ptr (plugin (sched d)) = ex_libs" using daemon_invD(1) [OF inv] by (simp add: sched_ok_def)
  have "length (plugin (sched d)) = 2" "dl_ptr (plugin (sched d) ! 0) = SCHED_FP_so"
    using arg_cong [OF libs, of length] arg_cong [OF libs, of "\<lambda>xs. xs ! 0"] by simp_all
  then have "?dec \<noteq> None" using good by (intro fp_decides) (auto simp: new_task_def good_params_def)
  then obtain a j where "?dec = Some (a, j)" by auto
  then have "r \<noteq> RTF_NO" using C(2) decision_Some by (fastforce simp: RTF_OK_def RTF_PARTIAL_def RTF_NO_def)
  moreover from dispatch_serves [OF inv i ex_kernel few] ty obtain rep d' where
    D: "dispatch_req ex_os d (int i) (Some RTF_TASK_CREATE) = Some (rep, d')" "daemon_inv ex_os ex_libs d'" by (auto simp: serves_def)
  ultimately show ?thesis using req_task_create_eq [OF inv i C(1)] by (auto simp: dispatch_req_def Let_def split: if_splits)
qed

definition scripted_process :: "rtf_reply list \<Rightarrow> rtf_reply list process" where
  "scripted_process reps = \<lparr>main_channel = ex_access (ex_request RTF_TASK_CREATE) ex_reply, wire = reps, mutex = None, own_pid = 7, pc = (\<lambda>_. Idle)\<rparr>"

lemma threads_mix_calls_witness:
  "\<exists>reps q rep1 rep2 s' n1 n2 l (d :: (unit, unit) rtf_daemon). lib_run scripted (scripted_process reps)
      ([Calls 0 (create_stores zero_params)] @ map (Writes 0) (create_stores zero_params) @ [Calls 1 (create_stores ex_params)] @
       map (Writes 1) (create_stores ex_params) @
       [Locks 0, Sends 0 q, Receives 0 rep1, Unlocks 0, Locks 1, Sends 1 q, Receives 1 rep2, Unlocks 1,
        Reads 0 rep2, Returns 0 RTF_OK, Reads 1 rep2, Returns 1 RTF_OK]) s' \<and>
    creation zero_params ex_client RTF_OK rep2 = Some (RTF_OK, ex_client\<lparr>cli_p := zero_params, task_id := n2\<rparr>) \<and>
    n1 \<noteq> n2 \<and> sched_abs (sched d, dworld d) n1 = Some l"
proof -
  let ?q = "ex_request RTF_TASK_CREATE"
  let ?d = "ex_served 1 ?q" and ?c = "ex_access ?q ex_reply"
  have five: "5 < SET_MAX_SIZE" by (simp add: SET_MAX_SIZE_def)
  have inv: "daemon_inv ex_os ex_libs ?d" by (rule ex_served_inv) (simp_all add: ex_good)
  have "last_task_id (sched ?d) < ID_BOUND" by (simp add: ID_BOUND_def)
  from ex_granted [OF inv this five] obtain rep1 d1 where
    D1: "dispatch_req ex_os ?d (int 5) (Some RTF_TASK_CREATE) = Some (rep1, d1)" "rep_type rep1 \<noteq> RTF_TASK_CREATE_ERR" "daemon_inv ex_os ex_libs d1"
    by auto
  let ?d2 = "d1\<lparr>chann := (chann d1)\<lparr>last_req := replicate SET_MAX_SIZE ?q\<rparr>\<rparr>"
  have inv2: "daemon_inv ex_os ex_libs ?d2" using D1(3) ex_good by (simp add: daemon_inv_def carrier_ok_def)
  have "last_task_id (sched d1) \<le> 2" using dispatch_serves [OF inv five ex_kernel] D1(1) by (auto simp: serves_def ID_BOUND_def)
  then have few2: "last_task_id (sched ?d2) < ID_BOUND" by (simp add: ID_BOUND_def)
  from ex_granted [OF inv2 few2 five] five obtain rep2 d3 where
    D2: "dispatch_req ex_os ?d2 (int 5) (Some RTF_TASK_CREATE) = Some (rep2, d3)" "rep_type rep2 \<noteq> RTF_TASK_CREATE_ERR" by auto
  let ?s = "scripted_process [rep1, rep2]"
  have c: "?c = with_req (\<lambda>q. q\<lparr>req_type := Some RTF_TASK_CREATE, param := ex_params\<rparr>) (main_channel ?s)"
    by (simp add: scripted_process_def with_req_def ex_access_def)
  have x1: "exchanged scripted ?d 5 (?c, wire ?s) rep1 [rep2]"
    using scripted_exchanged [OF five, of ?d ?c rep1 "[rep2]"] by (simp add: scripted_process_def ex_access_def)
  have x2: "exchanged scripted ?d2 5 (?c\<lparr>acc_rep := rep1\<rparr>, [rep2]) rep2 []"
    using five by (intro scripted_exchanged) (simp_all add: ex_access_def)
  have q: "quiet ?s" by (simp add: quiet_def scripted_process_def)
  have few: "last_task_id (sched ?d) + 1 < ID_BOUND" by (simp add: ID_BOUND_def)
  have same: "sched ?d2 = sched d1" "dworld ?d2 = dworld d1" by simp_all
  from threads_mix_calls [OF c q zero_neq_one inv ex_kernel few x1 D1(1,2) inv2 same x2 D2, of zero_params ex_client ex_client]
  obtain s' q n1 n2 l1 l2 where R: "lib_run scripted ?s
      ([Calls 0 (create_stores zero_params)] @ map (Writes 0) (create_stores zero_params) @ [Calls 1 (create_stores ex_params)] @
       map (Writes 1) (create_stores ex_params) @
       [Locks 0, Sends 0 q, Receives 0 rep1, Unlocks 0, Locks 1, Sends 1 q, Receives 1 rep2, Unlocks 1,
        Reads 0 rep2, Returns 0 RTF_OK, Reads 1 rep2, Returns 1 RTF_OK]) s'"
    "creation zero_params ex_client RTF_OK rep2 = Some (RTF_OK, ex_client\<lparr>cli_p := zero_params, task_id := n2\<rparr>)" "n1 \<noteq> n2"
    "sched_abs (sched d3, dworld d3) = (sched_abs (sched ?d, dworld ?d))
      (n1 \<mapsto> (cl_pid (client (chann ?d) ! 5), l1, ex_params), n2 \<mapsto> (cl_pid (client (chann ?d2) ! 5), l2, ex_params))"
    by (elim exE conjE) (rule that)
  have "sched_abs (sched d3, dworld d3) n1 = Some (cl_pid (client (chann ?d) ! 5), l1, ex_params)" using R(3,4) by simp
  with R(1-3) show ?thesis by blast
qed

end
