(* ===== verification/Hostile.thy ===== *)
theory Hostile
  imports Client_Daemon Priority_Correct
begin

text \<open>
  What a client can do to the daemon: the handlers trust the numbers of a request.  \<open>None\<close> is undefined behaviour
  of the daemon, a read or write outside of its arrays.
\<close>

lemma no_row:
  assumes "length (rr_n_per_prio w) = MAX_CPU" and "\<forall>c < MAX_CPU. length (rr_n_per_prio w ! c) = MAX_PRIO" and "MAX_PRIO \<le> k"
  shows "get_n_per_prio w c k = None"
  using assms by (simp add: get_n_per_prio_def aget_def)

text \<open>The round robin plugin counts its tasks in an array of 100 priorities.\<close>

lemma rr_schedule_undefined:
  assumes "length (rr_n_per_prio w) = MAX_CPU" "\<forall>c < MAX_CPU. length (rr_n_per_prio w ! c) = MAX_PRIO"
    and "heap w p = Some t" and "MAX_PRIO \<le> unat (priority (params t))"
  shows "rr_task_schedule os this p w = None"
proof -
  have "get_n_per_prio (w\<lparr>heap := h\<rparr>) c (unat (priority (params t))) = None" for h c
    by (rule no_row) (use assms in simp_all)
  then show ?thesis
    using assms(3) by (cases "rr_least_loaded_cpu this") (simp_all add: rr_task_schedule_def c_simps rtf_task_set_cpu_def)
qed

lemma create_undefined:
  assumes inv: "sched_inv os (s, w)" and p: "sys_calloc os (heap w) = Some p" "heap w p = None" and nul: "NUL \<in> set (sched_plugin tp)"
    and d: "decision (plugin s) (new_task s tp ppid) = Some (r, k)" and lib: "dl_ptr (plugin s ! k) = SCHED_RR_so"
    and big: "MAX_PRIO \<le> unat (priority tp)"
  shows "rtf_scheduler_task_create os tp ppid (s, w) = None"
proof -
  note I = sched_invD [OF inv]
  let ?t = "new_task s tp ppid"
  have t: "params ?t = tp" by (simp add: new_task_def)
  define w1 where "w1 = w\<lparr>heap := (heap w)(p \<mapsto> ?t)\<rparr>"
  have k: "k < length (plugin s)" using decision_Some [OF d] by simp
  have owner: "plg_inv os (plugin s ! i) w (owns s (heap w) i)" if "i < length (plugin s)" for i
    using I(3) that by (simp add: plugins_ok_def)
  have "\<forall>i < length (plugin s). \<exists>r. rtf_plg_task_accept (plugin s ! i) ?t = Some r"
    using plg.accept_total [OF owner, of _ ?t] nul t by metis
  moreover have "schedule_on os k p (s\<lparr>last_task_id := n, taskset := ts\<rparr>, w1) = None" for n ts
  proof -
    have R: "rr_inv os (plugin s ! k) w (owns s (heap w) k)" using owner [OF k] lib by (simp add: plg_inv_def)
    have rows: "length (rr_n_per_prio w) = MAX_CPU" "\<forall>c < MAX_CPU. length (rr_n_per_prio w ! c) = MAX_PRIO"
      using rr_invD(5) [OF R] by (simp_all add: rr_counts_def)
    then have "rr_task_schedule os (plugin s ! k) p w1 = None"
      by (intro rr_schedule_undefined [of w1 p ?t]) (use t big in \<open>simp_all add: w1_def\<close>)
    then show ?thesis using k lib by (simp add: schedule_on_def c_simps rtf_plg_task_schedule_def)
  qed
  ultimately show ?thesis
    unfolding create_eq [OF p(1)] w1_def using I(2) d by (subst test_and_assign_eq [where t = "new_task s tp ppid"]) simp_all
qed

text \<open>C29: Requests that the daemon does not check.  In any state that satisfies the invariant of the scheduler, with any requests
  in the carrier: the answer to a question about a connection is undefined exactly for a negative slot and for the slot one behind the
  last; about a plugin exactly for a negative number; about a CPU exactly for a negative number of the plugin, or for
  an existing plugin and a negative number of the CPU; and creating a task of priority 100 or more is undefined
  when the round robin plugin is the one that takes it.\<close>

theorem unchecked_requests:
  assumes inv: "sched_inv os (sched d, dworld d)" and C: "carrier_ok P (chann d)" and i: "i < SET_MAX_SIZE"
    and r: "last_req (chann d) ! i = r"
  shows "(dispatch_req os d (int i) (Some RTF_CONNECTION_INFO) = None \<longleftrightarrow> q_desc r < 0 \<or> q_desc r = int CHANNEL_MAX_SIZE) \<and>
    (dispatch_req os d (int i) (Some RTF_PLUGIN_INFO) = None \<longleftrightarrow> q_desc r < 0) \<and>
    (dispatch_req os d (int i) (Some RTF_PLUGIN_CPU_INFO) = None \<longleftrightarrow>
       q_desc r < 0 \<or> q_desc r < int (length (plugin (sched d))) \<and> q_id r < 0) \<and>
    (\<forall>p a k. sys_calloc os (heap (dworld d)) = Some p \<and> heap (dworld d) p = None \<and> NUL \<in> set (sched_plugin (param r)) \<and>
       decision (plugin (sched d)) (new_task (sched d) (param r) (cl_pid (client (chann d) ! i))) = Some (a, k) \<and>
       dl_ptr (plugin (sched d) ! k) = SCHED_RR_so \<and> 100 \<le> unat (priority (param r)) \<longrightarrow>
       dispatch_req os d (int i) (Some RTF_TASK_CREATE) = None)"
proof (intro conjI allI impI)
  note get = carrier_access [OF C i, unfolded r] and I = sched_invD [OF inv]
  have ok: "plugin_ok (plugin (sched d) ! k)" if "k < length (plugin (sched d))" for k
    using I(3) that plg.inv_base unfolding plugins_ok_def by (metis base_inv_def)
  show "dispatch_req os d (int i) (Some RTF_CONNECTION_INFO) = None \<longleftrightarrow> q_desc r < 0 \<or> q_desc r = int CHANNEL_MAX_SIZE"
    using get(1) carrier_okD(5) [OF C]
    by (auto simp: dispatch_req_def req_connection_info_def Let_def iget_def aget_def CHANNEL_MAX_SIZE_def split: if_splits)
  show "dispatch_req os d (int i) (Some RTF_PLUGIN_INFO) = None \<longleftrightarrow> q_desc r < 0"
    using get(1) I(2) by (auto simp: dispatch_req_def req_plugin_info_def Let_def iget_def aget_def split: if_splits)
  show "dispatch_req os d (int i) (Some RTF_PLUGIN_CPU_INFO) = None \<longleftrightarrow>
      q_desc r < 0 \<or> q_desc r < int (length (plugin (sched d))) \<and> q_id r < 0"
    using get(1) I(2) ok [of "nat (q_desc r)"]
    by (auto simp: dispatch_req_def req_plugin_cpu_info_def Let_def iget_def aget_def plugin_ok_def split: if_splits)
next
  fix p a k
  assume "sys_calloc os (heap (dworld d)) = Some p \<and> heap (dworld d) p = None \<and> NUL \<in> set (sched_plugin (param r)) \<and>
       decision (plugin (sched d)) (new_task (sched d) (param r) (cl_pid (client (chann d) ! i))) = Some (a, k) \<and>
       dl_ptr (plugin (sched d) ! k) = SCHED_RR_so \<and> 100 \<le> unat (priority (param r))"
  then have "rtf_scheduler_task_create os (param r) (cl_pid (client (chann d) ! i)) (sched d, dworld d) = None"
    by (intro create_undefined [OF inv, of p _ _ a k]) (simp_all add: MAX_PRIO_def)
  then show "dispatch_req os d (int i) (Some RTF_TASK_CREATE) = None"
    using carrier_access(1,2) [OF C i] r by (simp add: dispatch_req_def req_task_create_def)
qed

text \<open>A daemon with a round robin plugin on one CPU, and one request in every slot.\<close>

definition rr_sched :: rtf_scheduler where
  "rr_sched = \<lparr>num_of_cpu = 1, num_of_plugins = 1, last_task_id = 0, taskset = rtf_taskset_init,
     plugin = [util_plugin SCHED_RR_so [1]]\<rparr>"

definition rr_world :: "unit world" where
  "rr_world = (util_world zero_task)\<lparr>heap := Map.empty\<rparr>"

definition hostile_request :: rtf_request where
  "hostile_request = set_high 1024 \<lparr>req_type = Some RTF_TASK_CREATE, param = ex_params\<lparr>priority := 100\<rparr>\<rparr>"

definition rr_daemon :: "(unit, unit) rtf_daemon" where
  "rr_daemon = ex_daemon\<lparr>chann := (chann ex_daemon)\<lparr>last_req := replicate SET_MAX_SIZE hostile_request\<rparr>,
     sched := rr_sched, dworld := rr_world\<rparr>"

lemma rr_sched_inv: "sched_inv ex_os (rr_sched, rr_world)"
proof -
  let ?plg = "util_plugin SCHED_RR_so [1]"
  have o: "owns rr_sched (heap rr_world) i = {}" for i by (simp add: owns_def rr_world_def rr_sched_def rtf_taskset_init_def list_init_def)
  have "rr_counts (length (plg_tasks ?plg)) rr_world (heap rr_world) {}"
    by (simp add: rr_counts_def util_plugin_def rr_world_def util_world_def on_cpu_def with_prio_def MAX_CPU_def MAX_PRIO_def)
  then have "rr_inv ex_os ?plg rr_world {}"
    using util_plugin_base [of "[1]"] util_plugin_lists
    by (simp add: rr_inv_def MAX_CPU_def prios_declared_def rr_prios_ok_def)
      (simp add: util_plugin_def window_ok_def linux_prio_def ex_os_def)
  then have "plugins_ok ex_os rr_sched rr_world (owns rr_sched (heap rr_world))"
    by (simp add: plugins_ok_def o) (simp add: rr_sched_def plg_inv_def util_plugin_def libs_ok_def)
  then show ?thesis
    by (simp add: sched_inv_def) (simp add: rr_sched_def rtf_taskset_init_def list_init_def ts_ok_def list_ok_def)
qed

lemma rr_decision: "decision (plugin rr_sched) (new_task rr_sched (param hostile_request) p) = Some (RTF_OK, 0)"
proof -
  have "params (new_task rr_sched (param hostile_request) p) = param hostile_request" by (simp add: new_task_def)
  moreover have "cstr (sched_plugin (param hostile_request)) = Some []"
    using ex_params(2) by (simp add: hostile_request_def set_high_def)
  moreover have "ignore_admission (param hostile_request) = 1" by (simp add: hostile_request_def set_high_def ex_params_def)
  ultimately show ?thesis
    by (simp add: rr_sched_def decision_def first_answer_def rtf_plg_task_accept_def util_plugin_def rr_task_accept_def
      rr_has_another_preference_def prefers_another_def rtf_task_get_preferred_plugin_def rtf_task_get_ignore_admission_def)
qed

lemma unchecked_requests_witness:
  "dispatch_req ex_os rr_daemon 5 (Some RTF_CONNECTION_INFO) = None \<and> dispatch_req ex_os rr_daemon 5 (Some RTF_TASK_CREATE) = None"
proof -
  have [simp]: "sched rr_daemon = rr_sched" "dworld rr_daemon = rr_world" by (simp_all add: rr_daemon_def)
  have inv: "sched_inv ex_os (sched rr_daemon, dworld rr_daemon)" using rr_sched_inv by simp
  have C: "carrier_ok (\<lambda>_. True) (chann rr_daemon)"
    by (simp add: carrier_ok_def rr_daemon_def ex_daemon_def usocket_ok_def zero_usocket_def SET_MAX_SIZE_def)
  have five: "5 < SET_MAX_SIZE" by (simp add: SET_MAX_SIZE_def)
  have r: "last_req (chann rr_daemon) ! 5 = hostile_request" by (simp add: rr_daemon_def SET_MAX_SIZE_def)
  have q: "q_desc hostile_request = int CHANNEL_MAX_SIZE" by code_simp
  have a: "sys_calloc ex_os (heap rr_world) = Some 1" "heap rr_world 1 = None" by (simp_all add: ex_os_def rr_world_def)
  have b: "dl_ptr (plugin rr_sched ! 0) = SCHED_RR_so" "100 \<le> unat (priority (param hostile_request))"
      "NUL \<in> set (sched_plugin (param hostile_request))"
    using ex_params(1) by (simp_all add: rr_sched_def util_plugin_def hostile_request_def set_high_def)
  note U = unchecked_requests [OF inv C five r]
  show ?thesis using U [THEN conjunct1] U [THEN conjunct2, THEN conjunct2, THEN conjunct2] q a b rr_decision by simp
qed

end
