(* ===== verification/TestClient.thy ===== *)
theory TestClient
  imports Client_Daemon EntryPoint
begin

text \<open>
  The demonstration client, \<open>test/client.c\<close>: it connects, asks for a task with random parameters, attaches itself,
  waits for a key and releases the task.  \<open>rand\<close> of the C library, the messages of \<open>strerror\<close> and the standard
  input are parameters.
\<close>

subsection \<open>The program\<close>

definition T_BUDGET_MIN :: u32 where "T_BUDGET_MIN = 10"
definition T_BUDGET_MAX :: u32 where "T_BUDGET_MAX = 40"
definition T_PERIOD_MIN :: u32 where "T_PERIOD_MIN = 1024"
definition T_PERIOD_MAX :: u32 where "T_PERIOD_MAX = 2048"

text \<open>What the program printed and its exit status.\<close>

definition client_print_err :: "string \<Rightarrow> string \<Rightarrow> string \<Rightarrow> string \<times> int" where
  "client_print_err strerr out message = (out @ message @ strerr, - 1)"

text \<open>The result of \<open>rand\<close> is converted to the unsigned type of the bounds; a remainder by 0 is undefined.\<close>

definition rand_bounded :: "('r \<Rightarrow> int \<times> 'r) \<Rightarrow> u32 \<Rightarrow> u32 \<Rightarrow> 'r \<Rightarrow> (u32 \<times> 'r) option" where
  "rand_bounded rnd mn mx g =
     (let (x, g) = rnd g in if mx = 0 then None else Some (mn + u32_of_int x mod mx, g))"

definition client_connect ::
  "'n rtf_sockets \<Rightarrow> int \<Rightarrow> string \<Rightarrow> 'n lib_state \<Rightarrow> ((string \<times> int + string) \<times> 'n lib_state) option" where
  "client_connect net pid strerr st = do {
     (r, st) \<leftarrow> rtf_connect net pid st;
     Some (if r < 0 then Inl (client_print_err strerr [] (''# Error - Unable to connect with daemon.'' @ NL))
           else Inr (''# Connected with daemon.'' @ NL), st)
   }"

text \<open>The setters take 64 bits; reading a parameter back into the bounds of \<open>rand_bounded\<close> narrows it.\<close>

definition client_params :: "('r \<Rightarrow> int \<times> 'r) \<Rightarrow> 'r \<Rightarrow> (rtf_params \<times> 'r) option" where
  "client_params rnd g = do {
     let p = rtf_params_init;
     (v, g) \<leftarrow> rand_bounded rnd T_PERIOD_MIN T_PERIOD_MAX g;
     let p = rtf_params_set_period p (u64_of_u32 v);
     (v, g) \<leftarrow> rand_bounded rnd T_BUDGET_MIN T_BUDGET_MAX g;
     let p = rtf_params_set_runtime p (u64_of_u32 v);
     (v, g) \<leftarrow> rand_bounded rnd (u32_of_u64 (rtf_params_get_runtime p)) (u32_of_u64 (rtf_params_get_period p)) g;
     Some (rtf_params_set_deadline p (u64_of_u32 v), g)
   }"

text \<open>The loop \<open>while (!getc(stdin));\<close> reads up to the first character that is not zero, or the end of the input.\<close>

fun wait_key :: "string \<Rightarrow> string" where
  "wait_key [] = []"
| "wait_key (c # cs) = (if c = NUL then wait_key cs else cs)"

definition RTF_TASK_INIT :: cli_task where
  "RTF_TASK_INIT = \<lparr>task_id = 0, dmiss = 0, acc_runtime = 0, cli_p = rtf_params_init,
     act_time = \<lparr>tv_sec = 0, tv_nsec = 0\<rparr>, abs_dl = \<lparr>tv_sec = 0, tv_nsec = 0\<rparr>\<rparr>"

definition client_main ::
  "'n rtf_sockets \<Rightarrow> int \<Rightarrow> string \<Rightarrow> ('r \<Rightarrow> int \<times> 'r) \<Rightarrow> 'r \<Rightarrow> string \<Rightarrow> 'n lib_state \<Rightarrow>
   ((string \<times> int) \<times> string \<times> 'n lib_state) option" where
  "client_main net pid strerr rnd g inp st = do {
     (c, st) \<leftarrow> client_connect net pid strerr st;
     case c of
       Inl e \<Rightarrow> Some (e, inp, st)
     | Inr out \<Rightarrow> do {
         let t = cli_task_init RTF_TASK_INIT;
         (p, g) \<leftarrow> client_params rnd g;
         (ret, t, st) \<leftarrow> cli_task_create net p (t, st);
         if ret < 0
         then Some (client_print_err strerr out ''# Daemon was unable to serve the request.'', inp, st)
         else do {
           let (_, st) = cli_task_attach net t pid st;
           let inp = wait_key inp;
           let (_, st) = cli_task_release net t st;
           Some ((out, 0), inp, st)
         }
       }
   }"

subsection \<open>The parameters it asks for\<close>

lemma rand_bounded_spec:
  assumes "\<And>g. 0 \<le> fst (rnd g) \<and> fst (rnd g) < 2 ^ 31" and "mx \<noteq> 0" and "uint mn + uint mx \<le> 2 ^ 32"
  shows "\<exists>v g'. rand_bounded rnd mn mx g = Some (v, g') \<and> uint mn \<le> uint v \<and> uint v < uint mn + uint mx"
proof -
  obtain x g' where r: "rnd g = (x, g')" by fastforce
  let ?m = "u32_of_int x mod mx"
  have "0 < uint mx" using assms(2) by (simp add: word_neq_0_conv word_less_def)
  then have "uint ?m < uint mx" by (simp add: uint_mod)
  moreover from this have "uint (mn + ?m) = uint mn + uint ?m" using assms(3) by (subst uint_add_lem [symmetric]) simp_all
  moreover have "0 \<le> uint ?m" by simp
  ultimately show ?thesis using r assms(2) by (simp add: rand_bounded_def)
qed

text \<open>The period is between 1024 and 3071, the runtime between 10 and 49, the deadline at least the runtime: the task
  never needs more than a CPU, and the daemon is defined for the request unless it runs the round robin plugin.\<close>

lemma client_params_range:
  assumes "\<And>g. 0 \<le> fst (rnd g) \<and> fst (rnd g) < 2 ^ 31"
  shows "\<exists>p g'. client_params rnd g = Some (p, g') \<and> 1024 \<le> uint (period p) \<and> uint (period p) < 1024 + 2048 \<and>
    10 \<le> uint (runtime p) \<and> uint (runtime p) < 10 + 40 \<and> uint (runtime p) \<le> uint (deadline p) \<and>
    uint (deadline p) < uint (runtime p) + uint (period p) \<and> (SCHED_RR_so \<notin> set libs \<longrightarrow> good_params libs p)"
proof -
  obtain a g1 where a: "rand_bounded rnd T_PERIOD_MIN T_PERIOD_MAX g = Some (a, g1)" "1024 \<le> uint a" "uint a < 1024 + 2048"
    using rand_bounded_spec [of rnd, OF assms, where mx = T_PERIOD_MAX and mn = T_PERIOD_MIN and g = g] by (auto simp: T_PERIOD_MIN_def T_PERIOD_MAX_def)
  obtain b g2 where b: "rand_bounded rnd T_BUDGET_MIN T_BUDGET_MAX g1 = Some (b, g2)" "10 \<le> uint b" "uint b < 10 + 40"
    using rand_bounded_spec [of rnd, OF assms, where mx = T_BUDGET_MAX and mn = T_BUDGET_MIN and g = g1] by (auto simp: T_BUDGET_MIN_def T_BUDGET_MAX_def)
  have "a \<noteq> 0" using a(2) by auto
  then obtain c g3 where c: "rand_bounded rnd b a g2 = Some (c, g3)" "uint b \<le> uint c" "uint c < uint b + uint a"
    using rand_bounded_spec [of rnd, OF assms, where mx = a and mn = b and g = g2] a(3) b(3) by auto
  have u: "uint (u64_of_u32 v) = uint v" for v by simp
  have n: "u32_of_u64 (u64_of_u32 v) = v" for v
    by (rule word_uint_eqI) (use uint_bounded [of v] in \<open>simp add: uint_u32_of_u64\<close>)
  have "NUL \<in> set (sched_plugin rtf_params_init)" by (simp add: rtf_params_init_def zero_params_def PLUGIN_MAX_NAME_def)
  then show ?thesis
    using a b c by (simp add: client_params_def rtf_params_set_period_def rtf_params_set_runtime_def
      rtf_params_set_deadline_def rtf_params_get_runtime_def rtf_params_get_period_def n u good_params_def)
      (simp add: rtf_params_init_def zero_params_def)
qed

text \<open>The second bound of \<open>rand_bounded\<close> is the number of values, not the largest one: a budget can exceed its maximum, and
  the deadline the period.\<close>

lemma client_params_beyond:
  "\<exists>p g. client_params (\<lambda>g. (hd g, tl g)) [0, 39, 1023] = Some (p, g) \<and> uint (runtime p) = 49 \<and> uint T_BUDGET_MAX = 40 \<and>
     uint (period p) = 1024 \<and> uint (deadline p) = 1072"
proof -
  have "(do { (p, _) \<leftarrow> client_params (\<lambda>g. (hd g, tl g)) [0, 39, 1023];
      Some (uint (runtime p), uint T_BUDGET_MAX, uint (period p), uint (deadline p)) }) = Some (49, 40, 1024, 1072)"
    by code_simp
  then show ?thesis by (auto simp: bind_eq_Some_conv)
qed

subsection \<open>The run\<close>

text \<open>The loop over the input leaves what comes after the first key.\<close>

lemma wait_key_eq: "wait_key cs = drop 1 (dropWhile (\<lambda>c. c = NUL) cs)"
  by (induction cs) simp_all

text \<open>Once connected, the client ends with success exactly when the daemon takes the task; then it has
  released the task that it created, whatever became of the attachment.\<close>

lemma client_main_runs:
  assumes "rtf_connect net pid st = Some (r, st1)" and "\<not> r < 0" and "client_params rnd g = Some (p, g')"
    and "cli_task_create net p (cli_task_init RTF_TASK_INIT, st1) = Some (ret, t, st2)"
  shows "client_main net pid strerr rnd g inp st = Some (
    if ret < 0 then ((''# Connected with daemon.'' @ NL @ ''# Daemon was unable to serve the request.'' @ strerr, - 1), inp, st2)
    else ((''# Connected with daemon.'' @ NL, 0), wait_key inp,
      snd (cli_task_release net t (snd (cli_task_attach net t pid st2)))))"
  using assms by (simp add: client_main_def client_connect_def client_print_err_def split_def Let_def)

lemma client_main_unconnected:
  assumes "rtf_connect net pid st = Some (r, st1)" and "r < 0"
  shows "client_main net pid strerr rnd g inp st =
    Some ((''# Error - Unable to connect with daemon.'' @ NL @ strerr, - 1), inp, st1)"
  using assms by (simp add: client_main_def client_connect_def client_print_err_def)

end
