(* ===== verification/Spec2Isabelle.thy ===== *)
theory Spec2Isabelle
  imports Prelude LinkedList CFloat Task Taskset PluginBase Plugin_FP Plugin_RR Plugin_RM Plugin_EDF
    Plugins Scheduler TimeUtils Vector Config USocket Channel Daemon ClientLib Startup
    Scheduler_Correct Channel_Correct Daemon_Correct Scheduler_Refine Client_Daemon Plugin_Correct
    Recording Server Priority_Correct Startup_Correct EntryPoint Activation Monitor Daemon_Refine Protocol Config_Correct
    Loader_Correct Dump Isolation Threads Hostile TestClient
begin

text \<open>
  Verification of ReTiF, a daemon that reserves real-time scheduling for the tasks of its clients.

  A client links the library (\<open>lib/retif_lib.c\<close>), which sends one request at a time over a Unix socket
  (\<open>channel/\<close>) and waits for the reply.  The daemon (\<open>daemon/retif_daemon.c\<close>) receives in rounds: it
  polls the sockets, then visits every descriptor, frees the tasks of clients that left and serves the
  request of the others.  Requests about tasks go to the scheduler (\<open>daemon/retif_scheduler.c\<close>), which asks its
  plugins (\<open>plugins/sched_*.c\<close>, loaded by \<open>daemon/retif_plugin.c\<close>) in the order of the configuration
  (\<open>daemon/retif_config.c\<close>) whether they accept the task, and leaves it with the first that does.

  \<^bold>\<open>The model.\<close>  A computation that can run into undefined behaviour (a null or dangling pointer, an index
  out of an array, an overflow of a signed integer) is an option, \<open>None\<close> when it does.  Integers keep their width:
  \<open>u32\<close> and \<open>u64\<close> are words, signed numbers are \<open>int\<close> with the conversions written out, \<open>float\<close> and
  \<open>double\<close> are rationals with the rounding after every operation written out (CFloat), except for what \<open>strtod\<close> reads from the
  configuration, which may also be an infinity or a NaN (\<open>c_double\<close> in Config).  Tasks live in a store
  from addresses to records; lists of tasks hold addresses.  Everything that is not code of the
  repository is a parameter: the kernel (PluginBase), sockets (USocket), files (TimeUtils), memory
  (\<open>grant\<close>, \<open>sys_calloc\<close>), libyaml (Config), the dynamic loader (Startup).

  \<^item> Prelude: partial array access, loops over a list (\<open>for_each\<close>) and their invariant rules.
  \<^item> LinkedList (\<open>common/list.c\<close>): every operation; the locales \<open>comparator\<close> and \<open>key_matcher\<close> are the contracts
    of the comparison functions, interpreted in Taskset.
  \<^item> CFloat, Task, Taskset (\<open>daemon/retif_task.c\<close>, \<open>daemon/retif_taskset.c\<close>): tasks and ordered sets of them.
  \<^item> PluginBase: the plugin record, the world of a plugin (store, kernel, static counters) and what the
    plugins share; Plugin_FP, Plugin_RR, Plugin_RM, Plugin_EDF: each plugin with its invariant and the
    specification of its methods; Plugins: the dispatch through the function pointers, with the locale
    \<open>plugin_contract\<close> (accept is total, schedule and release keep the invariant and touch only what the plugin owns),
    interpreted on the dispatcher for the four libraries.
  \<^item> Scheduler, Scheduler_Correct (\<open>daemon/retif_scheduler.c\<close>): the operations, the invariant \<open>sched_inv\<close> (the task set is well
    formed, every task is owned by the plugin whose id it carries, every plugin satisfies its invariant for the tasks it owns, ids are
    unique and were given out before), and the behaviour of every operation.  Scheduler_Refine: the same operations as a
    refinement of a map from ids to reservations.  Recording: sockets that log what passes through them (polls, accepts, requests received, replies sent,
    closes), unnoticed by the daemon.  Server: a server with a slot per descriptor and that map, whose events are the entries of such a log;
    \<open>server_step\<close> says when each may happen and what it means.  Daemon_Refine: the log of every round is a run of the server, and
    for every reservation gained or lost over any number of rounds the log shows the request or the close that is the reason.
  \<^item> TimeUtils, Vector, Config, Startup (\<open>daemon/retif_utils.c\<close>, \<open>vector.c\<close>, \<open>retif_config.c\<close>, \<open>retif_plugin.c\<close>):
    time arithmetic, vectors, the parsers and checks of the configuration, the loading of plugins,
    \<open>rtf_daemon_init\<close> and \<open>rtf_daemon_destroy\<close>.  Startup_Correct: an initialisation that succeeds establishes the invariant of the
    loop, the checks mean what they are for, the tear down frees every task and restores the kernel files.  Config_Correct: a
    configuration in the usual notation is read back as it was written.  Loader_Correct: where the libraries are looked for.
  \<^item> USocket, Channel, Channel_Correct (\<open>channel/\<close>): sockets, messages, the carrier with the state machine of
    each client (\<open>client_step\<close>); receiving stays inside the arrays whatever arrives.
  \<^item> Daemon, Daemon_Correct (\<open>daemon/retif_daemon.c\<close>): every handler, one round of the loop, \<open>daemon_runs\<close> for any number of
    rounds.  \<open>daemon_inv\<close> joins the invariants of scheduler and channel; every round is defined and keeps it.
  \<^item> ClientLib, Client_Daemon (\<open>lib/retif_lib.c\<close>): the library, and what it returns when the daemon answers.  Protocol: requests and
    replies are well typed from end to end, the queries describe the server, and a session that creates and releases a task leaves
    the reservations as they were.
  \<^item> EntryPoint (\<open>daemon/retif_daemon_main.c\<close>, \<open>common/logger.h\<close>): options, start and interrupt; the life of the daemon from \<open>main\<close>
    through any number of rounds to its end, wherever between two visits the interrupt comes.  Activation: the periodic activation of a task in the library.  Monitor
    (\<open>monitor/\<close>): what the monitor asks and prints.  Dump: the report of the state that SIGTTOU asks for.
  \<^item> Threads (\<open>lib/retif_lib.c\<close>): the calls of several threads of one process, as interleaved accesses to the channel, the socket and
    the mutex, with every store into the request a step of its own, and \<open>rtf_connect\<close>, which takes no mutex; what the mutex protects, when
    a call behaves as in one thread, and how two creations get mixed up.
  \<^item> Isolation: from the configuration to the running daemon, every task keeps to the cores and the priority window of
    its plugin, so plugins that share a core are ranked as configured.
  \<^item> TestClient (\<open>test/client.c\<close>): the demonstration client, what it asks for and how it ends.
  \<^item> Hostile: the requests that the handlers do not check, and for which they are undefined.
  \<^item> Plugin_Correct, Priority_Correct: which tasks are admitted, where they are placed, which priorities they get.

  \<^bold>\<open>Bounds.\<close>  The carrier has 1024 slots (\<open>SET_MAX_SIZE\<close>), so a round creates at most 1024 tasks.  The rate monotonic
  plugin computes priorities in \<open>float\<close>, exact up to 2^24; the invariant of the loop therefore asks for ids below \<open>ID_BOUND\<close> =
  2^20 - 1, which also bounds the tasks of a CPU.  No definition needs fuel: the loops that consume a list or
  a string terminate by a measure, the endless loop of the daemon is a relation on rounds.

  \<^bold>\<open>What the proofs rely on.\<close>  Memory for a node, a task and the results of the plugins is granted; a request arrives
  whole; descriptors are below 1024; the priorities of Linux are 1 to 99; the two halves of the union of a
  request overlap as on a little-endian machine; at most one plugin each of the libraries with static counters (round robin,
  rate monotonic) is configured; the cores of a plugin are the first ones of the machine, since the code indexes arrays of
  as many entries as the plugin has cores by the number of a core.  \<open>good_request\<close> lists what the handlers do not check.

  \<^bold>\<open>Not modelled.\<close>  Messages other than those of the entry point and of the report of the state; a signal that
  interrupts the daemon within the visit of a descriptor; memory models weaker than an interleaving of the threads' accesses; the benchmark,
  which measures with a cycle counter and does not compile against the library's header; the ACL rules, a stub in the code.
\<close>

end
